(* ===== verification/Prelude.thy ===== *)
theory Prelude
  imports Main "HOL-Library.List_Lexorder" "HOL-Library.Char_ord"
begin

text \<open>
  What every component of the model shares.

  \<^item> \<open>error\<close>: the exceptions the code throws, as values. An operation that may throw returns
    \<open>'a res = error + 'a\<close>; \<open>bindE\<close> sequences two of them, so a throw ends the operation as it ends a
    transaction callback in the code.
  \<^item> Tables: a database table is the list of its rows. \<open>find\<close> is a \<open>SELECT ... WHERE id\<close>,
    \<open>update_where\<close> is an SQL \<open>UPDATE ... WHERE\<close> (every matching row), \<open>count_where\<close> is
    \<open>count(*) FILTER (WHERE ...)\<close>. The locale \<open>keyed_table\<close> states what a primary key gives.
  \<^item> JavaScript string primitives (\<open>toLowerCase\<close>, \<open>trim\<close>, \<open>startsWith\<close>, \<open>endsWith\<close>, \<open>indexOf\<close>,
    \<open>split\<close>). Characters are the code points below 256.
\<close>

section \<open>Errors as values\<close>

datatype error =
    InvalidTransition string string \<comment> \<open>from, to\<close>
  | RangeError string
  | NotFound string
  | BadRequest string
  | CodedBadRequest string string \<comment> \<open>400 with a stable code: code, message\<close>
  | Forbidden string
  | Conflict string
  | CodedConflict string string \<comment> \<open>409 with a stable code: code, message\<close>
  | DeadlinePassed string string \<comment> \<open>ConfirmationDeadlinePassedException: offer id, message\<close>
  | DbError string \<comment> \<open>a driver error (row not found by findOneByOrFail, constraint violation)\<close>

type_synonym 'a res = "error + 'a"

fun bindE :: "'e + 'a \<Rightarrow> ('a \<Rightarrow> 'e + 'b) \<Rightarrow> 'e + 'b" where
  "bindE (Inl e) f = Inl e"
| "bindE (Inr x) f = f x"

definition require :: "bool \<Rightarrow> 'e \<Rightarrow> 'e + unit" where
  "require c e = (if c then Inr () else Inl e)"

named_theorems res_simps \<open>sequencing of fallible steps\<close>

lemma bindE_Inr_iff [res_simps]: "bindE m f = Inr y \<longleftrightarrow> (\<exists>x. m = Inr x \<and> f x = Inr y)"
  by (cases m) auto

lemma bindE_Inl_iff [res_simps]: "bindE m f = Inl e \<longleftrightarrow> m = Inl e \<or> (\<exists>x. m = Inr x \<and> f x = Inl e)"
  by (cases m) auto

lemma require_Inr_iff [res_simps]: "require c e = Inr u \<longleftrightarrow> c"
  by (cases u) (simp add: require_def)

lemma require_Inl_iff [res_simps]: "require c e = Inl e' \<longleftrightarrow> \<not> c \<and> e' = e"
  by (auto simp: require_def)

lemma require_True [simp]: "require True e = Inr ()"
  by (simp add: require_def)

lemma require_False [simp]: "require False e = Inl e"
  by (simp add: require_def)

lemma bindE_assoc: "bindE (bindE m f) g = bindE m (\<lambda>x. bindE (f x) g)"
  by (cases m) auto

definition from_option :: "'e \<Rightarrow> 'a option \<Rightarrow> 'e + 'a" where
  "from_option e m = (case m of None \<Rightarrow> Inl e | Some x \<Rightarrow> Inr x)"

lemma from_option_Inr_iff [res_simps]: "from_option e m = Inr x \<longleftrightarrow> m = Some x"
  by (auto simp: from_option_def split: option.splits)

lemma from_option_Inl_iff [res_simps]: "from_option e m = Inl e' \<longleftrightarrow> m = None \<and> e' = e"
  by (auto simp: from_option_def split: option.splits)

lemma from_option_simps [simp]: "from_option e None = Inl e" "from_option e (Some x) = Inr x"
  by (simp_all add: from_option_def)

text \<open>
  A transaction (\<open>runInWorkspaceContext\<close>): the callback works on the state and either returns the new state
  with its result, which commits, or throws, which rolls everything back.
\<close>

definition run_tx :: "'s \<Rightarrow> ('s \<Rightarrow> 'e + ('s \<times> 'a)) \<Rightarrow> 's \<times> ('e + 'a)" where
  "run_tx s f = (case f s of Inl e \<Rightarrow> (s, Inl e) | Inr (s', x) \<Rightarrow> (s', Inr x))"

lemma run_tx_rollback: "snd (run_tx s f) = Inl e \<Longrightarrow> fst (run_tx s f) = s"
  by (auto simp: run_tx_def split: sum.splits)

section \<open>Tables as lists of rows\<close>

definition update_where :: "('r \<Rightarrow> bool) \<Rightarrow> ('r \<Rightarrow> 'r) \<Rightarrow> 'r list \<Rightarrow> 'r list" where
  "update_where P f t = map (\<lambda>r. if P r then f r else r) t"

definition count_where :: "('r \<Rightarrow> bool) \<Rightarrow> 'r list \<Rightarrow> nat" where
  "count_where P t = length (filter P t)"

lemma count_where_simps [simp]:
  "count_where P [] = 0"
  "count_where P (r # t) = (if P r then Suc (count_where P t) else count_where P t)"
  "count_where P (t @ u) = count_where P t + count_where P u"
  by (simp_all add: count_where_def)

lemma count_where_cong: "(\<And>r. r \<in> set t \<Longrightarrow> P r = Q r) \<Longrightarrow> count_where P t = count_where Q t"
  unfolding count_where_def by (metis filter_cong)

lemma count_where_0_iff: "count_where P t = 0 \<longleftrightarrow> (\<forall>r \<in> set t. \<not> P r)"
  by (simp add: count_where_def filter_empty_conv)

lemma length_update_where [simp]: "length (update_where P f t) = length t"
  by (simp add: update_where_def)

lemma update_where_simps [simp]:
  "update_where P f [] = []"
  "update_where P f (r # t) = (if P r then f r else r) # update_where P f t"
  by (simp_all add: update_where_def)

lemma set_update_where: "set (update_where P f t) = {(if P r then f r else r) |r. r \<in> set t}"
  by (auto simp: update_where_def)

lemma update_where_none: "(\<And>r. r \<in> set t \<Longrightarrow> \<not> P r) \<Longrightarrow> update_where P f t = t"
  by (induction t) auto

lemma filter_key: "distinct (map f l) \<Longrightarrow> t \<in> set l \<Longrightarrow> filter (\<lambda>x. f x = f t) l = [t]"
proof (induction l)
  case (Cons y l)
  show ?case
  proof (cases "y = t")
    case True
    then have "f t \<notin> f ` set l" using Cons.prems(1) by simp
    then have "\<forall>x \<in> set l. f x \<noteq> f t" by (auto simp: image_iff)
    then have "filter (\<lambda>x. f x = f t) l = []" by (simp add: filter_empty_conv)
    then show ?thesis using True by simp
  next
    case False
    then have "t \<in> set l" "f y \<noteq> f t" using Cons.prems by auto
    then show ?thesis using Cons by simp
  qed
qed simp

lemma find_update_keep:
  "(\<And>r. P (f r) = P r) \<Longrightarrow> find P (update_where Q f t) = map_option (\<lambda>r. if Q r then f r else r) (find P t)"
  by (induction t) auto

lemma find_Some_mem: "find P t = Some r \<Longrightarrow> r \<in> set t \<and> P r"
  by (induction t) (auto split: if_splits)

text \<open>
  What a primary key gives: \<open>row_id\<close> identifies a row, and the updates the code makes never change it.
  Every table of the model interprets this locale.
\<close>

locale keyed_table =
  fixes row_id :: "'r \<Rightarrow> 'k"
begin

definition keyed :: "'r list \<Rightarrow> bool" where
  "keyed t \<longleftrightarrow> distinct (map row_id t)"

lemma find_keyed: "keyed t \<Longrightarrow> r \<in> set t \<Longrightarrow> find (\<lambda>x. row_id x = row_id r) t = Some r"
  by (induction t) (auto simp: keyed_def image_iff)

lemma find_iff: "keyed t \<Longrightarrow> find (\<lambda>x. row_id x = k) t = Some r \<longleftrightarrow> r \<in> set t \<and> row_id r = k"
  using find_keyed [of t r] find_Some_mem [of "\<lambda>x. row_id x = k" t r] by auto

lemma keyed_unique: "keyed t \<Longrightarrow> r \<in> set t \<Longrightarrow> r' \<in> set t \<Longrightarrow> row_id r = row_id r' \<Longrightarrow> r = r'"
  by (metis find_keyed option.inject)

lemma map_row_id_update:
  "(\<And>r. row_id (f r) = row_id r) \<Longrightarrow> map row_id (update_where P f t) = map row_id t"
  by (induction t) auto

lemma keyed_update: "(\<And>r. row_id (f r) = row_id r) \<Longrightarrow> keyed t \<Longrightarrow> keyed (update_where P f t)"
  by (simp add: keyed_def map_row_id_update)

lemma find_update:
  assumes "\<And>r. row_id (f r) = row_id r"
  shows "find (\<lambda>x. row_id x = k) (update_where P f t)
    = map_option (\<lambda>r. if P r then f r else r) (find (\<lambda>x. row_id x = k) t)"
  using assms by (induction t) auto

lemma find_update_other:
  assumes "\<And>r. row_id (f r) = row_id r" and "k' \<noteq> k"
  shows "find (\<lambda>x. row_id x = k') (update_where (\<lambda>r. row_id r = k) f t) = find (\<lambda>x. row_id x = k') t"
  using assms by (induction t) auto

lemma count_update_one:
  assumes "keyed t" and "r \<in> set t" and "\<And>x. row_id (f x) = row_id x"
  shows "count_where Q (update_where (\<lambda>x. row_id x = row_id r) f t) + (if Q r then 1 else 0)
    = count_where Q t + (if Q (f r) then 1 else 0)"
  using assms(1,2)
proof (induction t)
  case Nil
  then show ?case by simp
next
  case (Cons a t)
  show ?case
  proof (cases "row_id a = row_id r")
    case True
    with Cons.prems have "a = r"
      by (auto simp: keyed_def)
    moreover have "update_where (\<lambda>x. row_id x = row_id r) f t = t"
      using Cons.prems \<open>a = r\<close> by (intro update_where_none) (auto simp: keyed_def image_iff)
    ultimately show ?thesis by simp
  next
    case False
    with Cons have "count_where Q (update_where (\<lambda>x. row_id x = row_id r) f t) + (if Q r then 1 else 0)
      = count_where Q t + (if Q (f r) then 1 else 0)"
      by (auto simp: keyed_def)
    with False show ?thesis by auto
  qed
qed

end

section \<open>JavaScript string primitives\<close>

definition js_lower_char :: "char \<Rightarrow> char" where
  "js_lower_char c = (let n = (of_char c :: nat) in
     if (65 \<le> n \<and> n \<le> 90) \<or> (192 \<le> n \<and> n \<le> 222 \<and> n \<noteq> 215) then char_of (n + 32) else c)"

definition js_lower :: "string \<Rightarrow> string" where
  "js_lower s = map js_lower_char s"

definition js_space :: "char \<Rightarrow> bool" where
  "js_space c = (of_char c \<in> {9, 10, 11, 12, 13, 32, 160 :: nat})"

definition js_trim :: "string \<Rightarrow> string" where
  "js_trim s = rev (dropWhile js_space (rev (dropWhile js_space s)))"

definition is_lower :: "char \<Rightarrow> bool" where
  "is_lower c = (97 \<le> (of_char c :: nat) \<and> of_char c \<le> (122 :: nat))"

definition is_upper :: "char \<Rightarrow> bool" where
  "is_upper c = (65 \<le> (of_char c :: nat) \<and> of_char c \<le> (90 :: nat))"

definition is_digit :: "char \<Rightarrow> bool" where
  "is_digit c = (48 \<le> (of_char c :: nat) \<and> of_char c \<le> (57 :: nat))"

definition digit_val :: "char \<Rightarrow> nat" where
  "digit_val c = of_char c - 48"

definition digit_char :: "nat \<Rightarrow> char" where
  "digit_char n = char_of (n + 48)"

lemma of_char_digit_char: "n < 10 \<Longrightarrow> of_char (digit_char n) = (n + 48 :: nat)"
  by (simp add: digit_char_def)

lemma is_digit_digit_char: "n < 10 \<Longrightarrow> is_digit (digit_char n)"
  by (simp add: is_digit_def of_char_digit_char)

lemma digit_val_digit_char: "n < 10 \<Longrightarrow> digit_val (digit_char n) = n"
  by (simp add: digit_val_def of_char_digit_char)

definition starts_with :: "string \<Rightarrow> string \<Rightarrow> bool" where
  "starts_with p s = (take (length p) s = p)"

definition ends_with :: "string \<Rightarrow> string \<Rightarrow> bool" where
  "ends_with p s = (length p \<le> length s \<and> drop (length s - length p) s = p)"

lemma ends_with_iff: "ends_with p s \<longleftrightarrow> (\<exists>q. s = q @ p)"
proof
  assume "ends_with p s"
  then have "s = take (length s - length p) s @ p"
    unfolding ends_with_def by (metis append_take_drop_id)
  then show "\<exists>q. s = q @ p" ..
qed (auto simp: ends_with_def)

lemma js_lower_append [simp]: "js_lower (s @ t) = js_lower s @ js_lower t"
  by (simp add: js_lower_def)

lemma length_js_lower [simp]: "length (js_lower s) = length s"
  by (simp add: js_lower_def)

end
