(* ===== verification/Transitions.thy ===== *)
theory Transitions
  imports Prelude
begin

text \<open>
  The state machines of \<open>rab-shared/src/state\<close> and the status values of \<open>rab-shared/src/types\<close>.

  A status enumeration is a datatype with the source's constructors and a function to its wire string;
  a \<open>TransitionTable\<close> is a function from a state to the list of its targets; \<open>assertTransition\<close> is the
  one check every service calls. The locale \<open>lifecycle\<close> is the contract of such a table with named terminal
  states, \<open>ranked_lifecycle\<close> the contract of one whose every edge goes forward; the tables of the code
  interpret them, and the bounds on their runs are proved once in the locales.
\<close>

section \<open>The check\<close>

definition assertTransition :: "('s \<Rightarrow> string) \<Rightarrow> ('s \<Rightarrow> 's list option) \<Rightarrow> 's \<Rightarrow> 's \<Rightarrow> unit res" where
  "assertTransition name table from to =
     (case table from of
        None \<Rightarrow> Inl (InvalidTransition (name from) (name to))
      | Some allowed \<Rightarrow>
          if to \<in> set allowed then Inr () else Inl (InvalidTransition (name from) (name to)))"

lemma assertTransition_Inr_iff [res_simps]:
  "assertTransition name table from to = Inr u \<longleftrightarrow> (\<exists>l. table from = Some l \<and> to \<in> set l)"
  by (cases u) (auto simp: assertTransition_def split: option.splits)

lemma assertTransition_Inl_iff:
  "assertTransition name table from to = Inl e \<longleftrightarrow>
     \<not> (\<exists>l. table from = Some l \<and> to \<in> set l) \<and> e = InvalidTransition (name from) (name to)"
  by (auto simp: assertTransition_def split: option.splits)

text \<open>A run: named actions one after the other, each one checked, stopping at the first refusal.\<close>

fun run_transitions :: "('s \<Rightarrow> string) \<Rightarrow> ('s \<Rightarrow> 's list option) \<Rightarrow> 's \<Rightarrow> 's list \<Rightarrow> 's res" where
  "run_transitions name table s [] = Inr s"
| "run_transitions name table s (t # ts) =
     bindE (assertTransition name table s t) (\<lambda>_. run_transitions name table t ts)"

declare run_transitions.simps(2) [simp del]

section \<open>Status values (rab-shared/src/types)\<close>

datatype offer_status = PENDING | OFFER_STAFF_ACCEPTED | MANAGER_CONFIRMED | MANAGER_REJECTED
  | OFFER_DECLINED | EXPIRED | OFFER_WITHDRAWN

fun offer_status_str :: "offer_status \<Rightarrow> string" where
  "offer_status_str PENDING = ''pending''"
| "offer_status_str OFFER_STAFF_ACCEPTED = ''staff_accepted''"
| "offer_status_str MANAGER_CONFIRMED = ''manager_confirmed''"
| "offer_status_str MANAGER_REJECTED = ''manager_rejected''"
| "offer_status_str OFFER_DECLINED = ''declined''"
| "offer_status_str EXPIRED = ''expired''"
| "offer_status_str OFFER_WITHDRAWN = ''withdrawn''"

datatype shift_status = DRAFT | PENDING_MANAGER_APPROVAL | DECLINED | OPEN | OFFERED | PARTIALLY_FILLED
  | FULLY_FILLED | CONFIRMED | IN_PROGRESS | COMPLETED | CANCELLED

fun shift_status_str :: "shift_status \<Rightarrow> string" where
  "shift_status_str DRAFT = ''draft''"
| "shift_status_str PENDING_MANAGER_APPROVAL = ''pending_manager_approval''"
| "shift_status_str DECLINED = ''declined''"
| "shift_status_str OPEN = ''open''"
| "shift_status_str OFFERED = ''offered''"
| "shift_status_str PARTIALLY_FILLED = ''partially_filled''"
| "shift_status_str FULLY_FILLED = ''fully_filled''"
| "shift_status_str CONFIRMED = ''confirmed''"
| "shift_status_str IN_PROGRESS = ''in_progress''"
| "shift_status_str COMPLETED = ''completed''"
| "shift_status_str CANCELLED = ''cancelled''"

datatype assignment_status = A_OFFERED | A_STAFF_ACCEPTED | A_CONFIRMED | A_DECLINED | A_REJECTED
  | A_WITHDRAWN | A_CANCELLED | A_NO_SHOW | A_COMPLETED

fun assignment_status_str :: "assignment_status \<Rightarrow> string" where
  "assignment_status_str A_OFFERED = ''offered''"
| "assignment_status_str A_STAFF_ACCEPTED = ''staff_accepted''"
| "assignment_status_str A_CONFIRMED = ''confirmed''"
| "assignment_status_str A_DECLINED = ''declined''"
| "assignment_status_str A_REJECTED = ''rejected''"
| "assignment_status_str A_WITHDRAWN = ''withdrawn''"
| "assignment_status_str A_CANCELLED = ''cancelled''"
| "assignment_status_str A_NO_SHOW = ''no_show''"
| "assignment_status_str A_COMPLETED = ''completed''"

datatype attendance_status = AT_SCHEDULED | CLOCKED_IN | ON_BREAK | CLOCKED_OUT | LATE | MISSING_CLOCK_OUT
  | ABSENT | UNDER_REVIEW | AT_APPROVED | DISPUTED

fun attendance_status_str :: "attendance_status \<Rightarrow> string" where
  "attendance_status_str AT_SCHEDULED = ''scheduled''"
| "attendance_status_str CLOCKED_IN = ''clocked_in''"
| "attendance_status_str ON_BREAK = ''on_break''"
| "attendance_status_str CLOCKED_OUT = ''clocked_out''"
| "attendance_status_str LATE = ''late''"
| "attendance_status_str MISSING_CLOCK_OUT = ''missing_clock_out''"
| "attendance_status_str ABSENT = ''absent''"
| "attendance_status_str UNDER_REVIEW = ''under_review''"
| "attendance_status_str AT_APPROVED = ''approved''"
| "attendance_status_str DISPUTED = ''disputed''"

datatype payroll_record_status = PR_DRAFT | PR_PENDING_APPROVAL | PR_APPROVED | PR_PROCESSING | PR_PAID
  | PR_REJECTED | PR_CORRECTED

fun payroll_record_status_str :: "payroll_record_status \<Rightarrow> string" where
  "payroll_record_status_str PR_DRAFT = ''draft''"
| "payroll_record_status_str PR_PENDING_APPROVAL = ''pending_approval''"
| "payroll_record_status_str PR_APPROVED = ''approved''"
| "payroll_record_status_str PR_PROCESSING = ''processing''"
| "payroll_record_status_str PR_PAID = ''paid''"
| "payroll_record_status_str PR_REJECTED = ''rejected''"
| "payroll_record_status_str PR_CORRECTED = ''corrected''"

datatype payroll_period_status = PP_OPEN | PP_LOCKED | PP_CLOSED

fun payroll_period_status_str :: "payroll_period_status \<Rightarrow> string" where
  "payroll_period_status_str PP_OPEN = ''open''"
| "payroll_period_status_str PP_LOCKED = ''locked''"
| "payroll_period_status_str PP_CLOSED = ''closed''"

datatype user_status = U_INVITED | U_ACTIVE | U_SUSPENDED | U_DEACTIVATED | U_INVITE_EXPIRED

fun user_status_str :: "user_status \<Rightarrow> string" where
  "user_status_str U_INVITED = ''invited''"
| "user_status_str U_ACTIVE = ''active''"
| "user_status_str U_SUSPENDED = ''suspended''"
| "user_status_str U_DEACTIVATED = ''deactivated''"
| "user_status_str U_INVITE_EXPIRED = ''invite_expired''"

datatype employment_status = E_PENDING_COMPLIANCE | E_ACTIVE | E_INACTIVE | E_SUSPENDED

fun employment_status_str :: "employment_status \<Rightarrow> string" where
  "employment_status_str E_PENDING_COMPLIANCE = ''pending_compliance''"
| "employment_status_str E_ACTIVE = ''active''"
| "employment_status_str E_INACTIVE = ''inactive''"
| "employment_status_str E_SUSPENDED = ''suspended''"

datatype venue_status = V_ACTIVE | V_ARCHIVED

fun venue_status_str :: "venue_status \<Rightarrow> string" where
  "venue_status_str V_ACTIVE = ''active''"
| "venue_status_str V_ARCHIVED = ''archived''"

datatype archive_state = AR_ACTIVE | AR_ARCHIVED

fun archive_state_str :: "archive_state \<Rightarrow> string" where
  "archive_state_str AR_ACTIVE = ''active''"
| "archive_state_str AR_ARCHIVED = ''archived''"

text \<open>The argument is a \<open>Date\<close> (its instant), a string, or null; null and the empty string are falsy.\<close>

definition archiveStateOf :: "(int + string) option \<Rightarrow> archive_state" where
  "archiveStateOf archivedAt =
     (if archivedAt \<noteq> None \<and> archivedAt \<noteq> Some (Inr []) then AR_ARCHIVED else AR_ACTIVE)"

datatype ai_turn_status = QUEUED | RUNNING | WAITING_FOR_INPUT | TURN_COMPLETED | TURN_FAILED | TURN_CANCELLED

fun ai_turn_status_str :: "ai_turn_status \<Rightarrow> string" where
  "ai_turn_status_str QUEUED = ''queued''"
| "ai_turn_status_str RUNNING = ''running''"
| "ai_turn_status_str WAITING_FOR_INPUT = ''waiting_for_input''"
| "ai_turn_status_str TURN_COMPLETED = ''completed''"
| "ai_turn_status_str TURN_FAILED = ''failed''"
| "ai_turn_status_str TURN_CANCELLED = ''cancelled''"

datatype ai_proposal_status = PROP_PENDING | PROP_APPROVED | PROP_REJECTED | PROP_EXECUTED | PROP_FAILED
  | PROP_EXPIRED

fun ai_proposal_status_str :: "ai_proposal_status \<Rightarrow> string" where
  "ai_proposal_status_str PROP_PENDING = ''PENDING''"
| "ai_proposal_status_str PROP_APPROVED = ''APPROVED''"
| "ai_proposal_status_str PROP_REJECTED = ''REJECTED''"
| "ai_proposal_status_str PROP_EXECUTED = ''EXECUTED''"
| "ai_proposal_status_str PROP_FAILED = ''FAILED''"
| "ai_proposal_status_str PROP_EXPIRED = ''EXPIRED''"

datatype ai_input_request_state = AWAITING_INPUT | ANSWERED | SUPERSEDED | INPUT_EXPIRED

fun ai_input_request_state_str :: "ai_input_request_state \<Rightarrow> string" where
  "ai_input_request_state_str AWAITING_INPUT = ''awaiting_input''"
| "ai_input_request_state_str ANSWERED = ''answered''"
| "ai_input_request_state_str SUPERSEDED = ''superseded''"
| "ai_input_request_state_str INPUT_EXPIRED = ''expired''"

section \<open>The transition tables (rab-shared/src/state)\<close>

fun SHIFT_TRANSITIONS :: "shift_status \<Rightarrow> shift_status list option" where
  "SHIFT_TRANSITIONS DRAFT = Some [OPEN, CANCELLED]"
| "SHIFT_TRANSITIONS PENDING_MANAGER_APPROVAL = Some [OPEN, DECLINED]"
| "SHIFT_TRANSITIONS DECLINED = Some []"
| "SHIFT_TRANSITIONS OPEN = Some [OFFERED, CANCELLED]"
| "SHIFT_TRANSITIONS OFFERED = Some [PARTIALLY_FILLED, FULLY_FILLED, CANCELLED]"
| "SHIFT_TRANSITIONS PARTIALLY_FILLED = Some [OFFERED, FULLY_FILLED, IN_PROGRESS, CANCELLED]"
| "SHIFT_TRANSITIONS FULLY_FILLED = Some [OFFERED, PARTIALLY_FILLED, CONFIRMED, IN_PROGRESS, CANCELLED]"
| "SHIFT_TRANSITIONS CONFIRMED = Some [OFFERED, PARTIALLY_FILLED, IN_PROGRESS, CANCELLED]"
| "SHIFT_TRANSITIONS IN_PROGRESS = Some [COMPLETED, CANCELLED]"
| "SHIFT_TRANSITIONS COMPLETED = Some []"
| "SHIFT_TRANSITIONS CANCELLED = Some []"

fun SHIFT_ASSIGNMENT_TRANSITIONS :: "assignment_status \<Rightarrow> assignment_status list option" where
  "SHIFT_ASSIGNMENT_TRANSITIONS A_OFFERED = Some [A_STAFF_ACCEPTED, A_DECLINED, A_WITHDRAWN, A_CANCELLED]"
| "SHIFT_ASSIGNMENT_TRANSITIONS A_STAFF_ACCEPTED = Some [A_CONFIRMED, A_REJECTED, A_CANCELLED]"
| "SHIFT_ASSIGNMENT_TRANSITIONS A_CONFIRMED = Some [A_CANCELLED, A_NO_SHOW, A_COMPLETED]"
| "SHIFT_ASSIGNMENT_TRANSITIONS A_DECLINED = Some []"
| "SHIFT_ASSIGNMENT_TRANSITIONS A_REJECTED = Some []"
| "SHIFT_ASSIGNMENT_TRANSITIONS A_WITHDRAWN = Some []"
| "SHIFT_ASSIGNMENT_TRANSITIONS A_CANCELLED = Some []"
| "SHIFT_ASSIGNMENT_TRANSITIONS A_NO_SHOW = Some [A_COMPLETED]"
| "SHIFT_ASSIGNMENT_TRANSITIONS A_COMPLETED = Some []"

fun OFFER_TRANSITIONS :: "offer_status \<Rightarrow> offer_status list option" where
  "OFFER_TRANSITIONS PENDING = Some [OFFER_STAFF_ACCEPTED, OFFER_DECLINED, EXPIRED, OFFER_WITHDRAWN]"
| "OFFER_TRANSITIONS OFFER_STAFF_ACCEPTED = Some [MANAGER_CONFIRMED, MANAGER_REJECTED]"
| "OFFER_TRANSITIONS MANAGER_CONFIRMED = Some []"
| "OFFER_TRANSITIONS MANAGER_REJECTED = Some []"
| "OFFER_TRANSITIONS OFFER_DECLINED = Some []"
| "OFFER_TRANSITIONS EXPIRED = Some []"
| "OFFER_TRANSITIONS OFFER_WITHDRAWN = Some []"

fun EMPLOYMENT_STATUS_TRANSITIONS :: "employment_status \<Rightarrow> employment_status list option" where
  "EMPLOYMENT_STATUS_TRANSITIONS E_PENDING_COMPLIANCE = Some [E_INACTIVE]"
| "EMPLOYMENT_STATUS_TRANSITIONS E_ACTIVE = Some [E_INACTIVE, E_SUSPENDED]"
| "EMPLOYMENT_STATUS_TRANSITIONS E_INACTIVE = Some [E_ACTIVE]"
| "EMPLOYMENT_STATUS_TRANSITIONS E_SUSPENDED = Some [E_ACTIVE, E_INACTIVE]"

fun USER_STATUS_TRANSITIONS :: "user_status \<Rightarrow> user_status list option" where
  "USER_STATUS_TRANSITIONS U_INVITED = Some [U_ACTIVE, U_DEACTIVATED, U_INVITE_EXPIRED]"
| "USER_STATUS_TRANSITIONS U_ACTIVE = Some [U_SUSPENDED, U_DEACTIVATED]"
| "USER_STATUS_TRANSITIONS U_SUSPENDED = Some [U_ACTIVE, U_DEACTIVATED]"
| "USER_STATUS_TRANSITIONS U_DEACTIVATED = Some []"
| "USER_STATUS_TRANSITIONS U_INVITE_EXPIRED = Some []"

fun VENUE_TRANSITIONS :: "venue_status \<Rightarrow> venue_status list option" where
  "VENUE_TRANSITIONS V_ACTIVE = Some [V_ARCHIVED]"
| "VENUE_TRANSITIONS V_ARCHIVED = Some [V_ACTIVE]"

fun ATTENDANCE_TRANSITIONS :: "attendance_status \<Rightarrow> attendance_status list option" where
  "ATTENDANCE_TRANSITIONS AT_SCHEDULED = Some [CLOCKED_IN, ABSENT]"
| "ATTENDANCE_TRANSITIONS CLOCKED_IN = Some [ON_BREAK, CLOCKED_OUT, MISSING_CLOCK_OUT]"
| "ATTENDANCE_TRANSITIONS ON_BREAK = Some [CLOCKED_IN, CLOCKED_OUT]"
| "ATTENDANCE_TRANSITIONS CLOCKED_OUT = Some [UNDER_REVIEW, AT_APPROVED]"
| "ATTENDANCE_TRANSITIONS MISSING_CLOCK_OUT = Some [CLOCKED_OUT, DISPUTED]"
| "ATTENDANCE_TRANSITIONS LATE = Some [CLOCKED_OUT, UNDER_REVIEW]"
| "ATTENDANCE_TRANSITIONS UNDER_REVIEW = Some [AT_APPROVED, DISPUTED]"
| "ATTENDANCE_TRANSITIONS DISPUTED = Some [AT_APPROVED, CLOCKED_OUT]"
| "ATTENDANCE_TRANSITIONS AT_APPROVED = Some []"
| "ATTENDANCE_TRANSITIONS ABSENT = Some [DISPUTED]"

fun PAYROLL_RECORD_TRANSITIONS :: "payroll_record_status \<Rightarrow> payroll_record_status list option" where
  "PAYROLL_RECORD_TRANSITIONS PR_DRAFT = Some [PR_PENDING_APPROVAL]"
| "PAYROLL_RECORD_TRANSITIONS PR_PENDING_APPROVAL = Some [PR_APPROVED, PR_REJECTED]"
| "PAYROLL_RECORD_TRANSITIONS PR_APPROVED = Some [PR_PROCESSING]"
| "PAYROLL_RECORD_TRANSITIONS PR_PROCESSING = Some [PR_PAID, PR_CORRECTED]"
| "PAYROLL_RECORD_TRANSITIONS PR_PAID = Some [PR_CORRECTED]"
| "PAYROLL_RECORD_TRANSITIONS PR_REJECTED = Some [PR_DRAFT]"
| "PAYROLL_RECORD_TRANSITIONS PR_CORRECTED = Some []"

fun PAYROLL_PERIOD_TRANSITIONS :: "payroll_period_status \<Rightarrow> payroll_period_status list option" where
  "PAYROLL_PERIOD_TRANSITIONS PP_OPEN = Some [PP_LOCKED]"
| "PAYROLL_PERIOD_TRANSITIONS PP_LOCKED = Some [PP_CLOSED, PP_OPEN]"
| "PAYROLL_PERIOD_TRANSITIONS PP_CLOSED = Some []"

fun ARCHIVE_TRANSITIONS :: "archive_state \<Rightarrow> archive_state list option" where
  "ARCHIVE_TRANSITIONS AR_ACTIVE = Some [AR_ARCHIVED]"
| "ARCHIVE_TRANSITIONS AR_ARCHIVED = Some [AR_ACTIVE]"

fun AI_TURN_TRANSITIONS :: "ai_turn_status \<Rightarrow> ai_turn_status list option" where
  "AI_TURN_TRANSITIONS QUEUED = Some [RUNNING, TURN_CANCELLED, TURN_FAILED]"
| "AI_TURN_TRANSITIONS RUNNING = Some [TURN_COMPLETED, TURN_FAILED, TURN_CANCELLED, WAITING_FOR_INPUT]"
| "AI_TURN_TRANSITIONS WAITING_FOR_INPUT = Some [TURN_COMPLETED, TURN_CANCELLED, TURN_FAILED]"
| "AI_TURN_TRANSITIONS TURN_COMPLETED = Some []"
| "AI_TURN_TRANSITIONS TURN_FAILED = Some []"
| "AI_TURN_TRANSITIONS TURN_CANCELLED = Some []"

definition AI_TERMINAL_TURN_STATUSES :: "ai_turn_status list" where
  "AI_TERMINAL_TURN_STATUSES = [TURN_COMPLETED, TURN_FAILED, TURN_CANCELLED]"

fun AI_PROPOSAL_TRANSITIONS :: "ai_proposal_status \<Rightarrow> ai_proposal_status list option" where
  "AI_PROPOSAL_TRANSITIONS PROP_PENDING = Some [PROP_APPROVED, PROP_REJECTED, PROP_EXPIRED, PROP_FAILED]"
| "AI_PROPOSAL_TRANSITIONS PROP_APPROVED = Some [PROP_EXECUTED, PROP_FAILED]"
| "AI_PROPOSAL_TRANSITIONS PROP_REJECTED = Some []"
| "AI_PROPOSAL_TRANSITIONS PROP_EXECUTED = Some []"
| "AI_PROPOSAL_TRANSITIONS PROP_FAILED = Some []"
| "AI_PROPOSAL_TRANSITIONS PROP_EXPIRED = Some []"

definition AI_TERMINAL_PROPOSAL_STATUSES :: "ai_proposal_status list" where
  "AI_TERMINAL_PROPOSAL_STATUSES = [PROP_REJECTED, PROP_EXECUTED, PROP_FAILED, PROP_EXPIRED]"

fun AI_INPUT_REQUEST_TRANSITIONS :: "ai_input_request_state \<Rightarrow> ai_input_request_state list option" where
  "AI_INPUT_REQUEST_TRANSITIONS AWAITING_INPUT = Some [ANSWERED, SUPERSEDED, INPUT_EXPIRED]"
| "AI_INPUT_REQUEST_TRANSITIONS ANSWERED = Some []"
| "AI_INPUT_REQUEST_TRANSITIONS SUPERSEDED = Some []"
| "AI_INPUT_REQUEST_TRANSITIONS INPUT_EXPIRED = Some []"

section \<open>The contract of a transition table\<close>

locale lifecycle =
  fixes name :: "'s \<Rightarrow> string"
    and table :: "'s \<Rightarrow> 's list option"
    and terminal :: "'s \<Rightarrow> bool"
  assumes name_inj: "name s = name t \<Longrightarrow> s = t"
    and table_total: "table s \<noteq> None"
    and terminal_iff: "terminal s \<longleftrightarrow> table s = Some []"
    and no_self_loop: "table s = Some l \<Longrightarrow> s \<notin> set l"
begin

definition edge :: "'s \<Rightarrow> 's \<Rightarrow> bool" where
  "edge s t \<longleftrightarrow> (\<exists>l. table s = Some l \<and> t \<in> set l)"

lemma assert_iff_edge: "assertTransition name table s t = Inr u \<longleftrightarrow> edge s t"
  by (simp add: assertTransition_Inr_iff edge_def)

lemma run_Cons_iff: "run_transitions name table s (t # ts) = Inr u \<longleftrightarrow> edge s t \<and> run_transitions name table t ts = Inr u"
  by (simp add: run_transitions.simps(2) res_simps edge_def)

lemma terminal_no_edge: "terminal s \<Longrightarrow> \<not> edge s t"
  by (auto simp: terminal_iff edge_def)

lemma edge_neq: "edge s t \<Longrightarrow> s \<noteq> t"
  using no_self_loop by (auto simp: edge_def)

lemma run_from_terminal: "terminal s \<Longrightarrow> run_transitions name table s ts = Inr u \<longleftrightarrow> ts = [] \<and> u = s"
  by (cases ts) (auto simp: run_Cons_iff terminal_no_edge)

lemma run_append:
  "run_transitions name table s (ts @ us) = bindE (run_transitions name table s ts) (\<lambda>t. run_transitions name table t us)"
  by (induction ts arbitrary: s) (auto simp: bindE_assoc run_transitions.simps(2))

lemma run_last: "run_transitions name table s ts = Inr u \<Longrightarrow> last (s # ts) = u"
  by (induction ts arbitrary: s) (auto simp: run_Cons_iff)

text \<open>The refusal names exactly the two states it refused: the wire names identify them.\<close>

lemma refusal_identifies:
  assumes "assertTransition name table s t = Inl e" and "assertTransition name table s' t' = Inl e"
  shows "s = s' \<and> t = t'"
  using assms by (auto simp: assertTransition_Inl_iff intro: name_inj)

text \<open>An invariant of every edge holds along every run.\<close>

lemma run_invariant:
  assumes "\<And>s t. edge s t \<Longrightarrow> P s \<Longrightarrow> P t"
  shows "run_transitions name table s ts = Inr u \<Longrightarrow> P s \<Longrightarrow> P u"
  by (induction ts arbitrary: s) (auto simp: run_Cons_iff intro: assms)

end

locale ranked_lifecycle = lifecycle +
  fixes rank :: "'a \<Rightarrow> nat" and top :: nat
  assumes edge_rank: "table s = Some l \<Longrightarrow> t \<in> set l \<Longrightarrow> rank s < rank t"
    and rank_top: "rank s \<le> top"
begin

lemma run_rank: "run_transitions name table s ts = Inr u \<Longrightarrow> rank s + length ts \<le> rank u"
proof (induction ts arbitrary: s)
  case Nil
  then show ?case by simp
next
  case (Cons t ts)
  then have "edge s t" "rank t + length ts \<le> rank u" by (auto simp: run_Cons_iff)
  moreover from \<open>edge s t\<close> have "rank s < rank t" by (auto simp: edge_def edge_rank)
  ultimately show ?case by simp
qed

lemma run_bounded: "run_transitions name table s ts = Inr u \<Longrightarrow> length ts \<le> top - rank s"
  using run_rank [of s ts u] rank_top [of u] by linarith

lemma run_rank_mem: "run_transitions name table s ts = Inr u \<Longrightarrow> t \<in> set ts \<Longrightarrow> rank s < rank t"
proof (induction ts arbitrary: s)
  case Nil
  then show ?case by simp
next
  case (Cons v ts)
  then have e: "edge s v" and r: "run_transitions name table v ts = Inr u" by (auto simp: run_Cons_iff)
  have "rank s < rank v" using e by (auto simp: edge_def edge_rank)
  with Cons.IH [OF r] Cons.prems(2) show ?case by auto
qed

text \<open>No state is ever visited twice.\<close>

lemma run_distinct: "run_transitions name table s ts = Inr u \<Longrightarrow> distinct (s # ts)"
proof (induction ts arbitrary: s)
  case Nil
  then show ?case by simp
next
  case (Cons t ts)
  from Cons.prems have e: "edge s t" and r: "run_transitions name table t ts = Inr u"
    by (auto simp: run_Cons_iff)
  have "rank s < rank t" using e by (auto simp: edge_def edge_rank)
  with run_rank_mem [OF r] have "s \<notin> set ts" by fastforce
  with Cons.IH [OF r] edge_neq [OF e] show ?case by auto
qed

end

section \<open>The tables of the code meet the contract\<close>

fun offer_terminal :: "offer_status \<Rightarrow> bool" where
  "offer_terminal PENDING = False"
| "offer_terminal OFFER_STAFF_ACCEPTED = False"
| "offer_terminal _ = True"

fun offer_rank :: "offer_status \<Rightarrow> nat" where
  "offer_rank PENDING = 0"
| "offer_rank OFFER_STAFF_ACCEPTED = 1"
| "offer_rank _ = 2"

lemma offer_status_str_inj: "offer_status_str s = offer_status_str t \<Longrightarrow> s = t"
  by (cases s; cases t) simp_all

interpretation offers: ranked_lifecycle offer_status_str OFFER_TRANSITIONS offer_terminal offer_rank 2
proof
  show "offer_status_str s = offer_status_str t \<Longrightarrow> s = t" for s t by (rule offer_status_str_inj)
  show "OFFER_TRANSITIONS s \<noteq> None" for s by (cases s) simp_all
  show "offer_terminal s \<longleftrightarrow> OFFER_TRANSITIONS s = Some []" for s by (cases s) simp_all
  show "OFFER_TRANSITIONS s = Some l \<Longrightarrow> s \<notin> set l" for s l by (cases s) auto
  show "OFFER_TRANSITIONS s = Some l \<Longrightarrow> t \<in> set l \<Longrightarrow> offer_rank s < offer_rank t" for s l t
    by (cases s) auto
  show "offer_rank s \<le> 2" for s by (cases s) simp_all
qed

fun assignment_terminal :: "assignment_status \<Rightarrow> bool" where
  "assignment_terminal A_OFFERED = False"
| "assignment_terminal A_STAFF_ACCEPTED = False"
| "assignment_terminal A_CONFIRMED = False"
| "assignment_terminal A_NO_SHOW = False"
| "assignment_terminal _ = True"

fun assignment_rank :: "assignment_status \<Rightarrow> nat" where
  "assignment_rank A_OFFERED = 0"
| "assignment_rank A_STAFF_ACCEPTED = 1"
| "assignment_rank A_CONFIRMED = 2"
| "assignment_rank A_NO_SHOW = 3"
| "assignment_rank _ = 4"

lemma assignment_status_str_inj: "assignment_status_str s = assignment_status_str t \<Longrightarrow> s = t"
  by (cases s; cases t) simp_all

interpretation seats: ranked_lifecycle assignment_status_str SHIFT_ASSIGNMENT_TRANSITIONS assignment_terminal
  assignment_rank 4
proof
  show "assignment_status_str s = assignment_status_str t \<Longrightarrow> s = t" for s t by (rule assignment_status_str_inj)
  show "SHIFT_ASSIGNMENT_TRANSITIONS s \<noteq> None" for s by (cases s) simp_all
  show "assignment_terminal s \<longleftrightarrow> SHIFT_ASSIGNMENT_TRANSITIONS s = Some []" for s by (cases s) simp_all
  show "SHIFT_ASSIGNMENT_TRANSITIONS s = Some l \<Longrightarrow> s \<notin> set l" for s l by (cases s) auto
  show "SHIFT_ASSIGNMENT_TRANSITIONS s = Some l \<Longrightarrow> t \<in> set l \<Longrightarrow> assignment_rank s < assignment_rank t" for s l t
    by (cases s) auto
  show "assignment_rank s \<le> 4" for s by (cases s) simp_all
qed

fun shift_terminal :: "shift_status \<Rightarrow> bool" where
  "shift_terminal DECLINED = True"
| "shift_terminal COMPLETED = True"
| "shift_terminal CANCELLED = True"
| "shift_terminal _ = False"

lemma shift_status_str_inj: "shift_status_str s = shift_status_str t \<Longrightarrow> s = t"
  by (cases s; cases t) simp_all

interpretation shifts: lifecycle shift_status_str SHIFT_TRANSITIONS shift_terminal
proof
  show "shift_status_str s = shift_status_str t \<Longrightarrow> s = t" for s t by (rule shift_status_str_inj)
  show "SHIFT_TRANSITIONS s \<noteq> None" for s by (cases s) simp_all
  show "shift_terminal s \<longleftrightarrow> SHIFT_TRANSITIONS s = Some []" for s by (cases s) simp_all
  show "SHIFT_TRANSITIONS s = Some l \<Longrightarrow> s \<notin> set l" for s l by (cases s) auto
qed

definition attendance_terminal :: "attendance_status \<Rightarrow> bool" where
  "attendance_terminal s = (s = AT_APPROVED)"

interpretation attendances: lifecycle attendance_status_str ATTENDANCE_TRANSITIONS attendance_terminal
proof
  show "attendance_status_str s = attendance_status_str t \<Longrightarrow> s = t" for s t by (cases s; cases t) simp_all
  show "ATTENDANCE_TRANSITIONS s \<noteq> None" for s by (cases s) simp_all
  show "attendance_terminal s \<longleftrightarrow> ATTENDANCE_TRANSITIONS s = Some []" for s
    by (cases s) (simp_all add: attendance_terminal_def)
  show "ATTENDANCE_TRANSITIONS s = Some l \<Longrightarrow> s \<notin> set l" for s l by (cases s) auto
qed

definition payroll_record_terminal :: "payroll_record_status \<Rightarrow> bool" where
  "payroll_record_terminal s = (s = PR_CORRECTED)"

interpretation payroll_records: lifecycle payroll_record_status_str PAYROLL_RECORD_TRANSITIONS payroll_record_terminal
proof
  show "payroll_record_status_str s = payroll_record_status_str t \<Longrightarrow> s = t" for s t by (cases s; cases t) simp_all
  show "PAYROLL_RECORD_TRANSITIONS s \<noteq> None" for s by (cases s) simp_all
  show "payroll_record_terminal s \<longleftrightarrow> PAYROLL_RECORD_TRANSITIONS s = Some []" for s
    by (cases s) (simp_all add: payroll_record_terminal_def)
  show "PAYROLL_RECORD_TRANSITIONS s = Some l \<Longrightarrow> s \<notin> set l" for s l by (cases s) auto
qed

definition user_terminal :: "user_status \<Rightarrow> bool" where
  "user_terminal s = (s \<in> {U_DEACTIVATED, U_INVITE_EXPIRED})"

interpretation users: lifecycle user_status_str USER_STATUS_TRANSITIONS user_terminal
proof
  show "user_status_str s = user_status_str t \<Longrightarrow> s = t" for s t by (cases s; cases t) simp_all
  show "USER_STATUS_TRANSITIONS s \<noteq> None" for s by (cases s) simp_all
  show "user_terminal s \<longleftrightarrow> USER_STATUS_TRANSITIONS s = Some []" for s by (cases s) (simp_all add: user_terminal_def)
  show "USER_STATUS_TRANSITIONS s = Some l \<Longrightarrow> s \<notin> set l" for s l by (cases s) auto
qed

definition turn_terminal :: "ai_turn_status \<Rightarrow> bool" where
  "turn_terminal s = (s \<in> set AI_TERMINAL_TURN_STATUSES)"

fun turn_rank :: "ai_turn_status \<Rightarrow> nat" where
  "turn_rank QUEUED = 0"
| "turn_rank RUNNING = 1"
| "turn_rank WAITING_FOR_INPUT = 2"
| "turn_rank _ = 3"

interpretation ai_turns: ranked_lifecycle ai_turn_status_str AI_TURN_TRANSITIONS turn_terminal turn_rank 3
proof
  show "ai_turn_status_str s = ai_turn_status_str t \<Longrightarrow> s = t" for s t by (cases s; cases t) simp_all
  show "AI_TURN_TRANSITIONS s \<noteq> None" for s by (cases s) simp_all
  show "turn_terminal s \<longleftrightarrow> AI_TURN_TRANSITIONS s = Some []" for s
    by (cases s) (simp_all add: turn_terminal_def AI_TERMINAL_TURN_STATUSES_def)
  show "AI_TURN_TRANSITIONS s = Some l \<Longrightarrow> s \<notin> set l" for s l by (cases s) auto
  show "AI_TURN_TRANSITIONS s = Some l \<Longrightarrow> t \<in> set l \<Longrightarrow> turn_rank s < turn_rank t" for s l t by (cases s) auto
  show "turn_rank s \<le> 3" for s by (cases s) simp_all
qed

definition proposal_terminal :: "ai_proposal_status \<Rightarrow> bool" where
  "proposal_terminal s = (s \<in> set AI_TERMINAL_PROPOSAL_STATUSES)"

fun proposal_rank :: "ai_proposal_status \<Rightarrow> nat" where
  "proposal_rank PROP_PENDING = 0"
| "proposal_rank PROP_APPROVED = 1"
| "proposal_rank _ = 2"

interpretation ai_proposals: ranked_lifecycle ai_proposal_status_str AI_PROPOSAL_TRANSITIONS proposal_terminal
  proposal_rank 2
proof
  show "ai_proposal_status_str s = ai_proposal_status_str t \<Longrightarrow> s = t" for s t by (cases s; cases t) simp_all
  show "AI_PROPOSAL_TRANSITIONS s \<noteq> None" for s by (cases s) simp_all
  show "proposal_terminal s \<longleftrightarrow> AI_PROPOSAL_TRANSITIONS s = Some []" for s
    by (cases s) (simp_all add: proposal_terminal_def AI_TERMINAL_PROPOSAL_STATUSES_def)
  show "AI_PROPOSAL_TRANSITIONS s = Some l \<Longrightarrow> s \<notin> set l" for s l by (cases s) auto
  show "AI_PROPOSAL_TRANSITIONS s = Some l \<Longrightarrow> t \<in> set l \<Longrightarrow> proposal_rank s < proposal_rank t" for s l t
    by (cases s) auto
  show "proposal_rank s \<le> 2" for s by (cases s) simp_all
qed

section \<open>Properties\<close>

text \<open>
  The two-step confirmation of the offer state machine: whatever sequence of actions takes a pending offer
  to \<open>manager_confirmed\<close>, it is exactly the staff member's acceptance followed by the manager's confirmation.
\<close>

theorem offer_confirmed_only_in_two_steps:
  assumes "run_transitions offer_status_str OFFER_TRANSITIONS PENDING ts = Inr MANAGER_CONFIRMED"
  shows "ts = [OFFER_STAFF_ACCEPTED, MANAGER_CONFIRMED]"
proof -
  have "length ts \<le> 2" using offers.run_bounded [OF assms] by simp
  then consider "ts = []" | a where "ts = [a]" | a b where "ts = [a, b]"
    by (cases ts; cases "tl ts"; cases "tl (tl ts)") auto
  then show ?thesis
    using assms by cases (auto simp: offers.run_Cons_iff offers.edge_def)
qed

theorem offer_confirmed_only_in_two_steps_witness:
  "run_transitions offer_status_str OFFER_TRANSITIONS PENDING [OFFER_STAFF_ACCEPTED, MANAGER_CONFIRMED]
     = Inr MANAGER_CONFIRMED
   \<and> [OFFER_STAFF_ACCEPTED, MANAGER_CONFIRMED] = [OFFER_STAFF_ACCEPTED, MANAGER_CONFIRMED]"
proof -
  have h: "run_transitions offer_status_str OFFER_TRANSITIONS PENDING [OFFER_STAFF_ACCEPTED, MANAGER_CONFIRMED]
     = Inr MANAGER_CONFIRMED"
    by (simp add: run_transitions.simps(2) assertTransition_def)
  show ?thesis using h offer_confirmed_only_in_two_steps [OF h] by simp
qed

text \<open>
  A seat is worked only through a confirmed booking: every sequence of actions from an offered seat to
  \<open>completed\<close> is acceptance, confirmation and completion, with at most a provisional no-show in between.
\<close>

theorem seat_completed_only_through_confirmation:
  assumes "run_transitions assignment_status_str SHIFT_ASSIGNMENT_TRANSITIONS A_OFFERED ts = Inr A_COMPLETED"
  shows "ts = [A_STAFF_ACCEPTED, A_CONFIRMED, A_COMPLETED]
    \<or> ts = [A_STAFF_ACCEPTED, A_CONFIRMED, A_NO_SHOW, A_COMPLETED]"
proof -
  have "length ts \<le> 4" using seats.run_bounded [OF assms] by simp
  then consider "ts = []" | a where "ts = [a]" | a b where "ts = [a, b]" | a b c where "ts = [a, b, c]"
    | a b c d where "ts = [a, b, c, d]"
    by (cases ts; cases "tl ts"; cases "tl (tl ts)"; cases "tl (tl (tl ts))"; cases "tl (tl (tl (tl ts)))") auto
  then show ?thesis
    using assms by cases (auto simp: seats.run_Cons_iff seats.edge_def)
qed

theorem seat_completed_only_through_confirmation_witness:
  "[A_STAFF_ACCEPTED, A_CONFIRMED, A_NO_SHOW, A_COMPLETED] = [A_STAFF_ACCEPTED, A_CONFIRMED, A_COMPLETED]
    \<or> [A_STAFF_ACCEPTED, A_CONFIRMED, A_NO_SHOW, A_COMPLETED] = [A_STAFF_ACCEPTED, A_CONFIRMED, A_NO_SHOW, A_COMPLETED]"
  by (rule seat_completed_only_through_confirmation) (simp add: run_transitions.simps(2) assertTransition_def)

lemma payroll_run_passes_processing:
  assumes "run_transitions payroll_record_status_str PAYROLL_RECORD_TRANSITIONS s ts = Inr PR_PAID"
    and "s \<notin> {PR_PROCESSING, PR_PAID, PR_CORRECTED}"
  shows "PR_PROCESSING \<in> set ts"
  using assms
proof (induction ts arbitrary: s)
  case Nil
  then show ?case by simp
next
  case (Cons t ts)
  then have "payroll_records.edge s t"
    and "t \<notin> {PR_PROCESSING, PR_PAID, PR_CORRECTED} \<Longrightarrow> PR_PROCESSING \<in> set ts"
    by (auto simp: payroll_records.run_Cons_iff)
  with Cons.prems(2) show ?case by (cases s) (auto simp: payroll_records.edge_def)
qed

lemma payroll_run_passes_approval:
  assumes "run_transitions payroll_record_status_str PAYROLL_RECORD_TRANSITIONS s ts = Inr PR_PAID"
    and "s \<in> {PR_DRAFT, PR_PENDING_APPROVAL, PR_REJECTED}"
  shows "\<exists>us vs. ts = us @ PR_APPROVED # vs \<and> PR_PROCESSING \<in> set vs"
  using assms
proof (induction ts arbitrary: s)
  case Nil
  then show ?case by auto
next
  case (Cons t ts)
  then have e: "payroll_records.edge s t"
    and r: "run_transitions payroll_record_status_str PAYROLL_RECORD_TRANSITIONS t ts = Inr PR_PAID"
    by (auto simp: payroll_records.run_Cons_iff)
  show ?case
  proof (cases "t = PR_APPROVED")
    case True
    then have "PR_PROCESSING \<in> set ts" using payroll_run_passes_processing [OF r] by simp
    with True show ?thesis by (intro exI [of _ "[]"] exI [of _ ts]) simp
  next
    case False
    then have "t \<in> {PR_DRAFT, PR_PENDING_APPROVAL, PR_REJECTED}"
      using e Cons.prems(2) by (cases s) (auto simp: payroll_records.edge_def)
    from Cons.IH [OF r this] show ?thesis by (metis append_Cons)
  qed
qed

text \<open>
  No payroll record is paid without an approval: every sequence of actions that takes a record from \<open>draft\<close>,
  \<open>pending_approval\<close> or \<open>rejected\<close> to \<open>paid\<close> contains the transition to \<open>approved\<close> and, after it, the one to
  \<open>processing\<close>.
\<close>

lemma payroll_paid_only_after_approval:
  assumes "run_transitions payroll_record_status_str PAYROLL_RECORD_TRANSITIONS s ts = Inr PR_PAID"
    and "s \<in> {PR_DRAFT, PR_PENDING_APPROVAL, PR_REJECTED}"
  shows "\<exists>us vs. ts = us @ PR_APPROVED # vs \<and> PR_PROCESSING \<in> set vs"
  using payroll_run_passes_approval [OF assms] .

lemma payroll_paid_only_after_approval_witness:
  "\<exists>us vs. [PR_DRAFT, PR_PENDING_APPROVAL, PR_APPROVED, PR_PROCESSING, PR_PAID] = us @ PR_APPROVED # vs
    \<and> PR_PROCESSING \<in> set vs"
  by (rule payroll_paid_only_after_approval [where s = PR_REJECTED])
    (simp_all add: run_transitions.simps(2) assertTransition_def)

end
