(* ===== verification/JsNumber.thy ===== *)
theory JsNumber
  imports Complex_Main Prelude "HOL-Library.Log_Nat"
begin

text \<open>
  JavaScript numbers. A finite number is its exact value, a rational; every arithmetic operation rounds its exact
  result to the nearest double (\<open>fl\<close>: 53 significant bits, ties to even). The exponent is unbounded: overflow to
  infinity (\<open>2^1024\<close>) and subnormals do not occur in the code modelled here, which works on pence, minutes and
  millisecond instants. \<open>js_round\<close> is \<open>Math.round\<close> (nearest integer, ties towards plus infinity).

  The theorem used by the components is \<open>round_div_exact\<close>: below \<open>2^52\<close>, dividing an integer by a small even
  integer in floating point and rounding gives the rounding of the exact quotient.
\<close>

section \<open>Rounding to a double\<close>

definition round_even :: "rat \<Rightarrow> int" where
  "round_even y = (let f = \<lfloor>y\<rfloor>; r = y - of_int f in
     if r < 1/2 then f else if r > 1/2 then f + 1 else if even f then f else f + 1)"

lemma round_even_error: "\<bar>of_int (round_even y) - y\<bar> \<le> 1/2"
proof -
  have "of_int \<lfloor>y\<rfloor> \<le> y" "y < of_int \<lfloor>y\<rfloor> + 1" by linarith+
  then show ?thesis unfolding round_even_def Let_def by (simp add: abs_if) linarith
qed

lemma round_even_of_int [simp]: "round_even (of_int k) = k"
  by (simp add: round_even_def)

text \<open>\<open>lg x\<close> is the exponent of a positive \<open>x\<close>: \<open>2 powi lg x \<le> x < 2 powi (lg x + 1)\<close>.\<close>

definition lg :: "rat \<Rightarrow> int" where
  "lg x = (let (n, d) = quotient_of x; e = bitlen n - bitlen d in if 2 powi e \<le> x then e else e - 1)"

definition fl :: "rat \<Rightarrow> rat" where
  "fl x = (if x = 0 then 0 else
     let e = lg \<bar>x\<bar> - 52 in of_int (round_even (x / 2 powi e)) * 2 powi e)"

definition js_round :: "rat \<Rightarrow> int" where
  "js_round x = \<lfloor>x + 1/2\<rfloor>"

definition is_integer :: "rat \<Rightarrow> bool" where
  "is_integer v = (of_int \<lfloor>v\<rfloor> = v)"

lemma is_integer_of_int [simp]: "is_integer (of_int n)"
  by (simp add: is_integer_def)

lemma is_integer_numeral [simp]: "is_integer (numeral k)" "is_integer 0" "is_integer 1"
  using is_integer_of_int [of "numeral k"] is_integer_of_int [of 0] is_integer_of_int [of 1] by simp_all

lemma powi2_pos [simp]: "(0::rat) < 2 powi e"
  by simp

lemma bitlen_powi:
  assumes "0 < (n::int)"
  shows "(2::rat) powi (bitlen n - 1) \<le> of_int n" and "(of_int n :: rat) < 2 powi (bitlen n)"
proof -
  have b: "2 ^ nat (bitlen n - 1) \<le> n" "n < 2 ^ nat (bitlen n)"
    using bitlen_bounds [OF assms] by auto
  have pos: "0 < bitlen n"
  proof (rule ccontr)
    assume "\<not> 0 < bitlen n"
    with b(2) assms show False by simp
  qed
  have "(2::rat) powi (bitlen n - 1) = 2 ^ nat (bitlen n - 1)"
    using pos by (simp add: power_int_def)
  also have "\<dots> = of_int (2 ^ nat (bitlen n - 1))" by simp
  also have "\<dots> \<le> of_int n" using b(1) by (rule of_int_le_iff [THEN iffD2])
  finally show "(2::rat) powi (bitlen n - 1) \<le> of_int n" .
  have "(of_int n :: rat) < of_int (2 ^ nat (bitlen n))" using b(2) by (rule of_int_less_iff [THEN iffD2])
  also have "\<dots> = 2 powi (bitlen n)" using pos by (simp add: power_int_def)
  finally show "(of_int n :: rat) < 2 powi (bitlen n)" .
qed

lemma lg_bounds:
  assumes "0 < x"
  shows "2 powi (lg x) \<le> x" and "x < 2 powi (lg x + 1)"
proof -
  obtain n d where q: "quotient_of x = (n, d)" by (cases "quotient_of x")
  have d: "0 < d" using quotient_of_denom_pos [OF q] .
  have x: "x = of_int n / of_int d" using quotient_of_div [OF q] .
  have n: "0 < n" using assms d by (simp add: x zero_less_divide_iff)
  let ?e = "bitlen n - bitlen d"
  note bn = bitlen_powi [OF n] and bd = bitlen_powi [OF d]
  have dpos: "(0::rat) < of_int d" using d by simp
  have "2 powi (?e - 1) * of_int d \<le> (2::rat) powi (?e - 1) * 2 powi (bitlen d)"
    using bd(2) by (intro mult_left_mono) auto
  also have "\<dots> = 2 powi (bitlen n - 1)" by (simp add: power_int_add [symmetric] algebra_simps)
  also have "\<dots> \<le> of_int n" by (rule bn(1))
  finally have lo: "2 powi (?e - 1) \<le> x" using dpos by (simp add: x pos_le_divide_eq)
  have "of_int n < (2::rat) powi (bitlen n)" by (rule bn(2))
  also have "\<dots> = 2 powi (?e + 1) * 2 powi (bitlen d - 1)" by (simp add: power_int_add [symmetric])
  also have "\<dots> \<le> 2 powi (?e + 1) * of_int d" using bd(1) by (intro mult_left_mono) auto
  finally have hi: "x < 2 powi (?e + 1)" using dpos by (simp add: x pos_divide_less_eq)
  have l: "lg x = (if 2 powi ?e \<le> x then ?e else ?e - 1)" by (simp add: lg_def q)
  show "2 powi (lg x) \<le> x" using lo by (simp add: l)
  show "x < 2 powi (lg x + 1)" using hi by (auto simp: l)
qed

lemma lg_less: "0 < x \<Longrightarrow> x < 2 powi k \<Longrightarrow> lg x < k"
proof -
  assume "0 < x" "x < 2 powi k"
  then have "(2::rat) powi (lg x) < 2 powi k" using lg_bounds(1) [of x] by linarith
  moreover have "\<not> k \<le> lg x" if "(2::rat) powi (lg x) < 2 powi k"
    using that power_int_increasing [of k "lg x" "2::rat"] by auto
  ultimately show ?thesis by simp
qed

lemma fl_0 [simp]: "fl 0 = 0"
  by (simp add: fl_def)

text \<open>The rounding error is at most half a unit in the last place.\<close>

lemma fl_error: "\<bar>fl x - x\<bar> \<le> \<bar>x\<bar> / 2 ^ 53"
proof (cases "x = 0")
  case False
  define e where "e = lg \<bar>x\<bar> - 52"
  have "fl x - x = (of_int (round_even (x / 2 powi e)) - x / 2 powi e) * 2 powi e"
    using False by (simp add: fl_def e_def [symmetric] Let_def left_diff_distrib)
  then have "\<bar>fl x - x\<bar> = \<bar>of_int (round_even (x / 2 powi e)) - x / 2 powi e\<bar> * 2 powi e"
    by (simp add: abs_mult)
  also have "\<dots> \<le> 1/2 * 2 powi e"
    by (intro mult_right_mono round_even_error) simp
  also have "\<dots> = 2 powi (lg \<bar>x\<bar>) / 2 ^ 53"
    by (simp add: e_def power_int_diff)
  also have "\<dots> \<le> \<bar>x\<bar> / 2 ^ 53"
    using False lg_bounds(1) [of "\<bar>x\<bar>"] by (intro divide_right_mono) auto
  finally show ?thesis .
qed simp

text \<open>Multiples of a half below \<open>2^52\<close>, and integers below \<open>2^53\<close>, are doubles.\<close>

lemma fl_exact_grid:
  assumes "x * 2 ^ j = of_int k" and "\<bar>x\<bar> < 2 ^ (53 - j)" and "j \<le> 52"
  shows "fl x = x"
proof (cases "x = 0")
  case False
  define e where "e = lg \<bar>x\<bar> - 52"
  have "lg \<bar>x\<bar> < int (53 - j)"
    using False assms(2) by (intro lg_less) (auto simp: power_int_def)
  then have e: "e \<le> - int j" using assms(3) by (auto simp: e_def)
  have "(2::rat) powi (- e) = 2 powi (int j) * 2 powi (- e - int j)"
    by (subst power_int_add [symmetric]) simp_all
  also have "\<dots> = 2 ^ j * 2 ^ nat (- e - int j)"
    using e by (simp add: power_int_def)
  finally have "x / 2 powi e = x * 2 ^ j * 2 ^ nat (- e - int j)"
    by (simp add: power_int_minus divide_inverse mult.assoc)
  also have "\<dots> = of_int (k * 2 ^ nat (- e - int j))" by (simp add: assms(1))
  finally have "round_even (x / 2 powi e) = k * 2 ^ nat (- e - int j)"
    and eq: "x / 2 powi e = of_int (k * 2 ^ nat (- e - int j))" by (simp_all only: round_even_of_int)
  then have "of_int (round_even (x / 2 powi e)) = x / 2 powi e" by simp
  then show ?thesis using False by (simp add: fl_def e_def [symmetric] Let_def)
qed simp

lemma fl_of_int: "\<bar>n\<bar> < 2 ^ 53 \<Longrightarrow> fl (of_int n) = of_int n"
proof (rule fl_exact_grid [of _ 0 n])
  assume "\<bar>n\<bar> < 2 ^ 53"
  then have "of_int \<bar>n\<bar> < (of_int (2 ^ 53) :: rat)" by (simp only: of_int_less_iff)
  then show "\<bar>of_int n :: rat\<bar> < 2 ^ (53 - 0)" by simp
qed simp_all

section \<open>Rounding a quotient\<close>

definition round_half_up :: "int \<Rightarrow> int \<Rightarrow> int" where
  "round_half_up n d = (2 * n + d) div (2 * d)"

lemma js_round_exact: "0 < d \<Longrightarrow> js_round (of_int n / of_int d) = round_half_up n d"
proof -
  assume d: "0 < d"
  have "of_int n / of_int d + 1/2 = (of_int (2 * n + d) / of_int (2 * d) :: rat)"
    using d by (simp add: field_simps)
  then show ?thesis unfolding js_round_def round_half_up_def by (simp only: floor_divide_of_int_eq)
qed

lemma round_half_up_bounds:
  assumes "0 < d"
  shows "2 * n - d < 2 * d * round_half_up n d" and "2 * d * round_half_up n d \<le> 2 * n + d"
proof -
  let ?q = "round_half_up n d" and ?r = "(2 * n + d) mod (2 * d)"
  have "2 * n + d = 2 * d * ?q + ?r" by (simp add: round_half_up_def)
  moreover have "0 \<le> ?r" "?r < 2 * d" using assms by simp_all
  ultimately show "2 * n - d < 2 * d * ?q" "2 * d * ?q \<le> 2 * n + d" by linarith+
qed

text \<open>The floating-point quotient stays on the right side of every tie.\<close>

lemma round_div_exact:
  assumes d: "0 < d" "even d" and n: "\<bar>n\<bar> < 2 ^ 52"
  shows "js_round (fl (of_int n / of_int d)) = round_half_up n d"
proof -
  define q k :: rat where "q = of_int n / of_int d" and "k = of_int (round_half_up n d)"
  have dpos: "(0::rat) < of_int d" using d by simp
  have d1: "(1::rat) \<le> of_int d" using d by simp
  obtain c where c: "d = 2 * c" using d(2) by auto
  have nr: "\<bar>of_int n :: rat\<bar> < 2 ^ 52"
  proof -
    have "of_int \<bar>n\<bar> < (of_int (2 ^ 52) :: rat)" using n by (simp only: of_int_less_iff)
    then show ?thesis by simp
  qed
  have absq: "\<bar>q\<bar> * of_int d = \<bar>of_int n\<bar>" using dpos by (simp add: q_def abs_divide)
  have err: "\<bar>fl q * of_int d - q * of_int d\<bar> < 1"
  proof -
    have "\<bar>fl q * of_int d - q * of_int d\<bar> = \<bar>fl q - q\<bar> * of_int d"
      using dpos by (simp add: abs_mult flip: left_diff_distrib)
    also have "\<dots> \<le> (\<bar>q\<bar> / 2 ^ 53) * of_int d"
      using fl_error [of q] dpos by (intro mult_right_mono) auto
    also have "\<dots> = \<bar>of_int n\<bar> / 2 ^ 53" by (simp add: absq [symmetric])
    also have "\<dots> < 1" using nr by simp
    finally show ?thesis .
  qed
  note b = round_half_up_bounds [OF d(1), of n]
  have bc: "n - c < d * round_half_up n d" "d * round_half_up n d \<le> n + c"
    using b by (auto simp: c)
  have up: "of_int n + 1 \<le> of_int d * k + (of_int c :: rat)"
  proof -
    have "n + 1 \<le> d * round_half_up n d + c" using bc(1) by linarith
    then have "of_int (n + 1) \<le> (of_int (d * round_half_up n d + c) :: rat)" by (simp only: of_int_le_iff)
    then show ?thesis by (simp add: k_def)
  qed
  have dc: "(of_int d :: rat) = 2 * of_int c" by (simp add: c)
  have qd: "q * of_int d = of_int n" using dpos by (simp add: q_def)
  have "fl q * of_int d < q * of_int d + 1"
    using err by linarith
  then have "fl q * of_int d < (k + 1/2) * of_int d" using up qd dc by (simp add: algebra_simps)
  then have hi: "fl q < k + 1/2" using dpos by simp
  have lo: "k - 1/2 \<le> fl q"
  proof (cases "d * round_half_up n d = n + c")
    case True
    then have "of_int (d * round_half_up n d) = (of_int (n + c) :: rat)" by (simp only:)
    then have "k * of_int d = q * of_int d + 1/2 * of_int d" using qd dc by (simp add: k_def mult.commute)
    then have "(k - q - 1/2) * of_int d = 0" by (simp add: left_diff_distrib)
    then have qk: "q = k - 1/2" using dpos by simp
    have "\<bar>q\<bar> \<le> \<bar>q\<bar> * of_int d" using d1 mult_left_mono [of 1 "of_int d :: rat" "\<bar>q\<bar>"] by simp
    then have "\<bar>q\<bar> < 2 ^ (53 - 1)" using absq nr by simp
    moreover have "q * 2 ^ 1 = of_int (2 * round_half_up n d - 1)" by (simp add: qk k_def)
    ultimately have "fl q = q" by (intro fl_exact_grid [where j = 1 and k = "2 * round_half_up n d - 1"]) simp_all
    then show ?thesis by (simp add: qk)
  next
    case False
    then have "d * round_half_up n d + 1 \<le> n + c" using bc(2) by linarith
    then have "of_int (d * round_half_up n d + 1) \<le> (of_int (n + c) :: rat)" by (simp only: of_int_le_iff)
    then have "k * of_int d + 1 \<le> q * of_int d + 1/2 * of_int d" using qd dc by (simp add: k_def mult.commute)
    moreover have "q * of_int d - 1 < fl q * of_int d"
      using err by linarith
    ultimately have "(k - 1/2) * of_int d < fl q * of_int d" by (simp add: algebra_simps)
    then show ?thesis using dpos by simp
  qed
  have "\<lfloor>fl q + 1/2\<rfloor> = round_half_up n d"
    using hi lo by (intro floor_unique) (simp_all add: k_def)
  then show ?thesis by (simp add: js_round_def q_def)
qed

end
