(* ===== verification/Money.thy ===== *)
theory Money
  imports JsNumber
begin

text \<open>
  Money (\<open>rab-shared/src/utils/money.ts\<close>): integer pence in JavaScript numbers. The arithmetic is the code's,
  with the rounding of doubles (\<open>fl\<close>); the theorems say in which range it is exact. \<open>formatPence\<close> is modelled
  for numbers (minus zero included) and bigints; \<open>parse_pence\<close> is the specification it is inverted by.
\<close>

type_synonym Pence = rat

definition MAX_SAFE_INTEGER :: int where
  "MAX_SAFE_INTEGER = 2 ^ 53 - 1"

definition assertInteger :: "rat \<Rightarrow> string \<Rightarrow> unit res" where
  "assertInteger v label =
     require (is_integer v) (RangeError (label @ '' must be an integer number of pence''))"

definition assertSafePence :: "rat \<Rightarrow> string \<Rightarrow> Pence res" where
  "assertSafePence v label =
     (if is_integer v \<and> \<bar>v\<bar> \<le> of_int MAX_SAFE_INTEGER then Inr v
      else Inl (RangeError (label @ '' must be a safe integer number of pence'')))"

text \<open>\<open>addPence\<close> reduces its operands from 0; every operand is checked as it is added.\<close>

fun addPence_from :: "rat \<Rightarrow> rat list \<Rightarrow> Pence res" where
  "addPence_from acc [] = Inr acc"
| "addPence_from acc (v # vs) =
     bindE (assertInteger v ''addPence operand'') (\<lambda>_. addPence_from (fl (acc + v)) vs)"

definition addPence :: "rat list \<Rightarrow> Pence res" where
  "addPence vs = addPence_from 0 vs"

definition subtractPence :: "rat \<Rightarrow> rat \<Rightarrow> Pence res" where
  "subtractPence a b =
     bindE (assertInteger a ''subtractPence minuend'') (\<lambda>_.
     bindE (assertInteger b ''subtractPence subtrahend'') (\<lambda>_. Inr (fl (a - b))))"

definition multiplyPence :: "rat \<Rightarrow> rat \<Rightarrow> Pence res" where
  "multiplyPence pence factor =
     bindE (assertInteger pence ''multiplyPence base'') (\<lambda>_.
       Inr (of_int (js_round (fl (pence * factor)))))"

definition payForMinutes :: "rat \<Rightarrow> rat \<Rightarrow> Pence res" where
  "payForMinutes ratePerHourPence minutes =
     bindE (assertInteger ratePerHourPence ''payForMinutes rate'') (\<lambda>_.
     bindE (assertInteger minutes ''payForMinutes minutes'') (\<lambda>_.
       Inr (of_int (js_round (fl (fl (ratePerHourPence * minutes) / 60))))))"

section \<open>Formatting\<close>

fun show_nat :: "nat \<Rightarrow> string" where
  "show_nat n = (if n < 10 then [digit_char n] else show_nat (n div 10) @ [digit_char (n mod 10)])"

declare show_nat.simps [simp del]

text \<open>
  \<open>replace(/\<bsol>B(?=(\<bsol>d{3})+(?!\<bsol>d))/g, ',')\<close> on a string of digits: a comma before every position, other than the
  first, that a positive multiple of three digits follows.
\<close>

fun group3 :: "string \<Rightarrow> string" where
  "group3 [] = []"
| "group3 (c # cs) = c # (if cs \<noteq> [] \<and> length cs mod 3 = 0 then CHR '','' # group3 cs else group3 cs)"

definition padStart2 :: "string \<Rightarrow> string" where
  "padStart2 s = replicate (2 - length s) (CHR ''0'') @ s"

definition POUND :: string where
  "POUND = [CHR 0xA3]"

definition CURRENCY_SYMBOL :: "string \<Rightarrow> string option" where
  "CURRENCY_SYMBOL c = (if c = ''GBP'' then Some POUND else None)"

datatype pence_value = PNumber rat | PNegZero | PBigint int

text \<open>The split of the two branches: sign, pounds and pence as decimal strings.\<close>

definition split_pence :: "pence_value \<Rightarrow> (bool \<times> string \<times> string) res" where
  "split_pence p =
     (case p of
        PBigint n \<Rightarrow>
          let negative = n < 0; abs = (if negative then - n else n)
          in Inr (negative, show_nat (nat (abs div 100)), show_nat (nat (abs mod 100)))
      | PNegZero \<Rightarrow> Inr (True, show_nat 0, show_nat 0)
      | PNumber v \<Rightarrow>
          bindE (assertSafePence v ''formatPence value'') (\<lambda>v.
            let negative = v < 0; abs = \<lfloor>\<bar>v\<bar>\<rfloor>; rem = abs mod 100
            in Inr (negative, show_nat (nat \<lfloor>fl (of_int (abs - rem) / 100)\<rfloor>), show_nat (nat rem))))"

definition formatPence :: "pence_value \<Rightarrow> string \<Rightarrow> string res" where
  "formatPence p currency =
     (case CURRENCY_SYMBOL currency of
        None \<Rightarrow> Inl (RangeError (''formatPence: unsupported currency '' @ currency))
      | Some symbol \<Rightarrow>
          bindE (split_pence p) (\<lambda>(negative, pounds, penny).
            Inr ((if negative then ''-'' else []) @ symbol @ group3 pounds @ ''.'' @ padStart2 penny)))"

section \<open>Arithmetic in the safe range\<close>

lemma addPence_from_exact:
  assumes "\<And>i. i \<le> length ns \<Longrightarrow> \<bar>s + sum_list (take i ns)\<bar> < 2 ^ 53"
  shows "addPence_from (of_int s) (map of_int ns) = Inr (of_int (s + sum_list ns))"
  using assms
proof (induction ns arbitrary: s)
  case Nil
  then show ?case by simp
next
  case (Cons n ns)
  have "\<bar>s + n\<bar> < 2 ^ 53" using Cons.prems [of 1] by simp
  then have f: "fl (of_int s + of_int n) = of_int (s + n)" by (metis fl_of_int of_int_add)
  have "\<bar>s + n + sum_list (take i ns)\<bar> < 2 ^ 53" if "i \<le> length ns" for i
    using Cons.prems [of "Suc i"] that by (simp add: add.assoc)
  from Cons.IH [OF this] show ?case
    by (simp add: assertInteger_def f add.assoc)
qed

lemma payForMinutes_eq:
  assumes "\<bar>r * m\<bar> < 2 ^ 52"
  shows "payForMinutes (of_int r) (of_int m) = Inr (of_int (round_half_up (r * m) 60))"
proof -
  have "fl (of_int r * of_int m) = of_int (r * m)"
    using fl_of_int [of "r * m"] assms by simp
  moreover have "js_round (fl (of_int (r * m) / of_int 60)) = round_half_up (r * m) 60"
    using assms by (intro round_div_exact) simp_all
  ultimately show ?thesis by (simp add: payForMinutes_def assertInteger_def)
qed

text \<open>
  C34. Pay for worked minutes is right to the penny: while rate times minutes is below \<open>2^52\<close> (45 trillion pounds of
  pay), the floating-point computation returns the nearest whole penny to \<open>rate * minutes / 60\<close>, the half penny
  rounded up, and refuses nothing.
\<close>

theorem payForMinutes_nearest_penny:
  assumes "\<bar>r * m\<bar> < 2 ^ 52"
  shows "\<exists>p::int. payForMinutes (of_int r) (of_int m) = Inr (of_int p)
    \<and> 2 * (r * m) - 60 < 2 * (60 * p) \<and> 2 * (60 * p) \<le> 2 * (r * m) + 60"
  using payForMinutes_eq [OF assms] round_half_up_bounds [of 60 "r * m"] by auto

theorem payForMinutes_nearest_penny_witness:
  "\<exists>p::int. payForMinutes (of_int 1245) (of_int 450) = Inr (of_int p)
    \<and> 2 * (1245 * 450) - 60 < 2 * (60 * p) \<and> 2 * (60 * p) \<le> 2 * (1245 * 450) + 60"
  by (rule payForMinutes_nearest_penny) simp

lemma addPence_from_refuses:
  "\<exists>v \<in> set vs. \<not> is_integer v \<Longrightarrow> \<exists>e. addPence_from s vs = Inl (RangeError e)"
proof (induction vs arbitrary: s)
  case Nil
  then show ?case by simp
next
  case (Cons v vs)
  show ?case
  proof (cases "is_integer v")
    case True
    with Cons show ?thesis by (simp add: assertInteger_def)
  next
    case False
    then show ?thesis by (simp add: assertInteger_def)
  qed
qed

text \<open>
  Sums of pence are exact and refuse every fraction: if every partial sum stays below \<open>2^53\<close>, \<open>addPence\<close> of integer
  operands is their exact sum; and \<open>addPence\<close> of any list that contains a non-integer is a \<open>RangeError\<close>.
\<close>

lemma addPence_exact:
  assumes "\<And>i. i \<le> length ns \<Longrightarrow> \<bar>sum_list (take i ns)\<bar> < 2 ^ 53"
  shows "addPence (map of_int ns) = Inr (of_int (sum_list ns))
    \<and> (\<forall>vs. (\<exists>v \<in> set vs. \<not> is_integer v) \<longrightarrow> (\<exists>e. addPence vs = Inl (RangeError e)))"
  using addPence_from_exact [of ns 0] addPence_from_refuses [of _ 0] assms by (simp add: addPence_def)

lemma addPence_exact_witness:
  "addPence (map of_int [1050, -250, 75]) = Inr (of_int (sum_list [1050, -250, 75]))
    \<and> (\<exists>e. addPence [1 / 2, 100] = Inl (RangeError e))"
proof -
  have "\<bar>sum_list (take i [1050, -250, 75 :: int])\<bar> < 2 ^ 53" if "i \<le> length [1050, -250, 75 :: int]" for i
  proof -
    from that have "i \<in> {0, 1, 2, 3}" by auto
    then show ?thesis by (auto simp: numeral_eq_Suc)
  qed
  moreover have "\<not> is_integer (1 / 2)" by code_simp
  ultimately show ?thesis using addPence_exact [of "[1050, -250, 75]"] by simp
qed

section \<open>Printing and reading back\<close>

text \<open>The reader of printed amounts: \<open>-\<close> optional, the symbol, digits and commas, a point, two digits.\<close>

definition digits_val :: "string \<Rightarrow> nat" where
  "digits_val s = foldl (\<lambda>a c. 10 * a + digit_val c) 0 s"

definition parse_pence :: "string \<Rightarrow> int option" where
  "parse_pence s =
     (let negative = starts_with ''-'' s;
          t = (if negative then tl s else s);
          pounds = filter (\<lambda>c. c \<noteq> CHR '','') (takeWhile (\<lambda>c. c \<noteq> CHR ''.'') (tl t));
          penny = tl (dropWhile (\<lambda>c. c \<noteq> CHR ''.'') (tl t));
          n = int (100 * digits_val pounds + digits_val penny)
      in if starts_with POUND t \<and> pounds \<noteq> [] \<and> length penny = 2 \<and> list_all is_digit (pounds @ penny)
         then Some (if negative then - n else n) else None)"

lemma digits_val_append: "digits_val (s @ [c]) = 10 * digits_val s + digit_val c"
  by (simp add: digits_val_def)

lemma digits_val_Cons0: "digits_val (CHR ''0'' # s) = digits_val s"
  by (simp add: digits_val_def digit_val_def)

lemma show_nat_digits: "list_all is_digit (show_nat n) \<and> show_nat n \<noteq> []"
proof (induction n rule: show_nat.induct)
  case (1 n)
  show ?case
    by (subst show_nat.simps, subst (2) show_nat.simps) (use 1 in \<open>auto simp: is_digit_digit_char\<close>)
qed

lemma digits_val_show_nat: "digits_val (show_nat n) = n"
proof (induction n rule: show_nat.induct)
  case (1 n)
  show ?case
  proof (cases "n < 10")
    case True
    then show ?thesis by (subst show_nat.simps) (simp add: digits_val_def digit_val_digit_char)
  next
    case False
    with 1 have "digits_val (show_nat (n div 10)) = n div 10" by simp
    with False show ?thesis
      by (subst show_nat.simps) (simp add: digits_val_append digit_val_digit_char)
  qed
qed

lemma length_show_nat_small: "n < 100 \<Longrightarrow> length (show_nat n) \<le> 2"
proof -
  assume "n < 100"
  then have "n div 10 < 10" by linarith
  then show ?thesis by (simp add: show_nat.simps [of n] show_nat.simps [of "n div 10"])
qed

lemma padStart2_show: "n < 100 \<Longrightarrow> length (padStart2 (show_nat n)) = 2
    \<and> digits_val (padStart2 (show_nat n)) = n \<and> list_all is_digit (padStart2 (show_nat n))"
proof -
  assume n: "n < 100"
  have l: "length (show_nat n) \<in> {1, 2}"
    using length_show_nat_small [OF n] show_nat_digits [of n]
    by (metis One_nat_def Suc_1 insertI1 insertI2 le_Suc_eq le_zero_eq length_0_conv)
  moreover have "is_digit (CHR ''0'')" by (simp add: is_digit_def)
  ultimately show ?thesis
    using show_nat_digits [of n] digits_val_show_nat [of n]
    by (auto simp: padStart2_def digits_val_Cons0)
qed

lemma is_digit_not_sep: "is_digit c \<Longrightarrow> c \<noteq> CHR '','' \<and> c \<noteq> CHR ''.''"
  by (auto simp: is_digit_def)

lemma group3_filter: "list_all is_digit s \<Longrightarrow> filter (\<lambda>c. c \<noteq> CHR '','') (group3 s) = s"
  by (induction s rule: group3.induct) (auto dest: is_digit_not_sep)

lemma group3_no_point: "list_all is_digit s \<Longrightarrow> CHR ''.'' \<notin> set (group3 s)"
  by (induction s rule: group3.induct) (auto dest: is_digit_not_sep)

lemma takeWhile_point: "CHR ''.'' \<notin> set g \<Longrightarrow>
    takeWhile (\<lambda>c. c \<noteq> CHR ''.'') (g @ CHR ''.'' # p) = g \<and> dropWhile (\<lambda>c. c \<noteq> CHR ''.'') (g @ CHR ''.'' # p) = CHR ''.'' # p"
  by (induction g) auto

lemma parse_printed:
  assumes "m < 100"
  shows "parse_pence ((if neg then ''-'' else []) @ POUND @ group3 (show_nat k) @ ''.'' @ padStart2 (show_nat m))
    = Some (if neg then - int (100 * k + m) else int (100 * k + m))"
proof -
  note d = show_nat_digits [of k]
  note g = takeWhile_point [OF group3_no_point [of "show_nat k"], of "padStart2 (show_nat m)"]
  show ?thesis
    using d g group3_filter [of "show_nat k"] padStart2_show [OF assms] digits_val_show_nat [of k]
    by (auto simp: parse_pence_def POUND_def starts_with_def Let_def)
qed

lemma formatPence_bigint:
  "formatPence (PBigint n) ''GBP'' = Inr ((if n < 0 then ''-'' else []) @ POUND
     @ group3 (show_nat (nat (\<bar>n\<bar> div 100))) @ ''.'' @ padStart2 (show_nat (nat (\<bar>n\<bar> mod 100))))"
  by (simp add: formatPence_def split_pence_def CURRENCY_SYMBOL_def Let_def)

lemma formatPence_number:
  assumes "\<bar>n\<bar> \<le> MAX_SAFE_INTEGER"
  shows "formatPence (PNumber (of_int n)) ''GBP'' = formatPence (PBigint n) ''GBP''"
proof -
  have q: "of_int (\<bar>n\<bar> - \<bar>n\<bar> mod 100) / (100 :: rat) = of_int (\<bar>n\<bar> div 100)"
  proof -
    have "\<bar>n\<bar> - \<bar>n\<bar> mod 100 = 100 * (\<bar>n\<bar> div 100)" by (simp add: minus_mod_eq_mult_div)
    then show ?thesis by simp
  qed
  have "\<bar>\<bar>n\<bar> div 100\<bar> < 2 ^ 53"
    using assms by (simp add: MAX_SAFE_INTEGER_def)
  from fl_of_int [OF this] have "fl (of_int (\<bar>n\<bar> - \<bar>n\<bar> mod 100) / 100) = of_int (\<bar>n\<bar> div 100)" by (simp only: q)
  moreover have "\<bar>of_int n :: rat\<bar> \<le> of_int MAX_SAFE_INTEGER" using assms by (metis of_int_abs of_int_le_iff)
  moreover have "\<lfloor>\<bar>of_int n :: rat\<bar>\<rfloor> = \<bar>n\<bar>" by (metis floor_of_int of_int_abs)
  moreover have "(of_int n :: rat) < 0 \<longleftrightarrow> n < 0" by simp
  ultimately show ?thesis
    unfolding formatPence_bigint
    by (simp add: formatPence_def split_pence_def CURRENCY_SYMBOL_def Let_def assertSafePence_def del: of_int_diff)
qed

text \<open>
  C35. Printing an amount loses nothing: the printed form of every bigint, and of every number in the safe integer
  range, reads back as exactly that amount, numbers and bigints print alike, and a number outside the safe range is
  refused instead of printed.
\<close>

theorem formatPence_roundtrip:
  shows "(\<exists>s. formatPence (PBigint n) ''GBP'' = Inr s \<and> parse_pence s = Some n)
    \<and> (if \<bar>n\<bar> \<le> MAX_SAFE_INTEGER
       then formatPence (PNumber (of_int n)) ''GBP'' = formatPence (PBigint n) ''GBP''
       else \<exists>e. formatPence (PNumber (of_int n)) ''GBP'' = Inl (RangeError e))"
proof -
  have m: "nat (\<bar>n\<bar> mod 100) < 100" by simp
  have "0 \<le> \<bar>n\<bar> div 100" by (simp add: pos_imp_zdiv_nonneg_iff)
  then have n: "int (100 * nat (\<bar>n\<bar> div 100) + nat (\<bar>n\<bar> mod 100)) = \<bar>n\<bar>" by simp
  have "parse_pence ((if n < 0 then ''-'' else []) @ POUND @ group3 (show_nat (nat (\<bar>n\<bar> div 100)))
      @ ''.'' @ padStart2 (show_nat (nat (\<bar>n\<bar> mod 100)))) = Some n"
    using parse_printed [OF m, of "n < 0" "nat (\<bar>n\<bar> div 100)"] unfolding n by simp
  moreover have "\<exists>e. formatPence (PNumber (of_int n)) ''GBP'' = Inl (RangeError e)"
    if "\<not> \<bar>n\<bar> \<le> MAX_SAFE_INTEGER"
  proof -
    have "\<not> \<bar>of_int n :: rat\<bar> \<le> of_int MAX_SAFE_INTEGER" using that by (metis of_int_abs of_int_le_iff)
    then show ?thesis by (simp add: formatPence_def split_pence_def CURRENCY_SYMBOL_def assertSafePence_def)
  qed
  ultimately show ?thesis by (auto simp: formatPence_bigint formatPence_number)
qed

end
