(* ===== verification/WorkTime.thy ===== *)
theory WorkTime
  imports JsNumber Transitions
begin

text \<open>
  Time: worked minutes (\<open>rab-shared/src/utils/duration.ts\<close>), the scheduled window of a booking and the
  manager-confirmation deadline (\<open>scheduling/utils/assignment-time.ts\<close>), and the post-shift milestones the Worker
  writes (\<open>attendance/services/post-shift-lifecycle.service.ts\<close>). Instants are integer milliseconds. A
  \<open>tstzrange\<close> period is its pair of bounds; the text the driver returns for it is not modelled.
\<close>

section \<open>Worked minutes\<close>

definition diffMinutes :: "int \<Rightarrow> int \<Rightarrow> int" where
  "diffMinutes later earlier = max 0 (js_round (fl (fl (of_int (later - earlier)) / 60000)))"

record BreakRecordInput =
  brk_startedAt :: int
  brk_endedAt :: "int option"
  brk_isPaid :: bool

record WorkedMinutesInput =
  wm_clockInAt :: int
  wm_clockOutAt :: int
  wm_breaks :: "BreakRecordInput list option"
  wm_scheduledBreakMinutes :: "int option"
  wm_breaksPaidByDefault :: "bool option"

record WorkedMinutesResult =
  grossMinutes :: int
  unpaidBreakMinutes :: int
  workedMinutes :: int

definition unpaid_of_breaks :: "int \<Rightarrow> BreakRecordInput list \<Rightarrow> int" where
  "unpaid_of_breaks clockOutAt breaks =
     foldl (\<lambda>acc brk. acc + diffMinutes (case brk_endedAt brk of None \<Rightarrow> clockOutAt | Some e \<Rightarrow> e) (brk_startedAt brk))
       0 (filter (\<lambda>brk. \<not> brk_isPaid brk) breaks)"

definition computeWorkedMinutes :: "WorkedMinutesInput \<Rightarrow> WorkedMinutesResult res" where
  "computeWorkedMinutes input =
     (let scheduled = (case wm_scheduledBreakMinutes input of None \<Rightarrow> 0 | Some m \<Rightarrow> m);
          paidByDefault = (case wm_breaksPaidByDefault input of None \<Rightarrow> False | Some b \<Rightarrow> b)
      in if wm_clockOutAt input < wm_clockInAt input
         then Inl (RangeError ''clockOutAt must not be before clockInAt'')
         else
           let gross = diffMinutes (wm_clockOutAt input) (wm_clockInAt input);
               unpaid =
                 (case wm_breaks input of
                    Some (b # bs) \<Rightarrow> unpaid_of_breaks (wm_clockOutAt input) (b # bs)
                  | _ \<Rightarrow> if paidByDefault then 0 else scheduled)
           in Inr \<lparr>grossMinutes = gross, unpaidBreakMinutes = unpaid, workedMinutes = max 0 (gross - unpaid)\<rparr>)"

section \<open>Scheduled windows\<close>

record ScheduledWindow =
  startsAt :: int
  endsAt :: int

definition effectiveAssignmentTime :: "ScheduledWindow option \<Rightarrow> ScheduledWindow \<Rightarrow> ScheduledWindow res" where
  "effectiveAssignmentTime period shift =
     (case period of
        None \<Rightarrow> Inr shift
      | Some w \<Rightarrow> if startsAt w \<ge> endsAt w then Inl (BadRequest ''Invalid assignment period.'') else Inr w)"

text \<open>\<open>assignmentTimeSql\<close>: the same window as SQL expressions over the joined rows.\<close>

definition assignmentTimeSql :: "ScheduledWindow option \<Rightarrow> ScheduledWindow \<Rightarrow> ScheduledWindow" where
  "assignmentTimeSql period shift =
     \<lparr>startsAt = (case period of None \<Rightarrow> startsAt shift | Some w \<Rightarrow> startsAt w),
      endsAt = (case period of None \<Rightarrow> endsAt shift | Some w \<Rightarrow> endsAt w)\<rparr>"

datatype offer_kind = STANDARD | REPLACEMENT | STANDBY

definition MANAGER_CONFIRMATION_LEAD_MINUTES :: int where
  "MANAGER_CONFIRMATION_LEAD_MINUTES = 30"

definition confirmationDeadlineSql :: "offer_kind option \<Rightarrow> ScheduledWindow option \<Rightarrow> ScheduledWindow \<Rightarrow> int" where
  "confirmationDeadlineSql kind period shift =
     (let t = assignmentTimeSql period shift in
      if (case kind of None \<Rightarrow> True | Some k \<Rightarrow> k = STANDARD)
      then startsAt t - MANAGER_CONFIRMATION_LEAD_MINUTES * 60000 else endsAt t)"

datatype closed_reason = CONFIRMATION_DEADLINE_PASSED | SHIFT_CANCELLED

fun closed_reason_str :: "closed_reason \<Rightarrow> string" where
  "closed_reason_str CONFIRMATION_DEADLINE_PASSED = ''confirmation_deadline_passed''"
| "closed_reason_str SHIFT_CANCELLED = ''shift_cancelled''"

record projection_input =
  pi_status :: offer_status
  pi_kind :: "offer_kind option"
  pi_rejected_by :: "string option"
  pi_rejection_reason :: "string option"
  pi_expires_at :: int
  pi_assignment_status :: assignment_status
  pi_period :: "ScheduledWindow option"
  pi_shift :: ScheduledWindow
  pi_shift_status :: shift_status

record confirmation_projection =
  approval_deadline_at :: int
  awaiting_manager_confirmation :: bool
  cp_closed_reason :: "closed_reason option"
  can_accept :: bool

text \<open>\<open>tx_now\<close> is \<open>now()\<close>, the start of the transaction; \<open>clock\<close> is \<open>clock_timestamp()\<close>, the statement's own time.\<close>

definition confirmationProjectionSql :: "int \<Rightarrow> int \<Rightarrow> projection_input \<Rightarrow> confirmation_projection" where
  "confirmationProjectionSql tx_now clock r =
     (let deadline = confirmationDeadlineSql (pi_kind r) (pi_period r) (pi_shift r) in
      \<lparr>approval_deadline_at = deadline,
       awaiting_manager_confirmation = (pi_status r = OFFER_STAFF_ACCEPTED \<and> clock < deadline),
       cp_closed_reason =
         (if pi_status r = MANAGER_REJECTED \<and> pi_rejected_by r = None
             \<and> pi_rejection_reason r = Some (closed_reason_str CONFIRMATION_DEADLINE_PASSED)
          then Some CONFIRMATION_DEADLINE_PASSED
          else if pi_shift_status r = CANCELLED \<or> pi_rejection_reason r = Some ''This shift was cancelled.''
          then Some SHIFT_CANCELLED
          else if pi_status r = OFFER_STAFF_ACCEPTED \<and> deadline \<le> clock
          then Some CONFIRMATION_DEADLINE_PASSED
          else None),
       can_accept = (pi_status r = PENDING \<and> pi_assignment_status r = A_OFFERED \<and> tx_now < pi_expires_at r
          \<and> pi_shift_status r \<noteq> CANCELLED \<and> clock < deadline)\<rparr>)"

text \<open>A JavaScript \<open>Date\<close> that may be invalid is an option; \<open>breakMinutes\<close> is any number.\<close>

definition validateAssignmentTime ::
  "int option \<Rightarrow> int option \<Rightarrow> int option \<Rightarrow> int option \<Rightarrow> rat \<Rightarrow> ScheduledWindow res" where
  "validateAssignmentTime parentStart parentEnd propStart propEnd breakMinutes =
     (case (parentStart, parentEnd, propStart, propEnd) of
        (Some ps, Some pe, Some s, Some e) \<Rightarrow>
          if pe \<le> ps \<or> e \<le> s then Inl (BadRequest ''Staff end must be after start.'')
          else if \<not> is_integer breakMinutes \<or> breakMinutes < 0 \<or> fl (fl (of_int (e - s)) / 60000) \<le> breakMinutes
          then Inl (BadRequest ''Break must be shorter than every selected assignment.'')
          else Inr \<lparr>startsAt = s, endsAt = e\<rparr>
      | _ \<Rightarrow> Inl (BadRequest ''Staff end must be after start.''))"

definition effectiveAssignmentBreakMinutes :: "int option \<Rightarrow> int \<Rightarrow> int" where
  "effectiveAssignmentBreakMinutes assignmentBreak shiftBreak =
     (case assignmentBreak of None \<Rightarrow> shiftBreak | Some b \<Rightarrow> b)"

definition defaultAssignmentTime :: "int option \<Rightarrow> int option \<Rightarrow> ScheduledWindow \<Rightarrow> ScheduledWindow" where
  "defaultAssignmentTime defaultStart defaultEnd shift =
     \<lparr>startsAt = (case defaultStart of None \<Rightarrow> startsAt shift | Some s \<Rightarrow> s),
      endsAt = (case defaultEnd of None \<Rightarrow> endsAt shift | Some e \<Rightarrow> e)\<rparr>"

definition assignmentEnvelope :: "ScheduledWindow \<Rightarrow> ScheduledWindow list \<Rightarrow> ScheduledWindow" where
  "assignmentEnvelope parent windows =
     \<lparr>startsAt = foldl min (startsAt parent) (map startsAt windows),
      endsAt = foldl max (endsAt parent) (map endsAt windows)\<rparr>"

section \<open>Action window and late clock-in\<close>

definition SHIFT_ACTION_WINDOW_HOURS :: int where
  "SHIFT_ACTION_WINDOW_HOURS = 5"

datatype window_action = WSend | WAccept | WConfirm

fun window_message :: "window_action \<Rightarrow> string" where
  "window_message WSend = ''This shift ended more than 5 hours ago, so no new offers can be sent for it.''"
| "window_message WAccept = ''This shift ended more than 5 hours ago, so this offer can no longer be accepted.''"
| "window_message WConfirm = ''This shift ended more than 5 hours ago, so this offer can no longer be confirmed.''"

text \<open>The shift's \<open>ends_at\<close> is \<open>None\<close> when the query finds no row.\<close>

definition assertShiftActionWindowOpen :: "int \<Rightarrow> int option \<Rightarrow> window_action \<Rightarrow> unit res" where
  "assertShiftActionWindowOpen tx_now shiftEnd action =
     (case shiftEnd of
        Some e \<Rightarrow> if e + SHIFT_ACTION_WINDOW_HOURS * 3600000 \<le> tx_now then Inl (Conflict (window_message action)) else Inr ()
      | None \<Rightarrow> Inr ())"

definition isLateClockIn :: "assignment_status \<Rightarrow> shift_status \<Rightarrow> int \<Rightarrow> int \<Rightarrow> int \<Rightarrow> bool \<Rightarrow> bool" where
  "isLateClockIn assignmentStatus shiftStatus starts serverNow graceMinutes hasAttendance =
     (assignmentStatus = A_CONFIRMED \<and> shiftStatus \<notin> {CANCELLED, COMPLETED} \<and> \<not> hasAttendance
      \<and> starts \<le> serverNow - graceMinutes * 60000)"

definition NO_SHOW_GRACE_MINUTES :: int where
  "NO_SHOW_GRACE_MINUTES = 30"

definition MISSING_CLOCK_OUT_GRACE_MINUTES :: int where
  "MISSING_CLOCK_OUT_GRACE_MINUTES = 30"

section \<open>Post-shift milestones\<close>

definition POST_SHIFT_COMPLETE_HOURS :: int where "POST_SHIFT_COMPLETE_HOURS = 1"
definition POST_SHIFT_EXPIRED_HOURS :: int where "POST_SHIFT_EXPIRED_HOURS = 2"
definition POST_SHIFT_COMPLETE_MS :: int where "POST_SHIFT_COMPLETE_MS = POST_SHIFT_COMPLETE_HOURS * 3600000"
definition POST_SHIFT_EXPIRED_MS :: int where "POST_SHIFT_EXPIRED_MS = POST_SHIFT_EXPIRED_HOURS * 3600000"

record post_shift_row =
  ps_status :: attendance_status
  ps_clock_out_at :: "int option"
  ps_completed_at :: "int option"
  ps_expired_at :: "int option"

text \<open>The CHECK constraint \<open>attendance_post_shift_order\<close>.\<close>

definition attendance_post_shift_order :: "post_shift_row \<Rightarrow> bool" where
  "attendance_post_shift_order r \<longleftrightarrow>
     (case ps_completed_at r of None \<Rightarrow> True
      | Some c \<Rightarrow> (case ps_clock_out_at r of None \<Rightarrow> False | Some t \<Rightarrow> c = t + 3600000))
     \<and> (case ps_expired_at r of None \<Rightarrow> True
      | Some x \<Rightarrow> ps_completed_at r \<noteq> None \<and> (case ps_clock_out_at r of None \<Rightarrow> False | Some t \<Rightarrow> x = t + 7200000))"

datatype milestone = MComplete | MExpired

fun milestone_hours :: "milestone \<Rightarrow> int" where
  "milestone_hours MComplete = POST_SHIFT_COMPLETE_HOURS"
| "milestone_hours MExpired = POST_SHIFT_EXPIRED_HOURS"

fun milestone_column :: "milestone \<Rightarrow> post_shift_row \<Rightarrow> int option" where
  "milestone_column MComplete r = ps_completed_at r"
| "milestone_column MExpired r = ps_expired_at r"

fun set_milestone :: "milestone \<Rightarrow> int \<Rightarrow> post_shift_row \<Rightarrow> post_shift_row" where
  "set_milestone MComplete t r = r\<lparr>ps_completed_at := Some t\<rparr>"
| "set_milestone MExpired t r = r\<lparr>ps_expired_at := Some t\<rparr>"

text \<open>One iteration of the loop; \<open>row\<close> is the locked row as read before the loop. An audit entry is the milestone with
  its effective time.\<close>

definition advance_one ::
  "post_shift_row \<Rightarrow> int \<Rightarrow> int \<Rightarrow> milestone \<Rightarrow> post_shift_row \<times> (milestone \<times> int) list \<Rightarrow> (post_shift_row \<times> (milestone \<times> int) list) res" where
  "advance_one row tx_now clockOut m st =
     (if milestone_column m row \<noteq> None \<or> \<not> clockOut \<le> tx_now - milestone_hours m * 3600000 then Inr st
      else
        let r' = set_milestone m (clockOut + milestone_hours m * 3600000) (fst st)
        in if attendance_post_shift_order r'
           then Inr (r', snd st @ [(m, clockOut + milestone_hours m * 3600000)])
           else Inl (DbError ''attendance_post_shift_order''))"

definition post_shift_statuses :: "attendance_status list" where
  "post_shift_statuses = [CLOCKED_OUT, UNDER_REVIEW, AT_APPROVED, DISPUTED]"

definition advance :: "int \<Rightarrow> post_shift_row \<Rightarrow> (post_shift_row \<times> (milestone \<times> int) list) res" where
  "advance tx_now row =
     (case ps_clock_out_at row of
        None \<Rightarrow> Inr (row, [])
      | Some clockOut \<Rightarrow>
          if ps_status row \<notin> set post_shift_statuses then Inr (row, [])
          else bindE (advance_one row tx_now clockOut MComplete (row, []))
                 (advance_one row tx_now clockOut MExpired))"

text \<open>The Worker's discovery query: the rows \<open>advance\<close> is called for.\<close>

definition discover :: "int \<Rightarrow> post_shift_row \<Rightarrow> bool" where
  "discover tx_now r =
     (case ps_clock_out_at r of None \<Rightarrow> False
      | Some t \<Rightarrow> ps_status r \<in> set post_shift_statuses
          \<and> ((ps_completed_at r = None \<and> t \<le> tx_now - POST_SHIFT_COMPLETE_HOURS * 3600000)
           \<or> (ps_expired_at r = None \<and> t \<le> tx_now - POST_SHIFT_EXPIRED_HOURS * 3600000)))"

section \<open>Minutes are exact\<close>

lemma round_half_up_mono: "0 < d \<Longrightarrow> m \<le> n \<Longrightarrow> round_half_up m d \<le> round_half_up n d"
  by (simp add: round_half_up_def zdiv_mono1)

lemma diffMinutes_exact:
  assumes "\<bar>l - e\<bar> < 2 ^ 52"
  shows "diffMinutes l e = max 0 (round_half_up (l - e) 60000)"
proof -
  have "fl (of_int (l - e)) = of_int (l - e)" using assms by (intro fl_of_int) simp
  moreover have "js_round (fl (of_int (l - e) / of_int 60000)) = round_half_up (l - e) 60000"
    using assms by (intro round_div_exact) simp_all
  ultimately show ?thesis by (simp add: diffMinutes_def)
qed

lemma diffMinutes_nonneg: "0 \<le> diffMinutes l e"
  by (simp add: diffMinutes_def)

lemma unpaid_fold_nonneg:
  "0 \<le> a \<Longrightarrow> 0 \<le> foldl (\<lambda>acc brk. acc + diffMinutes (g brk) (brk_startedAt brk)) a bs"
  by (induction bs arbitrary: a) (simp_all add: diffMinutes_nonneg)

lemma unpaid_of_breaks_nonneg: "0 \<le> unpaid_of_breaks t bs"
  by (simp add: unpaid_of_breaks_def unpaid_fold_nonneg)

lemma unpaid_of_breaks_closed:
  assumes "\<forall>b \<in> set bs. brk_endedAt b \<noteq> None"
  shows "unpaid_of_breaks t bs = unpaid_of_breaks t' bs"
  unfolding unpaid_of_breaks_def
  by (rule foldl_cong) (use assms in \<open>auto split: option.splits\<close>)

text \<open>
  Worked minutes are never negative and never more than the attendance: when the clock-out is not before the clock-in,
  \<open>computeWorkedMinutes\<close> returns the whole minute nearest to the elapsed time as the gross time, an unpaid break
  time that is 0 when breaks are paid by default and none was recorded, and a worked time between 0 and the gross
  time, which plus the unpaid breaks covers the gross time; a clock-out before the clock-in is an error.
\<close>

theorem worked_minutes_bounds:
  assumes "wm_clockOutAt i - wm_clockInAt i < 2 ^ 52"
    and "\<And>m. wm_scheduledBreakMinutes i = Some m \<Longrightarrow> 0 \<le> m"
  shows "if wm_clockOutAt i < wm_clockInAt i then \<exists>e. computeWorkedMinutes i = Inl (RangeError e)
    else \<exists>r. computeWorkedMinutes i = Inr r
      \<and> \<bar>60000 * grossMinutes r - (wm_clockOutAt i - wm_clockInAt i)\<bar> \<le> 30000
      \<and> 0 \<le> workedMinutes r \<and> workedMinutes r \<le> grossMinutes r
      \<and> grossMinutes r \<le> workedMinutes r + unpaidBreakMinutes r
      \<and> (wm_breaksPaidByDefault i = Some True \<and> wm_breaks i \<in> {None, Some []} \<longrightarrow> workedMinutes r = grossMinutes r)"
proof (cases "wm_clockOutAt i < wm_clockInAt i")
  case True
  then show ?thesis by (simp add: computeWorkedMinutes_def)
next
  case False
  let ?d = "wm_clockOutAt i - wm_clockInAt i"
  have g: "diffMinutes (wm_clockOutAt i) (wm_clockInAt i) = max 0 (round_half_up ?d 60000)"
    using False assms(1) by (intro diffMinutes_exact) auto
  have b: "2 * ?d - 60000 < 2 * 60000 * round_half_up ?d 60000" "2 * 60000 * round_half_up ?d 60000 \<le> 2 * ?d + 60000"
    using round_half_up_bounds [of 60000 ?d] by simp_all
  have nn: "0 \<le> round_half_up ?d 60000" using False by (simp add: round_half_up_def pos_imp_zdiv_nonneg_iff)
  show ?thesis
    using False g b nn assms(2) unpaid_of_breaks_nonneg
    by (auto simp: computeWorkedMinutes_def Let_def split: option.splits list.splits)
qed

theorem worked_minutes_bounds_witness:
  "computeWorkedMinutes \<lparr>wm_clockInAt = 0, wm_clockOutAt = 28830000, wm_breaks = None,
      wm_scheduledBreakMinutes = Some 30, wm_breaksPaidByDefault = None\<rparr>
    = Inr \<lparr>grossMinutes = 481, unpaidBreakMinutes = 30, workedMinutes = 451\<rparr>"
proof -
  let ?i = "\<lparr>wm_clockInAt = 0, wm_clockOutAt = 28830000, wm_breaks = None,
      wm_scheduledBreakMinutes = Some 30, wm_breaksPaidByDefault = None\<rparr>"
  have "if wm_clockOutAt ?i < wm_clockInAt ?i then \<exists>e. computeWorkedMinutes ?i = Inl (RangeError e)
    else \<exists>r. computeWorkedMinutes ?i = Inr r
      \<and> \<bar>60000 * grossMinutes r - (wm_clockOutAt ?i - wm_clockInAt ?i)\<bar> \<le> 30000
      \<and> 0 \<le> workedMinutes r \<and> workedMinutes r \<le> grossMinutes r
      \<and> grossMinutes r \<le> workedMinutes r + unpaidBreakMinutes r
      \<and> (wm_breaksPaidByDefault ?i = Some True \<and> wm_breaks ?i \<in> {None, Some []} \<longrightarrow> workedMinutes r = grossMinutes r)"
    by (rule worked_minutes_bounds) auto
  moreover have "diffMinutes 28830000 0 = 481"
    by (subst diffMinutes_exact) (simp_all add: round_half_up_def)
  ultimately show ?thesis by (simp add: computeWorkedMinutes_def)
qed

text \<open>
  Clocking out later never loses worked time: with the same clock-in and the same closed breaks, a later clock-out gives
  at least as many worked minutes.
\<close>

lemma worked_minutes_monotone:
  assumes "wm_clockInAt i \<le> t" and "t \<le> t'" and "t' - wm_clockInAt i < 2 ^ 52"
    and "\<forall>bs. wm_breaks i = Some bs \<longrightarrow> (\<forall>b \<in> set bs. brk_endedAt b \<noteq> None)"
  shows "\<exists>r r'. computeWorkedMinutes (i\<lparr>wm_clockOutAt := t\<rparr>) = Inr r
    \<and> computeWorkedMinutes (i\<lparr>wm_clockOutAt := t'\<rparr>) = Inr r' \<and> workedMinutes r \<le> workedMinutes r'"
proof -
  have g: "diffMinutes t (wm_clockInAt i) = max 0 (round_half_up (t - wm_clockInAt i) 60000)"
    "diffMinutes t' (wm_clockInAt i) = max 0 (round_half_up (t' - wm_clockInAt i) 60000)"
    using assms by (auto intro!: diffMinutes_exact)
  have m: "diffMinutes t (wm_clockInAt i) \<le> diffMinutes t' (wm_clockInAt i)"
    unfolding g using assms(2) round_half_up_mono [of 60000 "t - wm_clockInAt i" "t' - wm_clockInAt i"] by simp
  show ?thesis
  proof (cases "\<exists>b bs. wm_breaks i = Some (b # bs)")
    case True
    then obtain b bs where w: "wm_breaks i = Some (b # bs)" by blast
    then have "\<forall>c \<in> set (b # bs). brk_endedAt c \<noteq> None" using assms(4) by blast
    then have "unpaid_of_breaks t (b # bs) = unpaid_of_breaks t' (b # bs)" by (rule unpaid_of_breaks_closed)
    with m assms(1,2) w show ?thesis by (simp add: computeWorkedMinutes_def Let_def)
  next
    case False
    with m assms(1,2) show ?thesis
      by (auto simp: computeWorkedMinutes_def Let_def split: option.splits list.splits)
  qed
qed

lemma worked_minutes_monotone_witness:
  "\<exists>r r'. computeWorkedMinutes \<lparr>wm_clockInAt = 0, wm_clockOutAt = 3600000,
        wm_breaks = Some [\<lparr>brk_startedAt = 600000, brk_endedAt = Some 1200000, brk_isPaid = False\<rparr>],
        wm_scheduledBreakMinutes = None, wm_breaksPaidByDefault = None\<rparr> = Inr r
    \<and> computeWorkedMinutes \<lparr>wm_clockInAt = 0, wm_clockOutAt = 7200000,
        wm_breaks = Some [\<lparr>brk_startedAt = 600000, brk_endedAt = Some 1200000, brk_isPaid = False\<rparr>],
        wm_scheduledBreakMinutes = None, wm_breaksPaidByDefault = None\<rparr> = Inr r'
    \<and> workedMinutes r \<le> workedMinutes r'"
  using worked_minutes_monotone [of "\<lparr>wm_clockInAt = 0, wm_clockOutAt = 0,
        wm_breaks = Some [\<lparr>brk_startedAt = 600000, brk_endedAt = Some 1200000, brk_isPaid = False\<rparr>],
        wm_scheduledBreakMinutes = None, wm_breaksPaidByDefault = None\<rparr>" 3600000 7200000]
  by simp

section \<open>Windows\<close>

lemma foldl_min_le: "foldl min (a::int) xs \<le> a \<and> (\<forall>x \<in> set xs. foldl min a xs \<le> x)"
  by (induction xs arbitrary: a) (auto, (metis min.bounded_iff)+)

lemma foldl_max_ge: "a \<le> foldl max (a::int) xs \<and> (\<forall>x \<in> set xs. x \<le> foldl max a xs)"
  by (induction xs arbitrary: a) (auto, (metis max.bounded_iff)+)

lemma envelope_covers:
  "w = parent \<or> w \<in> set ws \<Longrightarrow>
    startsAt (assignmentEnvelope parent ws) \<le> startsAt w \<and> endsAt w \<le> endsAt (assignmentEnvelope parent ws)"
  using foldl_min_le [of "startsAt parent" "map startsAt ws"] foldl_max_ge [of "endsAt parent" "map endsAt ws"]
  by (auto simp: assignmentEnvelope_def)

lemma effective_is_sql:
  "effectiveAssignmentTime period shift = Inr w \<Longrightarrow> w = assignmentTimeSql period shift"
  by (auto simp: effectiveAssignmentTime_def assignmentTimeSql_def split: option.splits if_splits)

text \<open>
  Node and PostgreSQL read the same booking window, and the deadline lies before the shift is over: whenever
  \<open>effectiveAssignmentTime\<close> accepts a booking, its window is the one \<open>assignmentTimeSql\<close> computes, and on a shift that
  ends after it starts the confirmation deadline is before the end of the window for a standard offer (30 minutes
  before its start) and is that end for every other kind.
\<close>

theorem confirmation_deadline_window:
  assumes "effectiveAssignmentTime period shift = Inr w" and "startsAt shift < endsAt shift"
  shows "w = assignmentTimeSql period shift \<and> startsAt w < endsAt w
    \<and> (if kind = None \<or> kind = Some STANDARD
       then confirmationDeadlineSql kind period shift = startsAt w - 1800000
       else confirmationDeadlineSql kind period shift = endsAt w)"
proof -
  have "w = assignmentTimeSql period shift" using effective_is_sql [OF assms(1)] .
  moreover have "startsAt w < endsAt w"
    using assms by (auto simp: effectiveAssignmentTime_def split: option.splits if_splits)
  ultimately show ?thesis
    by (cases kind) (auto simp: confirmationDeadlineSql_def MANAGER_CONFIRMATION_LEAD_MINUTES_def Let_def)
qed

theorem confirmation_deadline_window_witness:
  "\<lparr>startsAt = 3600000, endsAt = 7200000\<rparr> = assignmentTimeSql (Some \<lparr>startsAt = 3600000, endsAt = 7200000\<rparr>) \<lparr>startsAt = 0, endsAt = 9000000\<rparr>
    \<and> confirmationDeadlineSql (Some STANDARD) (Some \<lparr>startsAt = 3600000, endsAt = 7200000\<rparr>) \<lparr>startsAt = 0, endsAt = 9000000\<rparr> = 1800000"
  using confirmation_deadline_window [of "Some \<lparr>startsAt = 3600000, endsAt = 7200000\<rparr>" "\<lparr>startsAt = 0, endsAt = 9000000\<rparr>"
      "\<lparr>startsAt = 3600000, endsAt = 7200000\<rparr>" "Some STANDARD"]
  by (simp add: effectiveAssignmentTime_def)

text \<open>
  An accepted offer on a live shift is at any instant either awaiting its manager or closed by the deadline, never both
  and never neither; once closed it stays closed at every later instant; and no offer is shown as acceptable at or
  after its deadline.
\<close>

theorem projection_awaiting_xor_closed:
  assumes "pi_status r = OFFER_STAFF_ACCEPTED" and "pi_shift_status r \<noteq> CANCELLED"
    and "pi_rejection_reason r = None"
  shows "(awaiting_manager_confirmation (confirmationProjectionSql t c r) \<longleftrightarrow>
          cp_closed_reason (confirmationProjectionSql t c r) \<noteq> Some CONFIRMATION_DEADLINE_PASSED)
    \<and> (c \<le> c' \<longrightarrow> cp_closed_reason (confirmationProjectionSql t c r) = Some CONFIRMATION_DEADLINE_PASSED
        \<longrightarrow> cp_closed_reason (confirmationProjectionSql t' c' r) = Some CONFIRMATION_DEADLINE_PASSED)
    \<and> (can_accept (confirmationProjectionSql t c q) \<longrightarrow> c < approval_deadline_at (confirmationProjectionSql t c q))"
  using assms by (auto simp: confirmationProjectionSql_def Let_def)

definition example_awaiting :: projection_input where
  "example_awaiting = \<lparr>pi_status = OFFER_STAFF_ACCEPTED, pi_kind = Some STANDARD, pi_rejected_by = None,
     pi_rejection_reason = None, pi_expires_at = 0, pi_assignment_status = A_STAFF_ACCEPTED, pi_period = None,
     pi_shift = \<lparr>startsAt = 7200000, endsAt = 9000000\<rparr>, pi_shift_status = OFFERED\<rparr>"

theorem projection_awaiting_xor_closed_witness:
  "awaiting_manager_confirmation (confirmationProjectionSql 0 5399999 example_awaiting)
    \<and> \<not> awaiting_manager_confirmation (confirmationProjectionSql 0 5400000 example_awaiting)
    \<and> cp_closed_reason (confirmationProjectionSql 0 5400000 example_awaiting) = Some CONFIRMATION_DEADLINE_PASSED"
  using projection_awaiting_xor_closed [of example_awaiting 0 5399999]
    projection_awaiting_xor_closed [of example_awaiting 0 5400000]
  by (simp add: example_awaiting_def confirmationProjectionSql_def confirmationDeadlineSql_def
      assignmentTimeSql_def MANAGER_CONFIRMATION_LEAD_MINUTES_def Let_def)

section \<open>Milestones\<close>

lemmas milestone_defs = advance_def advance_one_def attendance_post_shift_order_def Let_def
  POST_SHIFT_COMPLETE_HOURS_def POST_SHIFT_EXPIRED_HOURS_def

text \<open>What \<open>advance\<close> does to a row that meets the constraint.\<close>

lemma advance_result:
  assumes "attendance_post_shift_order r" and "ps_clock_out_at r = Some t" and "ps_status r \<in> set post_shift_statuses"
  shows "\<exists>l. advance n r = Inr
    (r\<lparr>ps_completed_at := if t + 3600000 \<le> n then Some (t + 3600000) else ps_completed_at r,
       ps_expired_at := if t + 7200000 \<le> n then Some (t + 7200000) else ps_expired_at r\<rparr>, l)
    \<and> length l = (if ps_completed_at r = None \<and> t + 3600000 \<le> n then 1 else 0)
               + (if ps_expired_at r = None \<and> t + 7200000 \<le> n then 1 else 0)"
  using assms
  by (cases "ps_completed_at r"; cases "ps_expired_at r") (auto simp: milestone_defs split: if_splits)

lemma advance_other:
  "ps_clock_out_at r = None \<or> ps_status r \<notin> set post_shift_statuses \<Longrightarrow> advance n r = Inr (r, [])"
  by (auto simp: advance_def split: option.splits)

lemma advance_keeps:
  assumes "attendance_post_shift_order r" and "advance n r = Inr (r', l)"
  shows "attendance_post_shift_order r' \<and> ps_clock_out_at r' = ps_clock_out_at r \<and> ps_status r' = ps_status r"
proof (cases "ps_clock_out_at r = None \<or> ps_status r \<notin> set post_shift_statuses")
  case True
  then show ?thesis using assms by (simp add: advance_other)
next
  case False
  then obtain t where t: "ps_clock_out_at r = Some t" and s: "ps_status r \<in> set post_shift_statuses" by auto
  show ?thesis
    using advance_result [OF assms(1) t s, of n] assms t
    by (auto simp: attendance_post_shift_order_def split: option.splits if_splits)
qed

text \<open>
  A late Worker writes what a timely one would have: on a row that meets the CHECK constraint \<open>advance\<close> never fails
  and keeps the constraint; running it at \<open>t\<^sub>1\<close> and again at \<open>t\<^sub>2 \<ge> t\<^sub>1\<close> leaves exactly the row (and as many audit
  entries) that running it once at \<open>t\<^sub>2\<close> leaves; and the rows the discovery query selects are exactly those it changes.
\<close>

theorem advance_late_worker:
  assumes "attendance_post_shift_order r" and "t1 \<le> t2"
  shows "\<exists>r1 l1 r2 l2 l3. advance t1 r = Inr (r1, l1) \<and> advance t2 r1 = Inr (r2, l2) \<and> advance t2 r = Inr (r2, l3)
    \<and> length l3 = length l1 + length l2 \<and> attendance_post_shift_order r1 \<and> attendance_post_shift_order r2
    \<and> (discover t1 r \<longleftrightarrow> l1 \<noteq> []) \<and> \<not> discover t2 r2"
proof (cases "ps_clock_out_at r = None \<or> ps_status r \<notin> set post_shift_statuses")
  case True
  then show ?thesis using assms by (auto simp: advance_other discover_def split: option.splits)
next
  case False
  then obtain t where t: "ps_clock_out_at r = Some t" and s: "ps_status r \<in> set post_shift_statuses" by auto
  obtain r1 l1 where a1: "advance t1 r = Inr (r1, l1)" using advance_result [OF assms(1) t s, of t1] by blast
  note k1 = advance_keeps [OF assms(1) a1]
  have t': "ps_clock_out_at r1 = Some t" and s': "ps_status r1 \<in> set post_shift_statuses" using k1 t s by simp_all
  obtain r2 l2 where a2: "advance t2 r1 = Inr (r2, l2)" using advance_result [OF _ t' s', of t2] k1 by blast
  obtain r3 l3 where a3: "advance t2 r = Inr (r3, l3)" using advance_result [OF assms(1) t s, of t2] by blast
  note e1 = advance_result [OF assms(1) t s, of t1, unfolded a1]
  note e2 = advance_result [OF conjunct1 [OF k1] t' s', of t2, unfolded a2]
  note e3 = advance_result [OF assms(1) t s, of t2, unfolded a3]
  have "r3 = r2" using e1 e2 e3 assms(2) by auto
  moreover have "length l3 = length l1 + length l2" using e1 e2 e3 assms(2) by (auto split: if_splits)
  moreover have "discover t1 r \<longleftrightarrow> l1 \<noteq> []"
    using e1 t s by (auto simp: discover_def POST_SHIFT_COMPLETE_HOURS_def POST_SHIFT_EXPIRED_HOURS_def split: if_splits)
  moreover have "\<not> discover t2 r2"
    using e2 t' by (auto simp: discover_def POST_SHIFT_COMPLETE_HOURS_def POST_SHIFT_EXPIRED_HOURS_def split: if_splits)
  ultimately show ?thesis using a1 a2 a3 k1 advance_keeps [OF _ a2] by blast
qed

theorem advance_late_worker_witness:
  "let r = \<lparr>ps_status = CLOCKED_OUT, ps_clock_out_at = Some 0, ps_completed_at = None, ps_expired_at = None\<rparr> in
    \<exists>r1 l1 r2 l2 l3. advance 4000000 r = Inr (r1, l1) \<and> advance 9000000 r1 = Inr (r2, l2) \<and> advance 9000000 r = Inr (r2, l3)
    \<and> length l3 = length l1 + length l2 \<and> attendance_post_shift_order r1 \<and> attendance_post_shift_order r2
    \<and> (discover 4000000 r \<longleftrightarrow> l1 \<noteq> []) \<and> \<not> discover 9000000 r2"
  unfolding Let_def by (rule advance_late_worker) (simp_all add: attendance_post_shift_order_def)

end
