(* ===== verification/Availability.thy ===== *)
theory Availability
  imports WorkTime Money
begin

text \<open>
  Weekday availability (\<open>rab-shared/src/utils/availability.ts\<close>): the London calendar days a window touches, and those
  outside the declared weekdays. The London date of an instant comes from the runtime's time zone data
  (\<open>Intl.DateTimeFormat\<close> in \<open>date.ts\<close>): it is the parameter \<open>london\<close>, instant to (year, month, day). The civil
  calendar itself (\<open>Date.UTC\<close>, \<open>toISOString\<close>, \<open>getUTCDay\<close>) is defined here on day numbers since 1970-01-01.
\<close>

section \<open>Civil calendar\<close>

definition utc_days :: "int \<times> int \<times> int \<Rightarrow> int" where
  "utc_days ymd = (case ymd of (y, m, d) \<Rightarrow>
     let y' = (if m \<le> 2 then y - 1 else y);
         era = y' div 400; yoe = y' mod 400;
         doy = (153 * ((m + 9) mod 12) + 2) div 5 + d - 1
     in era * 146097 + yoe * 365 + yoe div 4 - yoe div 100 + doy - 719468)"

text \<open>Years start on 1 March: 400-year eras of centuries, four-year groups and years, each with its leap day last.\<close>

definition civil_of_days :: "int \<Rightarrow> int \<times> int \<times> int" where
  "civil_of_days days =
     (let z = days + 719468; era = z div 146097; doe = z mod 146097;
          c = min 3 (doe div 36524); r = doe - c * 36524;
          q = min 24 (r div 1461); r' = r - q * 1461;
          a = min 3 (r' div 365); doy = r' - a * 365;
          mp = (5 * doy + 2) div 153;
          m = (if mp < 10 then mp + 3 else mp - 9)
      in (100 * c + 4 * q + a + era * 400 + (if m \<le> 2 then 1 else 0), m, doy - (153 * mp + 2) div 5 + 1))"

definition pad_left :: "nat \<Rightarrow> string \<Rightarrow> string" where
  "pad_left n s = replicate (n - length s) (CHR ''0'') @ s"

text \<open>\<open>toISOString().slice(0, 10)\<close> for years 0 to 9999.\<close>

definition iso_date :: "int \<times> int \<times> int \<Rightarrow> string" where
  "iso_date ymd = (case ymd of (y, m, d) \<Rightarrow>
     pad_left 4 (show_nat (nat y)) @ ''-'' @ pad_left 2 (show_nat (nat m)) @ ''-'' @ pad_left 2 (show_nat (nat d)))"

datatype weekday = Monday | Tuesday | Wednesday | Thursday | Friday | Saturday | Sunday

definition WEEKDAY_NAMES :: "weekday list" where
  "WEEKDAY_NAMES = [Monday, Tuesday, Wednesday, Thursday, Friday, Saturday, Sunday]"

text \<open>Day 0 (1970-01-01) is a Thursday; \<open>(getUTCDay() + 6) % 7\<close> is \<open>(days + 3) mod 7\<close>.\<close>

definition weekday_of_days :: "int \<Rightarrow> weekday" where
  "weekday_of_days days = WEEKDAY_NAMES ! nat ((days + 3) mod 7)"

section \<open>Touched days and conflicts\<close>

record LondonCalendarDay =
  cd_date :: string
  cd_weekday :: weekday

definition civilDay :: "int \<Rightarrow> LondonCalendarDay" where
  "civilDay days = \<lparr>cd_date = iso_date (civil_of_days days), cd_weekday = weekday_of_days days\<rparr>"

definition MAX_DAYS :: nat where
  "MAX_DAYS = 31"

text \<open>The loop \<open>for (t = first; t <= last && days.length < MAX_DAYS; t += DAY_MS)\<close>; the fuel is what is left of MAX_DAYS.\<close>

fun days_from :: "nat \<Rightarrow> int \<Rightarrow> int \<Rightarrow> int list" where
  "days_from 0 t last_day = []"
| "days_from (Suc n) t last_day = (if t \<le> last_day then t # days_from n (t + 1) last_day else [])"

definition londonCalendarDays :: "(int \<Rightarrow> int \<times> int \<times> int) \<Rightarrow> int \<Rightarrow> int \<Rightarrow> LondonCalendarDay list" where
  "londonCalendarDays london starts ends =
     (let first = utc_days (london starts);
          final = utc_days (london (max starts (ends - 1)))
      in map civilDay (days_from MAX_DAYS first final))"

definition hasDeclaredAvailability :: "weekday list option \<Rightarrow> bool" where
  "hasDeclaredAvailability availableDays = (case availableDays of None \<Rightarrow> False | Some ds \<Rightarrow> ds \<noteq> [])"

definition findAvailabilityConflicts ::
  "(int \<Rightarrow> int \<times> int \<times> int) \<Rightarrow> weekday list option \<Rightarrow> int \<Rightarrow> int \<Rightarrow> LondonCalendarDay list option" where
  "findAvailabilityConflicts london availableDays starts ends =
     (if \<not> hasDeclaredAvailability availableDays then None
      else Some (filter (\<lambda>day. cd_weekday day \<notin> set (case availableDays of None \<Rightarrow> [] | Some ds \<Rightarrow> ds))
                   (londonCalendarDays london starts ends)))"

section \<open>The calendar is right\<close>

lemma doe_split:
  fixes doe :: int
  assumes "0 \<le> doe" and "doe < 146097" and "c = min 3 (doe div 36524)" and "r = doe - c * 36524"
    and "q = min 24 (r div 1461)" and "r' = r - q * 1461" and "a = min 3 (r' div 365)" and "doy = r' - a * 365"
  shows "0 \<le> c \<and> c \<le> 3 \<and> 0 \<le> q \<and> q \<le> 24 \<and> 0 \<le> a \<and> a \<le> 3 \<and> 0 \<le> doy \<and> doy \<le> 365"
proof -
  have c: "0 \<le> c" "c \<le> 3" "0 \<le> r" "r \<le> 36524"
    using assms(1-4) by (auto simp: min_def pos_imp_zdiv_nonneg_iff minus_mult_div_eq_mod)
  have q: "0 \<le> q" "q \<le> 24" "0 \<le> r'" "r' \<le> 1460"
    using assms(5,6) c by (auto simp: min_def pos_imp_zdiv_nonneg_iff)
  have a: "0 \<le> a" "a \<le> 3" "0 \<le> doy" "doy \<le> 365"
    using assms(7,8) q by (auto simp: min_def pos_imp_zdiv_nonneg_iff)
  show ?thesis using c q a by simp
qed

lemma utc_days_civil: "utc_days (civil_of_days z) = z"
proof -
  define w where "w = z + 719468"
  define doe where "doe = w mod 146097"
  define c where "c = min 3 (doe div 36524)"
  define r where "r = doe - c * 36524"
  define q where "q = min 24 (r div 1461)"
  define r' where "r' = r - q * 1461"
  define a where "a = min 3 (r' div 365)"
  define doy where "doy = r' - a * 365"
  define mp where "mp = (5 * doy + 2) div 153"
  define m where "m = (if mp < 10 then mp + 3 else mp - 9)"
  define yoe where "yoe = 100 * c + 4 * q + a"
  have b: "0 \<le> c" "c \<le> 3" "0 \<le> q" "q \<le> 24" "0 \<le> a" "a \<le> 3" "0 \<le> doy" "doy \<le> 365"
    using doe_split [OF _ _ c_def r_def q_def r'_def a_def doy_def] by (simp_all add: doe_def)
  have mp: "0 \<le> mp" "mp \<le> 11" using b(7,8) unfolding mp_def by linarith+
  have m: "(m + 9) mod 12 = mp" "(m \<le> 2) = (\<not> mp < 10)"
    using mp by (auto simp: m_def)
  have y: "0 \<le> yoe" "yoe < 400" using b(1-6) by (simp_all add: yoe_def)
  have d4: "yoe div 4 = 25 * c + q" and d100: "yoe div 100 = c"
    using b(1-6) unfolding yoe_def by linarith+
  have e: "(yoe + w div 146097 * 400) div 400 = w div 146097" "(yoe + w div 146097 * 400) mod 400 = yoe"
    using y by simp_all
  have "civil_of_days z = (yoe + w div 146097 * 400 + (if m \<le> 2 then 1 else 0), m, doy - (153 * mp + 2) div 5 + 1)"
    unfolding civil_of_days_def Let_def w_def [symmetric] doe_def [symmetric] c_def [symmetric] r_def [symmetric]
      q_def [symmetric] r'_def [symmetric] a_def [symmetric] doy_def [symmetric] mp_def [symmetric] m_def [symmetric]
      yoe_def [symmetric] ..
  moreover have "(if m \<le> 2 then yoe + w div 146097 * 400 + (if m \<le> 2 then 1 else 0) - 1
      else yoe + w div 146097 * 400 + (if m \<le> 2 then 1 else 0)) = yoe + w div 146097 * 400" by simp
  ultimately have "utc_days (civil_of_days z)
      = w div 146097 * 146097 + yoe * 365 + yoe div 4 - yoe div 100 + doy - 719468"
    by (simp add: utc_days_def Let_def m(1) e mod_pos_pos_trivial [OF y])
  also have "\<dots> = w div 146097 * 146097 + doe - 719468"
    unfolding d4 d100 by (simp add: yoe_def doy_def r'_def r_def)
  also have "\<dots> = z" by (simp add: doe_def w_def)
  finally show ?thesis .
qed

lemma days_from_upto: "days_from n t l = take n (upto t l)"
proof (induction n arbitrary: t)
  case 0
  then show ?case by simp
next
  case (Suc n)
  then show ?case by (cases "t \<le> l") (simp_all add: upto_rec1)
qed

lemma touched_days: "set (days_from n t l) = {d. t \<le> d \<and> d \<le> l \<and> d < t + int n}"
proof (induction n arbitrary: t)
  case 0
  then show ?case by auto
next
  case (Suc n)
  then show ?case by auto
qed

text \<open>
  Availability conflicts are exactly the undeclared days the window touches: for a window of at most 31 London days,
  a calendar day is reported if and only if it lies between the London date of the start and that of the last instant
  and its weekday is not declared; each reported date is the true civil date of its day; and staff who declared
  nothing never conflict.
\<close>

theorem availability_conflicts_exact:
  assumes "utc_days (london (max s (e - 1))) < utc_days (london s) + 31"
  shows "findAvailabilityConflicts london None s e = None \<and> findAvailabilityConflicts london (Some []) s e = None
    \<and> (declared \<noteq> [] \<longrightarrow> (\<exists>cs. findAvailabilityConflicts london (Some declared) s e = Some cs
      \<and> (\<forall>day. day \<in> set cs \<longleftrightarrow> (\<exists>d. utc_days (london s) \<le> d \<and> d \<le> utc_days (london (max s (e - 1)))
          \<and> utc_days (civil_of_days d) = d
          \<and> day = \<lparr>cd_date = iso_date (civil_of_days d), cd_weekday = weekday_of_days d\<rparr> \<and> weekday_of_days d \<notin> set declared))))"
  using assms
  by (auto simp: findAvailabilityConflicts_def hasDeclaredAvailability_def londonCalendarDays_def touched_days
      MAX_DAYS_def civilDay_def utc_days_civil image_iff)

theorem availability_conflicts_exact_witness:
  "let london = (\<lambda>t. civil_of_days (t div 86400000)) in
    \<exists>cs. findAvailabilityConflicts london (Some [Thursday]) 0 100000000 = Some cs
      \<and> \<lparr>cd_date = ''1970-01-02'', cd_weekday = Friday\<rparr> \<in> set cs"
proof -
  let ?l = "\<lambda>t. civil_of_days (t div 86400000)"
  obtain cs where cs: "findAvailabilityConflicts ?l (Some [Thursday]) 0 100000000 = Some cs"
    and i: "\<forall>day. day \<in> set cs \<longleftrightarrow> (\<exists>d. utc_days (?l 0) \<le> d \<and> d \<le> utc_days (?l (max 0 (100000000 - 1)))
          \<and> utc_days (civil_of_days d) = d
          \<and> day = \<lparr>cd_date = iso_date (civil_of_days d), cd_weekday = weekday_of_days d\<rparr> \<and> weekday_of_days d \<notin> set [Thursday])"
    using availability_conflicts_exact [of ?l 0 100000000 "[Thursday]"] by (auto simp: utc_days_civil)
  have w: "weekday_of_days 1 = Friday" by (simp add: weekday_of_days_def WEEKDAY_NAMES_def)
  have "iso_date (civil_of_days 1) = ''1970-01-02''" by code_simp
  moreover have "\<lparr>cd_date = iso_date (civil_of_days 1), cd_weekday = weekday_of_days 1\<rparr> \<in> set cs"
    unfolding i [rule_format] by (intro exI [of _ 1]) (simp add: utc_days_civil w)
  ultimately show ?thesis unfolding Let_def using cs w by auto
qed

end
