(* ===== verification/Staffing.thy ===== *)
theory Staffing
  imports Availability
begin

text \<open>
  The workspace database the staffing services share: shifts, assignments (seats), offers, staff, users, managers and
  attendances as tables, with the CHECK, UNIQUE and EXCLUDE constraints of the workspace schema
  (\<open>workspace-schema-v1.template.ts\<close>) applied by the write primitives. Row-level security shows an operation the rows of
  its own workspace: the tables here are those rows. On top of them: seats and vacancy (\<open>shift-vacancy.ts\<close>), the
  completion roll-up (\<open>complete-shift-if-settled.ts\<close>), the eligibility checks and the responsible manager.
\<close>

section \<open>Rows\<close>

text \<open>One field per column of the entity; the \<open>created_at\<close> and \<open>updated_at\<close> stamps, which no operation reads, are left out.
  Of the profiles and users only the columns the checks read are kept.\<close>

record shift_row =
  sh_id :: string
  sh_org :: string
  sh_workspace :: "string option"
  sh_venue :: string
  sh_status :: shift_status
  sh_starts_at :: int
  sh_ends_at :: int
  sh_default_starts_at :: "int option"
  sh_default_ends_at :: "int option"
  sh_break_minutes :: int
  sh_required_count :: int
  sh_filled_count :: int
  sh_pay_rate_pence :: int
  sh_created_by :: string
  sh_job_role :: string
  sh_charge_rate_pence :: int
  sh_notes :: "string option"
  sh_address :: "string option"
  sh_recurrence_group :: "string option"
  sh_published_at :: "int option"
  sh_cancelled_reason :: "string option"
  sh_cancelled_by :: "string option"
  sh_cancelled_at :: "int option"
  sh_requested_by :: "string option"
  sh_approved_at :: "int option"
  sh_approved_by :: "string option"
  sh_declined_at :: "int option"
  sh_declined_by :: "string option"
  sh_declined_reason :: "string option"
  sh_qr_version :: int
  sh_archived_at :: "int option"
  sh_archived_by :: "string option"

record assignment_row =
  sa_id :: string
  sa_org :: string
  sa_workspace :: "string option"
  sa_shift :: string
  sa_staff :: string
  sa_status :: assignment_status
  sa_period :: "ScheduledWindow option"
  sa_break_minutes :: "int option"
  sa_pay_snapshot :: int
  sa_assigned_by :: "string option"
  sa_confirmed_at :: "int option"
  sa_reviewed_at :: "int option" \<comment> \<open>attendance_reviewed_at, read by SQL only\<close>
  sa_reviewed_by :: "string option"
  sa_check_in_required :: bool
  sa_checked_in_at :: "int option"
  sa_check_in_source :: "string option"
  sa_check_in_location_verified :: "bool option"
  sa_check_in_distance_m :: "int option"
  sa_check_in_accuracy_m :: "int option"
  sa_check_in_captured_at :: "int option"

record offer_row =
  jo_id :: string
  jo_org :: string
  jo_workspace :: "string option"
  jo_assignment :: string
  jo_staff :: string
  jo_batch :: "string option"
  jo_status :: offer_status
  jo_kind :: "offer_kind option"
  jo_sent_at :: int
  jo_expires_at :: int
  jo_estimated_pay :: Pence
  jo_created_by :: "string option"
  jo_responded_at :: "int option"
  jo_decline_reason :: "string option"
  jo_staff_accepted_at :: "int option"
  jo_confirmed_at :: "int option"
  jo_confirmed_by :: "string option"
  jo_rejected_at :: "int option"
  jo_rejected_by :: "string option"
  jo_rejection_reason :: "string option"

record staff_row =
  sp_id :: string
  sp_user :: string
  sp_workspace :: "string option"
  sp_created_by :: "string option"
  sp_employment :: employment_status
  sp_available_days :: "weekday list option"

record user_row =
  us_id :: string
  us_org :: string
  us_status :: user_status
  us_deleted_at :: "int option"
  us_roles :: "string list"

text \<open>A manager profile with its \<open>manager_venue\<close> rows and its \<open>venue_manager_staff\<close> team rows (staff, organisation, workspace).\<close>

record manager_row =
  mp_id :: string
  mp_user :: string
  mp_type :: string
  mp_workspace :: "string option"
  mp_venues :: "string list"
  mp_team :: "(string \<times> string \<times> string) list"

text \<open>One row per attended seat. Coordinates are the \<open>numeric(9,6)\<close> values, accuracies the \<open>integer\<close> ones.\<close>

record attendance_row =
  at_id :: string
  at_org :: string
  at_assignment :: string
  at_shift :: string
  at_staff :: string
  at_workspace :: "string option"
  at_clock_in_at :: int
  at_clock_out_at :: "int option"
  at_post_shift_completed_at :: "int option"
  at_post_shift_expired_at :: "int option"
  at_status :: attendance_status
  at_worked_minutes :: "int option"
  at_earned_pence :: "Pence option"
  at_clock_in_lat :: "rat option"
  at_clock_in_lng :: "rat option"
  at_clock_in_accuracy_m :: "int option"
  at_clock_out_lat :: "rat option"
  at_clock_out_lng :: "rat option"
  at_clock_out_accuracy_m :: "int option"
  at_location_verified :: bool
  at_clock_out_method :: "string option"
  at_clock_in_method :: "string option"
  at_clock_in_by :: "string option"
  at_clock_in_reason :: "string option"
  at_clock_out_by :: "string option"
  at_clock_out_reason :: "string option"
  at_clock_in_captured_at :: "int option"
  at_break_minutes :: "int option"
  at_version :: nat \<comment> \<open>what \<open>updated_at\<close> stands for: changed by every update\<close>

text \<open>A venue: the columns the attendance and scheduling services read.\<close>

record venue_row =
  ve_id :: string
  ve_name :: string
  ve_lat :: "rat option"
  ve_lng :: "rat option"
  ve_geofence_radius_m :: int
  ve_enforce_geofence :: bool
  ve_workspace :: "string option"
  ve_created_by :: "string option"
  ve_status :: venue_status
  ve_archived_at :: "int option"
  ve_default_break_minutes :: "int option"

text \<open>A job role and a venue role rate; the dates of a rate are day numbers.\<close>

record job_role_row =
  jr_id :: string
  jr_name :: string
  jr_default_rate_pence :: int
  jr_created_by :: "string option"
  jr_archived_at :: "int option"

record rate_row =
  rr_venue :: string
  rr_job_role :: string
  rr_pay_rate_pence :: int
  rr_effective_from :: int
  rr_effective_to :: "int option"

text \<open>A staff member selected on a shift request.\<close>

record request_row =
  rq_shift :: string
  rq_staff :: string
  rq_workspace :: "string option"
  rq_starts_at :: "int option"
  rq_ends_at :: "int option"
  rq_break_minutes :: "int option"

record report_row =
  rp_shift :: string
  rp_status :: string
  rp_finalised_at :: "int option"
  rp_finalised_by :: "string option"
  rp_signed_off :: "string option"

record correction_row =
  ac_attendance :: string
  ac_field :: string
  ac_old :: string
  ac_new :: string
  ac_reason :: string
  ac_by :: string

datatype audit_action = OFFER_SENT | OFFER_AVAILABILITY_CONFLICT_ACKNOWLEDGED | AU_OFFER_ACCEPTED | AU_OFFER_DECLINED
  | AU_OFFER_WITHDRAWN | AU_OFFER_CONFIRMED | AU_OFFER_REJECTED | AU_OFFER_EXPIRED | OFFER_EXPIRED_BY_WORKER
  | OFFER_REJECTED_BY_WORKER | STAFF_CLOCKED_IN | STAFF_CLOCKED_OUT | STAFF_AUTO_CLOCKED_OUT_GEOFENCE
  | ATTENDANCE_CLOCKED_IN_ON_BEHALF | ATTENDANCE_CLOCKED_OUT_ON_BEHALF | STAFF_CHECKED_IN | SHIFT_ASSIGNMENT_NO_SHOW
  | ATTENDANCE_CORRECTED | ATTENDANCE_MANAGER_RECORDED | ATTENDANCE_REVIEWED | ATTENDANCE_NO_SHOW_CONFIRMED
  | ATTENDANCE_NO_SHOW_REOPENED | ATTENDANCE_REPORT_FINALISED | SHIFT_CREATED | SHIFT_DRAFT_UPDATED | SHIFT_PUBLISHED
  | AU_SHIFT_CANCELLED | SHIFT_ARCHIVED | SHIFT_RESTORED | SHIFT_REQUEST_SUBMITTED
  | SHIFT_REQUEST_AVAILABILITY_CONFLICT_ACKNOWLEDGED | SHIFT_REQUEST_STAFF_REMOVED | SHIFT_REQUEST_STAFF_ADDED
  | SHIFT_REQUEST_DECLINED | SHIFT_REQUEST_APPROVED | OFFER_WITHDRAWN_BY_WORKER | SHIFT_ASSIGNMENT_CANCELLED_BY_WORKER

text \<open>
  What a transaction appends besides the rows: audit entries (action, entity, actor; no actor for a system action),
  notifications (user, type, entity), realtime outbox records (type, entity; the audience is not modelled) and notes on a
  user. They roll back with the transaction.
\<close>

datatype event =
    Audit audit_action string "string option"
  | Notify string string string
  | Realtime string string
  | UserNote string string

record db =
  shifts :: "shift_row list"
  assignments :: "assignment_row list"
  offers :: "offer_row list"
  staff_profiles :: "staff_row list"
  users :: "user_row list"
  managers :: "manager_row list"
  attendances :: "attendance_row list"
  venues :: "venue_row list"
  reports :: "report_row list"
  corrections :: "correction_row list"
  job_roles :: "job_role_row list"
  role_rates :: "rate_row list"
  request_staff :: "request_row list"
  due_work :: "(string \<times> int) list" \<comment> \<open>confirmation-deadline pointers: offer, due\<close>
  events :: "event list"

text \<open>\<open>AuthContext\<close> of a request, and the clocks a transaction reads: Node's \<open>Date.now()\<close>, PostgreSQL's \<open>now()\<close> (fixed per
  transaction), \<open>clock_timestamp()\<close> at the deciding statement and at a later statement of the same transaction.\<close>

record auth_ctx =
  cx_org :: string
  cx_user :: string
  cx_workspace :: "string option"
  cx_inspected_by :: "string option"

record clock =
  node_now :: int
  tx_now :: int
  stmt_now :: int
  stmt_next :: int

section \<open>The tables are keyed\<close>

interpretation shift_table: keyed_table sh_id .
interpretation assignment_table: keyed_table sa_id .
interpretation offer_table: keyed_table jo_id .
interpretation attendance_table: keyed_table at_id .

definition find_shift :: "string \<Rightarrow> db \<Rightarrow> shift_row option" where
  "find_shift k d = find (\<lambda>r. sh_id r = k) (shifts d)"

definition find_assignment :: "string \<Rightarrow> db \<Rightarrow> assignment_row option" where
  "find_assignment k d = find (\<lambda>r. sa_id r = k) (assignments d)"

definition find_offer :: "string \<Rightarrow> db \<Rightarrow> offer_row option" where
  "find_offer k d = find (\<lambda>r. jo_id r = k) (offers d)"

definition find_staff :: "string \<Rightarrow> db \<Rightarrow> staff_row option" where
  "find_staff k d = find (\<lambda>r. sp_id r = k) (staff_profiles d)"

definition find_staff_of_user :: "string \<Rightarrow> db \<Rightarrow> staff_row option" where
  "find_staff_of_user u d = find (\<lambda>r. sp_user r = u) (staff_profiles d)"

definition find_user :: "string \<Rightarrow> db \<Rightarrow> user_row option" where
  "find_user k d = find (\<lambda>r. us_id r = k) (users d)"

definition find_attendance :: "string \<Rightarrow> db \<Rightarrow> attendance_row option" where
  "find_attendance k d = find (\<lambda>r. at_id r = k) (attendances d)"

definition has_attendance :: "string \<Rightarrow> db \<Rightarrow> bool" where
  "has_attendance aid d = (\<exists>r \<in> set (attendances d). at_assignment r = aid)"

section \<open>Constraints and writes\<close>

text \<open>The CHECK constraints of \<open>shift\<close>, those of \<open>archive-columns.ts\<close> last.\<close>

definition shift_checks :: "shift_row \<Rightarrow> bool" where
  "shift_checks s \<longleftrightarrow> 0 \<le> sh_break_minutes s \<and> sh_filled_count s \<le> sh_required_count s \<and> 0 \<le> sh_filled_count s
     \<and> 0 \<le> sh_pay_rate_pence s \<and> 0 \<le> sh_charge_rate_pence s \<and> 0 < sh_required_count s \<and> sh_starts_at s < sh_ends_at s
     \<and> (case (sh_default_starts_at s, sh_default_ends_at s) of
          (None, None) \<Rightarrow> True | (Some a, Some b) \<Rightarrow> a < b | _ \<Rightarrow> False)
     \<and> (sh_archived_at s = None \<longleftrightarrow> sh_archived_by s = None) \<and> (sh_archived_at s = None \<or> sh_status s = DRAFT)"

definition overlaps :: "ScheduledWindow \<Rightarrow> ScheduledWindow \<Rightarrow> bool" where
  "overlaps w v \<longleftrightarrow> startsAt w < endsAt v \<and> startsAt v < endsAt w"

definition booked :: "assignment_row \<Rightarrow> bool" where
  "booked a \<longleftrightarrow> sa_status a = A_CONFIRMED \<or> sa_status a = A_COMPLETED"

definition periods_overlap :: "ScheduledWindow option \<Rightarrow> ScheduledWindow option \<Rightarrow> bool" where
  "periods_overlap p q \<longleftrightarrow> (case (p, q) of (Some w, Some v) \<Rightarrow> overlaps w v | _ \<Rightarrow> False)"

text \<open>\<open>EXCLUDE USING gist (staff_profile_id WITH =, period WITH &&) WHERE (status IN ('confirmed', 'completed'))\<close>.\<close>

definition no_double_booking :: "assignment_row list \<Rightarrow> bool" where
  "no_double_booking t \<longleftrightarrow> (\<forall>a \<in> set t. \<forall>b \<in> set t. sa_id a \<noteq> sa_id b \<longrightarrow> sa_staff a = sa_staff b
     \<longrightarrow> booked a \<longrightarrow> booked b \<longrightarrow> \<not> periods_overlap (sa_period a) (sa_period b))"

definition EXCLUSION_VIOLATION :: error where "EXCLUSION_VIOLATION = DbError ''23P01''"
definition UNIQUE_VIOLATION :: error where "UNIQUE_VIOLATION = DbError ''23505''"
definition CHECK_VIOLATION :: error where "CHECK_VIOLATION = DbError ''23514''"
definition ROW_NOT_FOUND :: error where "ROW_NOT_FOUND = DbError ''EntityNotFound''"

definition update_shift :: "string \<Rightarrow> (shift_row \<Rightarrow> shift_row) \<Rightarrow> db \<Rightarrow> db res" where
  "update_shift k f d =
     (let t = update_where (\<lambda>s. sh_id s = k) f (shifts d) in
      if list_all shift_checks t then Inr (d\<lparr>shifts := t\<rparr>) else Inl CHECK_VIOLATION)"

definition update_assignment :: "string \<Rightarrow> (assignment_row \<Rightarrow> assignment_row) \<Rightarrow> db \<Rightarrow> db res" where
  "update_assignment k f d =
     (let t = update_where (\<lambda>a. sa_id a = k) f (assignments d) in
      if no_double_booking t then Inr (d\<lparr>assignments := t\<rparr>) else Inl EXCLUSION_VIOLATION)"

definition update_offer :: "string \<Rightarrow> (offer_row \<Rightarrow> offer_row) \<Rightarrow> db \<Rightarrow> db" where
  "update_offer k f d = d\<lparr>offers := update_where (\<lambda>r. jo_id r = k) f (offers d)\<rparr>"

definition insert_assignment :: "assignment_row \<Rightarrow> db \<Rightarrow> db res" where
  "insert_assignment a d =
     (if (\<exists>b \<in> set (assignments d). sa_id b = sa_id a \<or> (sa_shift b = sa_shift a \<and> sa_staff b = sa_staff a))
      then Inl UNIQUE_VIOLATION
      else if sa_pay_snapshot a < 0 \<or> (case sa_break_minutes a of None \<Rightarrow> False | Some b \<Rightarrow> b < 0) then Inl CHECK_VIOLATION
      else if \<not> no_double_booking (assignments d @ [a]) then Inl EXCLUSION_VIOLATION
      else Inr (d\<lparr>assignments := assignments d @ [a]\<rparr>))"

definition insert_offer :: "offer_row \<Rightarrow> db \<Rightarrow> db res" where
  "insert_offer r d =
     (if (\<exists>q \<in> set (offers d). jo_id q = jo_id r \<or> jo_assignment q = jo_assignment r) then Inl UNIQUE_VIOLATION
      else if jo_estimated_pay r < 0 then Inl CHECK_VIOLATION
      else Inr (d\<lparr>offers := offers d @ [r]\<rparr>))"

definition emit :: "event list \<Rightarrow> db \<Rightarrow> db" where
  "emit es d = d\<lparr>events := events d @ es\<rparr>"

definition audit_actor :: "auth_ctx \<Rightarrow> string option" where
  "audit_actor ctx = (case cx_inspected_by ctx of Some a \<Rightarrow> Some a | None \<Rightarrow> Some (cx_user ctx))"

text \<open>\<open>INSERT ... ON CONFLICT DO UPDATE SET due_at\<close>.\<close>

definition schedulePointer :: "string \<Rightarrow> int \<Rightarrow> db \<Rightarrow> db" where
  "schedulePointer oid due d = d\<lparr>due_work := (oid, due) # filter (\<lambda>p. fst p \<noteq> oid) (due_work d)\<rparr>"

section \<open>Seats and vacancy (shift-vacancy.ts)\<close>

definition occupiedSeatSql :: "assignment_row \<Rightarrow> bool" where
  "occupiedSeatSql a \<longleftrightarrow> sa_status a = A_CONFIRMED \<or> sa_status a = A_COMPLETED
     \<or> (sa_status a = A_NO_SHOW \<and> sa_reviewed_at a = None)"

definition confirmed_no_show :: "assignment_row \<Rightarrow> bool" where
  "confirmed_no_show a \<longleftrightarrow> sa_status a = A_NO_SHOW \<and> sa_reviewed_at a \<noteq> None"

definition seats_of :: "string \<Rightarrow> db \<Rightarrow> assignment_row list" where
  "seats_of sid d = filter (\<lambda>a. sa_shift a = sid) (assignments d)"

definition occupied :: "string \<Rightarrow> db \<Rightarrow> int" where
  "occupied sid d = int (count_where occupiedSeatSql (seats_of sid d))"

definition confirmed_no_shows :: "string \<Rightarrow> db \<Rightarrow> int" where
  "confirmed_no_shows sid d = int (count_where confirmed_no_show (seats_of sid d))"

definition vacancyFromCounts :: "int \<Rightarrow> int \<Rightarrow> int \<Rightarrow> int \<Rightarrow> int \<times> int" where
  "vacancyFromCounts requiredCount filledCount occ confirmedNoShows =
     (let effectiveFilled = max occ (filledCount - confirmedNoShows)
      in (effectiveFilled, max 0 (requiredCount - effectiveFilled)))"

record ShiftVacancy =
  va_requiredCount :: int
  va_occupied :: int
  va_confirmedNoShows :: int
  va_provisionalNoShows :: int
  va_pendingOffers :: int
  va_acceptedAwaiting :: int
  va_vacancy :: int

definition loadShiftVacancy :: "string \<Rightarrow> db \<Rightarrow> ShiftVacancy" where
  "loadShiftVacancy sid d =
     (case find_shift sid d of
        None \<Rightarrow> \<lparr>va_requiredCount = 0, va_occupied = 0, va_confirmedNoShows = 0, va_provisionalNoShows = 0,
          va_pendingOffers = 0, va_acceptedAwaiting = 0, va_vacancy = 0\<rparr>
      | Some s \<Rightarrow> \<lparr>va_requiredCount = sh_required_count s, va_occupied = occupied sid d,
          va_confirmedNoShows = confirmed_no_shows sid d,
          va_provisionalNoShows = int (count_where (\<lambda>a. sa_status a = A_NO_SHOW \<and> sa_reviewed_at a = None) (seats_of sid d)),
          va_pendingOffers = int (count_where (\<lambda>a. sa_status a = A_OFFERED) (seats_of sid d)),
          va_acceptedAwaiting = int (count_where (\<lambda>a. sa_status a = A_STAFF_ACCEPTED) (seats_of sid d)),
          va_vacancy = snd (vacancyFromCounts (sh_required_count s) (sh_filled_count s) (occupied sid d) (confirmed_no_shows sid d))\<rparr>)"

section \<open>Completion roll-up (complete-shift-if-settled.ts)\<close>

definition OPEN_SEAT_STATUSES :: "assignment_status list" where
  "OPEN_SEAT_STATUSES = [A_OFFERED, A_STAFF_ACCEPTED, A_CONFIRMED]"

text \<open>The status under \<open>FOR UPDATE\<close>; the lock itself is the atomicity of the transaction step.\<close>

definition lockShiftRow :: "string \<Rightarrow> string \<Rightarrow> db \<Rightarrow> shift_status option" where
  "lockShiftRow org sid d =
     (case find_shift sid d of
        Some s \<Rightarrow> if sh_org s = org then Some (sh_status s) else None
      | None \<Rightarrow> None)"

definition open_seats :: "string \<Rightarrow> string \<Rightarrow> db \<Rightarrow> nat" where
  "open_seats org sid d =
     count_where (\<lambda>a. sa_shift a = sid \<and> sa_org a = org \<and> sa_status a \<in> set OPEN_SEAT_STATUSES) (assignments d)"

definition completeShiftIfSettled :: "string \<Rightarrow> string \<Rightarrow> db \<Rightarrow> (db \<times> bool) res" where
  "completeShiftIfSettled org sid d =
     (let status = lockShiftRow org sid d in
      if status \<noteq> Some IN_PROGRESS then Inr (d, False)
      else if 0 < open_seats org sid d then Inr (d, False)
      else bindE (assertTransition shift_status_str SHIFT_TRANSITIONS IN_PROGRESS COMPLETED) (\<lambda>_.
           bindE (update_shift sid (\<lambda>s. if sh_org s = org \<and> sh_status s = IN_PROGRESS then s\<lparr>sh_status := COMPLETED\<rparr> else s) d)
             (\<lambda>d'. Inr (d', True))))"

section \<open>Who may receive an offer\<close>

definition assertStaffEligibleForOffer :: "string \<Rightarrow> string \<Rightarrow> ScheduledWindow \<Rightarrow> db \<Rightarrow> staff_row res" where
  "assertStaffEligibleForOffer staffId shiftId window d =
     bindE (from_option (NotFound ''Staff member not found.'') (find_staff staffId d)) (\<lambda>sp.
     bindE (require (sp_employment sp = E_ACTIVE) (Conflict ''This staff member is not actively employed.'')) (\<lambda>_.
     bindE (require (case find_user (sp_user sp) d of None \<Rightarrow> False | Some u \<Rightarrow> us_status u = U_ACTIVE)
              (Conflict ''This staff member is not an active account.'')) (\<lambda>_.
     bindE (require (\<not> (\<exists>a \<in> set (assignments d). sa_shift a = shiftId \<and> sa_staff a = staffId))
              (Conflict ''This staff member has already been offered this shift.'')) (\<lambda>_.
     bindE (require (\<not> (\<exists>a \<in> set (assignments d). sa_staff a = staffId \<and> booked a
                       \<and> periods_overlap (sa_period a) (Some window)))
              (Conflict ''This staff member already has a confirmed shift that overlaps this time.'')) (\<lambda>_.
     Inr sp)))))"

definition assertVenueTeamSelection :: "auth_ctx \<Rightarrow> string list \<Rightarrow> string option \<Rightarrow> db \<Rightarrow> unit res" where
  "assertVenueTeamSelection ctx ids workspaceId d =
     (if \<not> (\<exists>u \<in> set (users d). us_id u = cx_user ctx \<and> ''venue_manager'' \<in> set (us_roles u)) then Inr ()
      else require (\<forall>i \<in> set ids. \<exists>m \<in> set (managers d). \<exists>t \<in> set (mp_team m). \<exists>sp \<in> set (staff_profiles d). \<exists>u \<in> set (users d).
               mp_user m = cx_user ctx \<and> fst t = i \<and> fst (snd t) = cx_org ctx \<and> Some (snd (snd t)) = workspaceId
               \<and> sp_id sp = i \<and> sp_workspace sp = Some (snd (snd t)) \<and> us_id u = sp_user sp \<and> us_status u = U_ACTIVE)
             (NotFound ''Selected staff member not found in your team.''))"

text \<open>The dispatch-boundary availability check (\<open>staff-availability.ts\<close>): a recipient is a staff id with its window, an
  acknowledgement a staff id with dates; the result lists the conflicting recipients with their dates. The
  message of the refusal, which names the staff, is left empty.\<close>

definition evaluateStaffAvailability ::
  "(int \<Rightarrow> int \<times> int \<times> int) \<Rightarrow> (string \<times> ScheduledWindow) list \<Rightarrow> db \<Rightarrow> (string \<times> LondonCalendarDay list) list" where
  "evaluateStaffAvailability london recipients d =
     concat (map (\<lambda>(i, w). case find_staff i d of
         None \<Rightarrow> []
       | Some sp \<Rightarrow> (case findAvailabilityConflicts london (sp_available_days sp) (startsAt w) (endsAt w) of
             None \<Rightarrow> [] | Some [] \<Rightarrow> [] | Some cs \<Rightarrow> [(sp_id sp, cs)])) recipients)"

definition isAcknowledged :: "string \<times> LondonCalendarDay list \<Rightarrow> (string \<times> string list) list \<Rightarrow> bool" where
  "isAcknowledged conflict acks =
     (\<forall>day \<in> set (snd conflict). \<exists>a \<in> set acks. fst a = fst conflict \<and> cd_date day \<in> set (snd a))"

definition assertStaffAvailabilityAcknowledged ::
  "(int \<Rightarrow> int \<times> int \<times> int) \<Rightarrow> (string \<times> ScheduledWindow) list \<Rightarrow> (string \<times> string list) list \<Rightarrow> db
    \<Rightarrow> (string \<times> LondonCalendarDay list) list res" where
  "assertStaffAvailabilityAcknowledged london recipients acks d =
     (let conflicts = evaluateStaffAvailability london recipients d in
      if \<exists>c \<in> set conflicts. \<not> isAcknowledged c acks
      then Inl (CodedConflict ''STAFF_AVAILABILITY_CONFLICT'' [])
      else Inr conflicts)"

section \<open>Whom a withdrawal tells\<close>

definition manager_workspace_of :: "string \<Rightarrow> db \<Rightarrow> string option" where
  "manager_workspace_of u d =
     (case find (\<lambda>m. mp_user m = u) (managers d) of None \<Rightarrow> None | Some m \<Rightarrow> mp_workspace m)"

definition resolveResponsibleManager :: "string \<Rightarrow> assignment_row \<Rightarrow> shift_row \<Rightarrow> db \<Rightarrow> string option" where
  "resolveResponsibleManager org a s d =
     (let candidates = (case sa_assigned_by a of None \<Rightarrow> [] | Some u \<Rightarrow> [u]) @ [sh_created_by s];
          required = (case sa_workspace a of None \<Rightarrow> sh_workspace s | Some w \<Rightarrow> Some w)
      in find (\<lambda>c. case find_user c d of
                 None \<Rightarrow> False
               | Some u \<Rightarrow> us_org u = org \<and> us_status u = U_ACTIVE
                   \<and> (case required of None \<Rightarrow> True | Some w \<Rightarrow> manager_workspace_of c d = Some w)) candidates)"

definition venueManagerUserIds :: "string \<Rightarrow> db \<Rightarrow> string list" where
  "venueManagerUserIds venue d =
     remdups (map mp_user (filter (\<lambda>m. venue \<in> set (mp_venues m)
        \<and> (\<exists>u \<in> set (users d). us_id u = mp_user m \<and> us_status u = U_ACTIVE \<and> us_deleted_at u = None
             \<and> ''venue_manager'' \<in> set (us_roles u))) (managers d)))"

end
