(* ===== verification/Offers.thy ===== *)
theory Offers
  imports Staffing
begin

text \<open>
  The offer lifecycle (\<open>rab-server/src/modules/offer/services\<close>): sending, the staff member's accept and decline, the
  manager's confirm and reject, withdrawal by the sender, cancellation of a booking, expiry, and the withdrawal at the
  manager-confirmation deadline with the Worker's candidate body (\<open>rab-worker/src/queues/rab-offers\<close>). An em dash in a
  message is written as two hyphens.

  Every transaction is one function on the database. Reads the code makes before it holds the shift row lock come from a
  separate snapshot \<open>d0\<close>, which may be older than the state \<open>d\<close> the locked statements see: the guards that decide a race
  are the compare-and-set conditions on \<open>d\<close>, as in the code. A sequential run has \<open>d0 = d\<close>. A throw rolls back:
  it is an \<open>Inl\<close>, with no state.
\<close>

section \<open>Messages\<close>

definition CDP_CODE :: string where "CDP_CODE = ''CONFIRMATION_DEADLINE_PASSED''"

definition DEADLINE_REASON :: string where
  "DEADLINE_REASON = closed_reason_str CONFIRMATION_DEADLINE_PASSED"

definition MSG_CONFIRM :: string where
  "MSG_CONFIRM = ''The manager-confirmation deadline has passed, so this acceptance can no longer be confirmed.''"
definition MSG_CONFIRM_REPLACEMENT :: string where
  "MSG_CONFIRM_REPLACEMENT = ''This shift has ended, so this replacement can no longer be confirmed.''"
definition MSG_ACCEPT :: string where
  "MSG_ACCEPT = ''This shift starts too soon for a manager to confirm it, so it can no longer be accepted.''"
definition MSG_ACCEPT_REPLACEMENT :: string where
  "MSG_ACCEPT_REPLACEMENT = ''This shift has ended, so this offer can no longer be accepted.''"
definition MSG_REJECT :: string where
  "MSG_REJECT = ''The manager-confirmation deadline has passed, so this acceptance has already been withdrawn.''"
definition MSG_SEND :: string where
  "MSG_SEND = ''This shift starts in less than 30 minutes, so an offer could not be confirmed in time.''"
definition MSG_RESPONDED :: string where
  "MSG_RESPONDED = ''This offer was already responded to -- please refresh and try again.''"
definition NO_VACANCY_MESSAGE :: string where
  "NO_VACANCY_MESSAGE = ''NO_VACANCY: No vacancy -- the original staff member is still assigned.''"

fun error_message :: "error \<Rightarrow> string" where
  "error_message (InvalidTransition f t) = ''Invalid transition: '' @ f @ '' -> '' @ t"
| "error_message (RangeError m) = m"
| "error_message (NotFound m) = m"
| "error_message (BadRequest m) = m"
| "error_message (CodedBadRequest c m) = m"
| "error_message (Forbidden m) = m"
| "error_message (Conflict m) = m"
| "error_message (CodedConflict c m) = m"
| "error_message (DeadlinePassed oid m) = m"
| "error_message (DbError m) = m"

section \<open>Shared steps\<close>

definition assertOfferOwned :: "auth_ctx \<Rightarrow> offer_row \<Rightarrow> unit res" where
  "assertOfferOwned ctx r = require (jo_created_by r = Some (cx_user ctx)) (NotFound ''Offer not found.'')"

definition isWithdrawnAtDeadline :: "offer_row \<Rightarrow> bool" where
  "isWithdrawnAtDeadline r \<longleftrightarrow> jo_status r = MANAGER_REJECTED \<and> jo_rejected_by r = None
     \<and> jo_rejection_reason r = Some DEADLINE_REASON"

abbreviation "assertOffer \<equiv> assertTransition offer_status_str OFFER_TRANSITIONS"
abbreviation "assertSeat \<equiv> assertTransition assignment_status_str SHIFT_ASSIGNMENT_TRANSITIONS"
abbreviation "assertShift \<equiv> assertTransition shift_status_str SHIFT_TRANSITIONS"

definition shift_window :: "shift_row \<Rightarrow> ScheduledWindow" where
  "shift_window s = \<lparr>startsAt = sh_starts_at s, endsAt = sh_ends_at s\<rparr>"

text \<open>The rows an offer statement joins (\<open>o, sa JOIN s\<close>), and the deadline over them.\<close>

definition offer_join :: "string \<Rightarrow> db \<Rightarrow> (offer_row \<times> assignment_row \<times> shift_row) option" where
  "offer_join oid d =
     (case find_offer oid d of None \<Rightarrow> None
      | Some r \<Rightarrow> (case find_assignment (jo_assignment r) d of None \<Rightarrow> None
          | Some a \<Rightarrow> (case find_shift (sa_shift a) d of None \<Rightarrow> None
              | Some s \<Rightarrow> Some (r, a, s))))"

definition deadline_of :: "offer_row \<Rightarrow> assignment_row \<Rightarrow> shift_row \<Rightarrow> int" where
  "deadline_of r a s = confirmationDeadlineSql (jo_kind r) (sa_period a) (shift_window s)"

definition window_open :: "clock \<Rightarrow> string \<Rightarrow> window_action \<Rightarrow> db \<Rightarrow> unit res" where
  "window_open clk sid act d = assertShiftActionWindowOpen (tx_now clk) (map_option sh_ends_at (find_shift sid d)) act"

section \<open>Sending\<close>

definition loadSendableShift :: "auth_ctx \<Rightarrow> string \<Rightarrow> db \<Rightarrow> shift_row res" where
  "loadSendableShift ctx shiftId d =
     bindE (from_option (NotFound ''Shift not found.'') (find_shift shiftId d)) (\<lambda>s.
     bindE (require (sh_created_by s = cx_user ctx) (NotFound ''Shift not found.'')) (\<lambda>_.
     bindE (require (sh_status s \<in> {OPEN, OFFERED, PARTIALLY_FILLED})
              (Conflict ''Offers can only be sent for a published, unfilled shift.'')) (\<lambda>_.
     bindE (require (sh_filled_count s < sh_required_count s)
              (Conflict ''This shift is already fully staffed.'')) (\<lambda>_.
     Inr s))))"

text \<open>A proposed time is a window with an optional break; \<open>ids\<close> are the two fresh UUIDs.\<close>

record proposed_time =
  pt_start :: "int option"
  pt_end :: "int option"
  pt_break :: "rat option"

record send_env =
  se_london :: "int \<Rightarrow> int \<times> int \<times> int"
  se_batch :: string
  se_expires_in_hours :: "int option"
  se_acks :: "(string \<times> string list) list"
  se_kind :: offer_kind

definition shift_default_time :: "shift_row \<Rightarrow> ScheduledWindow" where
  "shift_default_time s = defaultAssignmentTime (sh_default_starts_at s) (sh_default_ends_at s) (shift_window s)"

definition send_time :: "shift_row \<Rightarrow> proposed_time option \<Rightarrow> rat \<Rightarrow> ScheduledWindow res" where
  "send_time s proposed brk =
     (let dflt = shift_default_time s in
      case proposed of
        None \<Rightarrow> validateAssignmentTime (Some (sh_starts_at s)) (Some (sh_ends_at s)) (Some (startsAt dflt)) (Some (endsAt dflt)) brk
      | Some p \<Rightarrow> validateAssignmentTime (Some (sh_starts_at s)) (Some (sh_ends_at s)) (pt_start p) (pt_end p) brk)"

definition send_break :: "shift_row \<Rightarrow> proposed_time option \<Rightarrow> rat" where
  "send_break s proposed =
     (case proposed of None \<Rightarrow> of_int (sh_break_minutes s)
      | Some p \<Rightarrow> (case pt_break p of None \<Rightarrow> of_int (sh_break_minutes s) | Some b \<Rightarrow> b))"

definition expand_shift :: "shift_row \<Rightarrow> ScheduledWindow \<Rightarrow> shift_row \<Rightarrow> shift_row" where
  "expand_shift s time row =
     (let env = assignmentEnvelope (shift_window s) [time] in
      row\<lparr>sh_starts_at := min (sh_starts_at row) (startsAt env),
          sh_ends_at := max (sh_ends_at row) (endsAt env),
          sh_default_starts_at := (case sh_default_starts_at row of Some t \<Rightarrow> Some t
             | None \<Rightarrow> Some (startsAt (shift_default_time s))),
          sh_default_ends_at := (case sh_default_ends_at row of Some t \<Rightarrow> Some t
             | None \<Rightarrow> Some (endsAt (shift_default_time s)))\<rparr>)"

text \<open>The rows a send inserts; \<open>ids\<close> are the fresh seat and offer ids.\<close>

definition new_seat :: "auth_ctx \<Rightarrow> shift_row \<Rightarrow> string \<Rightarrow> proposed_time option \<Rightarrow> string \<times> string \<Rightarrow> ScheduledWindow \<Rightarrow> assignment_row" where
  "new_seat ctx s staffId proposed ids time =
     \<lparr>sa_id = fst ids, sa_org = cx_org ctx, sa_workspace = sh_workspace s, sa_shift = sh_id s, sa_staff = staffId,
      sa_status = A_OFFERED, sa_period = Some time,
      sa_break_minutes = (case proposed of None \<Rightarrow> None | Some p \<Rightarrow> map_option floor (pt_break p)),
      sa_pay_snapshot = sh_pay_rate_pence s, sa_assigned_by = Some (cx_user ctx), sa_confirmed_at = None,
      sa_reviewed_at = None, sa_reviewed_by = None, sa_check_in_required = True, sa_checked_in_at = None, sa_check_in_source = None,
      sa_check_in_location_verified = None, sa_check_in_distance_m = None, sa_check_in_accuracy_m = None,
      sa_check_in_captured_at = None\<rparr>"

definition new_offer :: "send_env \<Rightarrow> auth_ctx \<Rightarrow> clock \<Rightarrow> shift_row \<Rightarrow> string \<Rightarrow> string \<times> string \<Rightarrow> Pence \<Rightarrow> offer_row" where
  "new_offer env ctx clk s staffId ids pay =
     \<lparr>jo_id = snd ids, jo_org = cx_org ctx, jo_workspace = sh_workspace s, jo_assignment = fst ids, jo_staff = staffId,
      jo_batch = Some (se_batch env), jo_status = PENDING, jo_kind = Some (se_kind env), jo_sent_at = node_now clk,
      jo_expires_at = node_now clk + (case se_expires_in_hours env of None \<Rightarrow> 48 | Some h \<Rightarrow> h) * 3600000,
      jo_estimated_pay = pay, jo_created_by = Some (cx_user ctx), jo_responded_at = None, jo_decline_reason = None,
      jo_staff_accepted_at = None, jo_confirmed_at = None, jo_confirmed_by = None, jo_rejected_at = None,
      jo_rejected_by = None, jo_rejection_reason = None\<rparr>"

text \<open>\<open>s\<close> is the shift entity in memory (read under the lock before the first recipient), \<open>d\<close> the current state.\<close>

definition sendOne ::
  "send_env \<Rightarrow> auth_ctx \<Rightarrow> clock \<Rightarrow> shift_row \<Rightarrow> string \<Rightarrow> proposed_time option \<Rightarrow> string \<times> string \<Rightarrow> db \<Rightarrow> (db \<times> offer_row) res" where
  "sendOne env ctx clk s staffId proposed ids d =
     bindE (window_open clk (sh_id s) WSend d) (\<lambda>_.
     bindE (send_time s proposed (send_break s proposed)) (\<lambda>time.
     bindE (assertVenueTeamSelection ctx [staffId] (sh_workspace s) d) (\<lambda>_.
     bindE (require (\<not> (se_kind env = STANDARD
              \<and> startsAt time - MANAGER_CONFIRMATION_LEAD_MINUTES * 60000 \<le> stmt_now clk))
              (CodedConflict CDP_CODE MSG_SEND)) (\<lambda>_.
     bindE (assertStaffEligibleForOffer staffId (sh_id s) time d) (\<lambda>sp.
     bindE (assertStaffAvailabilityAcknowledged (se_london env) [(staffId, time)] (se_acks env) d) (\<lambda>acked.
     bindE (insert_assignment (new_seat ctx s staffId proposed ids time) d) (\<lambda>d1.
     bindE (update_shift (sh_id s) (expand_shift s time) d1) (\<lambda>d2.
     bindE (computeWorkedMinutes \<lparr>wm_clockInAt = startsAt time, wm_clockOutAt = endsAt time, wm_breaks = None,
              wm_scheduledBreakMinutes = Some \<lfloor>send_break s proposed\<rfloor>, wm_breaksPaidByDefault = None\<rparr>) (\<lambda>worked.
     bindE (payForMinutes (of_int (sh_pay_rate_pence s)) (of_int (workedMinutes worked))) (\<lambda>pay.
     let r = new_offer env ctx clk s staffId ids pay
     in bindE (insert_offer r d2) (\<lambda>d3.
        Inr (emit ([Audit OFFER_SENT (jo_id r) (audit_actor ctx)]
                   @ (if acked = [] then [] else [Audit OFFER_AVAILABILITY_CONFLICT_ACKNOWLEDGED (jo_id r) (audit_actor ctx)])
                   @ [Notify (sp_user sp) ''offer_sent'' (jo_id r), Realtime ''offer.sent'' (jo_id r)]) d3, r))))))))))))"

definition open_to_offered :: "shift_row \<Rightarrow> db \<Rightarrow> db res" where
  "open_to_offered s d =
     (if sh_status s = OPEN
      then bindE (assertShift OPEN OFFERED) (\<lambda>_. update_shift (sh_id s) (\<lambda>row. row\<lparr>sh_status := OFFERED\<rparr>) d)
      else Inr d)"

definition send :: "send_env \<Rightarrow> auth_ctx \<Rightarrow> clock \<Rightarrow> string \<Rightarrow> string \<Rightarrow> string \<times> string \<Rightarrow> db \<Rightarrow> (db \<times> offer_row) res" where
  "send env ctx clk shiftId staffId ids d =
     bindE (loadSendableShift ctx shiftId d) (\<lambda>s.
     bindE (sendOne (env\<lparr>se_kind := STANDARD\<rparr>) ctx clk s staffId None ids d) (\<lambda>(d1, r).
     bindE (open_to_offered s d1) (\<lambda>d2. Inr (d2, r))))"

definition sendOneWithManager :: "send_env \<Rightarrow> auth_ctx \<Rightarrow> clock \<Rightarrow> shift_row \<Rightarrow> string \<Rightarrow> string \<times> string \<Rightarrow> db \<Rightarrow> (db \<times> offer_row) res" where
  "sendOneWithManager env ctx clk s staffId ids d =
     bindE (sendOne (env\<lparr>se_kind := STANDARD\<rparr>) ctx clk s staffId None ids d) (\<lambda>(d1, r).
     bindE (open_to_offered s d1) (\<lambda>d2. Inr (d2, r)))"

text \<open>One recipient's outcome in a bulk result: the offer id, or the message of its failure.\<close>

type_synonym recipient_result = "string \<times> (string + string)"

text \<open>The loop with a SAVEPOINT per recipient: a failure restores the state before that recipient and goes on.\<close>

fun send_loop ::
  "send_env \<Rightarrow> auth_ctx \<Rightarrow> clock \<Rightarrow> shift_row \<Rightarrow> (string \<Rightarrow> proposed_time option) \<Rightarrow> (string \<Rightarrow> string \<times> string)
    \<Rightarrow> (string \<Rightarrow> db \<Rightarrow> unit res) \<Rightarrow> string list \<Rightarrow> db \<Rightarrow> recipient_result list \<Rightarrow> db \<times> recipient_result list" where
  "send_loop env ctx clk s proposed uuid pre [] d results = (d, results)"
| "send_loop env ctx clk s proposed uuid pre (staffId # rest) d results =
     (case bindE (pre staffId d) (\<lambda>_. sendOne env ctx clk s staffId (proposed staffId) (uuid staffId) d) of
        Inr (d', r) \<Rightarrow> send_loop env ctx clk s proposed uuid pre rest d' (results @ [(staffId, Inr (jo_id r))])
      | Inl e \<Rightarrow> send_loop env ctx clk s proposed uuid pre rest d (results @ [(staffId, Inl (error_message e))]))"

definition any_ok :: "recipient_result list \<Rightarrow> bool" where
  "any_ok results \<longleftrightarrow> (\<exists>r \<in> set results. case snd r of Inr _ \<Rightarrow> True | Inl _ \<Rightarrow> False)"

text \<open>The loop from an empty result list, then OPEN to OFFERED when one recipient was sent to.\<close>

definition send_all ::
  "send_env \<Rightarrow> auth_ctx \<Rightarrow> clock \<Rightarrow> shift_row \<Rightarrow> (string \<Rightarrow> proposed_time option) \<Rightarrow> (string \<Rightarrow> string \<times> string)
    \<Rightarrow> (string \<Rightarrow> db \<Rightarrow> unit res) \<Rightarrow> string list \<Rightarrow> db \<Rightarrow> (db \<times> recipient_result list) res" where
  "send_all env ctx clk s proposed uuid pre staffIds d =
     (let (d1, results) = send_loop env ctx clk s proposed uuid pre staffIds d []
      in bindE (if any_ok results then open_to_offered s d1 else Inr d1) (\<lambda>d2. Inr (d2, results)))"

text \<open>The per-staff times of the request, checked one after the other; a repeated or unknown staff id is refused.\<close>

fun check_windows ::
  "shift_row \<Rightarrow> string list \<Rightarrow> (string \<times> proposed_time) list \<Rightarrow> (string \<times> proposed_time) list \<Rightarrow> (string \<times> proposed_time) list res" where
  "check_windows s staffIds [] acc = Inr acc"
| "check_windows s staffIds ((i, p) # rest) acc =
     bindE (require (i \<in> set staffIds \<and> i \<notin> set (map fst acc)) (BadRequest ''Invalid or duplicate staff assignment.'')) (\<lambda>_.
     bindE (send_time s (Some p) (send_break s (Some p))) (\<lambda>_.
     check_windows s staffIds rest (acc @ [(i, p)])))"

record bulk_dto =
  bd_staff_ids :: "string list"
  bd_staff_assignments :: "(string \<times> proposed_time) list"
  bd_replacement :: bool

definition proposed_window :: "shift_row \<Rightarrow> proposed_time option \<Rightarrow> ScheduledWindow" where
  "proposed_window s proposed =
     (case proposed of
        Some p \<Rightarrow> (case (pt_start p, pt_end p) of (Some a, Some b) \<Rightarrow> \<lparr>startsAt = a, endsAt = b\<rparr> | _ \<Rightarrow> shift_default_time s)
      | None \<Rightarrow> shift_default_time s)"

text \<open>\<open>sendReplacementBulk\<close> and its \<open>loadReplacementShift\<close>; \<open>may_send\<close> is the answer of the permission service.\<close>

definition REPLACEABLE_SHIFT_STATUSES :: "shift_status list" where
  "REPLACEABLE_SHIFT_STATUSES = [OPEN, OFFERED, PARTIALLY_FILLED, FULLY_FILLED, CONFIRMED, IN_PROGRESS]"

definition loadReplacementShift ::
  "bool \<Rightarrow> auth_ctx \<Rightarrow> clock \<Rightarrow> string \<Rightarrow> db \<Rightarrow> (shift_row \<times> (string + ScheduledWindow)) res" where
  "loadReplacementShift may_send ctx clk shiftId d =
     bindE (require may_send (Forbidden ''Permission required.'')) (\<lambda>_.
     bindE (from_option (NotFound ''Shift not found.'') (find_shift shiftId d)) (\<lambda>s.
     bindE (require (sh_org s = cx_org ctx \<and> cx_workspace ctx \<noteq> None \<and> sh_workspace s = cx_workspace ctx
                     \<and> sh_created_by s = cx_user ctx) (NotFound ''Shift not found.'')) (\<lambda>_.
     let original = shift_default_time s; start = max (startsAt original) (tx_now clk) in
     Inr (s,
       if sh_status s \<notin> set REPLACEABLE_SHIFT_STATUSES
       then Inl ''Replacement offers can only be sent for a published shift that has not finished.''
       else if endsAt original \<le> tx_now clk then Inl ''This shift has ended, so no replacement offers can be sent.''
       else if fl (fl (of_int (endsAt original - start)) / 60000) \<le> of_int (sh_break_minutes s)
       then Inl ''Too little of this shift remains to send a replacement offer.''
       else Inr \<lparr>startsAt = start, endsAt = endsAt original\<rparr>))))"

definition same_workspace :: "shift_row \<Rightarrow> string \<Rightarrow> db \<Rightarrow> unit res" where
  "same_workspace s staffId d =
     require (case find_staff staffId d of None \<Rightarrow> False | Some sp \<Rightarrow> sp_workspace sp = sh_workspace s)
       (NotFound ''Staff member not found.'')"

definition sendReplacementBulk ::
  "bool \<Rightarrow> send_env \<Rightarrow> auth_ctx \<Rightarrow> clock \<Rightarrow> (string \<Rightarrow> string \<times> string) \<Rightarrow> string \<Rightarrow> bulk_dto \<Rightarrow> db \<Rightarrow> (db \<times> recipient_result list) res" where
  "sendReplacementBulk may_send env ctx clk uuid shiftId dto d =
     bindE (require (bd_staff_assignments dto = [])
        (BadRequest ''A replacement inherits the original shift times; per-staff times are not accepted.'')) (\<lambda>_.
     bindE (loadReplacementShift may_send ctx clk shiftId d) (\<lambda>(s, verdict).
     bindE (case verdict of Inl reason \<Rightarrow> Inl (Conflict reason) | Inr w \<Rightarrow> Inr w) (\<lambda>w.
     let kind = (if 0 < va_vacancy (loadShiftVacancy (sh_id s) d) then REPLACEMENT else STANDBY);
         p = \<lparr>pt_start = Some (startsAt w), pt_end = Some (endsAt w), pt_break = None\<rparr>
     in bindE (assertStaffAvailabilityAcknowledged (se_london env) (map (\<lambda>i. (i, w)) (bd_staff_ids dto)) (se_acks env) d) (\<lambda>_.
     send_all (env\<lparr>se_kind := kind\<rparr>) ctx clk s (\<lambda>_. Some p) uuid (same_workspace s) (bd_staff_ids dto) d))))"

definition sendBulk ::
  "bool \<Rightarrow> send_env \<Rightarrow> auth_ctx \<Rightarrow> clock \<Rightarrow> (string \<Rightarrow> string \<times> string) \<Rightarrow> string \<Rightarrow> bulk_dto \<Rightarrow> db \<Rightarrow> (db \<times> recipient_result list) res" where
  "sendBulk may_send env ctx clk uuid shiftId dto d =
     (if bd_replacement dto then sendReplacementBulk may_send env ctx clk uuid shiftId dto d
      else
     bindE (loadSendableShift ctx shiftId d) (\<lambda>s.
     bindE (check_windows s (bd_staff_ids dto) (bd_staff_assignments dto) []) (\<lambda>windows.
     bindE (assertStaffAvailabilityAcknowledged (se_london env)
              (map (\<lambda>i. (i, proposed_window s (map_of windows i))) (bd_staff_ids dto)) (se_acks env) d) (\<lambda>_.
     send_all (env\<lparr>se_kind := STANDARD\<rparr>) ctx clk s (map_of windows) uuid (\<lambda>_ _. Inr ()) (bd_staff_ids dto) d))))"

end
