(* ===== verification/OfferResponses.thy ===== *)
theory OfferResponses
  imports Offers
begin

text \<open>
  Answers to an offer, continued from \<open>Offers\<close>: accept with its lazy expiry, decline, the sender's withdrawal, the
  manager's confirm (\<open>apply-offer-confirmation.ts\<close>) and reject, the withdrawal at the deadline
  (\<open>withdraw-unconfirmed-offer.ts\<close>) with the Worker's candidate body, confirm-all, and the cancellation of a booking.
\<close>

section \<open>Accept\<close>

datatype accept_outcome = Accepted offer_row | NotClaimed "string option"

text \<open>The first transaction of \<open>staffAccept\<close>: the guards on the possibly stale reads, then the atomic claim.\<close>

definition accept_claimable :: "clock \<Rightarrow> offer_row \<times> assignment_row \<times> shift_row \<Rightarrow> bool" where
  "accept_claimable clk j = (case j of (r, a, s) \<Rightarrow>
     jo_status r = PENDING \<and> tx_now clk < jo_expires_at r \<and> stmt_now clk < deadline_of r a s)"

text \<open>The claim won: offer, pointer, seat, audit and notice.\<close>

definition accept_write :: "auth_ctx \<Rightarrow> clock \<Rightarrow> string \<Rightarrow> offer_row \<Rightarrow> assignment_row \<Rightarrow> int \<Rightarrow> db \<Rightarrow> (db \<times> accept_outcome) res" where
  "accept_write ctx clk oid r a deadline d =
     (let d1 = update_offer oid (\<lambda>q. q\<lparr>jo_status := OFFER_STAFF_ACCEPTED, jo_responded_at := Some (node_now clk),
                 jo_staff_accepted_at := Some (node_now clk)\<rparr>) d;
          d2 = (if jo_workspace r \<noteq> None then schedulePointer oid deadline d1 else d1)
      in bindE (update_assignment (sa_id a) (\<lambda>q. q\<lparr>sa_status := A_STAFF_ACCEPTED\<rparr>) d2) (\<lambda>d3.
         let d4 = emit ([Audit AU_OFFER_ACCEPTED oid (audit_actor ctx)]
                  @ (case sa_assigned_by a of None \<Rightarrow> []
                     | Some m \<Rightarrow> [Notify m ''offer_accepted'' oid, Realtime ''offer.accepted'' oid])) d3
         in bindE (from_option ROW_NOT_FOUND (find_offer oid d4)) (\<lambda>q. Inr (d4, Accepted q))))"

text \<open>The claim lost: the coded 409 when only the deadline stands in the way, else the caller finds out why.\<close>

definition accept_lost :: "clock \<Rightarrow> assignment_row \<Rightarrow> offer_row \<times> assignment_row \<times> shift_row \<Rightarrow> db \<Rightarrow> (db \<times> accept_outcome) res" where
  "accept_lost clk a0 j d = (case j of (r, a, s) \<Rightarrow>
     if jo_status r = PENDING \<and> tx_now clk < jo_expires_at r \<and> deadline_of r a s \<le> stmt_next clk
     then Inl (CodedConflict CDP_CODE (if (case jo_kind r of None \<Rightarrow> STANDARD | Some k \<Rightarrow> k) = STANDARD then MSG_ACCEPT
                                       else MSG_ACCEPT_REPLACEMENT))
     else Inr (d, NotClaimed (sa_assigned_by a0)))"

definition accept_locked :: "auth_ctx \<Rightarrow> clock \<Rightarrow> string \<Rightarrow> offer_row \<Rightarrow> assignment_row \<Rightarrow> db \<Rightarrow> (db \<times> accept_outcome) res" where
  "accept_locked ctx clk oid r a d =
     (case offer_join oid d of
        None \<Rightarrow> Inr (d, NotClaimed (sa_assigned_by a))
      | Some (r', a', s') \<Rightarrow>
          if accept_claimable clk (r', a', s') then accept_write ctx clk oid r a (deadline_of r' a' s') d
          else accept_lost clk a (r', a', s') d)"

definition staffAccept_claim :: "auth_ctx \<Rightarrow> clock \<Rightarrow> string \<Rightarrow> db \<Rightarrow> db \<Rightarrow> (db \<times> accept_outcome) res" where
  "staffAccept_claim ctx clk oid d0 d =
     bindE (from_option (NotFound ''Offer not found.'') (find_staff_of_user (cx_user ctx) d0)) (\<lambda>sp.
     bindE (from_option (NotFound ''Offer not found.'')
        (case find_offer oid d0 of None \<Rightarrow> None | Some r \<Rightarrow> if jo_staff r = sp_id sp then Some r else None)) (\<lambda>r.
     bindE (assertOffer (jo_status r) OFFER_STAFF_ACCEPTED) (\<lambda>_.
     bindE (from_option ROW_NOT_FOUND (find_assignment (jo_assignment r) d0)) (\<lambda>a.
     bindE (assertSeat (sa_status a) A_STAFF_ACCEPTED) (\<lambda>_.
     bindE (require (case find_shift (sa_shift a) d of None \<Rightarrow> False | Some s \<Rightarrow> sh_status s \<noteq> CANCELLED)
              (Conflict ''This shift has been cancelled and can no longer be accepted.'')) (\<lambda>_.
     bindE (window_open clk (sa_shift a) WAccept d) (\<lambda>_.
     accept_locked ctx clk oid r a d)))))))"

text \<open>\<open>claimExpiredOffer\<close>: the one \<open>PENDING \<rightarrow> EXPIRED\<close> claim, for the lazy check and the Worker.\<close>

definition claimExpiredOffer :: "clock \<Rightarrow> string \<Rightarrow> db \<Rightarrow> (db \<times> offer_row) option" where
  "claimExpiredOffer clk oid d =
     (case find_offer oid d of
        None \<Rightarrow> None
      | Some r \<Rightarrow>
          if jo_status r = PENDING \<and> jo_expires_at r \<le> tx_now clk
          then let d' = update_offer oid (\<lambda>q. q\<lparr>jo_status := EXPIRED, jo_responded_at := Some (tx_now clk)\<rparr>) d
               in map_option (\<lambda>q. (d', q)) (find_offer oid d')
          else None)"

definition staffAccept_expire :: "auth_ctx \<Rightarrow> clock \<Rightarrow> string \<Rightarrow> string option \<Rightarrow> db \<Rightarrow> db \<times> bool" where
  "staffAccept_expire ctx clk oid assignedBy d =
     (case claimExpiredOffer clk oid d of
        None \<Rightarrow> (d, False)
      | Some (d1, r) \<Rightarrow>
          (emit ([Audit AU_OFFER_EXPIRED oid (audit_actor ctx)]
                 @ (case assignedBy of None \<Rightarrow> [] | Some m \<Rightarrow> [Notify m ''offer_expired'' oid])
                 @ [Realtime ''offer.expired'' oid]) d1, True))"

text \<open>The whole of \<open>staffAccept\<close> run without interleaving: one to three transactions, each with its own clock.\<close>

definition staffAccept :: "auth_ctx \<Rightarrow> clock \<Rightarrow> clock \<Rightarrow> string \<Rightarrow> db \<Rightarrow> db \<times> offer_row res" where
  "staffAccept ctx clk clk' oid d =
     (case staffAccept_claim ctx clk oid d d of
        Inl e \<Rightarrow> (d, Inl e)
      | Inr (d1, Accepted r) \<Rightarrow> (d1, Inr r)
      | Inr (d1, NotClaimed assignedBy) \<Rightarrow>
          let (d2, expired) = staffAccept_expire ctx clk' oid assignedBy d1 in
          if expired then (d2, Inl (Conflict ''This offer has expired.''))
          else (case find_offer oid d2 of
                  None \<Rightarrow> (d2, Inl ROW_NOT_FOUND)
                | Some r \<Rightarrow> (d2, Inl (Conflict (if jo_status r = EXPIRED then ''This offer has expired.'' else MSG_RESPONDED)))))"

text \<open>The Worker's \<open>expireOfferCandidate\<close>.\<close>

definition expireOfferCandidate :: "clock \<Rightarrow> string \<Rightarrow> db \<Rightarrow> db \<times> bool" where
  "expireOfferCandidate clk oid d =
     (case claimExpiredOffer clk oid d of
        None \<Rightarrow> (d, False)
      | Some (d1, r) \<Rightarrow>
          (emit ([Audit OFFER_EXPIRED_BY_WORKER oid None]
                 @ (case find_assignment (jo_assignment r) d1 of None \<Rightarrow> []
                    | Some a \<Rightarrow> (case sa_assigned_by a of None \<Rightarrow> [] | Some m \<Rightarrow> [Notify m ''offer_expired'' oid]))
                 @ [Realtime ''offer.expired'' oid]) d1, True))"

section \<open>Decline, withdraw, reject\<close>

text \<open>
  The three closes share their shape: guards on the stale reads, the shift lock, a compare-and-set on the status that was
  read, the seat, the roll-up. \<open>close_offer\<close> is that shape after the guards; \<open>lost\<close> is the error of a lost race.
\<close>

definition close_offer ::
  "auth_ctx \<Rightarrow> offer_row \<Rightarrow> assignment_row \<Rightarrow> (offer_row \<Rightarrow> offer_row) \<Rightarrow> assignment_status \<Rightarrow> error \<Rightarrow> (db \<Rightarrow> event list) \<Rightarrow> db
    \<Rightarrow> (db \<times> offer_row) res" where
  "close_offer ctx r a f seat lost evs d =
     bindE (require (case find_offer (jo_id r) d of None \<Rightarrow> False | Some q \<Rightarrow> jo_status q = jo_status r) lost) (\<lambda>_.
     bindE (update_assignment (sa_id a) (\<lambda>q. q\<lparr>sa_status := seat\<rparr>) (update_offer (jo_id r) f d)) (\<lambda>d1.
     bindE (completeShiftIfSettled (cx_org ctx) (sa_shift a) d1) (\<lambda>(d2, settled).
     let d3 = emit (evs d2) d2 in
     bindE (from_option ROW_NOT_FOUND (find_offer (jo_id r) d3)) (\<lambda>q. Inr (d3, q)))))"

definition withdraw :: "auth_ctx \<Rightarrow> clock \<Rightarrow> string \<Rightarrow> db \<Rightarrow> db \<Rightarrow> (db \<times> offer_row) res" where
  "withdraw ctx clk oid d0 d =
     bindE (from_option (NotFound ''Offer not found.'') (find_offer oid d0)) (\<lambda>r.
     bindE (assertOfferOwned ctx r) (\<lambda>_.
     bindE (assertOffer (jo_status r) OFFER_WITHDRAWN) (\<lambda>_.
     bindE (from_option ROW_NOT_FOUND (find_assignment (jo_assignment r) d0)) (\<lambda>a.
     bindE (assertSeat (sa_status a) A_WITHDRAWN) (\<lambda>_.
     close_offer ctx r a (\<lambda>q. q\<lparr>jo_status := OFFER_WITHDRAWN, jo_responded_at := Some (node_now clk)\<rparr>) A_WITHDRAWN
       (Conflict MSG_RESPONDED)
       (\<lambda>_. [Audit AU_OFFER_WITHDRAWN oid (audit_actor ctx), Realtime ''offer.withdrawn'' oid]) d)))))"

definition decline :: "auth_ctx \<Rightarrow> clock \<Rightarrow> string \<Rightarrow> string option \<Rightarrow> db \<Rightarrow> db \<Rightarrow> (db \<times> offer_row) res" where
  "decline ctx clk oid reason d0 d =
     bindE (from_option (NotFound ''Offer not found.'') (find_staff_of_user (cx_user ctx) d0)) (\<lambda>sp.
     bindE (from_option (NotFound ''Offer not found.'')
        (case find_offer oid d0 of None \<Rightarrow> None | Some r \<Rightarrow> if jo_staff r = sp_id sp then Some r else None)) (\<lambda>r.
     bindE (assertOffer (jo_status r) OFFER_DECLINED) (\<lambda>_.
     bindE (from_option ROW_NOT_FOUND (find_assignment (jo_assignment r) d0)) (\<lambda>a.
     bindE (assertSeat (sa_status a) A_DECLINED) (\<lambda>_.
     close_offer ctx r a (\<lambda>q. q\<lparr>jo_status := OFFER_DECLINED, jo_responded_at := Some (node_now clk), jo_decline_reason := reason\<rparr>)
       A_DECLINED (Conflict MSG_RESPONDED)
       (\<lambda>_. [Audit AU_OFFER_DECLINED oid (audit_actor ctx)]
          @ (case sa_assigned_by a of None \<Rightarrow> [] | Some m \<Rightarrow> [Notify m ''offer_declined'' oid])
          @ [Realtime ''offer.declined'' oid]) d)))))"

definition managerReject :: "auth_ctx \<Rightarrow> clock \<Rightarrow> string \<Rightarrow> string option \<Rightarrow> db \<Rightarrow> db \<Rightarrow> (db \<times> offer_row) res" where
  "managerReject ctx clk oid reason d0 d =
     bindE (from_option (NotFound ''Offer not found.'') (find_offer oid d0)) (\<lambda>r.
     bindE (assertOfferOwned ctx r) (\<lambda>_.
     bindE (require (\<not> isWithdrawnAtDeadline r) (CodedConflict CDP_CODE MSG_REJECT)) (\<lambda>_.
     bindE (assertOffer (jo_status r) MANAGER_REJECTED) (\<lambda>_.
     bindE (from_option ROW_NOT_FOUND (find_assignment (jo_assignment r) d0)) (\<lambda>a.
     bindE (assertSeat (sa_status a) A_REJECTED) (\<lambda>_.
     close_offer ctx r a (\<lambda>q. q\<lparr>jo_status := MANAGER_REJECTED, jo_rejected_at := Some (node_now clk),
           jo_rejected_by := Some (cx_user ctx), jo_rejection_reason := reason\<rparr>) A_REJECTED
       (if (case find_offer oid d of None \<Rightarrow> False | Some q \<Rightarrow> isWithdrawnAtDeadline q)
        then CodedConflict CDP_CODE MSG_REJECT else Conflict MSG_RESPONDED)
       (\<lambda>d2. [Audit AU_OFFER_REJECTED oid (audit_actor ctx)]
          @ (case find_staff (jo_staff r) d2 of None \<Rightarrow> [] | Some sp \<Rightarrow> [Notify (sp_user sp) ''offer_rejected'' oid])
          @ [Realtime ''offer.rejected'' oid]) d))))))"

section \<open>Confirm (apply-offer-confirmation.ts)\<close>

definition FILL_TRACKED_STATUSES :: "shift_status list" where
  "FILL_TRACKED_STATUSES = [OPEN, OFFERED, PARTIALLY_FILLED, FULLY_FILLED]"

definition kind_of :: "offer_row \<Rightarrow> offer_kind" where
  "kind_of r = (case jo_kind r of None \<Rightarrow> STANDARD | Some k \<Rightarrow> k)"

text \<open>The offer claim: still accepted, in this organisation, strictly before its deadline by the database clock.\<close>

definition confirm_claimable :: "auth_ctx \<Rightarrow> clock \<Rightarrow> offer_row \<times> assignment_row \<times> shift_row \<Rightarrow> bool" where
  "confirm_claimable ctx clk j = (case j of (r, a, s) \<Rightarrow>
     jo_org r = cx_org ctx \<and> jo_status r = OFFER_STAFF_ACCEPTED \<and> stmt_now clk < deadline_of r a s)"

definition deadline_error :: "clock \<Rightarrow> string \<Rightarrow> string \<Rightarrow> db \<Rightarrow> error" where
  "deadline_error clk oid msg d =
     (case offer_join oid d of
        None \<Rightarrow> Conflict ''This offer was already confirmed or is no longer awaiting confirmation.''
      | Some (r, a, s) \<Rightarrow>
          if (jo_status r = OFFER_STAFF_ACCEPTED \<and> deadline_of r a s \<le> stmt_next clk) \<or> isWithdrawnAtDeadline r
          then DeadlinePassed oid msg
          else Conflict ''This offer was already confirmed or is no longer awaiting confirmation.'')"

definition effectiveFilled :: "string \<Rightarrow> int \<Rightarrow> db \<Rightarrow> int" where
  "effectiveFilled sid filled d = max (occupied sid d) (filled - confirmed_no_shows sid d)"

text \<open>The seat claim \<open>UPDATE shift SET filled_count = GREATEST(...) + 1 ... WHERE GREATEST(...) < required_count\<close>.\<close>

definition claim_seat :: "auth_ctx \<Rightarrow> string \<Rightarrow> db \<Rightarrow> (db \<times> shift_row) option res" where
  "claim_seat ctx sid d =
     (case find_shift sid d of
        Some s \<Rightarrow>
          if sh_org s = cx_org ctx \<and> effectiveFilled sid (sh_filled_count s) d < sh_required_count s
          then bindE (update_shift sid (\<lambda>q. q\<lparr>sh_filled_count := effectiveFilled sid (sh_filled_count s) d + 1\<rparr>) d)
                 (\<lambda>d'. Inr (map_option (\<lambda>s'. (d', s')) (find_shift sid d')))
          else Inr None
      | None \<Rightarrow> Inr None)"

text \<open>A replacement's window starts no earlier than its approval.\<close>

definition narrow_period :: "clock \<Rightarrow> assignment_row \<Rightarrow> assignment_row" where
  "narrow_period clk a =
     (case sa_period a of
        Some w \<Rightarrow> if startsAt w < tx_now clk \<and> tx_now clk < endsAt w
                  then a\<lparr>sa_period := Some \<lparr>startsAt = tx_now clk, endsAt = endsAt w\<rparr>\<rparr> else a
      | None \<Rightarrow> a)"

definition catch_exclusion :: "'a res \<Rightarrow> 'a res" where
  "catch_exclusion m =
     (case m of
        Inl e \<Rightarrow> if e = EXCLUSION_VIOLATION
          then Inl (Conflict ''This staff member already has a confirmed shift that overlaps this one -- this offer cannot be confirmed.'')
          else Inl e
      | Inr x \<Rightarrow> Inr x)"

text \<open>The guards before the claim; \<open>r\<close> and \<open>a\<close> are the entities \<open>confirmOne\<close> read before the lock.\<close>

definition confirm_message :: "offer_row \<Rightarrow> string" where
  "confirm_message r = (if kind_of r = STANDARD then MSG_CONFIRM else MSG_CONFIRM_REPLACEMENT)"

definition confirm_guards :: "auth_ctx \<Rightarrow> clock \<Rightarrow> offer_row \<Rightarrow> assignment_row \<Rightarrow> string \<Rightarrow> db \<Rightarrow> unit res" where
  "confirm_guards ctx clk r a confirmedBy d =
     bindE (require (confirmedBy \<noteq> [] \<and> cx_user ctx \<noteq> [] \<and> cx_org ctx \<noteq> [])
              (Conflict ''A confirmation needs an authenticated manager.'')) (\<lambda>_.
     bindE (require (\<not> isWithdrawnAtDeadline r) (DeadlinePassed (jo_id r) (confirm_message r))) (\<lambda>_.
     bindE (from_option (Conflict ''This shift has been cancelled and can no longer be confirmed.'') (find_shift (sa_shift a) d)) (\<lambda>s.
     bindE (require (sh_status s \<noteq> CANCELLED) (Conflict ''This shift has been cancelled and can no longer be confirmed.'')) (\<lambda>_.
     bindE (require (sh_status s \<noteq> COMPLETED) (Conflict ''This shift is complete and can no longer take a confirmation.'')) (\<lambda>_.
     bindE (assertOffer (jo_status r) MANAGER_CONFIRMED) (\<lambda>_.
     bindE (assertSeat (sa_status a) A_CONFIRMED) (\<lambda>_.
     require (case offer_join (jo_id r) d of None \<Rightarrow> False | Some j \<Rightarrow> confirm_claimable ctx clk j)
       (deadline_error clk (jo_id r) (confirm_message r) d))))))))"

text \<open>The seat after the claim: a replacement's window, the booking with the rate re-read under the lock, the fill status.\<close>

definition confirm_seat :: "clock \<Rightarrow> offer_row \<Rightarrow> assignment_row \<Rightarrow> shift_row \<Rightarrow> db \<Rightarrow> db res" where
  "confirm_seat clk r a row d =
     (let next = (if sh_required_count row \<le> sh_filled_count row then FULLY_FILLED else PARTIALLY_FILLED);
          tracksFill = (kind_of r = STANDARD \<or> sh_status row \<in> set FILL_TRACKED_STATUSES)
      in
      bindE (if tracksFill \<and> sh_status row \<noteq> next then assertShift (sh_status row) next else Inr ()) (\<lambda>_.
      bindE (if kind_of r \<noteq> STANDARD then update_assignment (sa_id a) (narrow_period clk) d else Inr d) (\<lambda>d1.
      bindE (assertSafePence (of_int (sh_pay_rate_pence row)) ''shift.pay_rate_pence'') (\<lambda>_.
      bindE (catch_exclusion (update_assignment (sa_id a)
               (\<lambda>q. q\<lparr>sa_status := A_CONFIRMED, sa_confirmed_at := Some (node_now clk), sa_pay_snapshot := sh_pay_rate_pence row\<rparr>) d1)) (\<lambda>d2.
      if tracksFill then update_shift (sa_shift a) (\<lambda>q. q\<lparr>sh_status := next\<rparr>) d2 else Inr d2)))))"

definition confirm_offer :: "clock \<Rightarrow> string \<Rightarrow> string \<Rightarrow> db \<Rightarrow> db" where
  "confirm_offer clk oid confirmedBy =
     update_offer oid (\<lambda>q. q\<lparr>jo_status := MANAGER_CONFIRMED, jo_confirmed_at := Some (stmt_now clk),
       jo_confirmed_by := Some confirmedBy\<rparr>)"

definition applyOfferConfirmation ::
  "auth_ctx \<Rightarrow> clock \<Rightarrow> offer_row \<Rightarrow> assignment_row \<Rightarrow> string \<Rightarrow> db \<Rightarrow> (db \<times> offer_row) res" where
  "applyOfferConfirmation ctx clk r a confirmedBy d =
     bindE (confirm_guards ctx clk r a confirmedBy d) (\<lambda>_.
     let d1 = confirm_offer clk (jo_id r) confirmedBy d in
     bindE (window_open clk (sa_shift a) WConfirm d1) (\<lambda>_.
     bindE (claim_seat ctx (sa_shift a) d1) (\<lambda>claimed.
     bindE (from_option (Conflict (if kind_of r = STANDBY then NO_VACANCY_MESSAGE
              else ''SHIFT_FULL: This shift is now full. Another offer may already be confirmed.'')) claimed) (\<lambda>(d2, row).
     bindE (confirm_seat clk r a row d2) (\<lambda>d3.
     bindE (from_option ROW_NOT_FOUND (find_offer (jo_id r) d3)) (\<lambda>confirmed.
     Inr (emit ([Audit AU_OFFER_CONFIRMED (jo_id r) (audit_actor ctx)]
                @ (case find_staff (jo_staff r) d3 of None \<Rightarrow> []
                   | Some sp \<Rightarrow> [Notify (sp_user sp) ''offer_confirmed'' (jo_id r), Realtime ''offer.confirmed'' (jo_id r)])) d3,
          confirmed)))))))"

definition confirmOne :: "auth_ctx \<Rightarrow> clock \<Rightarrow> string \<Rightarrow> db \<Rightarrow> db \<Rightarrow> (db \<times> offer_row) res" where
  "confirmOne ctx clk oid d0 d =
     bindE (from_option (NotFound ''Offer not found.'') (find_offer oid d0)) (\<lambda>r.
     bindE (assertOfferOwned ctx r) (\<lambda>_.
     bindE (from_option ROW_NOT_FOUND (find_assignment (jo_assignment r) d0)) (\<lambda>a.
     applyOfferConfirmation ctx clk r a (cx_user ctx) d)))"

section \<open>Withdrawal at the deadline (withdraw-unconfirmed-offer.ts)\<close>

definition withdraw_claimable :: "string \<Rightarrow> clock \<Rightarrow> offer_row \<times> assignment_row \<times> shift_row \<Rightarrow> bool" where
  "withdraw_claimable org clk j = (case j of (r, a, s) \<Rightarrow>
     jo_org r = org \<and> jo_status r = OFFER_STAFF_ACCEPTED \<and> sa_status a = A_STAFF_ACCEPTED
     \<and> sh_status s \<noteq> CANCELLED \<and> deadline_of r a s \<le> stmt_now clk)"

text \<open>One notice per person, the first role they hold.\<close>

fun notices :: "string list \<Rightarrow> (string \<times> string) list \<Rightarrow> string \<Rightarrow> event list" where
  "notices seen [] oid = []"
| "notices seen ((u, kind) # rest) oid =
     (if u \<in> set seen then notices seen rest oid else Notify u kind oid # notices (u # seen) rest oid)"

definition withdrawal_notices :: "string \<Rightarrow> offer_row \<Rightarrow> assignment_row \<Rightarrow> shift_row \<Rightarrow> db \<Rightarrow> (string \<times> string) list" where
  "withdrawal_notices org r a s d =
     (case find_staff (jo_staff r) d of None \<Rightarrow> [] | Some sp \<Rightarrow> [(sp_user sp, ''offer_rejected'')])
     @ (case resolveResponsibleManager org a s d of None \<Rightarrow> [] | Some m \<Rightarrow> [(m, ''manager_confirmation_timeout'')])
     @ map (\<lambda>v. (v, ''manager_confirmation_timeout'')) (venueManagerUserIds (sh_venue s) d)"

record WithdrawnOffer =
  wo_offer :: string
  wo_assignment :: string
  wo_shift :: string
  wo_deadline :: int
  wo_notified :: bool
  wo_shift_completed :: bool

definition withdrawUnconfirmedOffer :: "clock \<Rightarrow> string \<Rightarrow> string \<Rightarrow> db \<Rightarrow> (db \<times> WithdrawnOffer option) res" where
  "withdrawUnconfirmedOffer clk org oid d =
     (case offer_join oid d of
        None \<Rightarrow> Inr (d, None)
      | Some (r, a, s) \<Rightarrow>
          if \<not> withdraw_claimable org clk (r, a, s) then Inr (d, None)
          else
            let deadline = deadline_of r a s;
                d1 = update_offer oid (\<lambda>q. q\<lparr>jo_status := MANAGER_REJECTED, jo_rejected_at := Some (stmt_now clk),
                       jo_rejected_by := None, jo_rejection_reason := Some DEADLINE_REASON\<rparr>) d;
                notify = (stmt_now clk < endsAt (assignmentTimeSql (sa_period a) (shift_window s))
                          \<or> stmt_now clk < deadline + 3600000)
            in bindE (assertOffer OFFER_STAFF_ACCEPTED MANAGER_REJECTED) (\<lambda>_.
               bindE (assertSeat A_STAFF_ACCEPTED A_REJECTED) (\<lambda>_.
               bindE (update_assignment (sa_id a)
                        (\<lambda>q. if sa_status q = A_STAFF_ACCEPTED then q\<lparr>sa_status := A_REJECTED\<rparr> else q) d1) (\<lambda>d2.
               bindE (completeShiftIfSettled org (sh_id s) d2) (\<lambda>(d3, completed).
               Inr (emit ([Audit OFFER_REJECTED_BY_WORKER oid None]
                          @ (if notify then notices [] (withdrawal_notices org r a s d3) oid else [])
                          @ [Realtime ''offer.rejected'' oid]) d3,
                    Some \<lparr>wo_offer = oid, wo_assignment = sa_id a, wo_shift = sh_id s, wo_deadline = deadline,
                          wo_notified = notify, wo_shift_completed = completed\<rparr>))))))"

text \<open>\<open>withdrawPastDeadline\<close>: its own transaction over the given offers; a failure rolls it back and is swallowed.\<close>

fun withdraw_all :: "clock \<Rightarrow> string \<Rightarrow> string list \<Rightarrow> db \<Rightarrow> db res" where
  "withdraw_all clk org [] d = Inr d"
| "withdraw_all clk org (oid # rest) d =
     bindE (withdrawUnconfirmedOffer clk org oid d) (\<lambda>(d', _). withdraw_all clk org rest d')"

definition withdrawPastDeadline :: "clock \<Rightarrow> auth_ctx \<Rightarrow> string list \<Rightarrow> db \<Rightarrow> db" where
  "withdrawPastDeadline clk ctx oids d =
     (if oids = [] then d else (case withdraw_all clk (cx_org ctx) oids d of Inl e \<Rightarrow> d | Inr d' \<Rightarrow> d'))"

definition managerConfirm :: "auth_ctx \<Rightarrow> clock \<Rightarrow> clock \<Rightarrow> string \<Rightarrow> db \<Rightarrow> db \<times> offer_row res" where
  "managerConfirm ctx clk clk' oid d =
     (case confirmOne ctx clk oid d d of
        Inr (d', r) \<Rightarrow> (d', Inr r)
      | Inl (DeadlinePassed k m) \<Rightarrow> (withdrawPastDeadline clk' ctx [k] d, Inl (DeadlinePassed k m))
      | Inl e \<Rightarrow> (d, Inl e))"

text \<open>Confirm-all: one transaction with a SAVEPOINT per offer, then the withdrawal of those past their deadline.\<close>

fun confirm_loop ::
  "auth_ctx \<Rightarrow> clock \<Rightarrow> offer_row list \<Rightarrow> db \<Rightarrow> recipient_result list \<Rightarrow> string list \<Rightarrow> db \<times> recipient_result list \<times> string list" where
  "confirm_loop ctx clk [] d results past = (d, results, past)"
| "confirm_loop ctx clk (r # rest) d results past =
     (case confirmOne ctx clk (jo_id r) d d of
        Inr (d', q) \<Rightarrow> confirm_loop ctx clk rest d' (results @ [(jo_staff r, Inr (jo_id q))]) past
      | Inl e \<Rightarrow> confirm_loop ctx clk rest d (results @ [(jo_staff r, Inl (error_message e))])
          (case e of DeadlinePassed k m \<Rightarrow> past @ [k] | _ \<Rightarrow> past))"

definition confirmAll :: "auth_ctx \<Rightarrow> clock \<Rightarrow> clock \<Rightarrow> string \<Rightarrow> db \<Rightarrow> db \<times> recipient_result list res" where
  "confirmAll ctx clk clk' batch d =
     (let batch_offers = filter (\<lambda>r. jo_batch r = Some batch) (offers d) in
      if batch_offers = [] then (d, Inl (NotFound ''Offer batch not found.''))
      else let (d1, results, past) = confirm_loop ctx clk (filter (\<lambda>r. jo_status r = OFFER_STAFF_ACCEPTED) batch_offers) d [] []
           in (withdrawPastDeadline clk' ctx past d1, Inr results))"

text \<open>The Worker's candidate body. \<open>events_done\<close> are the \<open>worker_event\<close> keys already claimed, here (offer, deadline).\<close>

datatype candidate_outcome = CO_withdrawn | CO_done | CO_not_due int

definition withdrawDeadlineCandidate ::
  "clock \<Rightarrow> string \<Rightarrow> string \<Rightarrow> (string \<times> int) list \<Rightarrow> db \<Rightarrow> (db \<times> (string \<times> int) list \<times> candidate_outcome) res" where
  "withdrawDeadlineCandidate clk org oid events_done d =
     (case offer_join oid d of
        None \<Rightarrow> Inr (d, events_done, CO_done)
      | Some (r, a, s) \<Rightarrow>
          if jo_status r \<noteq> OFFER_STAFF_ACCEPTED \<or> sh_status s = CANCELLED then Inr (d, events_done, CO_done)
          else if stmt_now clk < deadline_of r a s then Inr (d, events_done, CO_not_due (deadline_of r a s))
          else if (oid, deadline_of r a s) \<in> set events_done then Inr (d, events_done, CO_done)
          else bindE (withdrawUnconfirmedOffer (clk\<lparr>stmt_now := stmt_next clk\<rparr>) org oid d) (\<lambda>(d', w).
                 Inr (d', (oid, deadline_of r a s) # events_done, case w of None \<Rightarrow> CO_done | Some _ \<Rightarrow> CO_withdrawn)))"

definition deadlineRetryDelayMs :: "int \<Rightarrow> int" where
  "deadlineRetryDelayMs attemptCount = min (60000 * 2 ^ nat (max 0 (min attemptCount 10))) (15 * 60000)"

section \<open>Cancelling a booking\<close>

definition canCancelVenueOffer :: "int \<Rightarrow> int \<Rightarrow> shift_status \<Rightarrow> assignment_status \<Rightarrow> offer_status \<Rightarrow> bool \<Rightarrow> bool" where
  "canCancelVenueOffer starts serverNow shiftStatus assignmentStatus offerStatus hasAttendance \<longleftrightarrow>
     shiftStatus \<notin> {CANCELLED, COMPLETED, DECLINED, PENDING_MANAGER_APPROVAL}
     \<and> serverNow < starts - 15 * 60000 \<and> \<not> hasAttendance
     \<and> ((offerStatus = PENDING \<and> assignmentStatus = A_OFFERED)
        \<or> (offerStatus = OFFER_STAFF_ACCEPTED \<and> assignmentStatus = A_STAFF_ACCEPTED)
        \<or> (offerStatus = MANAGER_CONFIRMED \<and> assignmentStatus = A_CONFIRMED))"

text \<open>The caller holds the shift lock and passes the shift it read under it; offer and seat are locked here. The note keeps
  the reason; its heading (shift label and time) is not modelled.\<close>

definition cancelBookingWithManager ::
  "auth_ctx \<Rightarrow> clock \<Rightarrow> shift_row \<Rightarrow> string \<Rightarrow> string option \<Rightarrow> db \<Rightarrow> db res" where
  "cancelBookingWithManager ctx clk s oid reason d =
     bindE (from_option (NotFound ''Offer not found.'') (find_offer oid d)) (\<lambda>r.
     bindE (assertOfferOwned ctx r) (\<lambda>_.
     bindE (from_option (NotFound ''Offer not found.'') (find_assignment (jo_assignment r) d)) (\<lambda>a.
     bindE (require (sa_shift a = sh_id s) (NotFound ''Offer not found.'')) (\<lambda>_.
     bindE (require (canCancelVenueOffer (sh_starts_at s) (stmt_now clk) (sh_status s) (sa_status a) (jo_status r) (has_attendance (sa_id a) d))
        (Conflict ''This booking cannot be cancelled. Cancellation closes 15 minutes before the shift starts.'')) (\<lambda>_.
     bindE (from_option (NotFound ''Staff not found.'') (find_staff (jo_staff r) d)) (\<lambda>sp.
     bindE (require (sp_created_by sp = Some (cx_user ctx) \<and> sp_workspace sp = cx_workspace ctx) (NotFound ''Staff not found.'')) (\<lambda>_.
     let nextSeat = (if jo_status r = PENDING then A_WITHDRAWN else A_CANCELLED) in
     bindE (assertSeat (sa_status a) nextSeat) (\<lambda>_.
     bindE (if jo_status r = PENDING
            then bindE (assertOffer PENDING OFFER_WITHDRAWN) (\<lambda>_.
              Inr (update_offer oid (\<lambda>q. q\<lparr>jo_status := OFFER_WITHDRAWN, jo_responded_at := Some (stmt_now clk)\<rparr>) d))
            else if jo_status r = OFFER_STAFF_ACCEPTED
            then bindE (assertOffer OFFER_STAFF_ACCEPTED MANAGER_REJECTED) (\<lambda>_.
              Inr (update_offer oid (\<lambda>q. q\<lparr>jo_status := MANAGER_REJECTED, jo_rejected_at := Some (stmt_now clk),
                jo_rejected_by := Some (cx_user ctx), jo_rejection_reason := reason\<rparr>) d))
            else Inr d) (\<lambda>d1.
     bindE (update_assignment (sa_id a) (\<lambda>q. q\<lparr>sa_status := nextSeat\<rparr>) d1) (\<lambda>d2.
     bindE (if sa_status a = A_CONFIRMED
            then
              let filledCount = max 0 (sh_filled_count s - 1);
                  next = (if filledCount \<noteq> 0 then PARTIALLY_FILLED else OFFERED)
              in bindE (if next \<noteq> sh_status s then assertShift (sh_status s) next else Inr ()) (\<lambda>_.
                 update_shift (sh_id s) (\<lambda>q. q\<lparr>sh_filled_count := filledCount, sh_status := next\<rparr>) d2)
            else Inr d2) (\<lambda>d3.
     Inr (emit ((case reason of Some t \<Rightarrow> if js_trim t \<noteq> [] then [UserNote (sp_user sp) (js_trim t)] else [] | None \<Rightarrow> [])
                @ [Audit AU_OFFER_WITHDRAWN oid (audit_actor ctx), Notify (sp_user sp) ''shift_cancelled'' oid,
                   Realtime (if jo_status r = OFFER_STAFF_ACCEPTED then ''offer.rejected'' else ''offer.withdrawn'') oid]) d3))))))))))))"

end
