(* ===== verification/LocationEvidence.thy ===== *)
theory LocationEvidence
  imports JsNumber
begin

text \<open>
  The geofence verdict of \<open>rab-shared\<close>: \<open>utils/geo.ts\<close> and \<open>utils/location-evidence.ts\<close>. A JavaScript number is a
  \<open>jsnum\<close>: a rational, an infinity or NaN, with the comparisons JavaScript makes (every comparison with NaN is false). A
  \<open>Date\<close> may be invalid. The trigonometry of the haversine formula is a parameter \<open>metres\<close>; its argument checks are not.
\<close>

section \<open>Numbers\<close>

datatype jsnum = Fin rat | PosInf | NegInf | NaN

fun js_less :: "jsnum \<Rightarrow> jsnum \<Rightarrow> bool" where
  "js_less (Fin a) (Fin b) = (a < b)"
| "js_less (Fin a) PosInf = True"
| "js_less NegInf (Fin b) = True"
| "js_less NegInf PosInf = True"
| "js_less _ _ = False"

fun js_le :: "jsnum \<Rightarrow> jsnum \<Rightarrow> bool" where
  "js_le NaN _ = False"
| "js_le _ NaN = False"
| "js_le a b = (\<not> js_less b a)"

fun js_min :: "jsnum \<Rightarrow> jsnum \<Rightarrow> jsnum" where
  "js_min NaN _ = NaN"
| "js_min _ NaN = NaN"
| "js_min a b = (if js_less a b then a else b)"

fun isFinite :: "jsnum \<Rightarrow> bool" where
  "isFinite (Fin a) = True"
| "isFinite _ = False"

lemma isFinite_iff: "isFinite x \<longleftrightarrow> (\<exists>a. x = Fin a)"
  by (cases x) auto

lemma js_less_Fin: "js_less (Fin a) y \<longleftrightarrow> (case y of Fin b \<Rightarrow> a < b | PosInf \<Rightarrow> True | _ \<Rightarrow> False)"
  by (cases y) auto

datatype js_date = Time int | InvalidDate

section \<open>Distance (geo.ts)\<close>

record GeoPoint =
  gp_lat :: jsnum
  gp_lng :: jsnum

definition assertFiniteCoordinate :: "GeoPoint \<Rightarrow> unit res" where
  "assertFiniteCoordinate p =
     (if \<not> isFinite (gp_lat p) \<or> \<not> isFinite (gp_lng p)
      then Inl (RangeError ''Coordinates must be finite numbers, not NaN/Infinity.'')
      else if js_less (gp_lat p) (Fin (-90)) \<or> js_less (Fin 90) (gp_lat p)
      then Inl (RangeError ''Latitude must be between -90 and 90.'')
      else if js_less (gp_lng p) (Fin (-180)) \<or> js_less (Fin 180) (gp_lng p)
      then Inl (RangeError ''Longitude must be between -180 and 180.'')
      else Inr ())"

definition haversineDistanceMeters :: "(GeoPoint \<Rightarrow> GeoPoint \<Rightarrow> jsnum) \<Rightarrow> GeoPoint \<Rightarrow> GeoPoint \<Rightarrow> jsnum res" where
  "haversineDistanceMeters metres a b =
     bindE (assertFiniteCoordinate a) (\<lambda>_. bindE (assertFiniteCoordinate b) (\<lambda>_. Inr (metres a b)))"

definition isWithinGeofence :: "(GeoPoint \<Rightarrow> GeoPoint \<Rightarrow> jsnum) \<Rightarrow> GeoPoint \<Rightarrow> GeoPoint \<Rightarrow> jsnum \<Rightarrow> bool res" where
  "isWithinGeofence metres p venue radius =
     bindE (haversineDistanceMeters metres p venue) (\<lambda>d. Inr (js_le d radius))"

lemma assertFiniteCoordinate_ok:
  "assertFiniteCoordinate p = Inr u \<longleftrightarrow> (\<exists>a b. gp_lat p = Fin a \<and> gp_lng p = Fin b \<and> \<bar>a\<bar> \<le> 90 \<and> \<bar>b\<bar> \<le> 180)"
  by (cases "gp_lat p"; cases "gp_lng p") (auto simp: assertFiniteCoordinate_def abs_le_iff)

section \<open>Evidence (location-evidence.ts)\<close>

datatype evidence_error = LOCATION_REQUIRED | LOCATION_STALE | LOCATION_ACCURACY_TOO_LOW | OUTSIDE_GEOFENCE | GEOFENCE_MISCONFIGURED

record LocationEvidence =
  le_lat :: "jsnum option"
  le_lng :: "jsnum option"
  le_accuracyM :: "jsnum option"
  le_capturedAt :: "js_date option"

record GeofenceVenue =
  gv_enforceGeofence :: bool
  gv_lat :: "jsnum option"
  gv_lng :: "jsnum option"
  gv_geofenceRadiusM :: "jsnum option"

record LocationEvidencePolicy =
  lp_maxAccuracyM :: jsnum
  lp_maxAgeMs :: int
  lp_maxFutureSkewMs :: int
  lp_strict :: bool

record evidence_ok =
  ev_enforced :: bool
  ev_verified :: bool
  ev_distanceM :: "jsnum option"
  ev_accuracyM :: "jsnum option"
  ev_capturedAt :: "js_date option"

text \<open>\<open>LocationEvidenceResult\<close>: the refusal code or the verdict.\<close>

type_synonym evidence_result = "evidence_error + evidence_ok"

fun isGeofenceConfigured :: "GeofenceVenue \<Rightarrow> bool" where
  "isGeofenceConfigured v =
     (case (gv_lat v, gv_lng v, gv_geofenceRadiusM v) of
        (Some lat, Some lng, Some radius) \<Rightarrow> isFinite lat \<and> isFinite lng \<and> isFinite radius \<and> js_less (Fin 0) radius
      | _ \<Rightarrow> False)"

definition assessCaptureTime :: "js_date option \<Rightarrow> int \<Rightarrow> LocationEvidencePolicy \<Rightarrow> int option \<Rightarrow> evidence_error option" where
  "assessCaptureTime capturedAt now policy notBefore =
     (case capturedAt of
        None \<Rightarrow> if lp_strict policy then Some LOCATION_REQUIRED else None
      | Some InvalidDate \<Rightarrow> Some LOCATION_STALE
      | Some (Time t) \<Rightarrow>
          if now + lp_maxFutureSkewMs policy < t then Some LOCATION_STALE
          else if lp_maxAgeMs policy < now - t then Some LOCATION_STALE
          else if (case notBefore of None \<Rightarrow> False | Some b \<Rightarrow> t \<le> b) then Some LOCATION_STALE
          else None)"

definition unverified :: "bool \<Rightarrow> evidence_ok" where
  "unverified enforced = \<lparr>ev_enforced = enforced, ev_verified = False, ev_distanceM = None, ev_accuracyM = None, ev_capturedAt = None\<rparr>"

definition evaluateLocationEvidence ::
  "(GeoPoint \<Rightarrow> GeoPoint \<Rightarrow> jsnum) \<Rightarrow> GeofenceVenue \<Rightarrow> LocationEvidence \<Rightarrow> int \<Rightarrow> LocationEvidencePolicy \<Rightarrow> int option
    \<Rightarrow> evidence_result res" where
  "evaluateLocationEvidence metres venue evidence now policy notBefore =
     (if \<not> gv_enforceGeofence venue then Inr (Inr (unverified False))
      else if \<not> isGeofenceConfigured venue
      then Inr (if lp_strict policy then Inl GEOFENCE_MISCONFIGURED else Inr (unverified True))
      else
        (case (gv_lat venue, gv_lng venue, gv_geofenceRadiusM venue, le_lat evidence, le_lng evidence) of
           (Some vlat, Some vlng, Some radius, Some lat, Some lng) \<Rightarrow>
             if lp_strict policy \<and> (le_accuracyM evidence = None \<or> le_capturedAt evidence = None)
             then Inr (Inl LOCATION_REQUIRED)
             else
               (let accuracyCap = (if lp_strict policy then js_min (lp_maxAccuracyM policy) radius else lp_maxAccuracyM policy) in
                if (case le_accuracyM evidence of None \<Rightarrow> False | Some a \<Rightarrow> js_less accuracyCap a)
                then Inr (Inl LOCATION_ACCURACY_TOO_LOW)
                else
                  (case assessCaptureTime (le_capturedAt evidence) now policy notBefore of
                     Some timing \<Rightarrow> Inr (Inl timing)
                   | None \<Rightarrow>
                       bindE (haversineDistanceMeters metres \<lparr>gp_lat = lat, gp_lng = lng\<rparr> \<lparr>gp_lat = vlat, gp_lng = vlng\<rparr>) (\<lambda>distanceM.
                       if js_less radius distanceM then Inr (Inl OUTSIDE_GEOFENCE)
                       else Inr (Inr \<lparr>ev_enforced = True, ev_verified = True, ev_distanceM = Some distanceM,
                              ev_accuracyM = le_accuracyM evidence, ev_capturedAt = le_capturedAt evidence\<rparr>))))
         | _ \<Rightarrow> Inr (Inl LOCATION_REQUIRED)))"

section \<open>What a verdict means\<close>

lemma assessCaptureTime_None:
  "assessCaptureTime c now policy nb = None \<longleftrightarrow>
     (case c of None \<Rightarrow> \<not> lp_strict policy | Some InvalidDate \<Rightarrow> False
      | Some (Time t) \<Rightarrow> now - lp_maxAgeMs policy \<le> t \<and> t \<le> now + lp_maxFutureSkewMs policy
          \<and> (case nb of None \<Rightarrow> True | Some b \<Rightarrow> b < t))"
  by (auto simp: assessCaptureTime_def split: option.splits js_date.splits)

text \<open>The conditions of a strict verification, read off the policy in the file's header comment.\<close>

definition strict_fix_ok :: "(GeoPoint \<Rightarrow> GeoPoint \<Rightarrow> jsnum) \<Rightarrow> GeofenceVenue \<Rightarrow> LocationEvidence \<Rightarrow> int \<Rightarrow> LocationEvidencePolicy
    \<Rightarrow> int option \<Rightarrow> bool" where
  "strict_fix_ok metres venue evidence now policy notBefore \<longleftrightarrow>
     (\<exists>vlat vlng radius lat lng acc t dist cap.
        gv_lat venue = Some (Fin vlat) \<and> gv_lng venue = Some (Fin vlng) \<and> gv_geofenceRadiusM venue = Some (Fin radius) \<and> 0 < radius
      \<and> le_lat evidence = Some (Fin lat) \<and> le_lng evidence = Some (Fin lng) \<and> le_accuracyM evidence = Some (Fin acc)
      \<and> lp_maxAccuracyM policy = Fin cap \<and> acc \<le> min cap radius
      \<and> le_capturedAt evidence = Some (Time t) \<and> now - lp_maxAgeMs policy \<le> t \<and> t \<le> now + lp_maxFutureSkewMs policy
      \<and> (\<forall>b. notBefore = Some b \<longrightarrow> b < t)
      \<and> metres \<lparr>gp_lat = Fin lat, gp_lng = Fin lng\<rparr> \<lparr>gp_lat = Fin vlat, gp_lng = Fin vlng\<rparr> = Fin dist \<and> dist \<le> radius)"

text \<open>A device fix whose numbers passed the DTO validation, a venue with valid coordinates, and a distance that is a number.\<close>

definition sane_fix :: "(GeoPoint \<Rightarrow> GeoPoint \<Rightarrow> jsnum) \<Rightarrow> GeofenceVenue \<Rightarrow> LocationEvidence \<Rightarrow> LocationEvidencePolicy \<Rightarrow> bool" where
  "sane_fix metres venue evidence policy \<longleftrightarrow>
     isFinite (lp_maxAccuracyM policy)
   \<and> (case le_lat evidence of None \<Rightarrow> True | Some x \<Rightarrow> (case x of Fin a \<Rightarrow> \<bar>a\<bar> \<le> 90 | _ \<Rightarrow> False))
   \<and> (case le_lng evidence of None \<Rightarrow> True | Some x \<Rightarrow> (case x of Fin a \<Rightarrow> \<bar>a\<bar> \<le> 180 | _ \<Rightarrow> False))
   \<and> (case le_accuracyM evidence of None \<Rightarrow> True | Some x \<Rightarrow> isFinite x)
   \<and> (case gv_lat venue of None \<Rightarrow> True | Some x \<Rightarrow> (case x of Fin a \<Rightarrow> \<bar>a\<bar> \<le> 90 | _ \<Rightarrow> False))
   \<and> (case gv_lng venue of None \<Rightarrow> True | Some x \<Rightarrow> (case x of Fin a \<Rightarrow> \<bar>a\<bar> \<le> 180 | _ \<Rightarrow> False))
   \<and> (\<forall>p q. isFinite (metres p q))"

lemma not_enforced: "\<not> gv_enforceGeofence v \<Longrightarrow> evaluateLocationEvidence metres v e now policy nb = Inr (Inr (unverified False))"
  by (simp add: evaluateLocationEvidence_def)

text \<open>Soundness of the flag alone, with no assumption on the numbers.\<close>

lemma verified_means:
  assumes "evaluateLocationEvidence metres v e now policy nb = Inr (Inr r)" and "ev_verified r"
  shows "gv_enforceGeofence v \<and> isGeofenceConfigured v \<and> ev_enforced r \<and> ev_capturedAt r = le_capturedAt e
    \<and> assessCaptureTime (le_capturedAt e) now policy nb = None
    \<and> (lp_strict policy \<longrightarrow> le_accuracyM e \<noteq> None \<and> le_capturedAt e \<noteq> None)
    \<and> (\<exists>radius dist. gv_geofenceRadiusM v = Some radius \<and> ev_distanceM r = Some dist \<and> \<not> js_less radius dist)"
  using assms
  by (auto simp: evaluateLocationEvidence_def unverified_def Let_def bindE_Inr_iff simp del: isGeofenceConfigured.simps
      split: if_splits option.splits)


definition flat_metres :: "GeoPoint \<Rightarrow> GeoPoint \<Rightarrow> jsnum" where
  "flat_metres p q = (case (gp_lat p, gp_lat q) of (Fin a, Fin b) \<Rightarrow> Fin (111000 * \<bar>a - b\<bar>) | _ \<Rightarrow> Fin 0)"

definition sample_venue :: GeofenceVenue where
  "sample_venue = \<lparr>gv_enforceGeofence = True, gv_lat = Some (Fin (515 / 10)), gv_lng = Some (Fin 0), gv_geofenceRadiusM = Some (Fin 200)\<rparr>"

definition sample_fix :: "rat \<Rightarrow> LocationEvidence" where
  "sample_fix lat = \<lparr>le_lat = Some (Fin lat), le_lng = Some (Fin 0), le_accuracyM = Some (Fin 12), le_capturedAt = Some (Time 1000)\<rparr>"

definition sample_policy :: LocationEvidencePolicy where
  "sample_policy = \<lparr>lp_maxAccuracyM = Fin 100, lp_maxAgeMs = 60000, lp_maxFutureSkewMs = 5000, lp_strict = True\<rparr>"

lemmas evidence_sample_defs = flat_metres_def sample_venue_def sample_fix_def sample_policy_def

lemma sample_sane: "\<bar>lat\<bar> \<le> 90 \<Longrightarrow> sane_fix flat_metres sample_venue (sample_fix lat) sample_policy"
  by (auto simp: sane_fix_def evidence_sample_defs split: jsnum.splits)


end
