(* ===== verification/Attendance.thy ===== *)
theory Attendance
  imports Offers LocationEvidence
begin

text \<open>
  Attendance (\<open>rab-server/src/modules/attendance/services/attendance.service.ts\<close>): Check In, Clock In, Clock Out, the
  geofence-exit clock-out and the manager's punches on behalf of a staff member, with the exceptions they throw, the Shift
  QR, and the write primitives of the \<open>attendance\<close> table with its constraints and its \<open>attendance_post_shift_reset\<close> trigger.

  As in \<open>Offers\<close>, \<open>d0\<close> is what the unlocked reads of a transaction saw and \<open>d\<close> the state its locked statements see. The JWT
  library, the haversine arithmetic, the permission and scope answers and the environment are fields of \<open>att_env\<close>. A
  \<open>Date\<close> in the request is already parsed. Node's clock is read once per transaction.
\<close>

section \<open>Exceptions (attendance.exceptions.ts)\<close>

definition ClockInTooEarly :: error where "ClockInTooEarly = CodedConflict ''CLOCK_IN_TOO_EARLY'' ''Too early to clock in''"
definition ClockWindowClosed :: error where
  "ClockWindowClosed = CodedConflict ''CLOCK_WINDOW_CLOSED'' ''This shift's clock-in/out window has closed.''"
definition LocationRequired :: error where
  "LocationRequired = CodedConflict ''LOCATION_REQUIRED'' ''Location is required to check in, clock in or clock out at this venue. Turn on location and try again.''"
definition LocationAccuracyTooLow :: error where
  "LocationAccuracyTooLow = CodedConflict ''LOCATION_ACCURACY_TOO_LOW'' ''We couldn't confirm your location accurately enough. Please try again.''"
definition OutsideVenue :: error where
  "OutsideVenue = CodedConflict ''OUTSIDE_GEOFENCE'' ''You're outside the venue's permitted check-in area.''"
definition LocationStale :: error where
  "LocationStale = CodedConflict ''LOCATION_STALE'' ''Your location reading is out of date. Refresh your location and try again.''"
definition GeofenceMisconfigured :: error where
  "GeofenceMisconfigured = CodedConflict ''GEOFENCE_MISCONFIGURED'' ''This venue's location check is not set up correctly. Ask your manager to update the venue's location settings.''"
definition CheckInRequired :: error where
  "CheckInRequired = CodedConflict ''CHECK_IN_REQUIRED'' ''Check in at the venue before you clock in.''"
definition CheckInTooEarly :: error where "CheckInTooEarly = CodedConflict ''CHECK_IN_TOO_EARLY'' ''Too early to check in''"
definition CheckInWindowClosed :: error where
  "CheckInWindowClosed = CodedConflict ''CHECK_IN_WINDOW_CLOSED'' ''This shift's check-in window has closed.''"
definition AttendanceFlaggedMissing :: error where
  "AttendanceFlaggedMissing = CodedConflict ''ATTENDANCE_FLAGGED_MISSING'' ''Your attendance for this shift was flagged as missing. Ask the venue manager to record your attendance.''"
definition AlreadyClockedIn :: "string \<Rightarrow> error" where "AlreadyClockedIn m = CodedConflict ''ALREADY_CLOCKED_IN'' m"
definition NotClockedIn :: "string \<Rightarrow> error" where "NotClockedIn m = CodedConflict ''NOT_CLOCKED_IN'' m"
definition StaffNotCheckedIn :: error where
  "StaffNotCheckedIn = CodedConflict ''STAFF_NOT_CHECKED_IN'' ''Staff hasn't checked in yet.''"
definition PresenceNotVerified :: error where
  "PresenceNotVerified = CodedConflict ''PRESENCE_NOT_VERIFIED'' ''This venue requires location, and the staff member's check-in was not location-verified. Ask them to clock in on their phone, or record their attendance in the shift report.''"
definition PresenceEvidenceRequired :: error where
  "PresenceEvidenceRequired = CodedConflict ''PRESENCE_EVIDENCE_REQUIRED'' ''This venue requires location for clock-out, which a manager cannot provide. Ask the staff member to clock out on their phone, or record the clock-out time in the shift report (Review staff report -> Record attendance) once the shift has ended.''"
definition ReasonTooShort :: error where "ReasonTooShort = CodedBadRequest ''REASON_TOO_SHORT'' ''Add a reason of at least 10 words.''"

datatype qr_reason = QrExpired | QrInvalid | QrShiftMismatch | QrVenueMismatch

fun InvalidQr :: "qr_reason \<Rightarrow> error" where
  "InvalidQr QrExpired = CodedConflict ''INVALID_QR'' ''This QR code has expired.''"
| "InvalidQr QrInvalid = CodedConflict ''INVALID_QR'' ''Invalid QR code.''"
| "InvalidQr QrShiftMismatch = CodedConflict ''INVALID_QR'' ''This QR code is for a different shift.''"
| "InvalidQr QrVenueMismatch = CodedConflict ''INVALID_QR'' ''This QR code is for a different venue.''"

fun locationEvidenceException :: "evidence_error \<Rightarrow> error" where
  "locationEvidenceException LOCATION_REQUIRED = LocationRequired"
| "locationEvidenceException LOCATION_STALE = LocationStale"
| "locationEvidenceException LOCATION_ACCURACY_TOO_LOW = LocationAccuracyTooLow"
| "locationEvidenceException OUTSIDE_GEOFENCE = OutsideVenue"
| "locationEvidenceException GEOFENCE_MISCONFIGURED = GeofenceMisconfigured"

section \<open>The request and the environment\<close>

text \<open>\<open>AttendanceLocationDto\<close> after validation, and the token payload of the Shift QR.\<close>

record location_dto =
  fx_lat :: "rat option"
  fx_lng :: "rat option"
  fx_accuracyM :: "rat option"
  fx_capturedAt :: "js_date option"

definition no_location :: location_dto where
  "no_location = \<lparr>fx_lat = None, fx_lng = None, fx_accuracyM = None, fx_capturedAt = None\<rparr>"

record QrTokenPayload =
  qp_shiftId :: string
  qp_venueId :: string
  qp_ver :: int

datatype jwt_failure = TokenExpiredError | OtherJwtError

record att_env =
  ae_clock_in_early :: int \<comment> \<open>CLOCK_IN_EARLY_MINUTES\<close>
  ae_qr_grace :: int \<comment> \<open>QR_POST_SHIFT_GRACE_MINUTES\<close>
  ae_max_accuracy :: rat \<comment> \<open>GEOFENCE_MAX_ACCURACY_M\<close>
  ae_max_age_s :: int \<comment> \<open>LOCATION_EVIDENCE_MAX_AGE_SECONDS\<close>
  ae_max_skew_s :: int \<comment> \<open>LOCATION_EVIDENCE_MAX_FUTURE_SKEW_SECONDS\<close>
  ae_metres :: "GeoPoint \<Rightarrow> GeoPoint \<Rightarrow> jsnum" \<comment> \<open>haversine arithmetic\<close>
  ae_verify :: "string \<Rightarrow> jwt_failure + QrTokenPayload" \<comment> \<open>the JWT library\<close>
  ae_may_edit :: bool \<comment> \<open>the caller holds ATTENDANCE_EDIT\<close>
  ae_workspace_owner :: "string \<Rightarrow> string \<Rightarrow> string option" \<comment> \<open>owner of an active workspace of an organisation\<close>

section \<open>Attendance rows: constraints, trigger and writes\<close>

definition active :: "attendance_row \<Rightarrow> bool" where
  "active t \<longleftrightarrow> at_status t = CLOCKED_IN \<or> at_status t = ON_BREAK"

definition post_shift_of :: "attendance_row \<Rightarrow> post_shift_row" where
  "post_shift_of t = \<lparr>ps_status = at_status t, ps_clock_out_at = at_clock_out_at t,
     ps_completed_at = at_post_shift_completed_at t, ps_expired_at = at_post_shift_expired_at t\<rparr>"

definition on_behalf_check :: "attendance_row \<Rightarrow> bool" where
  "on_behalf_check t \<longleftrightarrow>
     (at_clock_in_method t = None \<or> at_clock_in_method t \<in> Some ` {''staff'', ''manager_on_behalf'', ''manager_correction''})
   \<and> (at_clock_in_method t = Some ''manager_on_behalf'') = (at_clock_in_by t \<noteq> None)
   \<and> (at_clock_in_method t = Some ''manager_on_behalf'') = (at_clock_in_reason t \<noteq> None)
   \<and> (at_clock_out_method t = Some ''manager_on_behalf'') = (at_clock_out_by t \<noteq> None)
   \<and> (at_clock_out_method t = Some ''manager_on_behalf'') = (at_clock_out_reason t \<noteq> None)
   \<and> (case at_clock_in_reason t of None \<Rightarrow> True | Some r \<Rightarrow> 1 \<le> length r \<and> length r \<le> 1000)
   \<and> (case at_clock_out_reason t of None \<Rightarrow> True | Some r \<Rightarrow> 1 \<le> length r \<and> length r \<le> 1000)"

definition clock_out_method_check :: "attendance_row \<Rightarrow> bool" where
  "clock_out_method_check t \<longleftrightarrow> at_clock_out_method t = None
     \<or> at_clock_out_method t \<in> Some ` {''manual'', ''auto_geofence'', ''manager_correction'', ''manager_on_behalf''}"

definition attendance_checks :: "attendance_row \<Rightarrow> bool" where
  "attendance_checks t \<longleftrightarrow> (case at_break_minutes t of None \<Rightarrow> True | Some b \<Rightarrow> 0 \<le> b)
     \<and> clock_out_method_check t \<and> attendance_post_shift_order (post_shift_of t) \<and> on_behalf_check t"

text \<open>The unique constraint on the assignment and the partial unique index \<open>attendance_one_active_per_staff\<close>.\<close>

definition one_per_seat :: "attendance_row list \<Rightarrow> bool" where
  "one_per_seat l \<longleftrightarrow> distinct (map at_assignment l)"

definition one_active_per_staff :: "attendance_row list \<Rightarrow> bool" where
  "one_active_per_staff l \<longleftrightarrow> distinct (map at_staff (filter active l))"

definition insert_attendance :: "attendance_row \<Rightarrow> db \<Rightarrow> db res" where
  "insert_attendance t d =
     (let l = attendances d @ [t] in
      if \<not> attendance_checks t then Inl CHECK_VIOLATION
      else if \<not> (distinct (map at_id l) \<and> one_per_seat l \<and> one_active_per_staff l) then Inl UNIQUE_VIOLATION
      else Inr (d\<lparr>attendances := l\<rparr>))"

text \<open>\<open>core.reset_attendance_post_shift\<close>: the milestones restart when the clock-out changes. Every update touches \<open>updated_at\<close>.\<close>

definition reset_attendance_post_shift :: "attendance_row \<Rightarrow> attendance_row \<Rightarrow> attendance_row" where
  "reset_attendance_post_shift old new =
     (if at_clock_out_at new \<noteq> at_clock_out_at old
      then new\<lparr>at_post_shift_completed_at := None, at_post_shift_expired_at := None\<rparr> else new)"

definition updated :: "(attendance_row \<Rightarrow> attendance_row) \<Rightarrow> attendance_row \<Rightarrow> attendance_row" where
  "updated f t = (reset_attendance_post_shift t (f t))\<lparr>at_version := Suc (at_version t)\<rparr>"

definition update_attendance :: "(attendance_row \<Rightarrow> bool) \<Rightarrow> (attendance_row \<Rightarrow> attendance_row) \<Rightarrow> db \<Rightarrow> db res" where
  "update_attendance P f d =
     (let l = update_where P (updated f) (attendances d) in
      if \<not> list_all attendance_checks l then Inl CHECK_VIOLATION
      else if \<not> (one_per_seat l \<and> one_active_per_staff l) then Inl UNIQUE_VIOLATION
      else Inr (d\<lparr>attendances := l\<rparr>))"

text \<open>What PostgreSQL stores: an \<open>integer\<close> column refuses a fractional literal (\<open>22P02\<close>); \<open>numeric(9,6)\<close> rounds.\<close>

definition INVALID_INTEGER :: error where "INVALID_INTEGER = DbError ''22P02''"

definition int_column :: "rat option \<Rightarrow> int option res" where
  "int_column v = (case v of None \<Rightarrow> Inr None
     | Some x \<Rightarrow> if is_integer x then Inr (Some \<lfloor>x\<rfloor>) else Inl INVALID_INTEGER)"

definition int_column_js :: "jsnum option \<Rightarrow> int option res" where
  "int_column_js v = (case v of None \<Rightarrow> Inr None | Some (Fin x) \<Rightarrow> int_column (Some x) | Some _ \<Rightarrow> Inl INVALID_INTEGER)"

definition numeric_9_6 :: "rat \<Rightarrow> rat" where
  "numeric_9_6 x = (let n = \<lfloor>\<bar>x\<bar> * 1000000 + 1 / 2\<rfloor> in (if x < 0 then - of_int n else of_int n) / 1000000)"

section \<open>Shared steps\<close>

definition find_venue :: "string \<Rightarrow> db \<Rightarrow> venue_row option" where
  "find_venue k d = find (\<lambda>v. ve_id v = k) (venues d)"

definition find_seat :: "string \<Rightarrow> string \<Rightarrow> db \<Rightarrow> assignment_row option" where
  "find_seat sid staff d = find (\<lambda>a. sa_shift a = sid \<and> sa_staff a = staff) (assignments d)"

definition attendanceWindow :: "att_env \<Rightarrow> ScheduledWindow \<Rightarrow> int \<times> int" where
  "attendanceWindow env w = (startsAt w - ae_clock_in_early env * 60000, endsAt w + ae_qr_grace env * 60000)"

datatype window_kind = KClock | KCheckIn

definition assertClockWindow :: "att_env \<Rightarrow> clock \<Rightarrow> ScheduledWindow \<Rightarrow> window_kind \<Rightarrow> unit res" where
  "assertClockWindow env clk w kind =
     (let (opensAt, closesAt) = attendanceWindow env w in
      if node_now clk < opensAt then Inl (if kind = KCheckIn then CheckInTooEarly else ClockInTooEarly)
      else if closesAt < node_now clk then Inl (if kind = KCheckIn then CheckInWindowClosed else ClockWindowClosed)
      else Inr ())"

definition locationPolicy :: "att_env \<Rightarrow> bool \<Rightarrow> LocationEvidencePolicy" where
  "locationPolicy env strict = \<lparr>lp_maxAccuracyM = Fin (ae_max_accuracy env), lp_maxAgeMs = ae_max_age_s env * 1000,
     lp_maxFutureSkewMs = ae_max_skew_s env * 1000, lp_strict = strict\<rparr>"

definition venue_fence :: "venue_row \<Rightarrow> GeofenceVenue" where
  "venue_fence v = \<lparr>gv_enforceGeofence = ve_enforce_geofence v, gv_lat = map_option Fin (ve_lat v),
     gv_lng = map_option Fin (ve_lng v), gv_geofenceRadiusM = Some (Fin (of_int (ve_geofence_radius_m v)))\<rparr>"

definition evidence_of :: "location_dto \<Rightarrow> LocationEvidence" where
  "evidence_of dto = \<lparr>le_lat = map_option Fin (fx_lat dto), le_lng = map_option Fin (fx_lng dto),
     le_accuracyM = map_option Fin (fx_accuracyM dto), le_capturedAt = fx_capturedAt dto\<rparr>"

fun round_js :: "jsnum \<Rightarrow> jsnum" where
  "round_js (Fin x) = Fin (of_int (js_round x))"
| "round_js x = x"

fun ceil_js :: "jsnum \<Rightarrow> jsnum" where
  "ceil_js (Fin x) = Fin (of_int \<lceil>x\<rceil>)"
| "ceil_js x = x"

text \<open>What may be stored of the evidence. A capture time that passed the evaluation is a valid date.\<close>

record stored_evidence =
  se_verified :: bool
  se_distanceM :: "jsnum option"
  se_accuracyM :: "jsnum option"
  se_capturedAt :: "int option"

fun date_column :: "js_date option \<Rightarrow> int option" where
  "date_column (Some (Time t)) = Some t"
| "date_column _ = None"

definition verifyLocation ::
  "att_env \<Rightarrow> clock \<Rightarrow> venue_row \<Rightarrow> location_dto \<Rightarrow> bool \<Rightarrow> int option \<Rightarrow> stored_evidence res" where
  "verifyLocation env clk venue dto strict notBefore =
     bindE (evaluateLocationEvidence (ae_metres env) (venue_fence venue) (evidence_of dto) (node_now clk)
              (locationPolicy env strict) (if strict then notBefore else None)) (\<lambda>result.
     case result of
       Inl code \<Rightarrow> Inl (locationEvidenceException code)
     | Inr r \<Rightarrow> Inr \<lparr>se_verified = ev_verified r, se_distanceM = map_option round_js (ev_distanceM r),
         se_accuracyM = map_option ceil_js (ev_accuracyM r), se_capturedAt = date_column (ev_capturedAt r)\<rparr>)"

definition markShiftInProgress :: "shift_row \<Rightarrow> db \<Rightarrow> db res" where
  "markShiftInProgress s d =
     (if sh_status s = IN_PROGRESS then Inr d
      else bindE (assertShift (sh_status s) IN_PROGRESS) (\<lambda>_.
        if \<exists>x \<in> set (shifts d). sh_id x = sh_id s \<and> sh_status x = sh_status s
        then update_shift (sh_id s) (\<lambda>x. if sh_status x = sh_status s then x\<lparr>sh_status := IN_PROGRESS\<rparr> else x) d
        else bindE (from_option ROW_NOT_FOUND (find_shift (sh_id s) d)) (\<lambda>current.
          bindE (require (sh_status current = IN_PROGRESS) (Conflict ''This shift is no longer open for clock-in.'')) (\<lambda>_. Inr d))))"

text \<open>Words that carry a letter or a digit (of Latin-1, the characters of the model).\<close>

definition letter_or_number :: "char \<Rightarrow> bool" where
  "letter_or_number c = (let n = (of_char c :: nat) in
     (48 \<le> n \<and> n \<le> 57) \<or> (65 \<le> n \<and> n \<le> 90) \<or> (97 \<le> n \<and> n \<le> 122) \<or> n \<in> {170, 178, 179, 181, 185, 186, 188, 189, 190}
     \<or> (192 \<le> n \<and> n \<noteq> 215 \<and> n \<noteq> 247))"

fun split_words :: "string \<Rightarrow> string \<Rightarrow> string list" where
  "split_words w [] = [rev w]"
| "split_words w (c # s) = (if js_space c then rev w # split_words [] s else split_words (c # w) s)"

definition countWords :: "string \<Rightarrow> nat" where
  "countWords text = length (filter (\<lambda>w. list_ex letter_or_number w) (split_words [] (js_trim text)))"

definition ON_BEHALF_REASON_MIN_WORDS :: nat where "ON_BEHALF_REASON_MIN_WORDS = 10"

definition assertOnBehalfReason :: "string \<Rightarrow> string res" where
  "assertOnBehalfReason reason =
     (let trimmed = js_trim reason in
      if countWords trimmed < ON_BEHALF_REASON_MIN_WORDS then Inl ReasonTooShort else Inr trimmed)"

definition ownStaffProfile :: "auth_ctx \<Rightarrow> db \<Rightarrow> staff_row res" where
  "ownStaffProfile ctx d = from_option (NotFound ''Staff profile not found.'') (find_staff_of_user (cx_user ctx) d)"

definition expirySeconds :: "att_env \<Rightarrow> shift_row \<Rightarrow> int" where
  "expirySeconds env s =
     (let earliestClockIn = sh_starts_at s - ae_clock_in_early env * 60000;
          latestClockOut = sh_ends_at s + ae_qr_grace env * 60000
      in max 1 \<lceil>of_int (latestClockOut - earliestClockIn) / (1000 :: rat)\<rceil>)"

definition validateQr :: "att_env \<Rightarrow> string \<Rightarrow> string \<Rightarrow> db \<Rightarrow> unit res" where
  "validateQr env shiftId qrToken d =
     (case ae_verify env qrToken of
        Inl e \<Rightarrow> Inl (InvalidQr (if e = TokenExpiredError then QrExpired else QrInvalid))
      | Inr payload \<Rightarrow>
          bindE (require (qp_shiftId payload = shiftId) (InvalidQr QrShiftMismatch)) (\<lambda>_.
          bindE (from_option ROW_NOT_FOUND (find_shift shiftId d)) (\<lambda>s.
          require (qp_venueId payload = sh_venue s \<and> qp_ver payload = sh_qr_version s) (InvalidQr QrVenueMismatch))))"

section \<open>Resource scope (resource-scope.service.ts) and reading a shift\<close>

datatype resource_scope = VenueScope "string list" | OwnerScope string bool

definition NO_OWNER :: string where "NO_OWNER = ''00000000-0000-0000-0000-000000000000''"

definition isCustomRoleKey :: "string \<Rightarrow> bool" where
  "isCustomRoleKey k = starts_with ''custom_'' k"

definition resolveTx :: "att_env \<Rightarrow> auth_ctx \<Rightarrow> db \<Rightarrow> resource_scope" where
  "resolveTx env ctx d =
     (let roleKeys = concat (map us_roles (filter (\<lambda>u. us_id u = cx_user ctx) (users d))) in
      if ''venue_manager'' \<in> set roleKeys
      then VenueScope (concat (map mp_venues (filter (\<lambda>m. mp_user m = cx_user ctx) (managers d))))
      else if roleKeys \<noteq> [] \<and> list_all isCustomRoleKey roleKeys
      then OwnerScope (case cx_workspace ctx of None \<Rightarrow> NO_OWNER
             | Some w \<Rightarrow> (case ae_workspace_owner env w (cx_org ctx) of None \<Rightarrow> NO_OWNER | Some u \<Rightarrow> u)) True
      else OwnerScope (cx_user ctx) False)"

definition canReadShift :: "att_env \<Rightarrow> auth_ctx \<Rightarrow> shift_row \<Rightarrow> db \<Rightarrow> bool" where
  "canReadShift env ctx s d =
     (case resolveTx env ctx d of
        OwnerScope _ _ \<Rightarrow> sh_created_by s = cx_user ctx
      | VenueScope vs \<Rightarrow> sh_venue s \<in> set vs)"

definition assertShiftOwned :: "att_env \<Rightarrow> auth_ctx \<Rightarrow> shift_row \<Rightarrow> db \<Rightarrow> unit res" where
  "assertShiftOwned env ctx s d = require (canReadShift env ctx s d) (NotFound ''Shift not found.'')"

text \<open>The report lock is the atomicity of the transaction; what remains of it is the check.\<close>

definition lockOpenReport :: "string \<Rightarrow> db \<Rightarrow> unit res" where
  "lockOpenReport sid d =
     require (\<not> (\<exists>r \<in> set (reports d). rp_shift r = sid \<and> rp_status r = ''finalised''))
       (Conflict ''This shift report has been finalised and can no longer be corrected.'')"

section \<open>Check In\<close>

record check_in_dto =
  ci_shift :: string
  ci_qr :: "string option"
  ci_fix :: location_dto

record CheckInState =
  cs_shift :: string
  cs_required :: bool
  cs_checked_in_at :: "int option"
  cs_source :: "string option"
  cs_location_verified :: bool
  cs_distance_m :: "int option"
  cs_accuracy_m :: "int option"
  cs_geofence_enforced :: bool
  cs_window :: "int \<times> int"
  cs_clocked_in :: bool
  cs_already :: bool
  cs_server_now :: int

definition checkInState ::
  "att_env \<Rightarrow> clock \<Rightarrow> assignment_row \<Rightarrow> shift_row \<Rightarrow> venue_row \<Rightarrow> bool \<Rightarrow> db \<Rightarrow> CheckInState res" where
  "checkInState env clk a s v already d =
     bindE (effectiveAssignmentTime (sa_period a) (shift_window s)) (\<lambda>w.
     Inr \<lparr>cs_shift = sh_id s, cs_required = sa_check_in_required a, cs_checked_in_at = sa_checked_in_at a,
       cs_source = sa_check_in_source a, cs_location_verified = (sa_check_in_location_verified a = Some True),
       cs_distance_m = sa_check_in_distance_m a, cs_accuracy_m = sa_check_in_accuracy_m a,
       cs_geofence_enforced = ve_enforce_geofence v, cs_window = attendanceWindow env w,
       cs_clocked_in = has_attendance (sa_id a) d, cs_already = already, cs_server_now = node_now clk\<rparr>)"

text \<open>The constraint \<open>shift_assignment_check_in_check\<close>, evaluated on the row the check-in writes.\<close>

definition check_in_check :: "assignment_row \<Rightarrow> bool" where
  "check_in_check a \<longleftrightarrow>
     (sa_check_in_source a = None \<or> sa_check_in_source a \<in> Some ` {''staff'', ''qr''})
   \<and> (sa_checked_in_at a = None) = (sa_check_in_source a = None)
   \<and> (sa_checked_in_at a = None) = (sa_check_in_location_verified a = None)
   \<and> (case sa_check_in_distance_m a of None \<Rightarrow> True | Some x \<Rightarrow> 0 \<le> x)
   \<and> (case sa_check_in_accuracy_m a of None \<Rightarrow> True | Some x \<Rightarrow> 0 \<le> x)
   \<and> (sa_checked_in_at a \<noteq> None \<or> (sa_check_in_distance_m a = None \<and> sa_check_in_accuracy_m a = None
        \<and> sa_check_in_captured_at a = None))"

definition checkIn_write :: "clock \<Rightarrow> assignment_row \<Rightarrow> string \<Rightarrow> stored_evidence \<Rightarrow> db \<Rightarrow> db res" where
  "checkIn_write clk a source evidence d =
     bindE (int_column_js (se_distanceM evidence)) (\<lambda>distance.
     bindE (int_column_js (se_accuracyM evidence)) (\<lambda>accuracy.
     let claims = (\<lambda>x. sa_id x = sa_id a \<and> sa_status x = A_CONFIRMED \<and> sa_checked_in_at x = None);
         stamp = (\<lambda>x. x\<lparr>sa_checked_in_at := Some (tx_now clk), sa_check_in_source := Some source,
              sa_check_in_location_verified := Some (se_verified evidence), sa_check_in_distance_m := distance,
              sa_check_in_accuracy_m := accuracy, sa_check_in_captured_at := se_capturedAt evidence\<rparr>) in
     bindE (require (\<exists>x \<in> set (assignments d). claims x)
              (Conflict ''This booking changed while checking in. Refresh and try again.'')) (\<lambda>_.
     bindE (require (\<forall>x \<in> set (assignments d). claims x \<longrightarrow> check_in_check (stamp x)) CHECK_VIOLATION) (\<lambda>_.
     update_assignment (sa_id a) (\<lambda>x. if claims x then stamp x else x) d))))"

definition checkIn_guards :: "att_env \<Rightarrow> clock \<Rightarrow> assignment_row \<Rightarrow> shift_row \<Rightarrow> db \<Rightarrow> unit res" where
  "checkIn_guards env clk a s d =
     bindE (require (sa_status a \<noteq> A_NO_SHOW) AttendanceFlaggedMissing) (\<lambda>_.
     bindE (require (sa_status a = A_CONFIRMED) (CodedConflict ''SHIFT_NOT_CONFIRMED'' ''This shift is not confirmed for you.'')) (\<lambda>_.
     bindE (require (sh_status s \<notin> {CANCELLED, COMPLETED}) (CodedConflict ''SHIFT_NOT_OPEN'' ''This shift is not open for attendance.'')) (\<lambda>_.
     bindE (require (\<not> has_attendance (sa_id a) d) (AlreadyClockedIn ''You have already clocked in for this shift.'')) (\<lambda>_.
     bindE (effectiveAssignmentTime (sa_period a) (shift_window s)) (\<lambda>w.
     assertClockWindow env clk w KCheckIn)))))"

definition checkIn :: "att_env \<Rightarrow> auth_ctx \<Rightarrow> clock \<Rightarrow> check_in_dto \<Rightarrow> db \<Rightarrow> (db \<times> CheckInState) res" where
  "checkIn env ctx clk dto d =
     bindE (ownStaffProfile ctx d) (\<lambda>sp.
     bindE (from_option (NotFound ''Shift not found.'') (find_seat (ci_shift dto) (sp_id sp) d)) (\<lambda>a.
     bindE (from_option ROW_NOT_FOUND (find_shift (sa_shift a) d)) (\<lambda>s.
     bindE (from_option ROW_NOT_FOUND (find_venue (sh_venue s) d)) (\<lambda>v.
     if sa_checked_in_at a \<noteq> None then bindE (checkInState env clk a s v True d) (\<lambda>st. Inr (d, st))
     else
       bindE (checkIn_guards env clk a s d) (\<lambda>_.
       bindE (case ci_qr dto of None \<Rightarrow> Inr ''staff''
                | Some token \<Rightarrow> bindE (validateQr env (sh_id s) token d) (\<lambda>_. Inr ''qr'')) (\<lambda>source.
       bindE (verifyLocation env clk v (ci_fix dto) True None) (\<lambda>evidence.
       bindE (checkIn_write clk a source evidence d) (\<lambda>d1.
       let d2 = emit [Audit STAFF_CHECKED_IN (sa_id a) (audit_actor ctx)] d1 in
       bindE (from_option ROW_NOT_FOUND (find_assignment (sa_id a) d2)) (\<lambda>fresh.
       bindE (checkInState env clk fresh s v False d2) (\<lambda>st. Inr (d2, st)))))))))))"

definition getCheckIn :: "att_env \<Rightarrow> auth_ctx \<Rightarrow> clock \<Rightarrow> string \<Rightarrow> db \<Rightarrow> CheckInState res" where
  "getCheckIn env ctx clk sid d =
     bindE (ownStaffProfile ctx d) (\<lambda>sp.
     bindE (from_option (NotFound ''Shift not found.'') (find_seat sid (sp_id sp) d)) (\<lambda>a.
     bindE (from_option ROW_NOT_FOUND (find_shift (sa_shift a) d)) (\<lambda>s.
     bindE (from_option ROW_NOT_FOUND (find_venue (sh_venue s) d)) (\<lambda>v.
     checkInState env clk a s v (sa_checked_in_at a \<noteq> None) d))))"

section \<open>Clock In\<close>

record clock_in_dto =
  in_shift :: string
  in_qr :: string
  in_fix :: location_dto

text \<open>The columns every new row shares; \<open>i\<close> is the fresh UUID.\<close>

definition new_attendance :: "auth_ctx \<Rightarrow> shift_row \<Rightarrow> assignment_row \<Rightarrow> string \<Rightarrow> int \<Rightarrow> attendance_row" where
  "new_attendance ctx s a i clockIn = \<lparr>at_id = i, at_org = cx_org ctx, at_assignment = sa_id a, at_shift = sh_id s,
     at_staff = sa_staff a, at_workspace = sh_workspace s, at_clock_in_at = clockIn, at_clock_out_at = None,
     at_post_shift_completed_at = None, at_post_shift_expired_at = None, at_status = CLOCKED_IN, at_worked_minutes = None,
     at_earned_pence = None, at_clock_in_lat = None, at_clock_in_lng = None, at_clock_in_accuracy_m = None,
     at_clock_out_lat = None, at_clock_out_lng = None, at_clock_out_accuracy_m = None, at_location_verified = False,
     at_clock_out_method = None, at_clock_in_method = None, at_clock_in_by = None, at_clock_in_reason = None,
     at_clock_out_by = None, at_clock_out_reason = None, at_clock_in_captured_at = None, at_break_minutes = None, at_version = 0\<rparr>"

text \<open>\<open>manager.save(attendance)\<close> with its \<open>catch\<close>: a unique violation becomes the given conflict.\<close>

definition save_attendance :: "error \<Rightarrow> attendance_row \<Rightarrow> db \<Rightarrow> db res" where
  "save_attendance taken t d =
     (case insert_attendance t d of Inl e \<Rightarrow> Inl (if e = UNIQUE_VIOLATION then taken else e) | Inr d' \<Rightarrow> Inr d')"

definition clockIn_guards :: "att_env \<Rightarrow> clock \<Rightarrow> assignment_row \<Rightarrow> shift_row \<Rightarrow> db \<Rightarrow> unit res" where
  "clockIn_guards env clk a s d =
     bindE (require (sh_status s \<notin> {CANCELLED, COMPLETED}) (Conflict ''This shift is not open for attendance.'')) (\<lambda>_.
     bindE (require (\<not> has_attendance (sa_id a) d) (AlreadyClockedIn ''You have already clocked in for this shift.'')) (\<lambda>_.
     bindE (effectiveAssignmentTime (sa_period a) (shift_window s)) (\<lambda>w.
     bindE (assertClockWindow env clk w KClock) (\<lambda>_.
     require (\<not> (sa_check_in_required a \<and> sa_checked_in_at a = None)) CheckInRequired))))"

definition clockIn_row ::
  "auth_ctx \<Rightarrow> clock \<Rightarrow> shift_row \<Rightarrow> assignment_row \<Rightarrow> string \<Rightarrow> location_dto \<Rightarrow> stored_evidence \<Rightarrow> attendance_row res" where
  "clockIn_row ctx clk s a i dto evidence =
     bindE (int_column (fx_accuracyM dto)) (\<lambda>accuracy.
     Inr ((new_attendance ctx s a i (node_now clk))\<lparr>
       at_clock_in_lat := map_option numeric_9_6 (fx_lat dto), at_clock_in_lng := map_option numeric_9_6 (fx_lng dto),
       at_clock_in_accuracy_m := accuracy, at_location_verified := se_verified evidence,
       at_clock_in_method := Some ''staff'', at_clock_in_captured_at := se_capturedAt evidence\<rparr>))"

definition clockIn :: "att_env \<Rightarrow> auth_ctx \<Rightarrow> clock \<Rightarrow> string \<Rightarrow> clock_in_dto \<Rightarrow> db \<Rightarrow> (db \<times> attendance_row) res" where
  "clockIn env ctx clk i dto d =
     bindE (ownStaffProfile ctx d) (\<lambda>sp.
     bindE (from_option (NotFound ''Shift not found.'') (find_seat (in_shift dto) (sp_id sp) d)) (\<lambda>a.
     bindE (require (\<not> (sa_status a = A_NO_SHOW \<and> \<not> has_attendance (sa_id a) d)) AttendanceFlaggedMissing) (\<lambda>_.
     bindE (require (sa_status a = A_CONFIRMED) (Conflict ''This shift is not confirmed for you.'')) (\<lambda>_.
     bindE (from_option ROW_NOT_FOUND (find_shift (sa_shift a) d)) (\<lambda>s.
     bindE (clockIn_guards env clk a s d) (\<lambda>_.
     bindE (validateQr env (sh_id s) (in_qr dto) d) (\<lambda>_.
     bindE (from_option ROW_NOT_FOUND (find_venue (sh_venue s) d)) (\<lambda>v.
     bindE (verifyLocation env clk v (in_fix dto) (sa_check_in_required a) (sa_check_in_captured_at a)) (\<lambda>evidence.
     bindE (clockIn_row ctx clk s a i (in_fix dto) evidence) (\<lambda>t.
     bindE (save_attendance (Conflict ''You already have an active clock-in -- clock out first.'') t d) (\<lambda>d1.
     bindE (markShiftInProgress s d1) (\<lambda>d2.
     let d3 = emit [Audit STAFF_CLOCKED_IN i (audit_actor ctx), Realtime ''attendance.changed'' i] d2 in
     bindE (from_option ROW_NOT_FOUND (find_attendance i d3)) (\<lambda>t'. Inr (d3, t'))))))))))))))"

section \<open>Clock Out\<close>

datatype clock_out_method = Manual | AutoGeofence | ManagerOnBehalf

fun clock_out_method_str :: "clock_out_method \<Rightarrow> string" where
  "clock_out_method_str Manual = ''manual''"
| "clock_out_method_str AutoGeofence = ''auto_geofence''"
| "clock_out_method_str ManagerOnBehalf = ''manager_on_behalf''"

fun clock_out_audit :: "clock_out_method \<Rightarrow> audit_action" where
  "clock_out_audit Manual = STAFF_CLOCKED_OUT"
| "clock_out_audit AutoGeofence = STAFF_AUTO_CLOCKED_OUT_GEOFENCE"
| "clock_out_audit ManagerOnBehalf = ATTENDANCE_CLOCKED_OUT_ON_BEHALF"

abbreviation "assertAttendance \<equiv> assertTransition attendance_status_str ATTENDANCE_TRANSITIONS"

definition worked_of :: "attendance_row \<Rightarrow> assignment_row \<Rightarrow> shift_row \<Rightarrow> int \<Rightarrow> WorkedMinutesResult res" where
  "worked_of t a s out = computeWorkedMinutes \<lparr>wm_clockInAt = at_clock_in_at t, wm_clockOutAt = out, wm_breaks = None,
     wm_scheduledBreakMinutes = Some (case at_break_minutes t of Some b \<Rightarrow> b
       | None \<Rightarrow> effectiveAssignmentBreakMinutes (sa_break_minutes a) (sh_break_minutes s)),
     wm_breaksPaidByDefault = None\<rparr>"

definition pay_of :: "assignment_row \<Rightarrow> int \<Rightarrow> Pence res" where
  "pay_of a minutes = payForMinutes (of_int (sa_pay_snapshot a)) (of_int minutes)"

definition clocked_out_row ::
  "int \<Rightarrow> int \<Rightarrow> Pence \<Rightarrow> location_dto \<Rightarrow> int option \<Rightarrow> bool \<Rightarrow> clock_out_method \<Rightarrow> (string \<times> string) option
    \<Rightarrow> attendance_row \<Rightarrow> attendance_row" where
  "clocked_out_row now worked earned dto accuracy verified meth onBehalf t = t\<lparr>at_clock_out_at := Some now,
     at_status := CLOCKED_OUT, at_worked_minutes := Some worked, at_earned_pence := Some earned,
     at_clock_out_lat := map_option numeric_9_6 (fx_lat dto), at_clock_out_lng := map_option numeric_9_6 (fx_lng dto),
     at_clock_out_accuracy_m := accuracy, at_location_verified := (at_location_verified t \<or> verified),
     at_clock_out_method := Some (clock_out_method_str meth), at_clock_out_by := map_option fst onBehalf,
     at_clock_out_reason := map_option snd onBehalf\<rparr>"

text \<open>The claim \<open>UPDATE attendance ... WHERE id = $10 AND status = $11\<close>, then the seat and the roll-up.\<close>

definition clock_out_write ::
  "auth_ctx \<Rightarrow> attendance_row \<Rightarrow> assignment_row \<Rightarrow> (attendance_row \<Rightarrow> attendance_row) \<Rightarrow> audit_action \<Rightarrow> db \<Rightarrow> db res" where
  "clock_out_write ctx t a f act d =
     (let claims = (\<lambda>x. at_id x = at_id t \<and> at_status x = at_status t) in
      bindE (require (\<exists>x \<in> set (attendances d). claims x) (Conflict ''This attendance was already clocked out.'')) (\<lambda>_.
      bindE (update_attendance claims f d) (\<lambda>d1.
      bindE (assertSeat (sa_status a) A_COMPLETED) (\<lambda>_.
      bindE (update_assignment (sa_id a) (\<lambda>x. x\<lparr>sa_status := A_COMPLETED\<rparr>) d1) (\<lambda>d2.
      bindE (completeShiftIfSettled (cx_org ctx) (at_shift t)
               (emit [Audit act (at_id t) (audit_actor ctx), Realtime ''attendance.changed'' (at_id t)] d2)) (\<lambda>(d3, _).
      Inr d3))))))"

definition performClockOut ::
  "auth_ctx \<Rightarrow> clock \<Rightarrow> attendance_row \<Rightarrow> location_dto \<Rightarrow> bool \<Rightarrow> clock_out_method \<Rightarrow> (string \<times> string) option
    \<Rightarrow> db \<Rightarrow> db \<Rightarrow> (db \<times> attendance_row) res" where
  "performClockOut ctx clk t dto verified meth onBehalf d0 d =
     bindE (from_option ROW_NOT_FOUND (find_assignment (at_assignment t) d0)) (\<lambda>a.
     bindE (from_option ROW_NOT_FOUND (find_shift (at_shift t) d0)) (\<lambda>s.
     bindE (assertAttendance (at_status t) CLOCKED_OUT) (\<lambda>_.
     bindE (worked_of t a s (node_now clk)) (\<lambda>w.
     bindE (pay_of a (workedMinutes w)) (\<lambda>earned.
     bindE (int_column (fx_accuracyM dto)) (\<lambda>accuracy.
     bindE (clock_out_write ctx t a
              (clocked_out_row (node_now clk) (workedMinutes w) earned dto accuracy verified meth onBehalf)
              (clock_out_audit meth) d) (\<lambda>d'.
     bindE (from_option ROW_NOT_FOUND (find_attendance (at_id t) d')) (\<lambda>t'. Inr (d', t')))))))))"

definition active_of :: "string \<Rightarrow> db \<Rightarrow> attendance_row option" where
  "active_of staff d = find (\<lambda>t. at_staff t = staff \<and> active t) (attendances d)"

record clock_out_dto =
  out_qr :: string
  out_fix :: location_dto

definition clockOut :: "att_env \<Rightarrow> auth_ctx \<Rightarrow> clock \<Rightarrow> clock_out_dto \<Rightarrow> db \<Rightarrow> db \<Rightarrow> (db \<times> attendance_row) res" where
  "clockOut env ctx clk dto d0 d =
     bindE (ownStaffProfile ctx d0) (\<lambda>sp.
     bindE (from_option (NotFound ''No active clock-in found.'') (active_of (sp_id sp) d0)) (\<lambda>t.
     bindE (from_option ROW_NOT_FOUND (find_shift (at_shift t) d0)) (\<lambda>s.
     bindE (validateQr env (sh_id s) (out_qr dto) d0) (\<lambda>_.
     bindE (from_option ROW_NOT_FOUND (find_assignment (at_assignment t) d0)) (\<lambda>a.
     bindE (from_option ROW_NOT_FOUND (find_venue (sh_venue s) d0)) (\<lambda>v.
     bindE (verifyLocation env clk v (out_fix dto) (sa_check_in_required a) (at_clock_in_captured_at t)) (\<lambda>evidence.
     performClockOut ctx clk t (out_fix dto) (se_verified evidence) Manual None d0 d)))))))"

text \<open>\<open>GeofenceExitDto\<close>: latitude and longitude are required.\<close>

record geofence_exit_dto =
  ge_lat :: rat
  ge_lng :: rat
  ge_accuracyM :: "rat option"
  ge_capturedAt :: "js_date option"

definition exit_fix :: "geofence_exit_dto \<Rightarrow> location_dto" where
  "exit_fix dto = \<lparr>fx_lat = Some (ge_lat dto), fx_lng = Some (ge_lng dto), fx_accuracyM = ge_accuracyM dto, fx_capturedAt = ge_capturedAt dto\<rparr>"

definition outside_fence :: "att_env \<Rightarrow> venue_row \<Rightarrow> geofence_exit_dto \<Rightarrow> unit res" where
  "outside_fence env v dto =
     (case (ve_lat v, ve_lng v) of
        (Some lat, Some lng) \<Rightarrow>
          bindE (haversineDistanceMeters (ae_metres env) \<lparr>gp_lat = Fin (ge_lat dto), gp_lng = Fin (ge_lng dto)\<rparr>
                   \<lparr>gp_lat = Fin lat, gp_lng = Fin lng\<rparr>) (\<lambda>distance.
          require (\<not> js_le distance (Fin (of_int (ve_geofence_radius_m v)))) (Conflict ''You are still within the venue geofence.''))
      | _ \<Rightarrow> Inr ())"

definition autoClockOutOnGeofenceExit ::
  "att_env \<Rightarrow> auth_ctx \<Rightarrow> clock \<Rightarrow> geofence_exit_dto \<Rightarrow> db \<Rightarrow> db \<Rightarrow> (db \<times> attendance_row) res" where
  "autoClockOutOnGeofenceExit env ctx clk dto d0 d =
     bindE (ownStaffProfile ctx d0) (\<lambda>sp.
     bindE (from_option (NotFound ''No active clock-in found.'') (active_of (sp_id sp) d0)) (\<lambda>t.
     bindE (from_option ROW_NOT_FOUND (find_shift (at_shift t) d0)) (\<lambda>s.
     bindE (from_option ROW_NOT_FOUND (find_venue (sh_venue s) d0)) (\<lambda>v.
     bindE (from_option ROW_NOT_FOUND (find_assignment (at_assignment t) d0)) (\<lambda>a.
     bindE (require (isGeofenceConfigured (venue_fence v))
              (Conflict ''This venue has no geofence configured -- automatic clock-out is unavailable.'')) (\<lambda>_.
     bindE (require (\<not> (case ge_accuracyM dto of None \<Rightarrow> False | Some x \<Rightarrow> ae_max_accuracy env < x)) LocationAccuracyTooLow) (\<lambda>_.
     bindE (case assessCaptureTime (ge_capturedAt dto) (node_now clk) (locationPolicy env (sa_check_in_required a))
                   (if sa_check_in_required a then at_clock_in_captured_at t else None) of
              Some code \<Rightarrow> Inl (locationEvidenceException code) | None \<Rightarrow> Inr ()) (\<lambda>_.
     bindE (outside_fence env v dto) (\<lambda>_.
     performClockOut ctx clk t (exit_fix dto) True AutoGeofence None d0 d)))))))))"

section \<open>On behalf of a staff member\<close>

definition SEAT_REPORT_STATUSES :: "assignment_status list" where
  "SEAT_REPORT_STATUSES = [A_CONFIRMED, A_COMPLETED, A_NO_SHOW]"

definition openOnBehalf ::
  "att_env \<Rightarrow> auth_ctx \<Rightarrow> string \<Rightarrow> string \<Rightarrow> db \<Rightarrow> db \<Rightarrow> (shift_row \<times> assignment_row) res" where
  "openOnBehalf env ctx sid staff d0 d =
     bindE (require (ae_may_edit env) (Forbidden ''Permission required.'')) (\<lambda>_.
     bindE (from_option (NotFound ''Shift not found.'') (find_shift sid d0)) (\<lambda>s.
     bindE (require (sh_org s = cx_org ctx \<and> canReadShift env ctx s d0) (NotFound ''Shift not found.'')) (\<lambda>_.
     bindE (from_option (NotFound ''Staff member not found on this shift.'')
              (find (\<lambda>a. sa_shift a = sid \<and> sa_staff a = staff \<and> sa_status a \<in> set SEAT_REPORT_STATUSES) (assignments d0))) (\<lambda>seat.
     bindE (lockOpenReport sid d) (\<lambda>_.
     Inr (s, seat))))))"

definition onBehalf_guards :: "att_env \<Rightarrow> clock \<Rightarrow> assignment_row \<Rightarrow> shift_row \<Rightarrow> db \<Rightarrow> unit res" where
  "onBehalf_guards env clk a s d =
     bindE (require (\<not> has_attendance (sa_id a) d) (AlreadyClockedIn ''This staff member has already clocked in for this shift.'')) (\<lambda>_.
     bindE (require (sa_status a \<noteq> A_NO_SHOW)
              (CodedConflict ''ATTENDANCE_FLAGGED_MISSING''
                 ''This staff member's attendance was flagged as missing. Record their attendance in the shift report instead.'')) (\<lambda>_.
     bindE (require (sa_status a = A_CONFIRMED) (CodedConflict ''SHIFT_NOT_CONFIRMED'' ''This staff member is not confirmed for this shift.'')) (\<lambda>_.
     bindE (require (sh_status s \<notin> {CANCELLED, COMPLETED}) (CodedConflict ''SHIFT_NOT_OPEN'' ''This shift is not open for attendance.'')) (\<lambda>_.
     bindE (effectiveAssignmentTime (sa_period a) (shift_window s)) (\<lambda>w.
     bindE (assertClockWindow env clk w KClock) (\<lambda>_.
     require (sa_checked_in_at a \<noteq> None) StaffNotCheckedIn))))))"

definition presence_proof :: "venue_row \<Rightarrow> assignment_row \<Rightarrow> unit res" where
  "presence_proof v a =
     (if ve_enforce_geofence v
      then bindE (require (isGeofenceConfigured (venue_fence v)) GeofenceMisconfigured) (\<lambda>_.
           require (sa_check_in_location_verified a = Some True) PresenceNotVerified)
      else Inr ())"

text \<open>The result is the state; the report the code returns is a read of it.\<close>

definition clockInOnBehalf ::
  "att_env \<Rightarrow> auth_ctx \<Rightarrow> clock \<Rightarrow> string \<Rightarrow> string \<Rightarrow> string \<Rightarrow> string \<Rightarrow> db \<Rightarrow> db \<Rightarrow> db res" where
  "clockInOnBehalf env ctx clk i sid staff reasonText d0 d =
     bindE (assertOnBehalfReason reasonText) (\<lambda>reason.
     bindE (openOnBehalf env ctx sid staff d0 d) (\<lambda>(_, seat).
     bindE (from_option ROW_NOT_FOUND (find_shift sid d)) (\<lambda>s.
     bindE (from_option ROW_NOT_FOUND (find_assignment (sa_id seat) d)) (\<lambda>a.
     bindE (onBehalf_guards env clk a s d) (\<lambda>_.
     bindE (from_option ROW_NOT_FOUND (find_venue (sh_venue s) d)) (\<lambda>v.
     bindE (presence_proof v a) (\<lambda>_.
     let t = (new_attendance ctx s a i (node_now clk))\<lparr>at_clock_in_method := Some ''manager_on_behalf'',
           at_clock_in_by := Some (cx_user ctx), at_clock_in_reason := Some reason,
           at_clock_in_captured_at := sa_check_in_captured_at a\<rparr> in
     bindE (save_attendance (AlreadyClockedIn ''This staff member has already clocked in for this shift.'') t d) (\<lambda>d1.
     bindE (markShiftInProgress s d1) (\<lambda>d2.
     Inr (emit [Audit ATTENDANCE_CLOCKED_IN_ON_BEHALF i (audit_actor ctx), Realtime ''attendance.changed'' i] d2))))))))))"

definition clockOutOnBehalf ::
  "att_env \<Rightarrow> auth_ctx \<Rightarrow> clock \<Rightarrow> string \<Rightarrow> string \<Rightarrow> string \<Rightarrow> db \<Rightarrow> db \<Rightarrow> db res" where
  "clockOutOnBehalf env ctx clk sid staff reasonText d0 d =
     bindE (assertOnBehalfReason reasonText) (\<lambda>reason.
     bindE (openOnBehalf env ctx sid staff d0 d) (\<lambda>(s, seat).
     bindE (from_option (NotClockedIn ''This staff member hasn't clocked in.'')
              (find (\<lambda>t. at_assignment t = sa_id seat) (attendances d))) (\<lambda>t.
     bindE (require (active t) (NotClockedIn ''This staff member is no longer clocked in.'')) (\<lambda>_.
     bindE (from_option ROW_NOT_FOUND (find_venue (sh_venue s) d)) (\<lambda>v.
     bindE (require (\<not> ve_enforce_geofence v) PresenceEvidenceRequired) (\<lambda>_.
     bindE (from_option ROW_NOT_FOUND (find_assignment (sa_id seat) d)) (\<lambda>a.
     bindE (effectiveAssignmentTime (sa_period a) (shift_window s)) (\<lambda>w.
     bindE (require (\<not> snd (attendanceWindow env w) < node_now clk) ClockWindowClosed) (\<lambda>_.
     bindE (performClockOut ctx clk t no_location False ManagerOnBehalf (Some (cx_user ctx, reason)) d d) (\<lambda>(d', _).
     Inr d'))))))))))"

end
