(* ===== verification/OfferInvariant.thy ===== *)
theory OfferInvariant
  imports OfferResponses Attendance
begin

text \<open>
  The invariant of the staffing database, and what one response to an offer, or one change of a seat, does to it.

  \<open>db_ok\<close>: the tables are keyed and linked, every offer agrees with its seat (\<open>coupled\<close>), every attendance belongs to a booked
  seat of its staff member (\<open>attended_db\<close>), the database constraints hold and no shift has more occupied seats than it
  requires. \<open>older d0 d\<close>: the rows of the snapshot \<open>d0\<close> are still in \<open>d\<close> with the same identities. \<open>touches\<close> and \<open>reseats\<close>
  describe a change of one offer, its seat and its shift, and of one seat and its shift.
\<close>

section \<open>The invariant\<close>

fun coupled :: "offer_status \<Rightarrow> assignment_status \<Rightarrow> bool" where
  "coupled PENDING x = (x = A_OFFERED)"
| "coupled OFFER_STAFF_ACCEPTED x = (x = A_STAFF_ACCEPTED)"
| "coupled MANAGER_CONFIRMED x = (x \<in> {A_CONFIRMED, A_CANCELLED, A_NO_SHOW, A_COMPLETED})"
| "coupled MANAGER_REJECTED x = (x \<in> {A_REJECTED, A_CANCELLED})"
| "coupled OFFER_DECLINED x = (x = A_DECLINED)"
| "coupled EXPIRED x = (x = A_OFFERED)"
| "coupled OFFER_WITHDRAWN x = (x = A_WITHDRAWN)"

definition shift_cancelled :: "string \<Rightarrow> db \<Rightarrow> bool" where
  "shift_cancelled sid d \<longleftrightarrow> (\<exists>s \<in> set (shifts d). sh_id s = sid \<and> sh_status s = CANCELLED)"

definition pair_ok :: "db \<Rightarrow> offer_row \<Rightarrow> assignment_row \<Rightarrow> bool" where
  "pair_ok d r a \<longleftrightarrow> coupled (jo_status r) (sa_status a) \<or> (sa_status a = A_CANCELLED \<and> shift_cancelled (sa_shift a) d)"

definition keyed_db :: "db \<Rightarrow> bool" where
  "keyed_db d \<longleftrightarrow> shift_table.keyed (shifts d) \<and> assignment_table.keyed (assignments d) \<and> offer_table.keyed (offers d)
     \<and> distinct (map jo_assignment (offers d))"

definition published :: "shift_row list \<Rightarrow> string set" where
  "published t = set (map sh_id (filter (\<lambda>s. sh_status s \<noteq> DRAFT) t))"

text \<open>Every seat is on a shift that is no draft, every offer on a seat.\<close>

definition linked_db :: "db \<Rightarrow> bool" where
  "linked_db d \<longleftrightarrow> sa_shift ` set (assignments d) \<subseteq> published (shifts d)
     \<and> (\<lambda>r. (jo_assignment r, jo_staff r)) ` set (offers d) \<subseteq> (\<lambda>a. (sa_id a, sa_staff a)) ` set (assignments d)"

definition coupled_db :: "db \<Rightarrow> bool" where
  "coupled_db d \<longleftrightarrow> (\<forall>r \<in> set (offers d). \<forall>a \<in> set (assignments d). sa_id a = jo_assignment r \<longrightarrow> pair_ok d r a)"

definition seated_db :: "db \<Rightarrow> bool" where
  "seated_db d \<longleftrightarrow> (\<forall>s \<in> set (shifts d). occupied (sh_id s) d \<le> sh_required_count s)"

definition checked_db :: "db \<Rightarrow> bool" where
  "checked_db d \<longleftrightarrow> list_all shift_checks (shifts d) \<and> no_double_booking (assignments d)"

text \<open>An attendance and its seat: while it is active the seat is confirmed, afterwards it stays booked.\<close>

definition attended_seat :: "attendance_row \<Rightarrow> assignment_row \<Rightarrow> bool" where
  "attended_seat t a \<longleftrightarrow> sa_id a = at_assignment t \<and> sa_shift a = at_shift t \<and> sa_staff a = at_staff t
     \<and> (if active t then sa_status a = A_CONFIRMED else booked a)"

definition attended_db :: "db \<Rightarrow> bool" where
  "attended_db d \<longleftrightarrow> attendance_table.keyed (attendances d) \<and> one_per_seat (attendances d) \<and> one_active_per_staff (attendances d)
     \<and> list_all attendance_checks (attendances d) \<and> (\<forall>t \<in> set (attendances d). \<exists>a \<in> set (assignments d). attended_seat t a)"

definition db_ok :: "db \<Rightarrow> bool" where
  "db_ok d \<longleftrightarrow> keyed_db d \<and> linked_db d \<and> coupled_db d \<and> seated_db d \<and> checked_db d \<and> attended_db d"

text \<open>Identities never change, rows are never deleted and cancelled shifts stay cancelled.\<close>

definition offer_ident :: "offer_row \<Rightarrow> string \<times> string \<times> string \<times> offer_kind option \<times> string option" where
  "offer_ident r = (jo_id r, jo_assignment r, jo_staff r, jo_kind r, jo_created_by r)"

definition seat_ident :: "assignment_row \<Rightarrow> string \<times> string \<times> string" where
  "seat_ident a = (sa_id a, sa_shift a, sa_staff a)"

definition att_ident :: "attendance_row \<Rightarrow> string \<times> string \<times> string \<times> string" where
  "att_ident t = (at_id t, at_assignment t, at_shift t, at_staff t)"

definition older :: "db \<Rightarrow> db \<Rightarrow> bool" where
  "older d0 d \<longleftrightarrow> offer_ident ` set (offers d0) \<subseteq> offer_ident ` set (offers d)
     \<and> seat_ident ` set (assignments d0) \<subseteq> seat_ident ` set (assignments d)
     \<and> att_ident ` set (attendances d0) \<subseteq> att_ident ` set (attendances d)
     \<and> {sid. shift_cancelled sid d0} \<subseteq> {sid. shift_cancelled sid d}"

lemma older_refl: "older d d"
  by (simp add: older_def)

lemma older_trans: "older d0 d1 \<Longrightarrow> older d1 d2 \<Longrightarrow> older d0 d2"
  unfolding older_def by (meson subset_trans)

section \<open>Lookups\<close>

lemma find_shift_iff: "shift_table.keyed (shifts d) \<Longrightarrow> find_shift k d = Some s \<longleftrightarrow> s \<in> set (shifts d) \<and> sh_id s = k"
  unfolding find_shift_def by (rule shift_table.find_iff)

lemma find_assignment_iff:
  "assignment_table.keyed (assignments d) \<Longrightarrow> find_assignment k d = Some a \<longleftrightarrow> a \<in> set (assignments d) \<and> sa_id a = k"
  unfolding find_assignment_def by (rule assignment_table.find_iff)

lemma find_offer_iff: "offer_table.keyed (offers d) \<Longrightarrow> find_offer k d = Some r \<longleftrightarrow> r \<in> set (offers d) \<and> jo_id r = k"
  unfolding find_offer_def by (rule offer_table.find_iff)

lemma find_offer_SomeD: "find_offer k d = Some r \<Longrightarrow> r \<in> set (offers d) \<and> jo_id r = k"
  unfolding find_offer_def by (drule find_Some_mem)

lemma find_assignment_SomeD: "find_assignment k d = Some a \<Longrightarrow> a \<in> set (assignments d) \<and> sa_id a = k"
  unfolding find_assignment_def by (drule find_Some_mem)

lemma find_shift_SomeD: "find_shift k d = Some s \<Longrightarrow> s \<in> set (shifts d) \<and> sh_id s = k"
  unfolding find_shift_def by (drule find_Some_mem)

lemma offer_join_SomeD:
  "offer_join k d = Some (r, a, s) \<Longrightarrow> find_offer k d = Some r \<and> find_assignment (jo_assignment r) d = Some a
     \<and> find_shift (sa_shift a) d = Some s"
  by (auto simp: offer_join_def split: option.splits)

lemma occupied_count:
  "occupied sid d = int (count_where (\<lambda>a. sa_shift a = sid \<and> occupiedSeatSql a) (assignments d))"
  unfolding occupied_def seats_of_def count_where_def by (simp add: conj_commute)

lemma older_offer:
  assumes "older d0 d" and "db_ok d" and "find_offer oid d0 = Some r"
  obtains q where "find_offer oid d = Some q" and "offer_ident q = offer_ident r"
proof -
  have "offer_ident r \<in> offer_ident ` set (offers d)"
    using find_offer_SomeD [OF assms(3)] assms(1) unfolding older_def by blast
  then obtain q where q: "q \<in> set (offers d)" "offer_ident q = offer_ident r" by force
  moreover have "jo_id q = oid" using q(2) find_offer_SomeD [OF assms(3)] by (simp add: offer_ident_def)
  ultimately show ?thesis using that assms(2) find_offer_iff [of d oid q] by (simp add: db_ok_def keyed_db_def)
qed

lemma older_assignment:
  assumes "older d0 d" and "db_ok d" and "find_assignment k d0 = Some a"
  obtains b where "find_assignment k d = Some b" and "seat_ident b = seat_ident a"
proof -
  have "seat_ident a \<in> seat_ident ` set (assignments d)"
    using find_assignment_SomeD [OF assms(3)] assms(1) unfolding older_def by blast
  then obtain b where b: "b \<in> set (assignments d)" "seat_ident b = seat_ident a" by force
  moreover have "sa_id b = k" using b(2) find_assignment_SomeD [OF assms(3)] by (simp add: seat_ident_def)
  ultimately show ?thesis using that assms(2) find_assignment_iff [of d k b] by (simp add: db_ok_def keyed_db_def)
qed

section \<open>One offer, its seat and its shift\<close>

text \<open>Updates that keep the identity fields.\<close>

definition offer_upd :: "(offer_row \<Rightarrow> offer_row) \<Rightarrow> bool" where
  "offer_upd f \<longleftrightarrow> (\<forall>r. offer_ident (f r) = offer_ident r)"

definition seat_upd :: "(assignment_row \<Rightarrow> assignment_row) \<Rightarrow> bool" where
  "seat_upd g \<longleftrightarrow> (\<forall>a. seat_ident (g a) = seat_ident a)"

definition shift_upd :: "(shift_row \<Rightarrow> shift_row) \<Rightarrow> bool" where
  "shift_upd h \<longleftrightarrow> (\<forall>s. sh_id (h s) = sh_id s \<and> (sh_status (h s) = DRAFT \<longrightarrow> sh_status s = DRAFT))"

lemma map_update_where: "(\<And>x. p (f x) = p x) \<Longrightarrow> map p (update_where P f t) = map p t"
  by (induction t) auto

lemma shift_upd_published:
  assumes "shift_upd h"
  shows "published t \<subseteq> published (update_where P h t)"
proof
  fix k
  assume "k \<in> published t"
  then obtain s where s: "s \<in> set t" "sh_status s \<noteq> DRAFT" "k = sh_id s" by (auto simp: published_def)
  let ?s = "if P s then h s else s"
  have "sh_status ?s \<noteq> DRAFT" "sh_id ?s = k" using assms s(2,3) by (auto simp: shift_upd_def)
  moreover have "?s \<in> set (update_where P h t)" using s(1) by (auto simp: set_update_where)
  ultimately show "k \<in> published (update_where P h t)" unfolding published_def by force
qed

lemma published_sub: "published t \<subseteq> sh_id ` set t"
  by (auto simp: published_def)

lemma offer_updD:
  assumes "offer_upd f"
  shows "jo_id (f r) = jo_id r" "jo_assignment (f r) = jo_assignment r" "jo_staff (f r) = jo_staff r"
    "jo_kind (f r) = jo_kind r" "jo_created_by (f r) = jo_created_by r"
  using assms [unfolded offer_upd_def, rule_format, of r] by (simp_all add: offer_ident_def)

lemma seat_updD:
  assumes "seat_upd g"
  shows "sa_id (g a) = sa_id a" "sa_shift (g a) = sa_shift a" "sa_staff (g a) = sa_staff a"
  using assms [unfolded seat_upd_def, rule_format, of a] by (simp_all add: seat_ident_def)

lemma offer_upd_maps:
  assumes "offer_upd f"
  shows "map offer_ident (update_where P f t) = map offer_ident t" "map jo_id (update_where P f t) = map jo_id t"
    "map jo_assignment (update_where P f t) = map jo_assignment t"
  using assms by (auto intro!: map_update_where simp: offer_upd_def offer_ident_def)

lemma seat_upd_maps:
  assumes "seat_upd g"
  shows "map seat_ident (update_where P g t) = map seat_ident t" "map sa_id (update_where P g t) = map sa_id t"
  using assms by (auto intro!: map_update_where simp: seat_upd_def seat_ident_def)

text \<open>A change of one seat and its shift: \<open>g\<close> on the seat, \<open>h\<close> on the shift.\<close>

definition reseats :: "db \<Rightarrow> assignment_row \<Rightarrow> (assignment_row \<Rightarrow> assignment_row) \<Rightarrow> (shift_row \<Rightarrow> shift_row) \<Rightarrow> db \<Rightarrow> bool" where
  "reseats d a g h d' \<longleftrightarrow> seat_upd g \<and> shift_upd h
     \<and> assignments d' = update_where (\<lambda>q. sa_id q = sa_id a) g (assignments d)
     \<and> shifts d' = update_where (\<lambda>q. sh_id q = sa_shift a) h (shifts d)"

lemma seat_count_after:
  assumes "assignment_table.keyed t" and "a \<in> set t" and "seat_upd g"
  shows "int (count_where (\<lambda>x. sa_shift x = sid \<and> occupiedSeatSql x) (update_where (\<lambda>q. sa_id q = sa_id a) g t))
    = int (count_where (\<lambda>x. sa_shift x = sid \<and> occupiedSeatSql x) t)
      + (if sa_shift a = sid then of_bool (occupiedSeatSql (g a)) - of_bool (occupiedSeatSql a) else 0)"
proof -
  have "sa_id (g x) = sa_id x" "sa_shift (g x) = sa_shift x" for x using assms(3) by (simp_all add: seat_upd_def seat_ident_def)
  then show ?thesis
    using assignment_table.count_update_one [OF assms(1,2), of g "\<lambda>x. sa_shift x = sid \<and> occupiedSeatSql x"]
    by (auto split: if_splits)
qed

lemma reseats_occupied:
  assumes "keyed_db d" and "a \<in> set (assignments d)" and "reseats d a g h d'"
  shows "occupied sid d' = occupied sid d
    + (if sa_shift a = sid then of_bool (occupiedSeatSql (g a)) - of_bool (occupiedSeatSql a) else 0)"
  using assms seat_count_after [of "assignments d" a g sid]
  by (simp add: occupied_count reseats_def keyed_db_def)

lemma reseats_seated:
  assumes k: "keyed_db d" and s: "seated_db d" and a: "a \<in> set (assignments d)" and t: "reseats d a g h d'"
    and cap: "\<And>s. find_shift (sa_shift a) d = Some s \<Longrightarrow>
      occupied (sa_shift a) d + of_bool (occupiedSeatSql (g a)) - of_bool (occupiedSeatSql a) \<le> sh_required_count (h s)"
  shows "seated_db d'"
  unfolding seated_db_def
proof (intro ballI)
  fix s'
  assume "s' \<in> set (shifts d')"
  then obtain s0 where s0: "s0 \<in> set (shifts d)" "s' = (if sh_id s0 = sa_shift a then h s0 else s0)"
    using t by (auto simp: reseats_def set_update_where)
  have i: "sh_id s' = sh_id s0" using s0(2) t by (simp add: reseats_def shift_upd_def)
  note o = reseats_occupied [OF k a t, of "sh_id s0"]
  show "occupied (sh_id s') d' \<le> sh_required_count s'"
  proof (cases "sh_id s0 = sa_shift a")
    case True
    then have "find_shift (sa_shift a) d = Some s0"
      using k s0(1) find_shift_iff by (simp add: keyed_db_def)
    from cap [OF this] o True s0(2) i show ?thesis by simp
  next
    case False
    then show ?thesis using o s s0 i by (auto simp: seated_db_def)
  qed
qed

lemma reseats_cancelled:
  assumes "reseats d a g h d'"
    and "\<And>s. s \<in> set (shifts d) \<Longrightarrow> sh_id s = sa_shift a \<Longrightarrow> sh_status s = CANCELLED \<Longrightarrow> sh_status (h s) = CANCELLED"
    and "shift_cancelled sid d"
  shows "shift_cancelled sid d'"
proof -
  from assms(3) obtain s where s: "s \<in> set (shifts d)" "sh_id s = sid" "sh_status s = CANCELLED"
    unfolding shift_cancelled_def by blast
  let ?s' = "if sh_id s = sa_shift a then h s else s"
  have "?s' \<in> set (shifts d')" using s(1) assms(1) by (auto simp: reseats_def set_update_where)
  moreover have "sh_id ?s' = sid" "sh_status ?s' = CANCELLED"
    using s assms(1,2) by (auto simp: reseats_def shift_upd_def)
  ultimately show ?thesis unfolding shift_cancelled_def by blast
qed

text \<open>What every response to an offer does to the tables: \<open>f\<close> on the offer, \<open>g\<close> on its seat, \<open>h\<close> on its shift.\<close>

definition touches :: "db \<Rightarrow> offer_row \<Rightarrow> assignment_row \<Rightarrow> (offer_row \<Rightarrow> offer_row) \<Rightarrow> (assignment_row \<Rightarrow> assignment_row)
    \<Rightarrow> (shift_row \<Rightarrow> shift_row) \<Rightarrow> db \<Rightarrow> bool" where
  "touches d r a f g h d' \<longleftrightarrow> offer_upd f \<and> seat_upd g \<and> shift_upd h
     \<and> offers d' = update_where (\<lambda>q. jo_id q = jo_id r) f (offers d)
     \<and> assignments d' = update_where (\<lambda>q. sa_id q = sa_id a) g (assignments d)
     \<and> shifts d' = update_where (\<lambda>q. sh_id q = sa_shift a) h (shifts d) \<and> attendances d' = attendances d"

lemma touches_reseats: "touches d r a f g h d' \<Longrightarrow> reseats d a g h d'"
  by (simp add: touches_def reseats_def)

lemma touches_older:
  assumes t: "touches d r a f g h d'" and "\<And>sid. shift_cancelled sid d \<Longrightarrow> shift_cancelled sid d'"
  shows "older d d'"
proof -
  have "map offer_ident (offers d') = map offer_ident (offers d)" "map seat_ident (assignments d') = map seat_ident (assignments d)"
    using t by (simp_all add: touches_def offer_upd_maps seat_upd_maps)
  then have "offer_ident ` set (offers d') = offer_ident ` set (offers d)"
    "seat_ident ` set (assignments d') = seat_ident ` set (assignments d)" unfolding set_map [symmetric] by simp_all
  then show ?thesis using t assms(2) by (auto simp: older_def touches_def)
qed

lemmas touches_occupied = reseats_occupied [OF _ _ touches_reseats]

lemma touches_keyed: "keyed_db d \<Longrightarrow> touches d r a f g h d' \<Longrightarrow> keyed_db d'"
proof -
  assume k: "keyed_db d" and t: "touches d r a f g h d'"
  have "map sh_id (shifts d') = map sh_id (shifts d)"
    using t by (auto intro!: map_update_where simp: touches_def shift_upd_def)
  then show ?thesis
    using k t by (simp add: keyed_db_def shift_table.keyed_def assignment_table.keyed_def offer_table.keyed_def
        touches_def offer_upd_maps seat_upd_maps)
qed

lemma touches_linked: "linked_db d \<Longrightarrow> touches d r a f g h d' \<Longrightarrow> linked_db d'"
proof -
  assume l: "linked_db d" and t: "touches d r a f g h d'"
  have m: "map sa_shift (assignments d') = map sa_shift (assignments d)"
    "map (\<lambda>x. (sa_id x, sa_staff x)) (assignments d') = map (\<lambda>x. (sa_id x, sa_staff x)) (assignments d)"
    "map (\<lambda>x. (jo_assignment x, jo_staff x)) (offers d') = map (\<lambda>x. (jo_assignment x, jo_staff x)) (offers d)"
    using t by (simp_all add: touches_def map_update_where seat_updD offer_updD)
  have "published (shifts d) \<subseteq> published (shifts d')" using t shift_upd_published by (simp add: touches_def)
  with l show ?thesis unfolding linked_db_def set_map [symmetric] m by blast
qed

lemma touches_coupled:
  assumes k: "keyed_db d" and c: "coupled_db d" and r: "r \<in> set (offers d)"
    and a: "a \<in> set (assignments d)" "sa_id a = jo_assignment r" and t: "touches d r a f g h d'"
    and ok: "pair_ok d' (f r) (g a)" and can: "\<And>sid. shift_cancelled sid d \<Longrightarrow> shift_cancelled sid d'"
  shows "coupled_db d'"
  unfolding coupled_db_def
proof (intro ballI impI)
  fix r' a'
  assume r': "r' \<in> set (offers d')" and a': "a' \<in> set (assignments d')" and m: "sa_id a' = jo_assignment r'"
  from r' t obtain q where q: "q \<in> set (offers d)" "r' = (if jo_id q = jo_id r then f q else q)"
    by (auto simp: touches_def set_update_where)
  from a' t obtain b where b: "b \<in> set (assignments d)" "a' = (if sa_id b = sa_id a then g b else b)"
    by (auto simp: touches_def set_update_where)
  have idq: "jo_assignment r' = jo_assignment q" using q(2) t by (simp add: touches_def offer_updD)
  have idb: "sa_id a' = sa_id b" "sa_shift a' = sa_shift b" using b(2) t by (simp_all add: touches_def seat_updD)
  show "pair_ok d' r' a'"
  proof (cases "q = r")
    case True
    then have "b = a" using assignment_table.keyed_unique [of "assignments d" b a] k a b(1) m idq idb
      by (simp add: keyed_db_def)
    with True q(2) b(2) ok show ?thesis by simp
  next
    case False
    then have n: "jo_id q \<noteq> jo_id r"
      using offer_table.keyed_unique [of "offers d" q r] k q(1) r by (auto simp: keyed_db_def)
    have "jo_assignment q \<noteq> jo_assignment r"
      using False k q(1) r by (auto simp: keyed_db_def distinct_map inj_on_def)
    then have "sa_id b \<noteq> sa_id a" using m idq idb a(2) by simp
    then have e: "r' = q" "a' = b" using q(2) b(2) n by simp_all
    have "pair_ok d q b" using c q(1) b(1) m idq idb unfolding coupled_db_def by simp
    then show ?thesis using can unfolding e pair_ok_def by blast
  qed
qed

text \<open>An attended seat is booked; a change that keeps the status of attended seats keeps \<open>attended_db\<close>.\<close>

lemma attended_status:
  assumes "db_ok d" and "a \<in> set (assignments d)" and "has_attendance (sa_id a) d"
  shows "sa_status a = A_CONFIRMED \<or> sa_status a = A_COMPLETED"
proof -
  from assms(3) obtain t where t: "t \<in> set (attendances d)" "at_assignment t = sa_id a" by (auto simp: has_attendance_def)
  then obtain b where b: "b \<in> set (assignments d)" "attended_seat t b" using assms(1) by (auto simp: db_ok_def attended_db_def)
  then have "b = a" using assignment_table.keyed_unique [of "assignments d" b a] assms(1,2) t(2)
    by (simp add: db_ok_def keyed_db_def attended_seat_def)
  then show ?thesis using b(2) by (auto simp: attended_seat_def booked_def split: if_splits)
qed

lemma touches_attended:
  assumes db_ok: "db_ok d" and t: "touches d r a f g h d'"
    and st: "has_attendance (sa_id a) d \<Longrightarrow> sa_status (g a) = sa_status a" and a: "a \<in> set (assignments d)"
  shows "attended_db d'"
proof -
  have "\<exists>b' \<in> set (assignments d'). attended_seat x b'" if x: "x \<in> set (attendances d)" for x
  proof -
    obtain b where b: "b \<in> set (assignments d)" "attended_seat x b" using db_ok x by (auto simp: db_ok_def attended_db_def)
    let ?b = "if sa_id b = sa_id a then g b else b"
    have "?b \<in> set (assignments d')" using b(1) t by (auto simp: touches_def set_update_where)
    moreover have "b = a" if "sa_id b = sa_id a"
      using assignment_table.keyed_unique [of "assignments d" b a] db_ok b(1) a that by (simp add: db_ok_def keyed_db_def)
    moreover have "has_attendance (sa_id b) d" using x b(2) by (auto simp: has_attendance_def attended_seat_def)
    ultimately show ?thesis using b(2) st t by (auto simp: attended_seat_def booked_def touches_def seat_updD intro!: bexI [of _ ?b])
  qed
  then show ?thesis using db_ok t by (simp add: db_ok_def attended_db_def touches_def)
qed

text \<open>The preservation theorem every response instantiates.\<close>

lemma dbok_touches:
  assumes db_ok: "db_ok d" and t: "touches d r a f g h d'"
    and r: "find_offer (jo_id r) d = Some r" and a: "find_assignment (jo_assignment r) d = Some a"
    and ok: "coupled (jo_status (f r)) (sa_status (g a)) \<or> (sa_status (g a) = A_CANCELLED \<and> shift_cancelled (sa_shift a) d)"
    and st: "has_attendance (sa_id a) d \<Longrightarrow> sa_status (g a) = sa_status a"
    and can: "\<And>s. s \<in> set (shifts d) \<Longrightarrow> sh_id s = sa_shift a \<Longrightarrow> sh_status s = CANCELLED \<Longrightarrow> sh_status (h s) = CANCELLED"
    and chk: "checked_db d'"
    and cap: "\<And>s. find_shift (sa_shift a) d = Some s \<Longrightarrow>
      occupied (sa_shift a) d + of_bool (occupiedSeatSql (g a)) - of_bool (occupiedSeatSql a) \<le> sh_required_count (h s)"
  shows "db_ok d' \<and> older d d'"
proof -
  have k: "keyed_db d" "linked_db d" "coupled_db d" "seated_db d" using db_ok by (simp_all add: db_ok_def)
  note r' = find_offer_SomeD [OF r] and a' = find_assignment_SomeD [OF a]
  have cc: "shift_cancelled sid d \<Longrightarrow> shift_cancelled sid d'" for sid
    by (rule reseats_cancelled [OF touches_reseats [OF t]]) (rule can)
  have "sa_shift (g a) = sa_shift a" using t by (simp add: touches_def seat_updD)
  with ok cc have "pair_ok d' (f r) (g a)" unfolding pair_ok_def by metis
  then have "coupled_db d'"
    by (rule touches_coupled [OF k(1,3) conjunct1 [OF r'] conjunct1 [OF a'] conjunct2 [OF a'] t]) (rule cc)
  moreover have "seated_db d'" by (rule reseats_seated [OF k(1,4) conjunct1 [OF a'] touches_reseats [OF t]]) (rule cap)
  moreover have "attended_db d'" by (rule touches_attended [OF db_ok t st conjunct1 [OF a']])
  ultimately show ?thesis
    using touches_keyed [OF k(1) t] touches_linked [OF k(2) t] chk touches_older [OF t cc] by (simp add: db_ok_def)
qed

end
