(* ===== verification/OfferSteps.thy ===== *)
theory OfferSteps
  imports OfferInvariant
begin

text \<open>
  What each response to an offer does to the tables, and that it keeps \<open>db_ok\<close>. A lemma \<open><op>_touches\<close> says that a
  committed run of the operation changed one offer, its seat and its shift only, under which conditions on the locked
  state; \<open>dbok_<op>\<close> is the preservation. Confirm-all, sending and cancelling are in \<open>OfferHistory\<close>, the step relation in
  \<open>OfferProgress\<close>.
\<close>

section \<open>Primitives\<close>

lemma update_where_id [simp]: "update_where P (\<lambda>x. x) t = t"
  by (induction t) auto

lemma update_shift_Inr:
  "update_shift k f d = Inr d' \<longleftrightarrow> d' = d\<lparr>shifts := update_where (\<lambda>s. sh_id s = k) f (shifts d)\<rparr> \<and> list_all shift_checks (shifts d')"
  by (auto simp: update_shift_def Let_def)

lemma update_assignment_Inr:
  "update_assignment k f d = Inr d' \<longleftrightarrow>
     d' = d\<lparr>assignments := update_where (\<lambda>a. sa_id a = k) f (assignments d)\<rparr> \<and> no_double_booking (assignments d')"
  by (auto simp: update_assignment_def Let_def)

lemma emit_tables [simp]:
  "offers (emit es d) = offers d" "assignments (emit es d) = assignments d" "shifts (emit es d) = shifts d"
  "staff_profiles (emit es d) = staff_profiles d" "users (emit es d) = users d" "attendances (emit es d) = attendances d"
  "due_work (emit es d) = due_work d" "find_offer k (emit es d) = find_offer k d"
  by (simp_all add: emit_def find_offer_def)

lemma update_offer_tables [simp]:
  "offers (update_offer k f d) = update_where (\<lambda>r. jo_id r = k) f (offers d)"
  "assignments (update_offer k f d) = assignments d" "shifts (update_offer k f d) = shifts d"
  "attendances (update_offer k f d) = attendances d"
  by (simp_all add: update_offer_def)

lemma schedulePointer_tables [simp]:
  "offers (schedulePointer k t d) = offers d" "assignments (schedulePointer k t d) = assignments d"
  "shifts (schedulePointer k t d) = shifts d" "attendances (schedulePointer k t d) = attendances d"
  by (simp_all add: schedulePointer_def)

text \<open>The roll-up completes the shift or leaves it.\<close>

definition completes :: "(shift_row \<Rightarrow> shift_row) \<Rightarrow> bool" where
  "completes h \<longleftrightarrow> (\<forall>s. h s = s \<or> (sh_status s = IN_PROGRESS \<and> h s = s\<lparr>sh_status := COMPLETED\<rparr>))"

lemma shift_checks_status: "shift_checks s \<Longrightarrow> sh_status s \<noteq> DRAFT \<Longrightarrow> shift_checks (s\<lparr>sh_status := st\<rparr>)"
  by (simp add: shift_checks_def) blast

lemma completesD:
  assumes "completes h"
  shows "sh_id (h s) = sh_id s" "sh_filled_count (h s) = sh_filled_count s" "sh_required_count (h s) = sh_required_count s"
    "sh_status s = CANCELLED \<Longrightarrow> sh_status (h s) = CANCELLED" "shift_checks s \<Longrightarrow> shift_checks (h s)"
    "sh_status (h s) = DRAFT \<Longrightarrow> sh_status s = DRAFT"
proof -
  have "h s = s \<or> (sh_status s = IN_PROGRESS \<and> h s = s\<lparr>sh_status := COMPLETED\<rparr>)" using assms by (simp add: completes_def)
  then consider "h s = s" | "sh_status s = IN_PROGRESS" "h s = s\<lparr>sh_status := COMPLETED\<rparr>" by blast
  then show "sh_id (h s) = sh_id s" "sh_filled_count (h s) = sh_filled_count s" "sh_required_count (h s) = sh_required_count s"
    "sh_status s = CANCELLED \<Longrightarrow> sh_status (h s) = CANCELLED" "shift_checks s \<Longrightarrow> shift_checks (h s)"
    "sh_status (h s) = DRAFT \<Longrightarrow> sh_status s = DRAFT"
    by (cases; simp add: shift_checks_status)+
qed

lemma completes_upd: "completes h \<Longrightarrow> shift_upd h"
  unfolding shift_upd_def using completesD(1,6) by blast

lemma completes_id: "completes (\<lambda>s. s)"
  by (simp add: completes_def)

lemma list_all_update_where: "list_all Q t \<Longrightarrow> (\<And>x. Q x \<Longrightarrow> Q (f x)) \<Longrightarrow> list_all Q (update_where P f t)"
  by (induction t) auto

lemma complete_shape:
  assumes "completeShiftIfSettled org sid d = Inr (d', b)"
  obtains h where "completes h" and "d' = d\<lparr>shifts := update_where (\<lambda>s. sh_id s = sid) h (shifts d)\<rparr>"
proof (cases "b")
  case True
  then have "d' = d\<lparr>shifts := update_where (\<lambda>s. sh_id s = sid)
      (\<lambda>s. if sh_org s = org \<and> sh_status s = IN_PROGRESS then s\<lparr>sh_status := COMPLETED\<rparr> else s) (shifts d)\<rparr>"
    using assms by (auto simp: completeShiftIfSettled_def Let_def res_simps update_shift_Inr split: if_splits)
  moreover have "completes (\<lambda>s. if sh_org s = org \<and> sh_status s = IN_PROGRESS then s\<lparr>sh_status := COMPLETED\<rparr> else s)"
    by (simp add: completes_def)
  ultimately show ?thesis using that by blast
next
  case False
  then have "d' = d" using assms by (auto simp: completeShiftIfSettled_def Let_def res_simps split: if_splits)
  then show ?thesis using that [OF completes_id] by simp
qed

text \<open>An in-progress shift with no open seat is stuck: nothing but the roll-up completes it.\<close>

definition stuck :: "string \<Rightarrow> string \<Rightarrow> db \<Rightarrow> bool" where
  "stuck org sid d \<longleftrightarrow> (\<exists>s. find_shift sid d = Some s \<and> sh_org s = org \<and> sh_status s = IN_PROGRESS \<and> open_seats org sid d = 0)"

lemma complete_not_stuck:
  assumes "completeShiftIfSettled org sid d = Inr (d', b)"
  shows "\<not> stuck org sid d'"
proof (cases "lockShiftRow org sid d = Some IN_PROGRESS \<and> open_seats org sid d = 0")
  case False
  then have "d' = d" using assms by (auto simp: completeShiftIfSettled_def Let_def res_simps split: if_splits)
  then show ?thesis using False by (auto simp: stuck_def lockShiftRow_def)
next
  case True
  let ?f = "\<lambda>s. if sh_org s = org \<and> sh_status s = IN_PROGRESS then s\<lparr>sh_status := COMPLETED\<rparr> else s"
  have "update_shift sid ?f d = Inr d'"
    using assms True by (auto simp: completeShiftIfSettled_def Let_def res_simps)
  then have "find_shift sid d' = map_option (\<lambda>s. if sh_id s = sid then ?f s else s) (find_shift sid d)"
    by (simp add: find_shift_def update_shift_Inr shift_table.find_update)
  moreover obtain s where "find_shift sid d = Some s" "sh_org s = org" "sh_status s = IN_PROGRESS"
    using True by (auto simp: lockShiftRow_def split: option.splits if_splits)
  moreover from this have "sh_id s = sid" using find_shift_SomeD by simp
  ultimately show ?thesis by (simp add: stuck_def)
qed

lemma stuck_emit [simp]: "stuck org sid (emit es d) = stuck org sid d"
  by (simp add: stuck_def find_shift_def open_seats_def)

lemma seated_occupied:
  assumes "db_ok d" and "find_shift sid d = Some s"
  shows "occupied sid d \<le> sh_required_count s"
  using assms(1) find_shift_SomeD [OF assms(2)] unfolding db_ok_def seated_db_def by blast

lemma cancelled_find:
  "db_ok d \<Longrightarrow> shift_cancelled sid d \<longleftrightarrow> (\<exists>s. find_shift sid d = Some s \<and> sh_status s = CANCELLED)"
  by (auto simp: shift_cancelled_def db_ok_def keyed_db_def find_shift_iff)

lemma dbok_pair:
  assumes "db_ok d" and "find_offer k d = Some r" and "find_assignment (jo_assignment r) d = Some a"
  shows "pair_ok d r a"
  using assms(1) find_offer_SomeD [OF assms(2)] find_assignment_SomeD [OF assms(3)]
  unfolding db_ok_def coupled_db_def by blast

lemma dbok_seat_exists:
  assumes "db_ok d" and "find_offer k d = Some r"
  obtains a where "find_assignment (jo_assignment r) d = Some a" and "sa_staff a = jo_staff r"
proof -
  have "(jo_assignment r, jo_staff r) \<in> (\<lambda>a. (sa_id a, sa_staff a)) ` set (assignments d)"
    using assms(1) find_offer_SomeD [OF assms(2)] unfolding db_ok_def linked_db_def by blast
  then obtain a where "a \<in> set (assignments d)" "sa_id a = jo_assignment r" "sa_staff a = jo_staff r" by auto
  with that assms(1) find_assignment_iff [of d] show ?thesis by (auto simp: db_ok_def keyed_db_def)
qed

lemma dbok_shift_exists:
  assumes "db_ok d" and "find_assignment k d = Some a"
  obtains s where "find_shift (sa_shift a) d = Some s"
proof -
  have "sa_shift a \<in> sh_id ` set (shifts d)"
    using assms(1) find_assignment_SomeD [OF assms(2)] published_sub [of "shifts d"] unfolding db_ok_def linked_db_def by blast
  then obtain s where "s \<in> set (shifts d)" "sh_id s = sa_shift a" by auto
  with that assms(1) find_shift_iff [of d] show ?thesis by (auto simp: db_ok_def keyed_db_def)
qed

text \<open>The stale reads name the rows of the locked state.\<close>

lemma stale_pair:
  assumes "db_ok d" and "older d0 d" and "find_offer oid d0 = Some r0" and "find_assignment (jo_assignment r0) d0 = Some a0"
  obtains r a s where "find_offer oid d = Some r" and "find_assignment (jo_assignment r) d = Some a"
    and "find_shift (sa_shift a) d = Some s" and "offer_ident r = offer_ident r0" and "seat_ident a = seat_ident a0"
    and "offer_join oid d = Some (r, a, s)" and "sa_id a0 = sa_id a" and "jo_id r0 = jo_id r"
proof -
  obtain r where r: "find_offer oid d = Some r" "offer_ident r = offer_ident r0"
    using older_offer [OF assms(2,1,3)] .
  obtain a where a: "find_assignment (jo_assignment r0) d = Some a" "seat_ident a = seat_ident a0"
    using older_assignment [OF assms(2,1,4)] .
  obtain s where s: "find_shift (sa_shift a) d = Some s" using dbok_shift_exists [OF assms(1) a(1)] .
  have e: "jo_assignment r = jo_assignment r0" "jo_id r0 = jo_id r" "sa_id a0 = sa_id a"
    using r(2) a(2) by (simp_all add: offer_ident_def seat_ident_def)
  then have "find_assignment (jo_assignment r) d = Some a" using a(1) by simp
  with that r a(2) s e show ?thesis by (simp add: offer_join_def)
qed

section \<open>Expiry\<close>

lemma claim_touches:
  assumes "db_ok d" and "claimExpiredOffer clk oid d = Some (d', q)"
  obtains r a where "find_offer oid d = Some r" and "jo_status r = PENDING" and "jo_expires_at r \<le> tx_now clk"
    and "find_assignment (jo_assignment r) d = Some a"
    and "touches d r a (\<lambda>q. q\<lparr>jo_status := EXPIRED, jo_responded_at := Some (tx_now clk)\<rparr>) (\<lambda>a. a) (\<lambda>s. s) d'"
proof -
  from assms(2) obtain r where r: "find_offer oid d = Some r" "jo_status r = PENDING" "jo_expires_at r \<le> tx_now clk"
    and d': "d' = update_offer oid (\<lambda>q. q\<lparr>jo_status := EXPIRED, jo_responded_at := Some (tx_now clk)\<rparr>) d"
    by (auto simp: claimExpiredOffer_def Let_def split: option.splits if_splits)
  obtain a where a: "find_assignment (jo_assignment r) d = Some a" using dbok_seat_exists [OF assms(1) r(1)] .
  have "jo_id r = oid" using find_offer_SomeD [OF r(1)] by simp
  then have "touches d r a (\<lambda>q. q\<lparr>jo_status := EXPIRED, jo_responded_at := Some (tx_now clk)\<rparr>) (\<lambda>a. a) (\<lambda>s. s) d'"
    by (simp add: touches_def offer_upd_def seat_upd_def shift_upd_def offer_ident_def d')
  with that r a show ?thesis by blast
qed

lemma dbok_expire:
  assumes "db_ok d" and "claimExpiredOffer clk oid d = Some (d', q)"
  shows "db_ok d' \<and> older d d'"
proof -
  obtain r a where r: "find_offer oid d = Some r" "jo_status r = PENDING"
    and a: "find_assignment (jo_assignment r) d = Some a"
    and t: "touches d r a (\<lambda>q. q\<lparr>jo_status := EXPIRED, jo_responded_at := Some (tx_now clk)\<rparr>) (\<lambda>a. a) (\<lambda>s. s) d'"
    using claim_touches [OF assms] by blast
  have "find_offer (jo_id r) d = Some r" using r(1) find_offer_SomeD by simp
  moreover have "coupled EXPIRED (sa_status a) \<or> (sa_status a = A_CANCELLED \<and> shift_cancelled (sa_shift a) d)"
    using dbok_pair [OF assms(1) r(1) a] r(2) by (simp add: pair_ok_def)
  moreover have "checked_db d'"
    using assms(1) t by (simp add: db_ok_def checked_db_def touches_def)
  ultimately show ?thesis
    using dbok_touches [OF assms(1) t _ a] seated_occupied [OF assms(1)] by simp
qed

text \<open>A response that leaves the seat unoccupied and at most completes the shift.\<close>

lemma dbok_unseated:
  assumes db_ok: "db_ok d" and t: "touches d r a f g h d'"
    and r: "find_offer (jo_id r) d = Some r" and a: "find_assignment (jo_assignment r) d = Some a"
    and st: "jo_status r \<in> {PENDING, OFFER_STAFF_ACCEPTED}"
    and ok: "coupled (jo_status (f r)) (sa_status (g a))" and free: "\<not> occupiedSeatSql (g a)" and h: "completes h"
    and nd: "no_double_booking (assignments d')"
  shows "db_ok d' \<and> older d d'"
proof -
  have "list_all shift_checks (shifts d')"
    using db_ok t list_all_update_where [of shift_checks "shifts d" h] completesD(5) [OF h]
    by (simp add: db_ok_def checked_db_def touches_def)
  with nd have c: "checked_db d'" by (simp add: checked_db_def)
  have cap: "occupied (sa_shift a) d + of_bool (occupiedSeatSql (g a)) - of_bool (occupiedSeatSql a) \<le> sh_required_count (h s)"
    if "find_shift (sa_shift a) d = Some s" for s
    using seated_occupied [OF db_ok that] free completesD(3) [OF h, of s] by simp
  have "sa_status a \<notin> {A_CONFIRMED, A_COMPLETED}" using dbok_pair [OF db_ok r a] st by (auto simp: pair_ok_def)
  then have na: "\<not> has_attendance (sa_id a) d" using attended_status [OF db_ok, of a] find_assignment_SomeD [OF a] by auto
  show ?thesis
    by (rule dbok_touches [OF db_ok t r a disjI1 [OF ok] notE [OF na] completesD(4) [OF h] c]) (assumption+, rule cap)
qed

section \<open>Accept\<close>

text \<open>Either nothing is written, or the claim's conditions held on the locked state and the offer and seat are accepted.\<close>

lemma staffAccept_claim_locked:
  assumes "staffAccept_claim ctx clk oid d0 d = Inr x"
  obtains r0 a0 s where "find_offer oid d0 = Some r0" and "find_assignment (jo_assignment r0) d0 = Some a0"
    and "find_shift (sa_shift a0) d = Some s" and "sh_status s \<noteq> CANCELLED" and "accept_locked ctx clk oid r0 a0 d = Inr x"
proof -
  from assms show ?thesis
    by (auto simp: staffAccept_claim_def res_simps split: option.splits if_splits intro: that)
qed

abbreviation accepted_by :: "clock \<Rightarrow> offer_row \<Rightarrow> offer_row" where
  "accepted_by clk \<equiv> (\<lambda>q. q\<lparr>jo_status := OFFER_STAFF_ACCEPTED, jo_responded_at := Some (node_now clk),
     jo_staff_accepted_at := Some (node_now clk)\<rparr>)"

lemma accept_write_shape:
  assumes "accept_write ctx clk oid r a t d = Inr (d', out)"
  shows "offers d' = update_where (\<lambda>q. jo_id q = oid) (accepted_by clk) (offers d)
    \<and> assignments d' = update_where (\<lambda>q. sa_id q = sa_id a) (\<lambda>q. q\<lparr>sa_status := A_STAFF_ACCEPTED\<rparr>) (assignments d)
    \<and> shifts d' = shifts d \<and> attendances d' = attendances d \<and> no_double_booking (assignments d') \<and> (\<exists>q. out = Accepted q \<and> find_offer oid d' = Some q)"
  using assms by (cases "jo_workspace r = None") (auto simp: accept_write_def Let_def res_simps update_assignment_Inr)

lemma accept_claim_touches:
  assumes db_ok: "db_ok d" and old: "older d0 d" and acc: "staffAccept_claim ctx clk oid d0 d = Inr (d', out)"
  obtains (lost) m where "d' = d" and "out = NotClaimed m"
  | (won) r a s q where "offer_join oid d = Some (r, a, s)" and "accept_claimable clk (r, a, s)" and "sh_status s \<noteq> CANCELLED"
      and "touches d r a (accepted_by clk) (\<lambda>q. q\<lparr>sa_status := A_STAFF_ACCEPTED\<rparr>) (\<lambda>s. s) d'"
      and "no_double_booking (assignments d')" and "out = Accepted q" and "find_offer oid d' = Some q"
proof -
  obtain r0 a0 s0 where r0: "find_offer oid d0 = Some r0" and a0: "find_assignment (jo_assignment r0) d0 = Some a0"
    and s0: "find_shift (sa_shift a0) d = Some s0" "sh_status s0 \<noteq> CANCELLED" and l: "accept_locked ctx clk oid r0 a0 d = Inr (d', out)"
    using staffAccept_claim_locked [OF acc] .
  obtain r a s where r: "find_offer oid d = Some r" and a: "find_assignment (jo_assignment r) d = Some a"
    and s: "find_shift (sa_shift a) d = Some s" and i: "offer_ident r = offer_ident r0" "seat_ident a = seat_ident a0"
    and j: "offer_join oid d = Some (r, a, s)" and e: "sa_id a0 = sa_id a" "jo_id r0 = jo_id r"
    using stale_pair [OF db_ok old r0 a0] .
  have "s0 = s" using i(2) s s0(1) by (simp add: seat_ident_def)
  have oid: "jo_id r = oid" using find_offer_SomeD [OF r] by simp
  show ?thesis
  proof (cases "accept_claimable clk (r, a, s)")
    case False
    then show ?thesis using lost l j by (auto simp: accept_locked_def accept_lost_def split: if_splits)
  next
    case True
    then have "accept_write ctx clk oid r0 a0 (deadline_of r a s) d = Inr (d', out)" using l j by (simp add: accept_locked_def)
    note w = accept_write_shape [OF this]
    have "touches d r a (accepted_by clk) (\<lambda>q. q\<lparr>sa_status := A_STAFF_ACCEPTED\<rparr>) (\<lambda>s. s) d'"
      using w by (simp add: touches_def offer_upd_def seat_upd_def shift_upd_def offer_ident_def seat_ident_def oid e)
    then show ?thesis using won True j w s0 \<open>s0 = s\<close> by blast
  qed
qed

lemma dbok_accept:
  assumes "db_ok d" and "older d0 d" and "staffAccept_claim ctx clk oid d0 d = Inr (d', out)"
  shows "db_ok d' \<and> older d d'"
  using assms
proof (cases rule: accept_claim_touches)
  case (lost m)
  then show ?thesis using assms(1) older_refl by simp
next
  case (won r a s q)
  note j' = offer_join_SomeD [OF won(1)]
  have r: "find_offer (jo_id r) d = Some r" using j' find_offer_SomeD [of oid d r] by simp
  show ?thesis
    by (rule dbok_unseated [OF assms(1) won(4) r conjunct1 [OF conjunct2 [OF j']] _ _ _ completes_id won(5)])
      (use won(2) in \<open>simp_all add: occupiedSeatSql_def accept_claimable_def\<close>)
qed

section \<open>Decline, withdraw, reject\<close>

lemma close_offer_touches:
  assumes db_ok: "db_ok d" and old: "older d0 d" and r0: "find_offer oid d0 = Some r0"
    and a0: "find_assignment (jo_assignment r0) d0 = Some a0" and f: "offer_upd f"
    and c: "close_offer ctx r0 a0 f seat lost evs d = Inr (d', q)"
  obtains r a s h where "offer_join oid d = Some (r, a, s)" and "jo_status r = jo_status r0"
    and "touches d r a f (\<lambda>x. x\<lparr>sa_status := seat\<rparr>) h d'" and "completes h" and "no_double_booking (assignments d')"
    and "find_offer oid d' = Some q"
proof -
  obtain r a s where r: "find_offer oid d = Some r" and a: "find_assignment (jo_assignment r) d = Some a"
    and s: "find_shift (sa_shift a) d = Some s" and i: "offer_ident r = offer_ident r0" "seat_ident a = seat_ident a0"
    and j: "offer_join oid d = Some (r, a, s)" and e: "sa_id a0 = sa_id a" "jo_id r0 = jo_id r"
    using stale_pair [OF db_ok old r0 a0] .
  have oid: "jo_id r = oid" using find_offer_SomeD [OF r] by simp
  have sh: "sa_shift a0 = sa_shift a" using i(2) by (simp add: seat_ident_def)
  from c obtain d1 d2 b where st: "jo_status r = jo_status r0"
    and d1: "update_assignment (sa_id a) (\<lambda>x. x\<lparr>sa_status := seat\<rparr>) (update_offer oid f d) = Inr d1"
    and d2: "completeShiftIfSettled (cx_org ctx) (sa_shift a) d1 = Inr (d2, b)"
    and d': "d' = emit (evs d2) d2" "find_offer oid d' = Some q"
    by (auto simp: close_offer_def res_simps Let_def e oid r sh)
  obtain h where h: "completes h" and d2': "d2 = d1\<lparr>shifts := update_where (\<lambda>s. sh_id s = sa_shift a) h (shifts d1)\<rparr>"
    using complete_shape [OF d2] .
  have "touches d r a f (\<lambda>x. x\<lparr>sa_status := seat\<rparr>) h d'"
    using d1 completes_upd [OF h] f
    by (auto simp: touches_def update_assignment_Inr d' d2' oid seat_upd_def seat_ident_def)
  moreover have "no_double_booking (assignments d')" using d1 by (auto simp: update_assignment_Inr d' d2')
  ultimately show ?thesis using that j st h d'(2) by blast
qed

lemma closable:
  assumes "assertOffer s t = Inr ()" and "t \<notin> {OFFER_STAFF_ACCEPTED, MANAGER_CONFIRMED}"
  shows "s \<in> {PENDING, OFFER_STAFF_ACCEPTED}"
  using assms by (cases s; cases t) (auto simp: assertTransition_def)

lemma dbok_close:
  assumes db_ok: "db_ok d" and old: "older d0 d" and r0: "find_offer oid d0 = Some r0"
    and a0: "find_assignment (jo_assignment r0) d0 = Some a0" and f: "offer_upd f" "\<And>x. jo_status (f x) = st"
    and ok: "coupled st seat" "seat \<notin> {A_CONFIRMED, A_COMPLETED, A_NO_SHOW}"
    and s: "assertOffer (jo_status r0) st = Inr ()" "st \<notin> {OFFER_STAFF_ACCEPTED, MANAGER_CONFIRMED}"
    and c: "close_offer ctx r0 a0 f seat lost evs d = Inr (d', q)"
  shows "db_ok d' \<and> older d d'"
proof -
  obtain r a s h where j: "offer_join oid d = Some (r, a, s)" and t: "touches d r a f (\<lambda>x. x\<lparr>sa_status := seat\<rparr>) h d'"
    and e: "jo_status r = jo_status r0" and h: "completes h" and nd: "no_double_booking (assignments d')"
    using close_offer_touches [OF db_ok old r0 a0 f(1) c] .
  note j' = offer_join_SomeD [OF j]
  have r: "find_offer (jo_id r) d = Some r" using j' find_offer_SomeD [of oid d r] by simp
  show ?thesis
    by (rule dbok_unseated [OF db_ok t r conjunct1 [OF conjunct2 [OF j']] closable [OF s, folded e] _ _ h nd])
      (use ok f(2) in \<open>simp_all add: occupiedSeatSql_def\<close>)
qed

lemma dbok_withdraw:
  assumes "db_ok d" and "older d0 d" and "withdraw ctx clk oid d0 d = Inr (d', q)"
  shows "db_ok d' \<and> older d d'"
proof -
  from assms(3) obtain r0 a0 f lost evs where r: "find_offer oid d0 = Some r0" and a: "find_assignment (jo_assignment r0) d0 = Some a0"
    and s: "assertOffer (jo_status r0) OFFER_WITHDRAWN = Inr ()"
    and c: "close_offer ctx r0 a0 f A_WITHDRAWN lost evs d = Inr (d', q)" and f: "offer_upd f" "\<forall>x. jo_status (f x) = OFFER_WITHDRAWN"
    by (fastforce simp: withdraw_def bindE_Inr_iff from_option_Inr_iff offer_upd_def offer_ident_def)
  show ?thesis
    by (rule dbok_close [OF assms(1,2) r a f(1) _ _ _ s _ c]) (use f(2) in auto)
qed

lemma dbok_reject:
  assumes "db_ok d" and "older d0 d" and "managerReject ctx clk oid reason d0 d = Inr (d', q)"
  shows "db_ok d' \<and> older d d'"
proof -
  from assms(3) obtain r0 a0 f lost evs where r: "find_offer oid d0 = Some r0" and a: "find_assignment (jo_assignment r0) d0 = Some a0"
    and s: "assertOffer (jo_status r0) MANAGER_REJECTED = Inr ()"
    and c: "close_offer ctx r0 a0 f A_REJECTED lost evs d = Inr (d', q)" and f: "offer_upd f" "\<forall>x. jo_status (f x) = MANAGER_REJECTED"
    by (fastforce simp: managerReject_def bindE_Inr_iff from_option_Inr_iff offer_upd_def offer_ident_def)
  show ?thesis
    by (rule dbok_close [OF assms(1,2) r a f(1) _ _ _ s _ c]) (use f(2) in auto)
qed

lemma dbok_decline:
  assumes "db_ok d" and "older d0 d" and "decline ctx clk oid reason d0 d = Inr (d', q)"
  shows "db_ok d' \<and> older d d'"
proof -
  from assms(3) obtain r0 a0 f lost evs where r: "find_offer oid d0 = Some r0" and a: "find_assignment (jo_assignment r0) d0 = Some a0"
    and s: "assertOffer (jo_status r0) OFFER_DECLINED = Inr ()"
    and c: "close_offer ctx r0 a0 f A_DECLINED lost evs d = Inr (d', q)" and f: "offer_upd f" "\<forall>x. jo_status (f x) = OFFER_DECLINED"
    by (fastforce simp: decline_def bindE_Inr_iff from_option_Inr_iff offer_upd_def offer_ident_def split: option.splits if_splits)
  show ?thesis
    by (rule dbok_close [OF assms(1,2) r a f(1) _ _ _ s _ c]) (use f(2) in auto)
qed

section \<open>Withdrawal at the deadline\<close>

abbreviation deadline_rejected :: "clock \<Rightarrow> offer_row \<Rightarrow> offer_row" where
  "deadline_rejected clk \<equiv> (\<lambda>q. q\<lparr>jo_status := MANAGER_REJECTED, jo_rejected_at := Some (stmt_now clk),
     jo_rejected_by := None, jo_rejection_reason := Some DEADLINE_REASON\<rparr>)"

lemma withdraw_unconfirmed_touches:
  assumes db_ok: "db_ok d" and w: "withdrawUnconfirmedOffer clk org oid d = Inr (d', out)"
  obtains (none) "out = None" and "d' = d"
    and "case offer_join oid d of None \<Rightarrow> True | Some j \<Rightarrow> \<not> withdraw_claimable org clk j"
  | (won) r a s h v where "offer_join oid d = Some (r, a, s)" and "withdraw_claimable org clk (r, a, s)"
      and "touches d r a (deadline_rejected clk) (\<lambda>q. if sa_status q = A_STAFF_ACCEPTED then q\<lparr>sa_status := A_REJECTED\<rparr> else q) h d'"
      and "completes h" and "no_double_booking (assignments d')" and "out = Some v"
proof (cases "\<exists>r a s. offer_join oid d = Some (r, a, s) \<and> withdraw_claimable org clk (r, a, s)")
  case False
  then show ?thesis using none w by (auto simp: withdrawUnconfirmedOffer_def split: option.splits if_splits)
next
  case True
  then obtain r a s where j: "offer_join oid d = Some (r, a, s)" and c: "withdraw_claimable org clk (r, a, s)" by blast
  note j' = offer_join_SomeD [OF j]
  have oid: "jo_id r = oid" "sh_id s = sa_shift a" using j' find_offer_SomeD [of oid d r] find_shift_SomeD [of _ d s] by auto
  from w j c obtain d2 d3 b where
    d2: "update_assignment (sa_id a) (\<lambda>q. if sa_status q = A_STAFF_ACCEPTED then q\<lparr>sa_status := A_REJECTED\<rparr> else q)
           (update_offer oid (deadline_rejected clk) d) = Inr d2"
    and d3: "completeShiftIfSettled org (sa_shift a) d2 = Inr (d3, b)" and o: "\<exists>v. out = Some v"
    and d': "offers d' = offers d3" "assignments d' = assignments d3" "shifts d' = shifts d3" "attendances d' = attendances d3"
    by (auto simp: withdrawUnconfirmedOffer_def Let_def res_simps oid)
  obtain h where h: "completes h" and d3': "d3 = d2\<lparr>shifts := update_where (\<lambda>s. sh_id s = sa_shift a) h (shifts d2)\<rparr>"
    using complete_shape [OF d3] .
  have "touches d r a (deadline_rejected clk) (\<lambda>q. if sa_status q = A_STAFF_ACCEPTED then q\<lparr>sa_status := A_REJECTED\<rparr> else q) h d'"
    using d2 completes_upd [OF h]
    by (auto simp: touches_def update_assignment_Inr d' d3' oid seat_upd_def seat_ident_def offer_upd_def offer_ident_def)
  moreover have "no_double_booking (assignments d')" using d2 by (auto simp: update_assignment_Inr d' d3')
  ultimately show ?thesis using won j c h o by blast
qed

lemma dbok_withdraw_unconfirmed:
  assumes "db_ok d" and "withdrawUnconfirmedOffer clk org oid d = Inr (d', out)"
  shows "db_ok d' \<and> older d d'"
  using assms
proof (cases rule: withdraw_unconfirmed_touches)
  case none
  then show ?thesis using assms(1) older_refl by simp
next
  case (won r a s h v)
  note j' = offer_join_SomeD [OF won(1)]
  have r: "find_offer (jo_id r) d = Some r" using j' find_offer_SomeD [of oid d r] by simp
  have st: "sa_status a = A_STAFF_ACCEPTED" using won(2) by (simp add: withdraw_claimable_def)
  show ?thesis
    by (rule dbok_unseated [OF assms(1) won(3) r conjunct1 [OF conjunct2 [OF j']] _ _ _ won(4,5)])
      (use won(2) in \<open>simp_all add: st occupiedSeatSql_def withdraw_claimable_def\<close>)
qed

lemma dbok_withdraw_all: "db_ok d \<Longrightarrow> withdraw_all clk org oids d = Inr d' \<Longrightarrow> db_ok d' \<and> older d d'"
proof (induction oids arbitrary: d)
  case Nil
  then show ?case by (simp add: older_refl)
next
  case (Cons oid oids)
  from Cons.prems(2) obtain d1 out where 1: "withdrawUnconfirmedOffer clk org oid d = Inr (d1, out)"
    and 2: "withdraw_all clk org oids d1 = Inr d'"
    by (auto simp: res_simps)
  note s = dbok_withdraw_unconfirmed [OF Cons.prems(1) 1]
  with Cons.IH [OF _ 2] show ?case using older_trans by blast
qed

lemma dbok_withdraw_past: "db_ok d \<Longrightarrow> db_ok (withdrawPastDeadline clk ctx oids d) \<and> older d (withdrawPastDeadline clk ctx oids d)"
  using dbok_withdraw_all [of d clk "cx_org ctx" oids] older_refl
  by (auto simp: withdrawPastDeadline_def split: sum.splits)

lemma dbok_candidate:
  assumes "db_ok d" and "withdrawDeadlineCandidate clk org oid ev d = Inr (d', ev', out)"
  shows "db_ok d' \<and> older d d'"
proof -
  from assms(2) have "d' = d \<or> (\<exists>w. withdrawUnconfirmedOffer (clk\<lparr>stmt_now := stmt_next clk\<rparr>) org oid d = Inr (d', w))"
    by (auto simp: withdrawDeadlineCandidate_def res_simps split: option.splits if_splits)
  then show ?thesis using assms(1) older_refl dbok_withdraw_unconfirmed by blast
qed

section \<open>Confirm\<close>

lemma update_where_twice:
  "(\<And>x. P (g x) = P x) \<Longrightarrow> update_where P f (update_where P g t) = update_where P (\<lambda>x. f (g x)) t"
  by (induction t) auto

abbreviation confirmed_by :: "clock \<Rightarrow> string \<Rightarrow> offer_row \<Rightarrow> offer_row" where
  "confirmed_by clk u \<equiv> (\<lambda>q. q\<lparr>jo_status := MANAGER_CONFIRMED, jo_confirmed_at := Some (stmt_now clk), jo_confirmed_by := Some u\<rparr>)"

abbreviation booked_seat :: "clock \<Rightarrow> shift_row \<Rightarrow> assignment_row \<Rightarrow> assignment_row" where
  "booked_seat clk row \<equiv> (\<lambda>q. q\<lparr>sa_status := A_CONFIRMED, sa_confirmed_at := Some (node_now clk), sa_pay_snapshot := sh_pay_rate_pence row\<rparr>)"

lemma narrow_period_ident [simp]: "sa_id (narrow_period clk a) = sa_id a" "sa_shift (narrow_period clk a) = sa_shift a"
  "sa_staff (narrow_period clk a) = sa_staff a" "sa_status (narrow_period clk a) = sa_status a"
  by (simp_all add: narrow_period_def split: option.splits)

lemma catch_exclusion_Inr: "catch_exclusion m = Inr x \<longleftrightarrow> m = Inr x"
  by (auto simp: catch_exclusion_def split: sum.splits)

lemma confirm_seat_shape:
  assumes "confirm_seat clk r a row d = Inr d'"
  obtains g h where "seat_upd g" and "\<forall>x. sa_status (g x) = A_CONFIRMED" and "shift_upd h"
    and "\<forall>x. sh_filled_count (h x) = sh_filled_count x" "\<forall>x. sh_required_count (h x) = sh_required_count x"
    and "d' = d\<lparr>assignments := update_where (\<lambda>x. sa_id x = sa_id a) g (assignments d),
                shifts := update_where (\<lambda>x. sh_id x = sa_shift a) h (shifts d)\<rparr>"
    and "no_double_booking (assignments d')" and "h = (\<lambda>x. x) \<or> list_all shift_checks (shifts d')"
proof -
  define next' where "next' = (if sh_required_count row \<le> sh_filled_count row then FULLY_FILLED else PARTIALLY_FILLED)"
  from assms obtain d1 d2 where
    1: "(if kind_of r \<noteq> STANDARD then update_assignment (sa_id a) (narrow_period clk) d else Inr d) = Inr d1"
    and 2: "update_assignment (sa_id a) (booked_seat clk row) d1 = Inr d2"
    and 3: "(if kind_of r = STANDARD \<or> sh_status row \<in> set FILL_TRACKED_STATUSES
             then update_shift (sa_shift a) (\<lambda>q. q\<lparr>sh_status := next'\<rparr>) d2 else Inr d2) = Inr d'"
    by (auto simp: confirm_seat_def Let_def res_simps catch_exclusion_Inr next'_def split: if_splits)
  define n :: "assignment_row \<Rightarrow> assignment_row" where "n = (if kind_of r \<noteq> STANDARD then narrow_period clk else (\<lambda>x. x))"
  have n: "sa_id (n x) = sa_id x" "sa_shift (n x) = sa_shift x" "sa_staff (n x) = sa_staff x" for x by (simp_all add: n_def)
  have d1: "d1 = d\<lparr>assignments := update_where (\<lambda>x. sa_id x = sa_id a) n (assignments d)\<rparr>"
    using 1 by (auto simp: n_def update_assignment_Inr split: if_splits)
  have d2: "d2 = d\<lparr>assignments := update_where (\<lambda>x. sa_id x = sa_id a) (\<lambda>x. booked_seat clk row (n x)) (assignments d)\<rparr>"
    "no_double_booking (assignments d2)"
    using 2 by (auto simp: update_assignment_Inr d1 update_where_twice n)
  define h :: "shift_row \<Rightarrow> shift_row" where "h = (if kind_of r = STANDARD \<or> sh_status row \<in> set FILL_TRACKED_STATUSES
    then (\<lambda>q. q\<lparr>sh_status := next'\<rparr>) else (\<lambda>x. x))"
  have d': "d' = d2\<lparr>shifts := update_where (\<lambda>x. sh_id x = sa_shift a) h (shifts d2)\<rparr>"
    "h = (\<lambda>x. x) \<or> list_all shift_checks (shifts d')"
    using 3 by (auto simp: h_def update_shift_Inr split: if_splits)
  have h: "shift_upd h" "\<And>x. sh_filled_count (h x) = sh_filled_count x" "\<And>x. sh_required_count (h x) = sh_required_count x"
    by (auto simp: h_def shift_upd_def next'_def)
  have g: "seat_upd (\<lambda>x. booked_seat clk row (n x))" "\<And>x. sa_status (booked_seat clk row (n x)) = A_CONFIRMED"
    by (simp_all add: seat_upd_def seat_ident_def n)
  show ?thesis
    by (rule that [of "\<lambda>x. booked_seat clk row (n x)" h]) (use g h d2 d' in auto)
qed

lemma claim_seat_shape:
  assumes "claim_seat ctx sid d = Inr (Some (d', row))"
  obtains s where "find_shift sid d = Some s" and "sh_org s = cx_org ctx"
    and "effectiveFilled sid (sh_filled_count s) d < sh_required_count s"
    and "d' = d\<lparr>shifts := update_where (\<lambda>x. sh_id x = sid)
           (\<lambda>q. q\<lparr>sh_filled_count := effectiveFilled sid (sh_filled_count s) d + 1\<rparr>) (shifts d)\<rparr>"
    and "list_all shift_checks (shifts d')"
  using assms by (auto simp: claim_seat_def res_simps update_shift_Inr split: option.splits if_splits)

lemma update_where_comp:
  assumes "\<And>x. p (g x) = p x"
  shows "update_where (\<lambda>x. p x = k) f (update_where (\<lambda>x. p x = k) g t) = update_where (\<lambda>x. p x = k) (\<lambda>x. f (g x)) t"
  using assms by (intro update_where_twice) simp

lemma confirm_touches:
  assumes db_ok: "db_ok d" and old: "older d0 d" and c: "confirmOne ctx clk oid d0 d = Inr (d', q)"
  obtains r a s g h where "offer_join oid d = Some (r, a, s)" and "confirm_claimable ctx clk (r, a, s)"
    and "jo_created_by r = Some (cx_user ctx)" and "sh_status s \<notin> {CANCELLED, COMPLETED}" and "tx_now clk < sh_ends_at s + SHIFT_ACTION_WINDOW_HOURS * 3600000"
    and "touches d r a (confirmed_by clk (cx_user ctx)) g h d'" and "\<forall>x. sa_status (g x) = A_CONFIRMED"
    and "\<forall>x. sh_filled_count (h x) = effectiveFilled (sh_id s) (sh_filled_count s) d + 1"
    and "\<forall>x. sh_required_count (h x) = sh_required_count x"
    and "effectiveFilled (sh_id s) (sh_filled_count s) d < sh_required_count s"
    and "checked_db d'" and "find_offer oid d' = Some q"
proof -
  from c obtain r0 a0 where r0: "find_offer oid d0 = Some r0" and own: "jo_created_by r0 = Some (cx_user ctx)"
    and a0: "find_assignment (jo_assignment r0) d0 = Some a0" and ap: "applyOfferConfirmation ctx clk r0 a0 (cx_user ctx) d = Inr (d', q)"
    by (auto simp: confirmOne_def res_simps assertOfferOwned_def)
  obtain r a s where r: "find_offer oid d = Some r" and a: "find_assignment (jo_assignment r) d = Some a"
    and s: "find_shift (sa_shift a) d = Some s" and i: "offer_ident r = offer_ident r0" "seat_ident a = seat_ident a0"
    and j: "offer_join oid d = Some (r, a, s)" and e: "sa_id a0 = sa_id a" "jo_id r0 = jo_id r"
    using stale_pair [OF db_ok old r0 a0] .
  have oid: "jo_id r = oid" "sh_id s = sa_shift a" using find_offer_SomeD [OF r] find_shift_SomeD [OF s] by simp_all
  have sh: "sa_shift a0 = sa_shift a" "jo_created_by r = jo_created_by r0" using i by (simp_all add: seat_ident_def offer_ident_def)
  let ?d1 = "confirm_offer clk oid (cx_user ctx) d"
  have t1: "offers ?d1 = update_where (\<lambda>x. jo_id x = oid) (confirmed_by clk (cx_user ctx)) (offers d)"
    "assignments ?d1 = assignments d" "shifts ?d1 = shifts d" "attendances ?d1 = attendances d"
    by (simp_all add: confirm_offer_def)
  have f1: "find_shift k ?d1 = find_shift k d" "occupied k ?d1 = occupied k d" "effectiveFilled k n ?d1 = effectiveFilled k n d" for k n
    by (simp_all add: find_shift_def occupied_def confirmed_no_shows_def effectiveFilled_def seats_of_def t1)
  from ap have g: "confirm_guards ctx clk r0 a0 (cx_user ctx) d = Inr ()" and win: "window_open clk (sa_shift a) WConfirm ?d1 = Inr ()"
    and ex: "\<exists>d2 row d3. claim_seat ctx (sa_shift a) ?d1 = Inr (Some (d2, row)) \<and> confirm_seat clk r0 a0 row d2 = Inr d3
       \<and> find_offer oid d3 = Some q \<and> offers d' = offers d3 \<and> assignments d' = assignments d3 \<and> shifts d' = shifts d3
       \<and> attendances d' = attendances d3"
    by (auto simp: applyOfferConfirmation_def Let_def res_simps e oid sh)
  from ex obtain d2 row d3 where cl: "claim_seat ctx (sa_shift a) ?d1 = Inr (Some (d2, row))"
    and cs: "confirm_seat clk r0 a0 row d2 = Inr d3" and q: "find_offer oid d3 = Some q"
    and d': "offers d' = offers d3" "assignments d' = assignments d3" "shifts d' = shifts d3" "attendances d' = attendances d3"
    by blast
  from g have st: "sh_status s \<notin> {CANCELLED, COMPLETED}" and cc: "confirm_claimable ctx clk (r, a, s)"
    using j s by (auto simp: confirm_guards_def res_simps e oid sh)
  have w: "tx_now clk < sh_ends_at s + SHIFT_ACTION_WINDOW_HOURS * 3600000"
    using win s by (auto simp: window_open_def f1 assertShiftActionWindowOpen_def require_def split: if_splits)
  obtain s1 where s1: "find_shift (sa_shift a) ?d1 = Some s1" "effectiveFilled (sa_shift a) (sh_filled_count s1) ?d1 < sh_required_count s1"
    and d2: "d2 = ?d1\<lparr>shifts := update_where (\<lambda>x. sh_id x = sa_shift a)
           (\<lambda>q. q\<lparr>sh_filled_count := effectiveFilled (sa_shift a) (sh_filled_count s1) ?d1 + 1\<rparr>) (shifts ?d1)\<rparr>"
    and k2: "list_all shift_checks (shifts d2)"
    using claim_seat_shape [OF cl] by metis
  have "s1 = s" using s1(1) s by (simp add: f1)
  let ?n = "effectiveFilled (sh_id s) (sh_filled_count s) d + 1"
  obtain g h where gh: "seat_upd g" "\<forall>x. sa_status (g x) = A_CONFIRMED" "shift_upd h" "\<forall>x. sh_filled_count (h x) = sh_filled_count x"
      "\<forall>x. sh_required_count (h x) = sh_required_count x"
    and d3: "d3 = d2\<lparr>assignments := update_where (\<lambda>x. sa_id x = sa_id a0) g (assignments d2),
                shifts := update_where (\<lambda>x. sh_id x = sa_shift a0) h (shifts d2)\<rparr>"
    and nd: "no_double_booking (assignments d3)" and ck: "h = (\<lambda>x. x) \<or> list_all shift_checks (shifts d3)"
    using confirm_seat_shape [OF cs] .
  have k3: "list_all shift_checks (shifts d3)" using ck k2 by (auto simp: d3)
  have "shift_upd (\<lambda>x. h (x\<lparr>sh_filled_count := ?n\<rparr>))" using gh(3) by (auto simp: shift_upd_def)
  moreover from this have "touches d r a (confirmed_by clk (cx_user ctx)) g (\<lambda>x. h (x\<lparr>sh_filled_count := ?n\<rparr>)) d'"
    using gh(1,3) by (simp add: touches_def offer_upd_def offer_ident_def shift_upd_def [of h] d' d3 d2 t1 e oid sh
        f1 \<open>s1 = s\<close> update_where_comp)
  moreover have "find_offer oid d' = Some q" using q d' by (simp add: find_offer_def)
  moreover have "sh_filled_count (h (x\<lparr>sh_filled_count := ?n\<rparr>)) = ?n" for x by (simp add: gh(4))
  moreover have "sh_required_count (h (x\<lparr>sh_filled_count := ?n\<rparr>)) = sh_required_count x" for x by (simp add: gh(5))
  moreover have "effectiveFilled (sh_id s) (sh_filled_count s) d < sh_required_count s"
    using s1(2) unfolding f1 \<open>s1 = s\<close> oid .
  moreover have "checked_db d'" using nd k3 by (simp add: checked_db_def d')
  moreover have "jo_created_by r = Some (cx_user ctx)" using own sh by simp
  ultimately show ?thesis
    using that [OF j cc _ st w _ gh(2)] by simp
qed

end
