(* ===== verification/OfferHistory.thy ===== *)
theory OfferHistory
  imports OfferSteps
begin

text \<open>Confirm, confirm-all, sending and the cancellation of a booking keep the invariant \<open>db_ok\<close>.\<close>

section \<open>Confirm\<close>

lemma dbok_confirm:
  assumes "db_ok d" and "older d0 d" and "confirmOne ctx clk oid d0 d = Inr (d', q)"
  shows "db_ok d' \<and> older d d'"
  using assms
proof (cases rule: confirm_touches)
  case (1 r a s g h)
  note j = offer_join_SomeD [OF 1(1)]
  have r: "find_offer (jo_id r) d = Some r" using j find_offer_SomeD [of oid d r] by simp
  have k: "shift_table.keyed (shifts d)" using assms(1) by (simp add: db_ok_def keyed_db_def)
  have s: "find_shift (sa_shift a) d = Some s" "sh_id s = sa_shift a" using j find_shift_SomeD [of _ d s] by simp_all
  have u: "s' = s" if "s' \<in> set (shifts d)" "sh_id s' = sa_shift a" for s'
    using that shift_table.keyed_unique [OF k _ _ , of s' s] find_shift_SomeD [OF s(1)] by simp
  have "sa_status a \<notin> {A_CONFIRMED, A_COMPLETED}"
    using dbok_pair [OF assms(1) r conjunct1 [OF conjunct2 [OF j]]] 1(2) by (auto simp: pair_ok_def confirm_claimable_def)
  then have na: "\<not> has_attendance (sa_id a) d"
    using attended_status [OF assms(1), of a] find_assignment_SomeD [OF conjunct1 [OF conjunct2 [OF j]]] by auto
  show ?thesis
  proof (rule dbok_touches [OF assms(1) 1(6) r conjunct1 [OF conjunct2 [OF j]] _ notE [OF na] _ 1(11)])
    show "coupled (jo_status (confirmed_by clk (cx_user ctx) r)) (sa_status (g a))
        \<or> sa_status (g a) = A_CANCELLED \<and> shift_cancelled (sa_shift a) d" using 1(7) by simp
    show "sh_status (h s') = CANCELLED" if "s' \<in> set (shifts d)" "sh_id s' = sa_shift a" "sh_status s' = CANCELLED" for s'
      using u that 1(4) by simp
    show "occupied (sa_shift a) d + of_bool (occupiedSeatSql (g a)) - of_bool (occupiedSeatSql a) \<le> sh_required_count (h s')"
      if "find_shift (sa_shift a) d = Some s'" for s'
      using 1(9,10) s that by (auto simp: effectiveFilled_def of_bool_def)
  qed
qed

lemma dbok_confirm_loop:
  "db_ok d \<Longrightarrow> confirm_loop ctx clk rs d results past = (d', out) \<Longrightarrow> db_ok d' \<and> older d d'"
proof (induction rs arbitrary: d results past)
  case Nil
  then show ?case by (simp add: older_refl)
next
  case (Cons r rs)
  show ?case
  proof (cases "confirmOne ctx clk (jo_id r) d d")
    case (Inl e)
    then show ?thesis using Cons.prems(2) Cons.IH [OF Cons.prems(1)] by simp
  next
    case (Inr p)
    obtain d1 q where p: "p = (d1, q)" by (cases p)
    have 1: "db_ok d1 \<and> older d d1" using dbok_confirm [OF Cons.prems(1) older_refl] Inr p by blast
    have "confirm_loop ctx clk rs d1 (results @ [(jo_staff r, Inr (jo_id q))]) past = (d', out)"
      using Cons.prems(2) Inr p by simp
    with Cons.IH 1 have "db_ok d' \<and> older d1 d'" by blast
    with 1 show ?thesis using older_trans by blast
  qed
qed

section \<open>Cancelling a booking\<close>

lemma cancel_touches:
  assumes db_ok: "db_ok d" and s: "find_shift (sh_id s) d = Some s" and c: "cancelBookingWithManager ctx clk s oid reason d = Inr d'"
  obtains r a f h n where "offer_join oid d = Some (r, a, s)" and "jo_created_by r = Some (cx_user ctx)"
    and "canCancelVenueOffer (sh_starts_at s) (stmt_now clk) (sh_status s) (sa_status a) (jo_status r) (has_attendance (sa_id a) d)"
    and "n = (if jo_status r = PENDING then A_WITHDRAWN else A_CANCELLED)"
    and "touches d r a f (\<lambda>q. q\<lparr>sa_status := n\<rparr>) h d'"
    and "jo_status (f r) = (if jo_status r = PENDING then OFFER_WITHDRAWN
           else if jo_status r = OFFER_STAFF_ACCEPTED then MANAGER_REJECTED else jo_status r)"
    and "sh_filled_count (h s) = (if sa_status a = A_CONFIRMED then max 0 (sh_filled_count s - 1) else sh_filled_count s)"
    and "sh_required_count (h s) = sh_required_count s" and "checked_db d'"
proof -
  from c obtain r a where r: "find_offer oid d = Some r" and own: "jo_created_by r = Some (cx_user ctx)"
    and a: "find_assignment (jo_assignment r) d = Some a" and sh: "sa_shift a = sh_id s"
    and can: "canCancelVenueOffer (sh_starts_at s) (stmt_now clk) (sh_status s) (sa_status a) (jo_status r) (has_attendance (sa_id a) d)"
    by (auto simp: cancelBookingWithManager_def Let_def res_simps assertOfferOwned_def)
  let ?n = "if jo_status r = PENDING then A_WITHDRAWN else A_CANCELLED"
  define f :: "offer_row \<Rightarrow> offer_row" where "f = (if jo_status r = PENDING
       then (\<lambda>q. q\<lparr>jo_status := OFFER_WITHDRAWN, jo_responded_at := Some (stmt_now clk)\<rparr>)
     else if jo_status r = OFFER_STAFF_ACCEPTED
       then (\<lambda>q. q\<lparr>jo_status := MANAGER_REJECTED, jo_rejected_at := Some (stmt_now clk),
                jo_rejected_by := Some (cx_user ctx), jo_rejection_reason := reason\<rparr>) else (\<lambda>q. q))"
  define h :: "shift_row \<Rightarrow> shift_row" where "h = (if sa_status a = A_CONFIRMED
       then (\<lambda>q. q\<lparr>sh_filled_count := max 0 (sh_filled_count s - 1),
                   sh_status := (if max 0 (sh_filled_count s - 1) \<noteq> 0 then PARTIALLY_FILLED else OFFERED)\<rparr>) else (\<lambda>q. q))"
  have o: "assertOfferOwned ctx r = Inr ()" using own by (simp add: assertOfferOwned_def)
  note c [unfolded cancelBookingWithManager_def Let_def r from_option_simps bindE.simps o a]
  note this [unfolded bindE_Inr_iff from_option_Inr_iff sum.inject]
  then obtain d1 d2 d3 evs where 1: "(if jo_status r = PENDING
            then bindE (assertOffer PENDING OFFER_WITHDRAWN) (\<lambda>_.
              Inr (update_offer oid (\<lambda>q. q\<lparr>jo_status := OFFER_WITHDRAWN, jo_responded_at := Some (stmt_now clk)\<rparr>) d))
            else if jo_status r = OFFER_STAFF_ACCEPTED
            then bindE (assertOffer OFFER_STAFF_ACCEPTED MANAGER_REJECTED) (\<lambda>_.
              Inr (update_offer oid (\<lambda>q. q\<lparr>jo_status := MANAGER_REJECTED, jo_rejected_at := Some (stmt_now clk),
                jo_rejected_by := Some (cx_user ctx), jo_rejection_reason := reason\<rparr>) d))
            else Inr d) = Inr d1"
    and d2: "update_assignment (sa_id a) (\<lambda>q. q\<lparr>sa_status := ?n\<rparr>) d1 = Inr d2"
    and 3: "(if sa_status a = A_CONFIRMED
            then bindE (if (if max 0 (sh_filled_count s - 1) \<noteq> 0 then PARTIALLY_FILLED else OFFERED) \<noteq> sh_status s
                then assertShift (sh_status s) (if max 0 (sh_filled_count s - 1) \<noteq> 0 then PARTIALLY_FILLED else OFFERED) else Inr ())
              (\<lambda>_. update_shift (sh_id s) (\<lambda>q. q\<lparr>sh_filled_count := max 0 (sh_filled_count s - 1),
                   sh_status := (if max 0 (sh_filled_count s - 1) \<noteq> 0 then PARTIALLY_FILLED else OFFERED)\<rparr>) d2)
            else Inr d2) = Inr d3" and e: "emit evs d3 = d'"
    by (elim exE conjE) (rule that; assumption)
  have d': "offers d' = offers d3" "assignments d' = assignments d3" "shifts d' = shifts d3" "attendances d' = attendances d3" by (simp_all add: e [symmetric])
  have d1: "d1 = update_offer oid f d"
    using 1 by (auto simp: res_simps f_def update_offer_def split: if_splits)
  have d3: "(if sa_status a = A_CONFIRMED then update_shift (sh_id s) h d2 else Inr d2) = Inr d3"
    using 3 by (auto simp: res_simps h_def split: if_splits)
  have oid: "jo_id r = oid" using find_offer_SomeD [OF r] by simp
  have f: "offer_upd f" and h: "shift_upd h" by (simp_all add: f_def h_def offer_upd_def offer_ident_def shift_upd_def)
  have d3': "d3 = d2\<lparr>shifts := update_where (\<lambda>x. sh_id x = sa_shift a) h (shifts d2)\<rparr>"
    using d3 by (auto simp: update_shift_Inr sh h_def split: if_splits)
  have t: "touches d r a f (\<lambda>q. q\<lparr>sa_status := ?n\<rparr>) h d'"
    using d2 f h by (simp add: touches_def d1 update_assignment_Inr seat_upd_def seat_ident_def d' d3' oid)
  have "list_all shift_checks (shifts d)" using db_ok by (simp add: db_ok_def checked_db_def)
  then have "list_all shift_checks (shifts d')"
    using d2 d3 by (auto simp: d1 update_shift_Inr update_assignment_Inr d' split: if_splits)
  moreover have "no_double_booking (assignments d2)" by (rule conjunct2 [OF d2 [unfolded update_assignment_Inr]])
  moreover have "assignments d' = assignments d2" unfolding d'(2) d3' by simp
  ultimately have k: "checked_db d'" by (simp add: checked_db_def)
  show ?thesis
    by (rule that [OF _ own can refl t _ _ _ k]) (use r a s sh in \<open>simp_all add: offer_join_def f_def h_def\<close>)
qed

lemma dbok_cancel:
  assumes db_ok: "db_ok d" and s: "find_shift (sh_id s) d = Some s" and c: "cancelBookingWithManager ctx clk s oid reason d = Inr d'"
  shows "db_ok d' \<and> older d d'"
  using assms
proof (cases rule: cancel_touches)
  case (1 r a f h n)
  note j = offer_join_SomeD [OF 1(1)]
  have r: "find_offer (jo_id r) d = Some r" using j find_offer_SomeD [of oid d r] by simp
  have k: "shift_table.keyed (shifts d)" using db_ok by (simp add: db_ok_def keyed_db_def)
  have s: "find_shift (sa_shift a) d = Some s" "sh_id s = sa_shift a" using j find_shift_SomeD [of _ d s] by simp_all
  have u: "s' = s" if "s' \<in> set (shifts d)" "sh_id s' = sa_shift a" for s'
    using that shift_table.keyed_unique [OF k _ _ , of s' s] find_shift_SomeD [OF s(1)] by simp
  have free: "\<not> occupiedSeatSql (a\<lparr>sa_status := n\<rparr>)" by (simp add: 1(4) occupiedSeatSql_def)
  show ?thesis
  proof (rule dbok_touches [OF db_ok 1(5) r conjunct1 [OF conjunct2 [OF j]] _ _ _ 1(9)])
    show "coupled (jo_status (f r)) (sa_status (a\<lparr>sa_status := n\<rparr>))
        \<or> sa_status (a\<lparr>sa_status := n\<rparr>) = A_CANCELLED \<and> shift_cancelled (sa_shift a) d"
      using 1(3) by (auto simp: 1(4,6) canCancelVenueOffer_def)
    show "has_attendance (sa_id a) d \<Longrightarrow> sa_status (a\<lparr>sa_status := n\<rparr>) = sa_status a"
      using 1(3) by (simp add: canCancelVenueOffer_def)
    show "sh_status (h s') = CANCELLED" if "s' \<in> set (shifts d)" "sh_id s' = sa_shift a" "sh_status s' = CANCELLED" for s'
      using u that 1(3) by (auto simp: canCancelVenueOffer_def)
    show "occupied (sa_shift a) d + of_bool (occupiedSeatSql (a\<lparr>sa_status := n\<rparr>)) - of_bool (occupiedSeatSql a) \<le> sh_required_count (h s')"
      if "find_shift (sa_shift a) d = Some s'" for s'
    proof -
      have "occupiedSeatSql a \<longleftrightarrow> sa_status a = A_CONFIRMED" using 1(3) by (auto simp: canCancelVenueOffer_def occupiedSeatSql_def)
      moreover have "s' = s" using that s(1) by simp
      ultimately show ?thesis using free seated_occupied [OF db_ok s(1)] 1(8) by (simp split: if_splits)
    qed
  qed
qed

section \<open>Sending\<close>

lemma expand_shift_ident [simp]: "sh_id (expand_shift s t x) = sh_id x" "sh_status (expand_shift s t x) = sh_status x"
  "sh_filled_count (expand_shift s t x) = sh_filled_count x" "sh_required_count (expand_shift s t x) = sh_required_count x"
  by (simp_all add: expand_shift_def Let_def)

text \<open>A send appends one seat and one offer and widens its shift.\<close>

definition sends :: "db \<Rightarrow> shift_row \<Rightarrow> ScheduledWindow \<Rightarrow> assignment_row \<Rightarrow> offer_row \<Rightarrow> db \<Rightarrow> bool" where
  "sends d s t a r d' \<longleftrightarrow> attendances d' = attendances d \<and> offers d' = offers d @ [r] \<and> assignments d' = assignments d @ [a]
     \<and> shifts d' = update_where (\<lambda>x. sh_id x = sh_id s) (expand_shift s t) (shifts d)
     \<and> list_all shift_checks (shifts d') \<and> no_double_booking (assignments d')
     \<and> sa_id a \<notin> sa_id ` set (assignments d) \<and> jo_id r \<notin> jo_id ` set (offers d) \<and> jo_assignment r \<notin> jo_assignment ` set (offers d)
     \<and> sa_shift a = sh_id s \<and> sa_status a = A_OFFERED \<and> jo_assignment r = sa_id a \<and> jo_staff r = sa_staff a \<and> jo_status r = PENDING"

lemma insert_assignment_Inr:
  "insert_assignment a d = Inr d' \<Longrightarrow> d' = d\<lparr>assignments := assignments d @ [a]\<rparr> \<and> sa_id a \<notin> sa_id ` set (assignments d)
     \<and> no_double_booking (assignments d')"
  unfolding insert_assignment_def by (auto split: if_splits)

lemma insert_offer_Inr:
  "insert_offer r d = Inr d' \<Longrightarrow> d' = d\<lparr>offers := offers d @ [r]\<rparr> \<and> jo_id r \<notin> jo_id ` set (offers d)
     \<and> jo_assignment r \<notin> jo_assignment ` set (offers d)"
  unfolding insert_offer_def by (auto split: if_splits)

lemma sendOne_sends:
  assumes "sendOne env ctx clk s i p ids d = Inr (d', r)"
  obtains t a where "sends d s t a r d'" and "send_time s p (send_break s p) = Inr t" and "sa_period a = Some t"
    and "sa_staff a = i" and "sa_id a = fst ids" and "jo_id r = snd ids" and "jo_kind r = Some (se_kind env)"
    and "se_kind env = STANDARD \<Longrightarrow> stmt_now clk < startsAt t - MANAGER_CONFIRMATION_LEAD_MINUTES * 60000"
    and "\<exists>sp. assertStaffEligibleForOffer i (sh_id s) t d = Inr sp"
    and "\<exists>c. assertStaffAvailabilityAcknowledged (se_london env) [(i, t)] (se_acks env) d = Inr c"
    and "jo_created_by r = Some (cx_user ctx)" and "sa_pay_snapshot a = sh_pay_rate_pence s"
proof -
  from assms obtain t sp acked d1 d2 d3 pay evs where t: "send_time s p (send_break s p) = Inr t"
    and k: "\<not> (se_kind env = STANDARD \<and> startsAt t - MANAGER_CONFIRMATION_LEAD_MINUTES * 60000 \<le> stmt_now clk)"
    and el: "assertStaffEligibleForOffer i (sh_id s) t d = Inr sp"
    and av: "assertStaffAvailabilityAcknowledged (se_london env) [(i, t)] (se_acks env) d = Inr acked"
    and 1: "insert_assignment (new_seat ctx s i p ids t) d = Inr d1" and 2: "update_shift (sh_id s) (expand_shift s t) d1 = Inr d2"
    and 3: "insert_offer (new_offer env ctx clk s i ids pay) d2 = Inr d3" and d': "emit evs d3 = d'"
    and r: "new_offer env ctx clk s i ids pay = r"
    unfolding sendOne_def Let_def bindE_Inr_iff require_Inr_iff sum.inject prod.inject
    by (elim exE conjE) (rule that; assumption)
  let ?a = "new_seat ctx s i p ids t"
  have r': "jo_id r = snd ids" "jo_assignment r = fst ids" "jo_staff r = i" "jo_status r = PENDING" "jo_kind r = Some (se_kind env)"
    "jo_created_by r = Some (cx_user ctx)" by (simp_all add: r [symmetric] new_offer_def)
  have a: "sa_id ?a = fst ids" "sa_shift ?a = sh_id s" "sa_staff ?a = i" "sa_status ?a = A_OFFERED" "sa_period ?a = Some t"
    "sa_pay_snapshot ?a = sh_pay_rate_pence s" by (simp_all add: new_seat_def)
  note 1 = insert_assignment_Inr [OF 1] and 2 = 2 [unfolded update_shift_Inr] and 3 = insert_offer_Inr [OF 3]
  have "sends d s t ?a r d'" using 1 2 3 by (auto simp: sends_def d' [symmetric] a r' r)
  then show ?thesis by (rule that) (use t a r' k el av in auto)
qed

lemma cancelled_image: "shift_cancelled sid d \<longleftrightarrow> (sid, CANCELLED) \<in> (\<lambda>x. (sh_id x, sh_status x)) ` set (shifts d)"
  by (force simp: shift_cancelled_def)

lemma dbok_sends:
  assumes db_ok: "db_ok d" and s: "sh_id s \<in> published (shifts d)" and t: "sends d s t a r d'"
  shows "db_ok d' \<and> older d d'"
proof -
  have k: "keyed_db d" and l: "linked_db d" and c: "coupled_db d" and o: "seated_db d" using db_ok by (simp_all add: db_ok_def)
  have m: "map sh_id (shifts d') = map sh_id (shifts d)" using t by (auto intro!: map_update_where simp: sends_def)
  have "keyed_db d'" using k t m
    by (auto simp: keyed_db_def sends_def shift_table.keyed_def assignment_table.keyed_def offer_table.keyed_def)
  moreover have "published (shifts d) \<subseteq> published (shifts d')"
    using t shift_upd_published [of "expand_shift s t"] by (simp add: sends_def shift_upd_def)
  with l t s have "linked_db d'" unfolding linked_db_def by (auto simp: sends_def)
  moreover have st: "(\<lambda>x. (sh_id x, sh_status x)) ` set (shifts d') = (\<lambda>x. (sh_id x, sh_status x)) ` set (shifts d)"
    unfolding set_map [symmetric] using t by (simp add: sends_def map_update_where)
  moreover from st have sc: "shift_cancelled sid d \<Longrightarrow> shift_cancelled sid d'" for sid
    unfolding cancelled_image by simp
  moreover have "coupled_db d'"
    unfolding coupled_db_def
  proof (intro ballI impI)
    fix r' a'
    assume r': "r' \<in> set (offers d')" and a': "a' \<in> set (assignments d')" and e: "sa_id a' = jo_assignment r'"
    have ex: "jo_assignment x \<in> sa_id ` set (assignments d)" if "x \<in> set (offers d)" for x
      using l that unfolding linked_db_def by force
    show "pair_ok d' r' a'"
    proof (cases "a' = a")
      case True
      then have "r' = r" using r' e ex [of r'] t by (auto simp: sends_def)
      then show ?thesis using True t by (simp add: pair_ok_def sends_def)
    next
      case False
      then have "a' \<in> set (assignments d)" and "r' \<in> set (offers d)" using a' r' e t by (auto simp: sends_def image_iff)
      then show ?thesis using c e sc unfolding coupled_db_def pair_ok_def by blast
    qed
  qed
  moreover have "seated_db d'"
    unfolding seated_db_def
  proof (intro ballI)
    fix s'
    assume "s' \<in> set (shifts d')"
    then obtain s0 where s0: "s0 \<in> set (shifts d)" "sh_id s' = sh_id s0" "sh_required_count s' = sh_required_count s0"
      using t by (auto simp: sends_def set_update_where)
    have "occupied (sh_id s0) d' = occupied (sh_id s0) d" using t by (simp add: occupied_count sends_def occupiedSeatSql_def)
    then show "occupied (sh_id s') d' \<le> sh_required_count s'" using o s0 by (simp add: seated_db_def)
  qed
  moreover have "attended_db d'" using db_ok t by (auto simp: db_ok_def attended_db_def sends_def)
  ultimately have "db_ok d'" using t by (auto simp: db_ok_def checked_db_def sends_def)
  moreover have "older d d'" using t sc by (auto simp: older_def sends_def)
  ultimately show ?thesis by simp
qed

text \<open>The bulk loop, and the first send of an open shift. \<open>row_of s d\<close>: the shift in memory is the row of \<open>d\<close> as to its
  identity and status, which sends keep.\<close>

definition row_of :: "shift_row \<Rightarrow> db \<Rightarrow> bool" where
  "row_of s d \<longleftrightarrow> (sh_id s, sh_status s) \<in> (\<lambda>x. (sh_id x, sh_status x)) ` set (shifts d)"

lemma row_of_found: "find_shift k d = Some s \<Longrightarrow> row_of s d"
  using find_shift_SomeD [of k d s] by (force simp: row_of_def)

lemma occupied_sends: "sends d s t a r d' \<Longrightarrow> occupied sid d' = occupied sid d"
  by (simp add: occupied_count sends_def occupiedSeatSql_def)

lemma row_of_sends: "row_of s d \<Longrightarrow> sends d s t a r d' \<Longrightarrow> row_of s d'"
proof -
  assume s: "row_of s d" and t: "sends d s t a r d'"
  have "map (\<lambda>x. (sh_id x, sh_status x)) (shifts d') = map (\<lambda>x. (sh_id x, sh_status x)) (shifts d)"
    using t by (simp add: sends_def map_update_where)
  then show ?thesis using s unfolding row_of_def set_map [symmetric] by simp
qed

lemma row_of_id: "row_of s d \<Longrightarrow> sh_status s \<noteq> DRAFT \<Longrightarrow> sh_id s \<in> published (shifts d)"
  by (force simp: row_of_def published_def)

lemma dbok_send_loop:
  "db_ok d \<Longrightarrow> row_of s d \<Longrightarrow> sh_status s \<noteq> DRAFT \<Longrightarrow> send_loop env ctx clk s proposed uuid pre is d results = (d', out)
     \<Longrightarrow> db_ok d' \<and> older d d' \<and> row_of s d'"
proof (induction "is" arbitrary: d results)
  case Nil
  then show ?case by (simp add: older_refl)
next
  case (Cons i "is")
  show ?case
  proof (cases "bindE (pre i d) (\<lambda>_. sendOne env ctx clk s i (proposed i) (uuid i) d)")
    case (Inl e)
    then show ?thesis using Cons.prems(4) Cons.IH [OF Cons.prems(1-3)] by simp
  next
    case (Inr q)
    obtain d1 r where q: "q = (d1, r)" by (cases q)
    have "sendOne env ctx clk s i (proposed i) (uuid i) d = Inr (d1, r)" using Inr q by (auto simp: res_simps)
    then obtain t a where t: "sends d s t a r d1" by (rule sendOne_sends)
    note 1 = dbok_sends [OF Cons.prems(1) row_of_id [OF Cons.prems(2,3)] t] row_of_sends [OF Cons.prems(2) t]
    have "send_loop env ctx clk s proposed uuid pre is d1 (results @ [(i, Inr (jo_id r))]) = (d', out)"
      using Cons.prems(4) Inr q by simp
    with Cons.IH 1 Cons.prems(3) have "db_ok d' \<and> older d1 d' \<and> row_of s d'" by blast
    with 1 show ?thesis using older_trans by blast
  qed
qed

text \<open>A shift update that leaves room for the occupied seats, does not reopen a cancelled shift and makes no draft.\<close>

lemma dbok_shift_edit:
  assumes db_ok: "db_ok d" and u: "update_shift k f d = Inr d'" and f: "shift_upd f"
    and cap: "\<And>x. x \<in> set (shifts d) \<Longrightarrow> sh_id x = k \<Longrightarrow> occupied k d \<le> sh_required_count (f x)"
    and can: "\<And>x. x \<in> set (shifts d) \<Longrightarrow> sh_id x = k \<Longrightarrow> sh_status x = CANCELLED \<Longrightarrow> sh_status (f x) = CANCELLED"
  shows "db_ok d' \<and> older d d'"
proof -
  have d': "offers d' = offers d" "assignments d' = assignments d" "attendances d' = attendances d" "shifts d' = update_where (\<lambda>s. sh_id s = k) f (shifts d)"
    and chk: "list_all shift_checks (shifts d')" using u by (auto simp: update_shift_Inr)
  have i: "sh_id (f x) = sh_id x" for x using f by (simp add: shift_upd_def)
  have m: "map sh_id (shifts d') = map sh_id (shifts d)" unfolding d' by (rule map_update_where) (rule i)
  have sc: "shift_cancelled sid d'" if "shift_cancelled sid d" for sid
  proof -
    from that obtain x where x: "x \<in> set (shifts d)" "sh_id x = sid" "sh_status x = CANCELLED" by (auto simp: shift_cancelled_def)
    let ?x = "if sh_id x = k then f x else x"
    have "?x \<in> set (shifts d')" using x(1) by (auto simp: d' set_update_where)
    moreover have "sh_id ?x = sid \<and> sh_status ?x = CANCELLED" using x i can by simp
    ultimately show ?thesis unfolding shift_cancelled_def by blast
  qed
  have "keyed_db d'" using db_ok m by (simp add: db_ok_def keyed_db_def shift_table.keyed_def d'(1,2))
  moreover have "published (shifts d) \<subseteq> published (shifts d')" unfolding d' by (rule shift_upd_published [OF f])
  with db_ok have "linked_db d'" unfolding db_ok_def linked_db_def d'(1,2) by blast
  moreover have "coupled_db d'" using db_ok sc unfolding db_ok_def coupled_db_def pair_ok_def d'(1,2) by blast
  moreover have "seated_db d'"
    unfolding seated_db_def
  proof
    fix y
    assume "y \<in> set (shifts d')"
    then obtain x where x: "x \<in> set (shifts d)" "y = (if sh_id x = k then f x else x)" by (auto simp: d' set_update_where)
    have "occupied (sh_id x) d' = occupied (sh_id x) d" by (simp add: occupied_count d'(2))
    moreover have "occupied (sh_id x) d \<le> sh_required_count x" using db_ok x(1) by (simp add: db_ok_def seated_db_def)
    ultimately show "occupied (sh_id y) d' \<le> sh_required_count y" using cap x i by (cases "sh_id x = k") auto
  qed
  moreover have "attended_db d'" using db_ok by (simp add: db_ok_def attended_db_def d'(2,3))
  ultimately show ?thesis using db_ok chk d'(1,2,3) sc by (auto simp: db_ok_def checked_db_def older_def)
qed

lemma dbok_shift_only:
  assumes db_ok: "db_ok d" and u: "update_shift k f d = Inr d'" and f: "shift_upd f" "\<And>x. sh_required_count (f x) = sh_required_count x"
    and can: "\<And>x. x \<in> set (shifts d) \<Longrightarrow> sh_id x = k \<Longrightarrow> sh_status x = CANCELLED \<Longrightarrow> sh_status (f x) = CANCELLED"
  shows "db_ok d' \<and> older d d'"
  by (rule dbok_shift_edit [OF db_ok u f(1) _ can]) (use db_ok f(2) in \<open>auto simp: db_ok_def seated_db_def\<close>)

lemma dbok_open_to_offered:
  assumes db_ok: "db_ok d" and s: "row_of s d" and o: "open_to_offered s d = Inr d'"
  shows "db_ok d' \<and> older d d'"
proof (cases "sh_status s = OPEN")
  case False
  then show ?thesis using o db_ok older_refl by (simp add: open_to_offered_def)
next
  case True
  then have u: "update_shift (sh_id s) (\<lambda>row. row\<lparr>sh_status := OFFERED\<rparr>) d = Inr d'"
    using o by (simp add: open_to_offered_def res_simps)
  from s obtain s0 where s0: "s0 \<in> set (shifts d)" "sh_id s0 = sh_id s" "sh_status s0 = OPEN" using True by (auto simp: row_of_def)
  have k: "shift_table.keyed (shifts d)" using db_ok by (simp add: db_ok_def keyed_db_def)
  show ?thesis
  proof (rule dbok_shift_only [OF db_ok u])
    fix x
    assume "x \<in> set (shifts d)" "sh_id x = sh_id s" "sh_status x = CANCELLED"
    then show "sh_status (x\<lparr>sh_status := OFFERED\<rparr>) = CANCELLED"
      using shift_table.keyed_unique [OF k, of x s0] s0 by simp
  qed (simp_all add: shift_upd_def)
qed

lemma loadSendable_row: "loadSendableShift ctx sid d = Inr s \<Longrightarrow> row_of s d \<and> find_shift sid d = Some s \<and> sh_status s \<noteq> DRAFT"
  by (auto simp: loadSendableShift_def res_simps intro: row_of_found)

lemma dbok_send_then_open:
  assumes "db_ok d" and "row_of s d" and "sh_status s \<noteq> DRAFT" and "sendOne env ctx clk s i p ids d = Inr (d1, r)" and "open_to_offered s d1 = Inr d'"
  shows "db_ok d' \<and> older d d'"
proof -
  obtain t a where t: "sends d s t a r d1" using sendOne_sends [OF assms(4)] by blast
  have 1: "db_ok d1 \<and> older d d1" by (rule dbok_sends [OF assms(1) row_of_id [OF assms(2,3)] t])
  have "db_ok d' \<and> older d1 d'" by (rule dbok_open_to_offered [OF _ row_of_sends [OF assms(2) t] assms(5)]) (use 1 in simp)
  with 1 show ?thesis using older_trans by blast
qed

lemma dbok_send:
  assumes "db_ok d" and "send env ctx clk sid i ids d = Inr (d', r)"
  shows "db_ok d' \<and> older d d'"
proof -
  from assms(2) obtain s d1 where s: "loadSendableShift ctx sid d = Inr s"
    and 1: "sendOne (env\<lparr>se_kind := STANDARD\<rparr>) ctx clk s i None ids d = Inr (d1, r)" and o: "open_to_offered s d1 = Inr d'"
    by (auto simp: send_def res_simps)
  show ?thesis by (rule dbok_send_then_open [OF assms(1) _ _ 1 o]) (use loadSendable_row [OF s] in simp_all)
qed

lemma dbok_send_all:
  assumes "db_ok d" and "row_of s d" and "sh_status s \<noteq> DRAFT" and l: "send_all env ctx clk s proposed uuid pre is d = Inr (d', results)"
  shows "db_ok d' \<and> older d d'"
proof -
  obtain d1 out where e: "send_loop env ctx clk s proposed uuid pre is d [] = (d1, out)" by fastforce
  have 1: "db_ok d1 \<and> older d d1 \<and> row_of s d1" by (rule dbok_send_loop [OF assms(1-3) e])
  have "(if any_ok out then open_to_offered s d1 else Inr d1) = Inr d'" using l by (auto simp: send_all_def e bindE_Inr_iff)
  then have "db_ok d' \<and> older d1 d'"
    using dbok_open_to_offered [of d1 s d'] 1 older_refl by (auto split: if_splits)
  with 1 show ?thesis using older_trans by blast
qed

lemma sendBulk_all:
  assumes "sendBulk may env ctx clk uuid sid dto d = Inr x"
  obtains s env' p pre where "row_of s d" and "sh_status s \<noteq> DRAFT" and "send_all env' ctx clk s p uuid pre (bd_staff_ids dto) d = Inr x"
proof (cases "bd_replacement dto")
  case True
  then have r: "sendReplacementBulk may env ctx clk uuid sid dto d = Inr x" using assms by (simp add: sendBulk_def)
  then obtain s v where v: "loadReplacementShift may ctx clk sid d = Inr (s, v)"
    by (auto simp: sendReplacementBulk_def bindE_Inr_iff)
  then obtain w where s: "loadReplacementShift may ctx clk sid d = Inr (s, Inr w)"
    using r by (cases v) (auto simp: sendReplacementBulk_def bindE_Inr_iff)
  have "find_shift sid d = Some s \<and> sh_status s \<in> set REPLACEABLE_SHIFT_STATUSES"
    using s by (auto simp: loadReplacementShift_def res_simps Let_def split: if_splits)
  then have "find_shift sid d = Some s" "sh_status s \<noteq> DRAFT" by (auto simp: REPLACEABLE_SHIFT_STATUSES_def)
  moreover have "\<exists>env' p pre. send_all env' ctx clk s p uuid pre (bd_staff_ids dto) d = Inr x"
    using r by (auto simp: sendReplacementBulk_def s bindE_Inr_iff Let_def)
  ultimately show ?thesis using row_of_found that by blast
next
  case False
  from assms obtain s windows where s: "loadSendableShift ctx sid d = Inr s"
    and x: "send_all (env\<lparr>se_kind := STANDARD\<rparr>) ctx clk s (map_of windows) uuid (\<lambda>_ _. Inr ()) (bd_staff_ids dto) d = Inr x"
    unfolding sendBulk_def if_not_P [OF False] bindE_Inr_iff by blast
  show ?thesis by (rule that [OF _ _ x]) (use loadSendable_row [OF s] in simp_all)
qed

lemma dbok_sendBulk: "db_ok d \<Longrightarrow> sendBulk may env ctx clk uuid sid dto d = Inr (d', results) \<Longrightarrow> db_ok d' \<and> older d d'"
  by (erule sendBulk_all) (rule dbok_send_all)

end
