(* ===== verification/OfferProgress.thy ===== *)
theory OfferProgress
  imports OfferHistory
begin

text \<open>
  The whole offer lifecycle as a step relation on databases, one rule per transaction: \<open>offer_step d0 d d'\<close> is one committed
  transaction from \<open>d\<close> to \<open>d'\<close> whose unlocked reads saw \<open>d0\<close>. Every step keeps the invariant \<open>db_ok\<close> and \<open>advances\<close>: an
  offer or an attendance keeps its identity and its status only moves along its transition table.
\<close>

section \<open>Statuses move along the table\<close>

definition reaches :: "offer_status \<Rightarrow> offer_status \<Rightarrow> bool" where
  "reaches s t \<longleftrightarrow> (\<exists>ts. run_transitions offer_status_str OFFER_TRANSITIONS s ts = Inr t)"

definition att_reaches :: "attendance_status \<Rightarrow> attendance_status \<Rightarrow> bool" where
  "att_reaches s t \<longleftrightarrow> (\<exists>ts. run_transitions attendance_status_str ATTENDANCE_TRANSITIONS s ts = Inr t)"

definition att_moves :: "db \<Rightarrow> db \<Rightarrow> bool" where
  "att_moves d d' \<longleftrightarrow> (\<forall>t \<in> set (attendances d). \<exists>t' \<in> set (attendances d').
     att_ident t' = att_ident t \<and> att_reaches (at_status t) (at_status t'))"

definition offer_moves :: "db \<Rightarrow> db \<Rightarrow> bool" where
  "offer_moves d d' \<longleftrightarrow> (\<forall>r \<in> set (offers d). \<exists>r' \<in> set (offers d').
     offer_ident r' = offer_ident r \<and> reaches (jo_status r) (jo_status r'))"

definition advances :: "db \<Rightarrow> db \<Rightarrow> bool" where
  "advances d d' \<longleftrightarrow> offer_moves d d' \<and> att_moves d d'"

lemma reaches_refl [simp]: "reaches s s"
  unfolding reaches_def by (rule exI [of _ "[]"]) simp

lemma reaches_step: "assertOffer s t = Inr u \<Longrightarrow> reaches s t"
  unfolding reaches_def by (rule exI [of _ "[t]"]) (simp add: run_transitions.simps(2))

lemma reaches_trans: "reaches s t \<Longrightarrow> reaches t u \<Longrightarrow> reaches s u"
  unfolding reaches_def using offers.run_append [of s] by (metis bindE.simps(2))

lemma reaches_terminal: "offer_terminal s \<Longrightarrow> reaches s t \<longleftrightarrow> t = s"
  using offers.run_from_terminal [of s] by (auto simp: reaches_def)

lemma att_reaches_refl [simp]: "att_reaches s s"
  unfolding att_reaches_def by (rule exI [of _ "[]"]) simp

lemma att_reaches_step: "assertAttendance s t = Inr u \<Longrightarrow> att_reaches s t"
  unfolding att_reaches_def by (rule exI [of _ "[t]"]) (simp add: run_transitions.simps(2))

lemma att_reaches_trans: "att_reaches s t \<Longrightarrow> att_reaches t u \<Longrightarrow> att_reaches s u"
  unfolding att_reaches_def using attendances.run_append [of s] by (metis bindE.simps(2))

text \<open>Attendances without the Worker's row states never become active again.\<close>

lemma att_reaches_closed:
  assumes "att_reaches s t" and "s \<noteq> CLOCKED_IN" and "s \<noteq> ON_BREAK" and "s \<noteq> AT_SCHEDULED"
  shows "t \<noteq> CLOCKED_IN \<and> t \<noteq> ON_BREAK \<and> t \<noteq> AT_SCHEDULED"
proof -
  obtain ts where "run_transitions attendance_status_str ATTENDANCE_TRANSITIONS s ts = Inr t" using assms(1) by (auto simp: att_reaches_def)
  then show ?thesis
    using assms(2-4)
  proof (induction ts arbitrary: s)
    case (Cons u ts)
    then have "attendances.edge s u" "run_transitions attendance_status_str ATTENDANCE_TRANSITIONS u ts = Inr t"
      by (simp_all add: attendances.run_Cons_iff)
    moreover have "u \<noteq> CLOCKED_IN \<and> u \<noteq> ON_BREAK \<and> u \<noteq> AT_SCHEDULED"
      using \<open>attendances.edge s u\<close> Cons.prems(2-4) by (cases s) (auto simp: attendances.edge_def)
    ultimately show ?case using Cons.IH by blast
  qed simp
qed

lemma att_moves_same: "attendances d' = attendances d \<Longrightarrow> att_moves d d'"
  by (simp add: att_moves_def) (use att_reaches_refl in blast)

lemma att_moves_insert: "attendances d' = attendances d @ [t] \<Longrightarrow> att_moves d d'"
  by (simp add: att_moves_def) (use att_reaches_refl in blast)

lemma advances_refl: "advances d d"
  unfolding advances_def offer_moves_def using reaches_refl att_moves_same by blast

lemma offer_moves_trans: "offer_moves d d1 \<Longrightarrow> offer_moves d1 d2 \<Longrightarrow> offer_moves d d2"
  unfolding offer_moves_def by (metis reaches_trans)

lemma att_moves_trans: "att_moves d d1 \<Longrightarrow> att_moves d1 d2 \<Longrightarrow> att_moves d d2"
  unfolding att_moves_def by (metis att_reaches_trans)

lemma advances_trans: "advances d d1 \<Longrightarrow> advances d1 d2 \<Longrightarrow> advances d d2"
  unfolding advances_def using offer_moves_trans att_moves_trans by blast

lemma advances_same: "offers d' = offers d \<Longrightarrow> att_moves d d' \<Longrightarrow> advances d d'"
  by (simp add: advances_def offer_moves_def) (use reaches_refl in blast)

lemma advances_touches:
  assumes "db_ok d" and "touches d r a f g h d'" and "find_offer (jo_id r) d = Some r" and "reaches (jo_status r) (jo_status (f r))"
  shows "advances d d'"
  unfolding advances_def offer_moves_def
proof (intro conjI ballI)
  show "att_moves d d'" by (rule att_moves_same) (use assms(2) in \<open>simp add: touches_def\<close>)
  fix q
  assume q: "q \<in> set (offers d)"
  let ?q = "if jo_id q = jo_id r then f q else q"
  have "jo_id q = jo_id r \<Longrightarrow> q = r"
    using offer_table.keyed_unique [of "offers d" q r] q find_offer_SomeD [OF assms(3)] assms(1) by (simp add: db_ok_def keyed_db_def)
  then have "offer_ident ?q = offer_ident q \<and> reaches (jo_status q) (jo_status ?q)"
    using assms(2,4) by (auto simp: touches_def offer_upd_def)
  moreover have "?q \<in> set (offers d')" using q assms(2) by (auto simp: touches_def set_update_where)
  ultimately show "\<exists>r' \<in> set (offers d'). offer_ident r' = offer_ident q \<and> reaches (jo_status q) (jo_status r')" by blast
qed

lemma join_self: "offer_join oid d = Some (r, a, s) \<Longrightarrow> find_offer (jo_id r) d = Some r"
  using offer_join_SomeD [of oid d r a s] find_offer_SomeD [of oid d r] by simp

lemma adv_expire:
  assumes d: "db_ok d" and c: "claimExpiredOffer clk oid d = Some (d', q)"
  shows "advances d d'"
proof -
  obtain r a where r: "find_offer oid d = Some r" "jo_status r = PENDING"
    and t: "touches d r a (\<lambda>q. q\<lparr>jo_status := EXPIRED, jo_responded_at := Some (tx_now clk)\<rparr>) (\<lambda>a. a) (\<lambda>s. s) d'"
    using claim_touches [OF d c] .
  have "reaches PENDING EXPIRED" by (rule reaches_step) (simp add: assertTransition_def)
  then show ?thesis
    using advances_touches [OF d t] r find_offer_SomeD [OF r(1)] by simp
qed

lemma adv_accept:
  assumes "db_ok d" and "older d0 d" and "staffAccept_claim ctx clk oid d0 d = Inr (d', out)"
  shows "advances d d'"
  using assms
proof (cases rule: accept_claim_touches)
  case (lost m)
  then show ?thesis by (simp add: advances_refl)
next
  case (won r a s q)
  have "reaches PENDING OFFER_STAFF_ACCEPTED" by (rule reaches_step) (simp add: assertTransition_def)
  then show ?thesis using advances_touches [OF assms(1) won(4) join_self [OF won(1)]] won(2) by (simp add: accept_claimable_def)
qed

lemma adv_close:
  assumes db_ok: "db_ok d" and old: "older d0 d" and r0: "find_offer oid d0 = Some r0"
    and a0: "find_assignment (jo_assignment r0) d0 = Some a0" and f: "offer_upd f" "\<And>x. jo_status (f x) = st"
    and s: "assertOffer (jo_status r0) st = Inr ()" and c: "close_offer ctx r0 a0 f seat lost evs d = Inr (d', q)"
  shows "advances d d'"
proof -
  obtain r a s h where j: "offer_join oid d = Some (r, a, s)" and e: "jo_status r = jo_status r0"
    and t: "touches d r a f (\<lambda>x. x\<lparr>sa_status := seat\<rparr>) h d'"
    using close_offer_touches [OF db_ok old r0 a0 f(1) c] .
  show ?thesis by (rule advances_touches [OF db_ok t join_self [OF j]]) (use reaches_step [OF s] f(2) e in simp)
qed

lemma adv_withdraw:
  assumes "db_ok d" and "older d0 d" and "withdraw ctx clk oid d0 d = Inr (d', q)"
  shows "advances d d'"
proof -
  from assms(3) obtain r0 a0 f lost evs where r: "find_offer oid d0 = Some r0" and a: "find_assignment (jo_assignment r0) d0 = Some a0"
    and s: "assertOffer (jo_status r0) OFFER_WITHDRAWN = Inr ()"
    and c: "close_offer ctx r0 a0 f A_WITHDRAWN lost evs d = Inr (d', q)" and f: "offer_upd f" "\<forall>x. jo_status (f x) = OFFER_WITHDRAWN"
    by (fastforce simp: withdraw_def bindE_Inr_iff from_option_Inr_iff offer_upd_def offer_ident_def)
  show ?thesis by (rule adv_close [OF assms(1,2) r a f(1) _ s c]) (use f(2) in simp)
qed

lemma adv_reject:
  assumes "db_ok d" and "older d0 d" and "managerReject ctx clk oid reason d0 d = Inr (d', q)"
  shows "advances d d'"
proof -
  from assms(3) obtain r0 a0 f lost evs where r: "find_offer oid d0 = Some r0" and a: "find_assignment (jo_assignment r0) d0 = Some a0"
    and s: "assertOffer (jo_status r0) MANAGER_REJECTED = Inr ()"
    and c: "close_offer ctx r0 a0 f A_REJECTED lost evs d = Inr (d', q)" and f: "offer_upd f" "\<forall>x. jo_status (f x) = MANAGER_REJECTED"
    by (fastforce simp: managerReject_def bindE_Inr_iff from_option_Inr_iff offer_upd_def offer_ident_def)
  show ?thesis by (rule adv_close [OF assms(1,2) r a f(1) _ s c]) (use f(2) in simp)
qed

lemma adv_decline:
  assumes "db_ok d" and "older d0 d" and "decline ctx clk oid reason d0 d = Inr (d', q)"
  shows "advances d d'"
proof -
  from assms(3) obtain r0 a0 f lost evs where r: "find_offer oid d0 = Some r0" and a: "find_assignment (jo_assignment r0) d0 = Some a0"
    and s: "assertOffer (jo_status r0) OFFER_DECLINED = Inr ()"
    and c: "close_offer ctx r0 a0 f A_DECLINED lost evs d = Inr (d', q)" and f: "offer_upd f" "\<forall>x. jo_status (f x) = OFFER_DECLINED"
    by (fastforce simp: decline_def bindE_Inr_iff from_option_Inr_iff offer_upd_def offer_ident_def split: option.splits if_splits)
  show ?thesis by (rule adv_close [OF assms(1,2) r a f(1) _ s c]) (use f(2) in simp)
qed

lemma adv_withdraw_unconfirmed:
  assumes "db_ok d" and "withdrawUnconfirmedOffer clk org oid d = Inr (d', out)"
  shows "advances d d'"
  using assms
proof (cases rule: withdraw_unconfirmed_touches)
  case none
  then show ?thesis by (simp add: advances_refl)
next
  case (won r a s h v)
  have "reaches OFFER_STAFF_ACCEPTED MANAGER_REJECTED" by (rule reaches_step) (simp add: assertTransition_def)
  then show ?thesis using advances_touches [OF assms(1) won(3) join_self [OF won(1)]] won(2) by (simp add: withdraw_claimable_def)
qed

lemma adv_withdraw_all: "db_ok d \<Longrightarrow> withdraw_all clk org oids d = Inr d' \<Longrightarrow> advances d d'"
proof (induction oids arbitrary: d)
  case Nil
  then show ?case by (simp add: advances_refl)
next
  case (Cons oid oids)
  from Cons.prems(2) obtain d1 out where 1: "withdrawUnconfirmedOffer clk org oid d = Inr (d1, out)"
    and 2: "withdraw_all clk org oids d1 = Inr d'"
    by (auto simp: res_simps)
  have "advances d1 d'" by (rule Cons.IH [OF conjunct1 [OF dbok_withdraw_unconfirmed [OF Cons.prems(1) 1]] 2])
  then show ?case using advances_trans [OF adv_withdraw_unconfirmed [OF Cons.prems(1) 1]] by blast
qed

lemma adv_withdraw_past: "db_ok d \<Longrightarrow> advances d (withdrawPastDeadline clk ctx oids d)"
  using adv_withdraw_all [of d clk "cx_org ctx" oids] advances_refl
  by (auto simp: withdrawPastDeadline_def split: sum.splits)

lemma adv_candidate:
  assumes "db_ok d" and "withdrawDeadlineCandidate clk org oid ev d = Inr (d', ev', out)"
  shows "advances d d'"
proof -
  from assms(2) have "d' = d \<or> (\<exists>w. withdrawUnconfirmedOffer (clk\<lparr>stmt_now := stmt_next clk\<rparr>) org oid d = Inr (d', w))"
    by (auto simp: withdrawDeadlineCandidate_def res_simps split: option.splits if_splits)
  then show ?thesis using assms(1) advances_refl adv_withdraw_unconfirmed by blast
qed

lemma adv_confirm:
  assumes "db_ok d" and "older d0 d" and "confirmOne ctx clk oid d0 d = Inr (d', q)"
  shows "advances d d'"
  using assms
proof (cases rule: confirm_touches)
  case (1 r a s g h)
  have "reaches OFFER_STAFF_ACCEPTED MANAGER_CONFIRMED" by (rule reaches_step) (simp add: assertTransition_def)
  then show ?thesis using advances_touches [OF assms(1) 1(6) join_self [OF 1(1)]] 1(2) by (simp add: confirm_claimable_def)
qed

lemma adv_confirm_loop: "db_ok d \<Longrightarrow> confirm_loop ctx clk rs d results past = (d', out) \<Longrightarrow> advances d d'"
proof (induction rs arbitrary: d results past)
  case Nil
  then show ?case by (simp add: advances_refl)
next
  case (Cons r rs)
  show ?case
  proof (cases "confirmOne ctx clk (jo_id r) d d")
    case (Inl e)
    then show ?thesis using Cons.prems(2) Cons.IH [OF Cons.prems(1)] by simp
  next
    case (Inr p)
    obtain d1 q where p: "confirmOne ctx clk (jo_id r) d d = Inr (d1, q)" using Inr by (cases p) auto
    have "confirm_loop ctx clk rs d1 (results @ [(jo_staff r, Inr (jo_id q))]) past = (d', out)" using Cons.prems(2) p by simp
    then have "advances d1 d'" by (rule Cons.IH [OF conjunct1 [OF dbok_confirm [OF Cons.prems(1) older_refl p]]])
    then show ?thesis using advances_trans [OF adv_confirm [OF Cons.prems(1) older_refl p]] by blast
  qed
qed

lemma adv_cancel:
  assumes "db_ok d" and "find_shift (sh_id s) d = Some s" and "cancelBookingWithManager ctx clk s oid reason d = Inr d'"
  shows "advances d d'"
  using assms
proof (cases rule: cancel_touches)
  case (1 r a f h n)
  have "reaches PENDING OFFER_WITHDRAWN" "reaches OFFER_STAFF_ACCEPTED MANAGER_REJECTED"
    by (rule reaches_step, simp add: assertTransition_def)+
  then have "reaches (jo_status r) (jo_status (f r))" by (simp add: 1(6))
  then show ?thesis by (rule advances_touches [OF assms(1) 1(5) join_self [OF 1(1)]])
qed

lemma adv_sends: "sends d s t a r d' \<Longrightarrow> advances d d'"
  unfolding advances_def offer_moves_def sends_def using reaches_refl att_moves_same by fastforce

lemma adv_open_to_offered: "open_to_offered s d = Inr d' \<Longrightarrow> advances d d'"
  by (rule advances_same) (auto simp: open_to_offered_def res_simps update_shift_Inr split: if_splits intro: att_moves_same)

lemma adv_send:
  assumes "send env ctx clk sid i ids d = Inr (d', r)"
  shows "advances d d'"
proof -
  from assms obtain s d1 where 1: "sendOne (env\<lparr>se_kind := STANDARD\<rparr>) ctx clk s i None ids d = Inr (d1, r)"
    and o: "open_to_offered s d1 = Inr d'"
    by (auto simp: send_def res_simps)
  obtain t a where "sends d s t a r d1" using sendOne_sends [OF 1] by blast
  then show ?thesis using advances_trans [OF adv_sends adv_open_to_offered [OF o]] by blast
qed

lemma adv_send_loop: "send_loop env ctx clk s proposed uuid pre is d results = (d', out) \<Longrightarrow> advances d d'"
proof (induction "is" arbitrary: d results)
  case Nil
  then show ?case by (simp add: advances_refl)
next
  case (Cons i "is")
  show ?case
  proof (cases "bindE (pre i d) (\<lambda>_. sendOne env ctx clk s i (proposed i) (uuid i) d)")
    case (Inl e)
    then show ?thesis using Cons.prems Cons.IH by simp
  next
    case (Inr q)
    obtain d1 r where q: "q = (d1, r)" by (cases q)
    have "sendOne env ctx clk s i (proposed i) (uuid i) d = Inr (d1, r)" using Inr q by (auto simp: res_simps)
    then obtain t a where t: "sends d s t a r d1" by (rule sendOne_sends)
    have "send_loop env ctx clk s proposed uuid pre is d1 (results @ [(i, Inr (jo_id r))]) = (d', out)"
      using Cons.prems Inr q by simp
    then show ?thesis by (rule advances_trans [OF adv_sends [OF t] Cons.IH])
  qed
qed

lemma adv_sendBulk: "sendBulk may env ctx clk uuid sid dto d = Inr (d', results) \<Longrightarrow> advances d d'"
proof (erule sendBulk_all)
  fix s env' p pre
  assume l: "send_all env' ctx clk s p uuid pre (bd_staff_ids dto) d = Inr (d', results)"
  obtain d1 out where e: "send_loop env' ctx clk s p uuid pre (bd_staff_ids dto) d [] = (d1, out)" by fastforce
  have "(if any_ok out then open_to_offered s d1 else Inr d1) = Inr d'" using l by (auto simp: send_all_def e bindE_Inr_iff)
  then have "advances d1 d'" using adv_open_to_offered advances_refl by (auto split: if_splits)
  then show ?thesis by (rule advances_trans [OF adv_send_loop [OF e]])
qed

section \<open>The step relation\<close>

inductive offer_step :: "db \<Rightarrow> db \<Rightarrow> db \<Rightarrow> bool" where
  accept: "staffAccept_claim ctx clk oid d0 d = Inr (d', out) \<Longrightarrow> offer_step d0 d d'"
| lazy_expire: "staffAccept_expire ctx clk oid m d = (d', b) \<Longrightarrow> offer_step d0 d d'"
| worker_expire: "expireOfferCandidate clk oid d = (d', b) \<Longrightarrow> offer_step d0 d d'"
| decline: "decline ctx clk oid reason d0 d = Inr (d', r) \<Longrightarrow> offer_step d0 d d'"
| withdraw: "withdraw ctx clk oid d0 d = Inr (d', r) \<Longrightarrow> offer_step d0 d d'"
| reject: "managerReject ctx clk oid reason d0 d = Inr (d', r) \<Longrightarrow> offer_step d0 d d'"
| confirm: "confirmOne ctx clk oid d0 d = Inr (d', r) \<Longrightarrow> offer_step d0 d d'"
| confirm_all: "confirm_loop ctx clk rs d results past = (d', out) \<Longrightarrow> offer_step d0 d d'"
| withdraw_past: "withdrawPastDeadline clk ctx oids d = d' \<Longrightarrow> offer_step d0 d d'"
| candidate: "withdrawDeadlineCandidate clk org oid ev d = Inr (d', out) \<Longrightarrow> offer_step d0 d d'"
| cancel: "find_shift (sh_id s) d = Some s \<Longrightarrow> cancelBookingWithManager ctx clk s oid reason d = Inr d' \<Longrightarrow> offer_step d0 d d'"
| send: "send env ctx clk sid i ids d = Inr (d', r) \<Longrightarrow> offer_step d0 d d'"
| send_bulk: "sendBulk may env ctx clk uuid sid dto d = Inr (d', results) \<Longrightarrow> offer_step d0 d d'"
| send_one: "find_shift (sh_id s) d = Some s \<Longrightarrow> sh_status s \<noteq> DRAFT \<Longrightarrow> sendOneWithManager env ctx clk s i ids d = Inr (d', r) \<Longrightarrow> offer_step d0 d d'"

lemma expire_shapes:
  "staffAccept_expire ctx clk oid m d = (d', b) \<Longrightarrow> d' = d \<or> (\<exists>d1 r es. claimExpiredOffer clk oid d = Some (d1, r) \<and> d' = emit es d1)"
  "expireOfferCandidate clk oid d = (d', b) \<Longrightarrow> d' = d \<or> (\<exists>d1 r es. claimExpiredOffer clk oid d = Some (d1, r) \<and> d' = emit es d1)"
  by (auto simp: staffAccept_expire_def expireOfferCandidate_def split: option.splits)

lemma pair_ok_tables: "shifts d' = shifts d \<Longrightarrow> pair_ok d' = pair_ok d"
  by (intro ext) (simp add: pair_ok_def shift_cancelled_def)

lemma emit_ok [simp]: "db_ok (emit es d) = db_ok d" "older d (emit es d') = older d d'" "advances d (emit es d') = advances d d'"
  by (simp_all add: db_ok_def keyed_db_def linked_db_def coupled_db_def seated_db_def checked_db_def attended_db_def occupied_count older_def shift_cancelled_def
      advances_def offer_moves_def att_moves_def pair_ok_tables [of "emit es d" d])

lemma step_ok:
  assumes "offer_step d0 d d'" and "db_ok d" and "older d0 d"
  shows "db_ok d' \<and> older d d' \<and> advances d d'"
  using assms
proof cases
  case (accept ctx clk oid out)
  then show ?thesis using dbok_accept [OF assms(2,3)] adv_accept [OF assms(2,3)] by blast
next
  case (lazy_expire ctx clk oid m b)
  then show ?thesis
    using expire_shapes(1) [OF lazy_expire] dbok_expire [OF assms(2)] adv_expire [OF assms(2)] older_refl advances_refl assms(2)
    by (elim disjE) auto
next
  case (worker_expire clk oid b)
  then show ?thesis
    using expire_shapes(2) [OF worker_expire] dbok_expire [OF assms(2)] adv_expire [OF assms(2)] older_refl advances_refl assms(2)
    by (elim disjE) auto
next
  case (decline ctx clk oid reason r)
  then show ?thesis using dbok_decline [OF assms(2,3)] adv_decline [OF assms(2,3)] by blast
next
  case (withdraw ctx clk oid r)
  then show ?thesis using dbok_withdraw [OF assms(2,3)] adv_withdraw [OF assms(2,3)] by blast
next
  case (reject ctx clk oid reason r)
  then show ?thesis using dbok_reject [OF assms(2,3)] adv_reject [OF assms(2,3)] by blast
next
  case (confirm ctx clk oid r)
  then show ?thesis using dbok_confirm [OF assms(2,3)] adv_confirm [OF assms(2,3)] by blast
next
  case (confirm_all ctx clk rs results past out)
  then show ?thesis using dbok_confirm_loop [OF assms(2)] adv_confirm_loop [OF assms(2)] by blast
next
  case (withdraw_past clk ctx oids)
  then show ?thesis using dbok_withdraw_past [OF assms(2)] adv_withdraw_past [OF assms(2)] by blast
next
  case (candidate clk org oid ev out)
  then show ?thesis using dbok_candidate [OF assms(2)] adv_candidate [OF assms(2)] by (cases out) blast
next
  case (cancel s ctx clk oid reason)
  then show ?thesis using dbok_cancel [OF assms(2)] adv_cancel [OF assms(2)] by blast
next
  case (send env ctx clk sid i ids r)
  then show ?thesis using dbok_send [OF assms(2)] adv_send by blast
next
  case (send_bulk may env ctx clk uuid sid dto results)
  then show ?thesis using dbok_sendBulk [OF assms(2)] adv_sendBulk by blast
next
  case (send_one s env ctx clk i ids r)
  then obtain d1 where 1: "sendOne (env\<lparr>se_kind := STANDARD\<rparr>) ctx clk s i None ids d = Inr (d1, r)"
    and o: "open_to_offered s d1 = Inr d'"
    by (auto simp: sendOneWithManager_def res_simps)
  obtain t a where t: "sends d s t a r d1" using sendOne_sends [OF 1] by blast
  show ?thesis
    using dbok_send_then_open [OF assms(2) row_of_found [OF send_one(1)] send_one(2) 1 o] advances_trans [OF adv_sends [OF t] adv_open_to_offered [OF o]]
    by blast
qed

end
