(* ===== verification/AttendanceCorrections.thy ===== *)
theory AttendanceCorrections
  imports Attendance
begin

text \<open>
  The manager's writes to attendance (\<open>attendance.service.ts\<close>): the one-field correction, "Record attendance" for one seat,
  and the seat-level decisions of the shift report (\<open>shift-report.service.ts\<close>): review, confirm no-show, reopen no-show; and
  the Worker's provisional no-show (\<open>rab-worker/src/queues/rab-shifts/shift-monitor.job.ts\<close>).
\<close>

section \<open>Printing instants\<close>

text \<open>\<open>toISOString()\<close> for years 0 to 9999, and \<open>String(n)\<close> of an integer.\<close>

definition toISOString :: "int \<Rightarrow> string" where
  "toISOString t =
     (let ms = t mod 86400000 in
      iso_date (civil_of_days (t div 86400000)) @ ''T'' @ pad_left 2 (show_nat (nat (ms div 3600000))) @ '':''
      @ pad_left 2 (show_nat (nat (ms div 60000 mod 60))) @ '':'' @ pad_left 2 (show_nat (nat (ms div 1000 mod 60))) @ ''.''
      @ pad_left 3 (show_nat (nat (ms mod 1000))) @ ''Z'')"

definition show_int :: "int \<Rightarrow> string" where
  "show_int n = (if n < 0 then ''-'' @ show_nat (nat (- n)) else show_nat (nat n))"

section \<open>Shared by both write paths\<close>

text \<open>A normal manager acts on the attendance of staff they created, a venue manager on their venues'.\<close>

definition assertCanManageAttendance :: "att_env \<Rightarrow> auth_ctx \<Rightarrow> attendance_row \<Rightarrow> db \<Rightarrow> unit res" where
  "assertCanManageAttendance env ctx t d =
     (case resolveTx env ctx d of
        VenueScope vs \<Rightarrow>
          bindE (from_option ROW_NOT_FOUND (find_shift (at_shift t) d)) (\<lambda>s.
          require (sh_venue s \<in> set vs) (NotFound ''Attendance not found.''))
      | OwnerScope _ _ \<Rightarrow>
          bindE (from_option ROW_NOT_FOUND (find_staff (at_staff t) d)) (\<lambda>sp.
          require (sp_created_by sp = Some (cx_user ctx)) (NotFound ''Attendance not found.'')))"

definition resolveCorrectionStatus ::
  "attendance_row \<Rightarrow> assignment_row \<Rightarrow> shift_row \<Rightarrow> int \<Rightarrow> int option \<Rightarrow> (attendance_status \<times> bool) res" where
  "resolveCorrectionStatus t a s now nextClockOutAt =
     (if at_status t = CLOCKED_OUT \<or> at_status t = AT_APPROVED
      then bindE (assertAttendance (at_status t) UNDER_REVIEW) (\<lambda>_. Inr (UNDER_REVIEW, False))
      else if at_status t = UNDER_REVIEW \<or> at_status t = DISPUTED then Inr (at_status t, False)
      else if at_status t = MISSING_CLOCK_OUT \<or> at_status t = CLOCKED_IN \<or> at_status t = ON_BREAK
      then
        bindE (effectiveAssignmentTime (sa_period a) (shift_window s)) (\<lambda>w.
        let flagAt = endsAt w + MISSING_CLOCK_OUT_GRACE_MINUTES * 60000 in
        bindE (require (\<not> (at_status t \<noteq> MISSING_CLOCK_OUT \<and> now < flagAt))
                 (Conflict ''This staff member is still on shift. A missing clock-out can be recovered once the shift has ended.'')) (\<lambda>_.
        bindE (require (nextClockOutAt \<noteq> None) (Conflict ''Add the missing clock-out time first.'')) (\<lambda>_.
        bindE (assertAttendance (at_status t) CLOCKED_OUT) (\<lambda>_.
        bindE (assertAttendance CLOCKED_OUT UNDER_REVIEW) (\<lambda>_.
        Inr (UNDER_REVIEW, True))))))
      else Inl (Conflict ''This attendance cannot be corrected in its current state.''))"

text \<open>The times a manager leaves the row with, and one change per field: field, old value, new value.\<close>

record next_times =
  nx_in :: int
  nx_out :: "int option"
  nx_break :: "int option"

type_synonym change = "string \<times> string \<times> string"

definition correction_rows :: "string \<Rightarrow> string \<Rightarrow> string \<Rightarrow> change list \<Rightarrow> correction_row list" where
  "correction_rows tid reason by changes = map (\<lambda>(field, old, new).
     \<lparr>ac_attendance = tid, ac_field = field, ac_old = old, ac_new = new, ac_reason = reason, ac_by = by\<rparr>) changes"

definition recomputed :: "attendance_row \<Rightarrow> assignment_row \<Rightarrow> shift_row \<Rightarrow> next_times \<Rightarrow> (int option \<times> Pence option) res" where
  "recomputed t a s next =
     (case nx_out next of
        None \<Rightarrow> Inr (at_worked_minutes t, at_earned_pence t)
      | Some out \<Rightarrow>
          bindE (computeWorkedMinutes \<lparr>wm_clockInAt = nx_in next, wm_clockOutAt = out, wm_breaks = None,
                   wm_scheduledBreakMinutes = Some (case nx_break next of Some b \<Rightarrow> b
                     | None \<Rightarrow> effectiveAssignmentBreakMinutes (sa_break_minutes a) (sh_break_minutes s)),
                   wm_breaksPaidByDefault = None\<rparr>) (\<lambda>w.
          bindE (pay_of a (workedMinutes w)) (\<lambda>earned. Inr (Some (workedMinutes w), Some earned))))"

text \<open>In \<open>manager.update\<close> an \<open>undefined\<close> field is left as it is.\<close>

definition keep :: "'a option \<Rightarrow> 'a option \<Rightarrow> 'a option" where
  "keep new old = (case new of None \<Rightarrow> old | Some x \<Rightarrow> Some x)"

definition corrected_row ::
  "next_times \<Rightarrow> attendance_status \<Rightarrow> int option \<Rightarrow> Pence option \<Rightarrow> bool \<Rightarrow> attendance_row \<Rightarrow> attendance_row" where
  "corrected_row next st worked earned recovered t = t\<lparr>at_clock_in_at := nx_in next,
     at_clock_out_at := keep (nx_out next) (at_clock_out_at t), at_break_minutes := keep (nx_break next) (at_break_minutes t),
     at_status := st, at_worked_minutes := keep worked (at_worked_minutes t), at_earned_pence := keep earned (at_earned_pence t),
     at_clock_out_method := (if recovered then Some ''manager_correction'' else at_clock_out_method t)\<rparr>"

definition clear_review :: "string \<Rightarrow> db \<Rightarrow> db res" where
  "clear_review aid d = update_assignment aid (\<lambda>x. if sa_reviewed_at x \<noteq> None
     then x\<lparr>sa_reviewed_at := None, sa_reviewed_by := None\<rparr> else x) d"

definition persistManagerTimes ::
  "auth_ctx \<Rightarrow> attendance_row \<Rightarrow> assignment_row \<Rightarrow> shift_row \<Rightarrow> next_times \<Rightarrow> attendance_status \<times> bool \<Rightarrow> change list \<Rightarrow> string
    \<Rightarrow> db \<Rightarrow> db res" where
  "persistManagerTimes ctx t a s next outcome changes reason d =
     bindE (recomputed t a s next) (\<lambda>(worked, earned).
     bindE (update_attendance (\<lambda>x. at_id x = at_id t) (corrected_row next (fst outcome) worked earned (snd outcome)) d) (\<lambda>d1.
     bindE (clear_review (at_assignment t) d1) (\<lambda>d2.
     Inr (emit [Audit ATTENDANCE_CORRECTED (at_id t) (audit_actor ctx), Realtime ''attendance.changed'' (at_id t)]
            (d2\<lparr>corrections := corrections d2 @ correction_rows (at_id t) reason (cx_user ctx) changes\<rparr>)))))"

section \<open>One-field correction\<close>

datatype correctable = ClockInAt | ClockOutAt | BreakMinutes

fun correctable_str :: "correctable \<Rightarrow> string" where
  "correctable_str ClockInAt = ''clockInAt''"
| "correctable_str ClockOutAt = ''clockOutAt''"
| "correctable_str BreakMinutes = ''breakMinutes''"

text \<open>\<open>cr_date\<close> and \<open>cr_number\<close> are \<open>new Date(newValue)\<close> and \<open>Number(newValue)\<close>.\<close>

record correct_dto =
  cr_field :: correctable
  cr_newValue :: string
  cr_date :: js_date
  cr_number :: jsnum
  cr_reason :: string

definition parse_instant :: "string \<Rightarrow> string \<Rightarrow> int \<Rightarrow> js_date \<Rightarrow> int res" where
  "parse_instant field what now v =
     (case v of
        InvalidDate \<Rightarrow> Inl (BadRequest (''newValue must be a valid ISO-8601 timestamp for '' @ field @ ''.''))
      | Time x \<Rightarrow> if now < x then Inl (BadRequest (''A '' @ what @ '' time cannot be in the future.'')) else Inr x)"

definition parse_minutes :: "jsnum \<Rightarrow> int res" where
  "parse_minutes v =
     (case v of Fin x \<Rightarrow> if is_integer x \<and> 0 \<le> x then Inr \<lfloor>x\<rfloor>
                          else Inl (BadRequest ''newValue must be a non-negative integer for breakMinutes.'')
      | _ \<Rightarrow> Inl (BadRequest ''newValue must be a non-negative integer for breakMinutes.''))"

definition correction_of :: "correct_dto \<Rightarrow> int \<Rightarrow> attendance_row \<Rightarrow> (string \<times> next_times) res" where
  "correction_of dto now t =
     (let kept = \<lparr>nx_in = at_clock_in_at t, nx_out = at_clock_out_at t, nx_break = at_break_minutes t\<rparr> in
      case cr_field dto of
        ClockInAt \<Rightarrow> bindE (parse_instant ''clockInAt'' ''clock-in'' now (cr_date dto)) (\<lambda>x.
          Inr (toISOString (at_clock_in_at t), kept\<lparr>nx_in := x\<rparr>))
      | ClockOutAt \<Rightarrow> bindE (parse_instant ''clockOutAt'' ''clock-out'' now (cr_date dto)) (\<lambda>x.
          Inr (case at_clock_out_at t of None \<Rightarrow> [] | Some o' \<Rightarrow> toISOString o', kept\<lparr>nx_out := Some x\<rparr>))
      | BreakMinutes \<Rightarrow> bindE (parse_minutes (cr_number dto)) (\<lambda>x.
          Inr (case at_break_minutes t of None \<Rightarrow> [] | Some b \<Rightarrow> show_int b, kept\<lparr>nx_break := Some x\<rparr>)))"

definition unchanged :: "correct_dto \<Rightarrow> attendance_row \<Rightarrow> next_times \<Rightarrow> bool" where
  "unchanged dto t next =
     (case cr_field dto of
        ClockInAt \<Rightarrow> nx_in next = at_clock_in_at t
      | ClockOutAt \<Rightarrow> at_clock_out_at t \<noteq> None \<and> nx_out next = at_clock_out_at t
      | BreakMinutes \<Rightarrow> at_break_minutes t \<noteq> None \<and> nx_break next = at_break_minutes t)"

definition correct :: "att_env \<Rightarrow> auth_ctx \<Rightarrow> clock \<Rightarrow> string \<Rightarrow> correct_dto \<Rightarrow> db \<Rightarrow> db \<Rightarrow> db res" where
  "correct env ctx clk tid dto d0 d =
     bindE (require (ae_may_edit env) (Forbidden ''Permission required.'')) (\<lambda>_.
     bindE (from_option (NotFound ''Attendance not found.'') (find_attendance tid d0)) (\<lambda>t0.
     bindE (assertCanManageAttendance env ctx t0 d0) (\<lambda>_.
     bindE (from_option ROW_NOT_FOUND (find_shift (at_shift t0) d0)) (\<lambda>s.
     bindE (from_option ROW_NOT_FOUND (find_assignment (at_assignment t0) d0)) (\<lambda>a.
     bindE (lockOpenReport (at_shift t0) d) (\<lambda>_.
     bindE (from_option ROW_NOT_FOUND (find_attendance tid d)) (\<lambda>t.
     bindE (correction_of dto (tx_now clk) t) (\<lambda>(oldValue, next).
     bindE (require (\<not> (case nx_out next of None \<Rightarrow> False | Some out \<Rightarrow> out < nx_in next))
              (BadRequest ''clockOutAt cannot be before clockInAt.'')) (\<lambda>_.
     if unchanged dto t next then Inr d
     else
       bindE (resolveCorrectionStatus t a s (tx_now clk) (nx_out next)) (\<lambda>outcome.
       persistManagerTimes ctx t a s next outcome [(correctable_str (cr_field dto), oldValue, cr_newValue dto)] (cr_reason dto) d))))))))))"

section \<open>Record attendance\<close>

definition INVALID_TIMES :: "string \<Rightarrow> error" where "INVALID_TIMES m = CodedBadRequest ''INVALID_ATTENDANCE_TIMES'' m"

definition assertManagerEnteredTimes :: "att_env \<Rightarrow> ScheduledWindow \<Rightarrow> int \<Rightarrow> int \<Rightarrow> int option \<Rightarrow> int \<Rightarrow> unit res" where
  "assertManagerEnteredTimes env w now clockInAt clockOutAt effectiveBreak =
     (let earliest = startsAt w - ae_clock_in_early env * 60000; latest = endsAt w + ae_qr_grace env * 60000 in
      bindE (require (clockInAt \<le> now) (INVALID_TIMES ''The clock-in time cannot be in the future.'')) (\<lambda>_.
      bindE (require (case clockOutAt of None \<Rightarrow> True | Some out \<Rightarrow> out \<le> now)
               (INVALID_TIMES ''The clock-out time cannot be in the future.'')) (\<lambda>_.
      bindE (require (earliest \<le> clockInAt) (INVALID_TIMES ''The clock-in time is too long before the scheduled start.'')) (\<lambda>_.
      bindE (require (clockInAt \<le> latest) (INVALID_TIMES ''The clock-in time is too long after the scheduled end.'')) (\<lambda>_.
      case clockOutAt of None \<Rightarrow> Inr ()
      | Some out \<Rightarrow>
          bindE (require (out \<le> latest) (INVALID_TIMES ''The clock-out time is too long after the scheduled end.'')) (\<lambda>_.
          bindE (require (clockInAt < out) (INVALID_TIMES ''The clock-out time must be after the clock-in time.'')) (\<lambda>_.
          require (effectiveBreak < js_round (of_int (out - clockInAt) / 60000))
            (INVALID_TIMES ''The break must be shorter than the time between clock-in and clock-out.''))))))))"

datatype record_reason = ForgotClockIn | ForgotClockOut | AppIssue | VenueIssue | OtherReason

fun ATTENDANCE_RECORD_REASONS :: "record_reason \<Rightarrow> string" where
  "ATTENDANCE_RECORD_REASONS ForgotClockIn = ''Staff forgot to clock in''"
| "ATTENDANCE_RECORD_REASONS ForgotClockOut = ''Staff forgot to clock out''"
| "ATTENDANCE_RECORD_REASONS AppIssue = ''Mobile application issue''"
| "ATTENDANCE_RECORD_REASONS VenueIssue = ''Venue operational issue''"
| "ATTENDANCE_RECORD_REASONS OtherReason = ''Other''"

record record_dto =
  rd_in :: "int option"
  rd_out :: "int option"
  rd_break :: "int option"
  rd_reason :: record_reason
  rd_note :: "string option"
  rd_expected :: "nat option"

definition record_reason_text :: "record_dto \<Rightarrow> string res" where
  "record_reason_text dto =
     (let note = js_trim (case rd_note dto of None \<Rightarrow> [] | Some n \<Rightarrow> n);
          label = ATTENDANCE_RECORD_REASONS (rd_reason dto)
      in if rd_reason dto = OtherReason \<and> length note < 10 then Inl (BadRequest ''Explain the reason in at least 10 characters.'')
         else Inr (if rd_reason dto = OtherReason then ''Other: '' @ note else if note \<noteq> [] then label @ '': '' @ note else label))"

text \<open>The times an existing row would get, and what of them differs from the row.\<close>

definition record_next :: "record_dto \<Rightarrow> attendance_row \<Rightarrow> int \<Rightarrow> next_times" where
  "record_next dto t scheduledBreak = \<lparr>nx_in = (case rd_in dto of Some x \<Rightarrow> x | None \<Rightarrow> at_clock_in_at t),
     nx_out = (case rd_out dto of Some x \<Rightarrow> Some x | None \<Rightarrow> at_clock_out_at t),
     nx_break = (if rd_break dto = None \<or> rd_break dto = Some (case at_break_minutes t of Some b \<Rightarrow> b | None \<Rightarrow> scheduledBreak)
                 then at_break_minutes t else rd_break dto)\<rparr>"

definition record_changes :: "attendance_row \<Rightarrow> next_times \<Rightarrow> change list" where
  "record_changes t next =
     (if nx_in next \<noteq> at_clock_in_at t then [(''clockInAt'', toISOString (at_clock_in_at t), toISOString (nx_in next))] else [])
   @ (case nx_out next of None \<Rightarrow> []
      | Some out \<Rightarrow> if at_clock_out_at t \<noteq> Some out
          then [(''clockOutAt'', case at_clock_out_at t of None \<Rightarrow> [] | Some o' \<Rightarrow> toISOString o', toISOString out)] else [])
   @ (if nx_break next \<noteq> at_break_minutes t
      then [(''breakMinutes'', case at_break_minutes t of None \<Rightarrow> [] | Some b \<Rightarrow> show_int b,
             case nx_break next of None \<Rightarrow> ''null'' | Some b \<Rightarrow> show_int b)] else [])"

definition recordOnExisting ::
  "att_env \<Rightarrow> auth_ctx \<Rightarrow> string \<Rightarrow> assignment_row \<Rightarrow> shift_row \<Rightarrow> record_dto \<Rightarrow> int \<Rightarrow> ScheduledWindow \<Rightarrow> int \<Rightarrow> string
    \<Rightarrow> db \<Rightarrow> db res" where
  "recordOnExisting env ctx tid seat s dto now w scheduledBreak reason d =
     bindE (from_option ROW_NOT_FOUND (find_attendance tid d)) (\<lambda>t.
     bindE (from_option ROW_NOT_FOUND (find_assignment (sa_id seat) d)) (\<lambda>a.
     let next = record_next dto t scheduledBreak; changes = record_changes t next
     in if changes = [] then Inr d
        else
          bindE (require (rd_expected dto = Some (at_version t))
                   (Conflict ''This attendance was changed by someone else. Refresh to see the latest times.'')) (\<lambda>_.
          bindE (assertManagerEnteredTimes env w now (nx_in next) (nx_out next)
                   (case nx_break next of Some b \<Rightarrow> b | None \<Rightarrow> scheduledBreak)) (\<lambda>_.
          bindE (resolveCorrectionStatus t a s now (nx_out next)) (\<lambda>outcome.
          persistManagerTimes ctx t a s next outcome changes reason d)))))"

definition manager_row_of :: "auth_ctx \<Rightarrow> shift_row \<Rightarrow> assignment_row \<Rightarrow> string \<Rightarrow> int \<Rightarrow> int \<Rightarrow> int option \<Rightarrow> int \<Rightarrow> Pence \<Rightarrow> attendance_row" where
  "manager_row_of ctx s a i in_at out_at brk worked earned = (new_attendance ctx s a i in_at)\<lparr>at_clock_out_at := Some out_at,
     at_break_minutes := brk, at_status := UNDER_REVIEW, at_worked_minutes := Some worked, at_earned_pence := Some earned,
     at_clock_in_method := Some ''manager_correction'', at_clock_out_method := Some ''manager_correction''\<rparr>"

text \<open>The seat's \<open>UPDATE ... WHERE id = $1 AND status = $2\<close> and the handler that turns the constraint errors into conflicts.\<close>

definition seat_to_completed :: "assignment_row \<Rightarrow> db \<Rightarrow> db res" where
  "seat_to_completed a d =
     bindE (require (\<exists>x \<in> set (assignments d). sa_id x = sa_id a \<and> sa_status x = sa_status a)
              (Conflict ''This booking changed while saving. Refresh and try again.'')) (\<lambda>_.
     update_assignment (sa_id a) (\<lambda>x. if sa_status x = sa_status a then x\<lparr>sa_status := A_COMPLETED\<rparr> else x) d)"

definition catch_record :: "db res \<Rightarrow> db res" where
  "catch_record m = (case m of Inr x \<Rightarrow> Inr x
     | Inl e \<Rightarrow> if e = EXCLUSION_VIOLATION
         then Inl (Conflict ''This staff member has another booking that overlaps this shift, so attendance cannot be recorded here.'')
         else if e = UNIQUE_VIOLATION then Inl (Conflict ''Attendance was just recorded for this staff member. Refresh to see it.'')
         else Inl e)"

definition recordNew_changes :: "int \<Rightarrow> int \<Rightarrow> int option \<Rightarrow> change list" where
  "recordNew_changes reqIn reqOut brk = [(''clockInAt'', [], toISOString reqIn), (''clockOutAt'', [], toISOString reqOut)]
     @ (case brk of None \<Rightarrow> [] | Some b \<Rightarrow> [(''breakMinutes'', [], show_int b)])"

definition recordNew ::
  "att_env \<Rightarrow> auth_ctx \<Rightarrow> string \<Rightarrow> shift_row \<Rightarrow> assignment_row \<Rightarrow> record_dto \<Rightarrow> int \<Rightarrow> ScheduledWindow \<Rightarrow> int \<Rightarrow> string
    \<Rightarrow> db \<Rightarrow> db res" where
  "recordNew env ctx i s a dto now w scheduledBreak reason d =
     bindE (require (sa_status a \<in> {A_NO_SHOW, A_CONFIRMED})
              (Conflict ''Attendance cannot be recorded for this staff member in their current booking state.'')) (\<lambda>_.
     bindE (require (\<not> confirmed_no_show a) (Conflict ''This no-show has been confirmed. Reopen it before recording attendance.'')) (\<lambda>_.
     case (rd_in dto, rd_out dto) of
       (Some reqIn, Some reqOut) \<Rightarrow>
         (let brk = (case rd_break dto of Some b \<Rightarrow> b | None \<Rightarrow> scheduledBreak) in
          bindE (assertManagerEnteredTimes env w now reqIn (Some reqOut) brk) (\<lambda>_.
          bindE (computeWorkedMinutes \<lparr>wm_clockInAt = reqIn, wm_clockOutAt = reqOut, wm_breaks = None,
                   wm_scheduledBreakMinutes = Some brk, wm_breaksPaidByDefault = None\<rparr>) (\<lambda>wk.
          bindE (pay_of a (workedMinutes wk)) (\<lambda>earned.
          bindE (assertSeat (sa_status a) A_COMPLETED) (\<lambda>_.
          bindE (assertAttendance CLOCKED_OUT UNDER_REVIEW) (\<lambda>_.
          bindE (catch_record (bindE (insert_attendance
                   (manager_row_of ctx s a i reqIn reqOut (rd_break dto) (workedMinutes wk) earned) d) (seat_to_completed a))) (\<lambda>d1.
          bindE (completeShiftIfSettled (cx_org ctx) (sh_id s) d1) (\<lambda>(d2, _).
          Inr (emit [Audit ATTENDANCE_MANAGER_RECORDED i (audit_actor ctx), Realtime ''attendance.changed'' i]
                (d2\<lparr>corrections := corrections d2 @ correction_rows i reason (cx_user ctx)
                   (recordNew_changes reqIn reqOut (rd_break dto))\<rparr>))))))))))
     | _ \<Rightarrow> Inl (INVALID_TIMES ''Enter both the clock-in and clock-out times.'')))"

definition same_record :: "record_dto \<Rightarrow> attendance_row \<Rightarrow> int \<Rightarrow> bool" where
  "same_record dto raced scheduledBreak \<longleftrightarrow>
     rd_in dto = Some (at_clock_in_at raced) \<and> rd_out dto \<noteq> None \<and> at_clock_out_at raced = rd_out dto
   \<and> (rd_break dto = None \<or> rd_break dto = Some (case at_break_minutes raced of Some b \<Rightarrow> b | None \<Rightarrow> scheduledBreak))"

definition attendance_of :: "string \<Rightarrow> db \<Rightarrow> attendance_row option" where
  "attendance_of aid d = find (\<lambda>t. at_assignment t = aid) (attendances d)"

definition recordAttendance ::
  "att_env \<Rightarrow> auth_ctx \<Rightarrow> clock \<Rightarrow> string \<Rightarrow> string \<Rightarrow> string \<Rightarrow> record_dto \<Rightarrow> db \<Rightarrow> db \<Rightarrow> db res" where
  "recordAttendance env ctx clk i sid staff dto d0 d =
     bindE (record_reason_text dto) (\<lambda>reason.
     bindE (openOnBehalf env ctx sid staff d0 d) (\<lambda>(s, seat).
     bindE (require (sh_status s \<noteq> CANCELLED) (Conflict ''This shift was cancelled, so attendance cannot be recorded.'')) (\<lambda>_.
     bindE (effectiveAssignmentTime (sa_period seat) (shift_window s)) (\<lambda>w.
     let scheduledBreak = effectiveAssignmentBreakMinutes (sa_break_minutes seat) (sh_break_minutes s) in
     case attendance_of (sa_id seat) d0 of
       Some existing \<Rightarrow> recordOnExisting env ctx (at_id existing) seat s dto (tx_now clk) w scheduledBreak reason d
     | None \<Rightarrow>
         bindE (from_option ROW_NOT_FOUND (find_assignment (sa_id seat) d)) (\<lambda>a.
         case attendance_of (sa_id a) d of
           Some raced \<Rightarrow> if same_record dto raced scheduledBreak then Inr d
             else Inl (Conflict ''Attendance was just recorded for this staff member. Refresh to see it.'')
         | None \<Rightarrow> recordNew env ctx i s a dto (tx_now clk) w scheduledBreak reason d)))))"

section \<open>The seat-level decisions of the report\<close>

text \<open>
  \<open>lockSeat\<close> locks the seat row in one statement that joins the attendance: under READ COMMITTED the statement waits for
  the seat lock, but its snapshot, and so the joined attendance, is the one it started with. \<open>d0\<close> is that snapshot, \<open>d\<close>
  the state after the wait, from which only the locked seat is read.
\<close>

definition lockSeat ::
  "att_env \<Rightarrow> auth_ctx \<Rightarrow> string \<Rightarrow> string \<Rightarrow> string \<Rightarrow> db \<Rightarrow> db \<Rightarrow> (shift_row \<times> assignment_row \<times> attendance_row option) res" where
  "lockSeat env ctx sid staff finalisedMessage d0 d =
     bindE (require (ae_may_edit env) (Forbidden ''Permission required.'')) (\<lambda>_.
     bindE (from_option (NotFound ''Shift not found.'') (find_shift sid d0)) (\<lambda>s.
     bindE (require (sh_org s = cx_org ctx) (NotFound ''Shift not found.'')) (\<lambda>_.
     bindE (assertShiftOwned env ctx s d0) (\<lambda>_.
     bindE (require (\<not> (\<exists>r \<in> set (reports d). rp_shift r = sid \<and> rp_status r = ''finalised'')) (Conflict finalisedMessage)) (\<lambda>_.
     bindE (from_option (NotFound ''Staff member not found on this shift.'')
              (find (\<lambda>a. sa_shift a = sid \<and> sa_staff a = staff \<and> sa_status a \<in> set SEAT_REPORT_STATUSES) (assignments d))) (\<lambda>a.
     Inr (s, a, attendance_of (sa_id a) d0)))))))"

definition set_review :: "string \<Rightarrow> (int \<times> string) option \<Rightarrow> db \<Rightarrow> db res" where
  "set_review aid rv d = update_assignment aid (\<lambda>x. x\<lparr>sa_reviewed_at := map_option fst rv, sa_reviewed_by := map_option snd rv\<rparr>) d"

definition reviewAttendance :: "att_env \<Rightarrow> auth_ctx \<Rightarrow> clock \<Rightarrow> string \<Rightarrow> string \<Rightarrow> db \<Rightarrow> db \<Rightarrow> db res" where
  "reviewAttendance env ctx clk sid staff d0 d =
     bindE (lockSeat env ctx sid staff ''This shift report has been finalised; attendance can no longer be reviewed.'' d0 d) (\<lambda>(s, a, att).
     bindE (require (sh_starts_at s \<le> tx_now clk) (Conflict ''Attendance can be reviewed once the shift has started.'')) (\<lambda>_.
     if sa_reviewed_at a \<noteq> None then Inr d
     else
       bindE (require (\<not> (case att of None \<Rightarrow> False | Some t \<Rightarrow> active t))
                (Conflict ''This staff member is still clocked in. Their attendance can be reviewed after they clock out.'')) (\<lambda>_.
       bindE (require (\<not> (sa_status a \<noteq> A_NO_SHOW \<and> (case att of None \<Rightarrow> True | Some t \<Rightarrow> at_clock_out_at t = None)))
                (Conflict (case att of None \<Rightarrow> ''No attendance has been recorded yet. Record the attendance, or confirm the no-show.''
                   | Some _ \<Rightarrow> ''The clock-out time is missing. Add it as a correction before marking attendance as reviewed.''))) (\<lambda>_.
       bindE (set_review (sa_id a) (Some (tx_now clk, cx_user ctx)) d) (\<lambda>d1.
       Inr (emit [Audit ATTENDANCE_REVIEWED (sa_id a) (audit_actor ctx)] d1))))))"

definition confirmNoShow :: "att_env \<Rightarrow> auth_ctx \<Rightarrow> clock \<Rightarrow> string \<Rightarrow> string \<Rightarrow> db \<Rightarrow> db \<Rightarrow> db res" where
  "confirmNoShow env ctx clk sid staff d0 d =
     bindE (lockSeat env ctx sid staff ''This shift report has been finalised; attendance can no longer be changed.'' d0 d) (\<lambda>(s, a, att).
     bindE (require (att = None)
       (Conflict ''Attendance has been recorded for this staff member, so they cannot be confirmed as a no-show. Review the recorded attendance instead.'')) (\<lambda>_.
     if confirmed_no_show a then Inr d
     else
       bindE (if sa_status a = A_CONFIRMED
              then
                bindE (require (startsAt (assignmentTimeSql (sa_period a) (shift_window s)) + NO_SHOW_GRACE_MINUTES * 60000 \<le> tx_now clk)
                         (Conflict ''A no-show can be confirmed 30 minutes after the scheduled start.'')) (\<lambda>_.
                bindE (assertSeat A_CONFIRMED A_NO_SHOW) (\<lambda>_.
                update_assignment (sa_id a) (\<lambda>x. if sa_status x = A_CONFIRMED then x\<lparr>sa_status := A_NO_SHOW\<rparr> else x) d))
              else bindE (require (sa_status a = A_NO_SHOW)
                     (Conflict ''This staff member cannot be confirmed as a no-show in their current booking state.'')) (\<lambda>_. Inr d)) (\<lambda>d1.
       bindE (set_review (sa_id a) (Some (tx_now clk, cx_user ctx)) d1) (\<lambda>d2.
       Inr (emit [Audit ATTENDANCE_NO_SHOW_CONFIRMED (sa_id a) (audit_actor ctx)] d2)))))"

definition reopenNoShow :: "att_env \<Rightarrow> auth_ctx \<Rightarrow> string \<Rightarrow> string \<Rightarrow> string \<Rightarrow> db \<Rightarrow> db \<Rightarrow> db res" where
  "reopenNoShow env ctx sid staff reason d0 d =
     bindE (require (10 \<le> length (js_trim reason))
              (BadRequest ''Explain why the no-show is being reopened in at least 10 characters.'')) (\<lambda>_.
     bindE (lockSeat env ctx sid staff ''This shift report has been finalised; the no-show can no longer be reopened.'' d0 d) (\<lambda>(s, a, att).
     bindE (require (confirmed_no_show a) (Conflict ''Only a confirmed no-show can be reopened.'')) (\<lambda>_.
     bindE (require (1 \<le> va_vacancy (loadShiftVacancy sid d))
              (CodedConflict ''SEAT_TAKEN_BY_REPLACEMENT''
                 ''A replacement already holds this staff member's seat, so the no-show can no longer be reopened.'')) (\<lambda>_.
     bindE (set_review (sa_id a) None d) (\<lambda>d1.
     Inr (emit [Audit ATTENDANCE_NO_SHOW_REOPENED (sa_id a) (audit_actor ctx)] d1))))))"

section \<open>The Worker's provisional no-show\<close>

definition loadReminderCandidate :: "string \<Rightarrow> db \<Rightarrow> (assignment_row \<times> shift_row \<times> user_row) option" where
  "loadReminderCandidate aid d =
     (case find_assignment aid d of None \<Rightarrow> None | Some a \<Rightarrow>
        if sa_status a \<noteq> A_CONFIRMED then None
        else (case find_shift (sa_shift a) d of None \<Rightarrow> None | Some s \<Rightarrow>
          if sh_status s \<in> {CANCELLED, COMPLETED} then None
          else (case find_staff (sa_staff a) d of None \<Rightarrow> None | Some sp \<Rightarrow>
            (case find_user (sp_user sp) d of None \<Rightarrow> None | Some u \<Rightarrow>
               if us_status u \<noteq> U_ACTIVE then None else Some (a, s, u)))))"

text \<open>A claimed event is its key in \<open>ev\<close>; a key is claimed once, whatever becomes of the event.\<close>

definition no_show_key :: "string \<Rightarrow> string" where "no_show_key aid = ''no-show:'' @ aid"

definition flip_no_show :: "string \<Rightarrow> assignment_row \<Rightarrow> shift_row \<Rightarrow> user_row \<Rightarrow> db \<Rightarrow> (db \<times> bool) res" where
  "flip_no_show org a s u d =
     bindE (assertSeat (sa_status a) A_NO_SHOW) (\<lambda>_.
     if \<exists>x \<in> set (assignments d). sa_id x = sa_id a \<and> sa_status x = A_CONFIRMED
     then bindE (update_assignment (sa_id a) (\<lambda>x. if sa_status x = A_CONFIRMED then x\<lparr>sa_status := A_NO_SHOW\<rparr> else x) d) (\<lambda>d1.
       Inr (emit ((case resolveResponsibleManager org a s d1 of None \<Rightarrow> []
                   | Some m \<Rightarrow> [Notify m ''shift_assignment_no_show'' (sa_id a)])
                  @ [Audit SHIFT_ASSIGNMENT_NO_SHOW (us_id u) None]) d1, True))
     else Inr (d, False))"

definition flagNoShowLoaded ::
  "clock \<Rightarrow> string \<Rightarrow> assignment_row \<Rightarrow> int \<Rightarrow> string list \<Rightarrow> db \<Rightarrow> db \<Rightarrow> (db \<times> string list \<times> bool) res" where
  "flagNoShowLoaded clk org first msUntilStart ev d0 d =
     (if - msUntilStart < NO_SHOW_GRACE_MINUTES * 60000 \<or> sa_checked_in_at first \<noteq> None \<or> has_attendance (sa_id first) d0
         \<or> no_show_key (sa_id first) \<in> set ev
      then Inr (d, ev, False)
      else
        (let ev' = no_show_key (sa_id first) # ev in
         case loadReminderCandidate (sa_id first) d of
           None \<Rightarrow> Inr (d, ev', False)
         | Some (a, s, u) \<Rightarrow>
             if sa_checked_in_at a \<noteq> None \<or> has_attendance (sa_id a) d then Inr (d, ev', False)
             else bindE (flip_no_show org a s u d) (\<lambda>(d', b). Inr (d', ev', b))))"

definition flagNoShowCandidate :: "clock \<Rightarrow> string \<Rightarrow> string \<Rightarrow> string list \<Rightarrow> db \<Rightarrow> db \<Rightarrow> (db \<times> string list \<times> bool) res" where
  "flagNoShowCandidate clk org aid ev d0 d =
     (case loadReminderCandidate aid d0 of
        None \<Rightarrow> Inr (d, ev, False)
      | Some (a, s, u) \<Rightarrow>
          bindE (effectiveAssignmentTime (sa_period a) (shift_window s)) (\<lambda>w.
          let msUntilStart = startsAt w - node_now clk in
          if 0 < msUntilStart then Inr (d, ev, False) else flagNoShowLoaded clk org a msUntilStart ev d0 d))"

end
