(* ===== verification/AttendanceSteps.thy ===== *)
theory AttendanceSteps
  imports OfferProgress AttendanceCorrections
begin

text \<open>
  What each attendance transaction does to the tables, and that it keeps \<open>db_ok\<close>. A lemma \<open><op>_shape\<close> gives the rows a
  committed run of the operation read and wrote; \<open>dbok_<op>\<close> is the preservation of the invariant.
\<close>

section \<open>Changes of one seat\<close>

text \<open>Shift updates that at most move the status of a shift that is neither cancelled nor a draft.\<close>

definition rolls :: "(shift_row \<Rightarrow> shift_row) \<Rightarrow> bool" where
  "rolls h \<longleftrightarrow> (\<forall>s. h s = s \<or> (sh_status s \<notin> {CANCELLED, DRAFT} \<and> (\<exists>st. st \<noteq> DRAFT \<and> h s = s\<lparr>sh_status := st\<rparr>)))"

lemma rollsD:
  assumes "rolls h"
  shows "sh_id (h s) = sh_id s" "sh_org (h s) = sh_org s" "sh_venue (h s) = sh_venue s"
    "sh_required_count (h s) = sh_required_count s" "sh_filled_count (h s) = sh_filled_count s"
    "sh_status s = CANCELLED \<Longrightarrow> sh_status (h s) = CANCELLED" "shift_checks s \<Longrightarrow> shift_checks (h s)"
    "sh_status (h s) = DRAFT \<Longrightarrow> sh_status s = DRAFT"
proof -
  have "h s = s \<or> (sh_status s \<notin> {CANCELLED, DRAFT} \<and> (\<exists>st. st \<noteq> DRAFT \<and> h s = s\<lparr>sh_status := st\<rparr>))" using assms by (simp add: rolls_def)
  then consider "h s = s" | st where "sh_status s \<notin> {CANCELLED, DRAFT}" "st \<noteq> DRAFT" "h s = s\<lparr>sh_status := st\<rparr>" by blast
  then show "sh_id (h s) = sh_id s" "sh_org (h s) = sh_org s" "sh_venue (h s) = sh_venue s"
    "sh_required_count (h s) = sh_required_count s" "sh_filled_count (h s) = sh_filled_count s"
    "sh_status s = CANCELLED \<Longrightarrow> sh_status (h s) = CANCELLED" "shift_checks s \<Longrightarrow> shift_checks (h s)"
    "sh_status (h s) = DRAFT \<Longrightarrow> sh_status s = DRAFT"
    by (cases; simp add: shift_checks_status)+
qed

lemma rolls_upd: "rolls h \<Longrightarrow> shift_upd h"
  unfolding shift_upd_def using rollsD(1,8) by blast

lemma rolls_id: "rolls (\<lambda>s. s)"
  by (simp add: rolls_def)

lemma rolls_completes: "completes h \<Longrightarrow> rolls h"
  unfolding completes_def rolls_def
proof
  fix s
  assume "\<forall>s. h s = s \<or> (sh_status s = IN_PROGRESS \<and> h s = s\<lparr>sh_status := COMPLETED\<rparr>)"
  then consider "h s = s" | "sh_status s = IN_PROGRESS" "h s = s\<lparr>sh_status := COMPLETED\<rparr>" by blast
  then show "h s = s \<or> (sh_status s \<notin> {CANCELLED, DRAFT} \<and> (\<exists>st. st \<noteq> DRAFT \<and> h s = s\<lparr>sh_status := st\<rparr>))" by cases auto
qed

lemma dbok_reseat:
  assumes db_ok: "db_ok d" and a: "a \<in> set (assignments d)" and t: "reseats d a g h d'" and o: "offers d' = offers d"
    and st: "\<And>x. coupled x (sa_status a) \<Longrightarrow> coupled x (sa_status (g a))" and nc: "sa_status a \<noteq> A_CANCELLED"
    and h: "rolls h" and nd: "no_double_booking (assignments d')" and att: "attended_db d'"
    and cap: "\<And>s. find_shift (sa_shift a) d = Some s \<Longrightarrow>
      occupied (sa_shift a) d + of_bool (occupiedSeatSql (g a)) - of_bool (occupiedSeatSql a) \<le> sh_required_count s"
  shows "db_ok d'"
proof -
  have k: "keyed_db d" "linked_db d" "coupled_db d" "seated_db d" "checked_db d" using db_ok by (simp_all add: db_ok_def)
  have m: "map sh_id (shifts d') = map sh_id (shifts d)" "map sa_shift (assignments d') = map sa_shift (assignments d)"
    "map sa_id (assignments d') = map sa_id (assignments d)"
    "map (\<lambda>x. (sa_id x, sa_staff x)) (assignments d') = map (\<lambda>x. (sa_id x, sa_staff x)) (assignments d)"
    using t by (simp_all add: reseats_def shift_upd_def map_update_where seat_updD)
  have "keyed_db d'" using k(1) m(1,3) by (simp add: keyed_db_def shift_table.keyed_def assignment_table.keyed_def o)
  moreover have "published (shifts d) \<subseteq> published (shifts d')" using t shift_upd_published by (simp add: reseats_def)
  with k(2) have "linked_db d'" unfolding linked_db_def set_map [symmetric] m o by blast
  moreover have "coupled_db d'"
    unfolding coupled_db_def
  proof (intro ballI impI)
    fix r a'
    assume r: "r \<in> set (offers d')" and a': "a' \<in> set (assignments d')" and e: "sa_id a' = jo_assignment r"
    from a' t obtain b where b: "b \<in> set (assignments d)" "a' = (if sa_id b = sa_id a then g b else b)"
      by (auto simp: reseats_def set_update_where)
    have i: "sa_id a' = sa_id b" "sa_shift a' = sa_shift b" using b(2) t by (simp_all add: reseats_def seat_updD)
    have p: "pair_ok d r b" using k(3) r b(1) e i by (simp add: coupled_db_def o)
    have cc: "shift_cancelled sid d \<Longrightarrow> shift_cancelled sid d'" for sid
      by (rule reseats_cancelled [OF t]) (rule rollsD(6) [OF h])
    show "pair_ok d' r a'"
    proof (cases "sa_id b = sa_id a")
      case True
      then have "b = a" using assignment_table.keyed_unique [of "assignments d" b a] k(1) b(1) a by (simp add: keyed_db_def)
      then show ?thesis using p nc st b(2) by (simp add: pair_ok_def)
    next
      case False
      then show ?thesis using p b(2) cc by (auto simp: pair_ok_def)
    qed
  qed
  moreover have "seated_db d'"
    by (rule reseats_seated [OF k(1,4) a t]) (use cap rollsD(4) [OF h] in simp)
  moreover have "list_all shift_checks (shifts d')"
    using k(5) t list_all_update_where [of shift_checks "shifts d" h] rollsD(7) [OF h] by (simp add: checked_db_def reseats_def)
  ultimately show ?thesis using nd att by (simp add: db_ok_def checked_db_def)
qed

lemma reseats_older:
  assumes "reseats d a g h d'" and "offers d' = offers d" and "rolls h" and "att_ident ` set (attendances d) \<subseteq> att_ident ` set (attendances d')"
  shows "older d d'"
proof -
  have "map seat_ident (assignments d') = map seat_ident (assignments d)"
    using assms(1) by (simp add: reseats_def seat_upd_maps)
  then have "seat_ident ` set (assignments d') = seat_ident ` set (assignments d)" unfolding set_map [symmetric] by simp
  moreover have "shift_cancelled sid d \<Longrightarrow> shift_cancelled sid d'" for sid
    by (rule reseats_cancelled [OF assms(1)]) (rule rollsD(6) [OF assms(3)])
  ultimately show ?thesis using assms(2,4) by (auto simp: older_def)
qed

text \<open>\<open>attended_db\<close> after a change of one seat: the rows of other seats are old, those of the seat fit its new status.\<close>

lemma attended_change:
  assumes db_ok: "db_ok d" and t: "reseats d a g h d'" and a: "a \<in> set (assignments d)"
    and tbl: "attendance_table.keyed (attendances d')" "one_per_seat (attendances d')" "one_active_per_staff (attendances d')"
      "list_all attendance_checks (attendances d')"
    and rows: "\<And>x. x \<in> set (attendances d') \<Longrightarrow> (x \<in> set (attendances d) \<and> at_assignment x \<noteq> sa_id a) \<or> attended_seat x (g a)"
  shows "attended_db d'"
proof -
  have "\<exists>b \<in> set (assignments d'). attended_seat x b" if x: "x \<in> set (attendances d')" for x
    using rows [OF x]
  proof
    assume "x \<in> set (attendances d) \<and> at_assignment x \<noteq> sa_id a"
    then obtain b where b: "b \<in> set (assignments d)" "attended_seat x b" "sa_id b \<noteq> sa_id a"
      using db_ok by (auto simp: db_ok_def attended_db_def attended_seat_def)
    have "assignments d' = update_where (\<lambda>q. sa_id q = sa_id a) g (assignments d)" using t by (simp add: reseats_def)
    then have "b \<in> set (assignments d')" using b(1,3) by (auto simp: set_update_where intro!: exI [of _ b])
    then show ?thesis using b by blast
  next
    assume "attended_seat x (g a)"
    moreover have "g a \<in> set (assignments d')" using t a by (auto simp: reseats_def set_update_where)
    ultimately show ?thesis by blast
  qed
  then show ?thesis using tbl by (simp add: attended_db_def)
qed

text \<open>The attendance table stays, and an attended seat keeps its status.\<close>

lemma attended_same:
  assumes db_ok: "db_ok d" and t: "reseats d a g h d'" and a: "a \<in> set (assignments d)" and e: "attendances d' = attendances d"
    and st: "has_attendance (sa_id a) d \<Longrightarrow> sa_status (g a) = sa_status a"
  shows "attended_db d'"
proof (rule attended_change [OF db_ok t a])
  show "attendance_table.keyed (attendances d')" "one_per_seat (attendances d')" "one_active_per_staff (attendances d')"
    "list_all attendance_checks (attendances d')"
    using db_ok by (simp_all add: db_ok_def attended_db_def e)
next
  fix x
  assume x: "x \<in> set (attendances d')"
  obtain b where b: "b \<in> set (assignments d)" "attended_seat x b" using db_ok x by (auto simp: db_ok_def attended_db_def e)
  show "(x \<in> set (attendances d) \<and> at_assignment x \<noteq> sa_id a) \<or> attended_seat x (g a)"
  proof (cases "at_assignment x = sa_id a")
    case True
    then have "b = a" using assignment_table.keyed_unique [of "assignments d" b a] db_ok a b
      by (simp add: db_ok_def keyed_db_def attended_seat_def)
    moreover have "has_attendance (sa_id a) d" using x True by (auto simp: has_attendance_def e)
    ultimately show ?thesis using b(2) st t by (auto simp: attended_seat_def booked_def reseats_def seat_updD)
  qed (use x e in simp)
qed

section \<open>Attendance writes\<close>

lemma insert_attendance_Inr:
  "insert_attendance t d = Inr d' \<longleftrightarrow> d' = d\<lparr>attendances := attendances d @ [t]\<rparr> \<and> attendance_checks t
     \<and> attendance_table.keyed (attendances d') \<and> one_per_seat (attendances d') \<and> one_active_per_staff (attendances d')"
  by (auto simp: insert_attendance_def Let_def attendance_table.keyed_def)

lemma save_attendance_Inr: "save_attendance e t d = Inr d' \<longleftrightarrow> insert_attendance t d = Inr d'"
  by (auto simp: save_attendance_def split: sum.splits)

lemma update_attendance_Inr:
  "update_attendance P f d = Inr d' \<longleftrightarrow> d' = d\<lparr>attendances := update_where P (updated f) (attendances d)\<rparr>
     \<and> list_all attendance_checks (attendances d') \<and> one_per_seat (attendances d') \<and> one_active_per_staff (attendances d')"
  by (auto simp: update_attendance_def Let_def)

lemma updated_keeps [simp]:
  "at_status (updated f t) = at_status (f t)" "at_worked_minutes (updated f t) = at_worked_minutes (f t)"
  "at_earned_pence (updated f t) = at_earned_pence (f t)" "at_clock_out_at (updated f t) = at_clock_out_at (f t)"
  "at_clock_in_at (updated f t) = at_clock_in_at (f t)" "at_break_minutes (updated f t) = at_break_minutes (f t)"
  "att_ident (updated f t) = att_ident (f t)" "active (updated f t) = active (f t)"
  by (simp_all add: updated_def reset_attendance_post_shift_def att_ident_def active_def)

lemma attended_seat_updated: "attended_seat (updated f t) a = attended_seat (f t) a"
proof -
  have "at_assignment (updated f t) = at_assignment (f t)" "at_shift (updated f t) = at_shift (f t)" "at_staff (updated f t) = at_staff (f t)"
    using updated_keeps(7) [of f t] by (simp_all add: att_ident_def)
  then show ?thesis by (simp add: attended_seat_def)
qed

text \<open>Updates of attendance rows that keep their identity.\<close>

definition att_upd :: "(attendance_row \<Rightarrow> attendance_row) \<Rightarrow> bool" where
  "att_upd f \<longleftrightarrow> (\<forall>t. att_ident (f t) = att_ident t)"

lemma att_updD:
  assumes "att_upd f"
  shows "at_id (f t) = at_id t" "at_assignment (f t) = at_assignment t" "at_shift (f t) = at_shift t" "at_staff (f t) = at_staff t"
  using assms [unfolded att_upd_def, rule_format, of t] by (simp_all add: att_ident_def)

lemma att_upd_updated: "att_upd f \<Longrightarrow> att_upd (updated f)"
  by (simp add: att_upd_def)

lemma att_upd_image: "att_upd f \<Longrightarrow> att_ident ` set (update_where P f t) = att_ident ` set t"
  unfolding set_map [symmetric] by (simp add: map_update_where att_upd_def)

lemma att_upd_keyed: "att_upd f \<Longrightarrow> attendance_table.keyed (update_where P f t) = attendance_table.keyed t"
  by (simp add: attendance_table.keyed_def map_update_where att_updD)

text \<open>A row that moves along the table.\<close>

lemma att_moves_update:
  assumes "attendances d' = update_where P (updated f) (attendances d)" and "att_upd f"
    and "\<And>y. y \<in> set (attendances d) \<Longrightarrow> P y \<Longrightarrow> att_reaches (at_status y) (at_status (f y))"
  shows "att_moves d d'"
  unfolding att_moves_def
proof
  fix y
  assume y: "y \<in> set (attendances d)"
  let ?y = "if P y then updated f y else y"
  have "att_ident ?y = att_ident y \<and> att_reaches (at_status y) (at_status ?y)" using assms(2,3) y by (simp add: att_upd_def)
  moreover have "?y \<in> set (attendances d')" using y by (auto simp: assms(1) set_update_where)
  ultimately show "\<exists>t' \<in> set (attendances d'). att_ident t' = att_ident y \<and> att_reaches (at_status y) (at_status t')" by blast
qed

text \<open>The seat of an attendance.\<close>

lemma attendance_seat:
  assumes "db_ok d" and "t \<in> set (attendances d)"
  obtains a where "find_assignment (at_assignment t) d = Some a" and "attended_seat t a"
proof -
  obtain a where "a \<in> set (assignments d)" "attended_seat t a" using assms by (auto simp: db_ok_def attended_db_def)
  then show ?thesis using that find_assignment_iff [of d] assms(1) by (auto simp: db_ok_def keyed_db_def attended_seat_def)
qed

lemma one_attendance:
  assumes "db_ok d" and "t \<in> set (attendances d)" and "x \<in> set (attendances d)" and "at_assignment x = at_assignment t"
  shows "x = t"
  using assms by (auto simp: db_ok_def attended_db_def one_per_seat_def distinct_map inj_on_def)

lemma find_attendance_iff:
  "db_ok d \<Longrightarrow> find_attendance k d = Some t \<longleftrightarrow> t \<in> set (attendances d) \<and> at_id t = k"
  unfolding find_attendance_def db_ok_def attended_db_def by (simp add: attendance_table.find_iff)

lemma older_attendance:
  assumes "older d0 d" and "t \<in> set (attendances d0)"
  obtains x where "x \<in> set (attendances d)" and "att_ident x = att_ident t"
proof -
  have "att_ident t \<in> att_ident ` set (attendances d)" using assms by (auto simp: older_def)
  then show ?thesis using that by force
qed

text \<open>One attendance row and its seat and shift change.\<close>

lemma dbok_attended_update:
  assumes db_ok: "db_ok d" and x: "x \<in> set (attendances d)" and a: "find_assignment (at_assignment x) d = Some a"
    and P: "P x" "\<And>y. P y \<Longrightarrow> at_id y = at_id x" and f: "att_upd f" and t: "reseats d a g h d'" and o: "offers d' = offers d"
    and e: "attendances d' = update_where P (updated f) (attendances d)" and c: "list_all attendance_checks (attendances d')"
      "one_per_seat (attendances d')" "one_active_per_staff (attendances d')"
    and fit: "attended_seat (f x) (g a)" and st: "sa_status a = A_CONFIRMED \<or> sa_status (g a) = sa_status a"
    and h: "rolls h" and nd: "no_double_booking (assignments d')"
  shows "db_ok d' \<and> older d d'"
proof
  note a' = find_assignment_SomeD [OF a]
  have k: "attendance_table.keyed (attendances d)" using db_ok by (simp add: db_ok_def attended_db_def)
  have att: "attended_db d'"
  proof (rule attended_change [OF db_ok t conjunct1 [OF a'] _ c(2,3,1)])
    show "attendance_table.keyed (attendances d')" unfolding e using k att_upd_keyed [OF att_upd_updated [OF f]] by simp
  next
    fix y'
    assume "y' \<in> set (attendances d')"
    then obtain y where y: "y \<in> set (attendances d)" "y' = (if P y then updated f y else y)" by (auto simp: e set_update_where)
    show "(y' \<in> set (attendances d) \<and> at_assignment y' \<noteq> sa_id a) \<or> attended_seat y' (g a)"
    proof (cases "P y")
      case True
      then have "y = x" by (intro attendance_table.keyed_unique [OF k y(1) x] P(2))
      then show ?thesis using fit y(2) True by (simp add: attended_seat_updated)
    next
      case False
      then have "at_assignment y \<noteq> at_assignment x" using one_attendance [OF db_ok x y(1)] P(1) by auto
      then show ?thesis using y False a' by simp
    qed
  qed
  have "has_attendance (sa_id a) d" using x conjunct2 [OF a'] unfolding has_attendance_def by metis
  then have bk: "sa_status a = A_CONFIRMED \<or> sa_status a = A_COMPLETED" by (rule attended_status [OF db_ok conjunct1 [OF a']])
  have bk': "sa_status (g a) = A_CONFIRMED \<or> sa_status (g a) = A_COMPLETED"
    using fit by (auto simp: attended_seat_def booked_def split: if_splits)
  show "db_ok d'"
  proof (rule dbok_reseat [OF db_ok conjunct1 [OF a'] t o _ _ h nd att])
    show "coupled z (sa_status a) \<Longrightarrow> coupled z (sa_status (g a))" for z using st bk bk' by (cases z) auto
    show "occupied (sa_shift a) d + of_bool (occupiedSeatSql (g a)) - of_bool (occupiedSeatSql a) \<le> sh_required_count s"
      if "find_shift (sa_shift a) d = Some s" for s
      using bk seated_occupied [OF db_ok that] by (auto simp: occupiedSeatSql_def)
  qed (use bk in auto)
  show "older d d'" by (rule reseats_older [OF t o h]) (simp add: e att_upd_image [OF att_upd_updated [OF f]])
qed

text \<open>A row is inserted for a seat that had none.\<close>

lemma dbok_attended_insert:
  assumes db_ok: "db_ok d" and a: "a \<in> set (assignments d)" and t: "reseats d a g h d'" and o: "offers d' = offers d"
    and e: "attendances d' = attendances d @ [x]" and c: "attendance_checks x" "attendance_table.keyed (attendances d')"
      "one_per_seat (attendances d')" "one_active_per_staff (attendances d')"
    and fit: "attended_seat x (g a)" and st: "occupiedSeatSql a" and h: "rolls h" and nd: "no_double_booking (assignments d')"
  shows "db_ok d' \<and> older d d'"
proof
  have att: "attended_db d'"
  proof (rule attended_change [OF db_ok t a c(2,3,4)])
    show "list_all attendance_checks (attendances d')" using db_ok c(1) by (simp add: e db_ok_def attended_db_def)
  next
    fix y
    assume y: "y \<in> set (attendances d')"
    have "at_assignment x = sa_id a" using fit t by (simp add: attended_seat_def reseats_def seat_updD)
    then have "at_assignment z \<noteq> sa_id a" if "z \<in> set (attendances d)" for z using c(3) that by (auto simp: e one_per_seat_def image_iff)
    then show "(y \<in> set (attendances d) \<and> at_assignment y \<noteq> sa_id a) \<or> attended_seat y (g a)" using y fit by (auto simp: e)
  qed
  have bk: "sa_status a = A_CONFIRMED \<or> sa_status a = A_COMPLETED \<or> sa_status a = A_NO_SHOW" using st by (auto simp: occupiedSeatSql_def)
  have bk': "sa_status (g a) = A_CONFIRMED \<or> sa_status (g a) = A_COMPLETED"
    using fit by (auto simp: attended_seat_def booked_def split: if_splits)
  show "db_ok d'"
  proof (rule dbok_reseat [OF db_ok a t o _ _ h nd att])
    show "coupled z (sa_status a) \<Longrightarrow> coupled z (sa_status (g a))" for z using bk bk' by (cases z) auto
    show "occupied (sa_shift a) d + of_bool (occupiedSeatSql (g a)) - of_bool (occupiedSeatSql a) \<le> sh_required_count s"
      if "find_shift (sa_shift a) d = Some s" for s
      using st seated_occupied [OF db_ok that] by auto
  qed (use bk in auto)
  show "older d d'" by (rule reseats_older [OF t o h]) (auto simp: e)
qed

section \<open>Clock In\<close>

lemma mark_shape:
  assumes "markShiftInProgress s d = Inr d'" and "find_shift (sh_id s) d = Some s"
  obtains h where "rolls h" and "d' = d\<lparr>shifts := update_where (\<lambda>x. sh_id x = sh_id s) h (shifts d)\<rparr>" and "sh_status (h s) = IN_PROGRESS"
proof (cases "sh_status s = IN_PROGRESS")
  case True
  then show ?thesis using that [OF rolls_id] assms(1) by (simp add: markShiftInProgress_def)
next
  case False
  define h :: "shift_row \<Rightarrow> shift_row" where "h = (\<lambda>x. if sh_status x = sh_status s then x\<lparr>sh_status := IN_PROGRESS\<rparr> else x)"
  have "\<exists>x \<in> set (shifts d). sh_id x = sh_id s \<and> sh_status x = sh_status s" using find_shift_SomeD [OF assms(2)] by blast
  then have a: "assertShift (sh_status s) IN_PROGRESS = Inr ()" and u: "update_shift (sh_id s) h d = Inr d'"
    using assms(1) False by (auto simp: markShiftInProgress_def res_simps h_def)
  have "sh_status s \<notin> {CANCELLED, DRAFT}" using a by (auto simp: assertTransition_def)
  then have "rolls h" by (auto simp: rolls_def h_def)
  then show ?thesis using that u by (simp add: update_shift_Inr h_def)
qed

text \<open>What a clock-in, by the staff member or on their behalf, does.\<close>

definition clocks_in :: "db \<Rightarrow> assignment_row \<Rightarrow> attendance_row \<Rightarrow> db \<Rightarrow> bool" where
  "clocks_in d a t d' \<longleftrightarrow> a \<in> set (assignments d) \<and> sa_status a = A_CONFIRMED \<and> attended_seat t a \<and> at_status t = CLOCKED_IN
     \<and> attendance_checks t \<and> attendances d' = attendances d @ [t] \<and> attendance_table.keyed (attendances d')
     \<and> one_per_seat (attendances d') \<and> one_active_per_staff (attendances d') \<and> offers d' = offers d \<and> assignments d' = assignments d
     \<and> (\<exists>h. rolls h \<and> shifts d' = update_where (\<lambda>x. sh_id x = sa_shift a) h (shifts d)
          \<and> (\<forall>s. find_shift (sa_shift a) d = Some s \<longrightarrow> sh_status (h s) = IN_PROGRESS))"

lemma dbok_clocks_in:
  assumes "db_ok d" and "clocks_in d a t d'"
  shows "db_ok d' \<and> older d d' \<and> advances d d'"
proof -
  from assms(2) [unfolded clocks_in_def] obtain h where a: "a \<in> set (assignments d)" and st: "sa_status a = A_CONFIRMED"
    and fit: "attended_seat t a" and c: "attendance_checks t" "attendance_table.keyed (attendances d')"
      "one_per_seat (attendances d')" "one_active_per_staff (attendances d')" and e: "attendances d' = attendances d @ [t]"
    and o: "offers d' = offers d" and as: "assignments d' = assignments d"
    and h: "rolls h" "shifts d' = update_where (\<lambda>x. sh_id x = sa_shift a) h (shifts d)"
    by blast
  have r: "reseats d a (\<lambda>x. x) h d'" using as h(2) rolls_upd [OF h(1)] by (simp add: reseats_def seat_upd_def)
  have nd: "no_double_booking (assignments d')" using assms(1) by (simp add: db_ok_def checked_db_def as)
  have oc: "occupiedSeatSql a" using st by (simp add: occupiedSeatSql_def)
  show ?thesis
    using dbok_attended_insert [OF assms(1) a r o e c fit oc h(1) nd] advances_same [OF o att_moves_insert [OF e]] by blast
qed

lemma clocks_in_intro:
  assumes ins: "save_attendance e t d = Inr d1" and mark: "markShiftInProgress s d1 = Inr d2"
    and a: "a \<in> set (assignments d)" "sa_status a = A_CONFIRMED" "attended_seat t a" and st: "at_status t = CLOCKED_IN"
    and s: "find_shift (sa_shift a) d = Some s"
  shows "clocks_in d a t (emit evs d2)"
proof -
  note i = ins [unfolded save_attendance_Inr insert_attendance_Inr]
  have "find_shift (sh_id s) d1 = Some s" "sh_id s = sa_shift a" using s i find_shift_SomeD [OF s] by (simp_all add: find_shift_def)
  with mark obtain h where "rolls h" "d2 = d1\<lparr>shifts := update_where (\<lambda>x. sh_id x = sh_id s) h (shifts d1)\<rparr>" "sh_status (h s) = IN_PROGRESS"
    by (metis mark_shape)
  then show ?thesis using i a st s \<open>sh_id s = sa_shift a\<close> by (auto simp: clocks_in_def)
qed

lemma new_attendance_fields [simp]:
  "at_id (new_attendance ctx s a i t) = i" "at_assignment (new_attendance ctx s a i t) = sa_id a"
  "at_shift (new_attendance ctx s a i t) = sh_id s" "at_staff (new_attendance ctx s a i t) = sa_staff a"
  "at_status (new_attendance ctx s a i t) = CLOCKED_IN" "at_clock_in_at (new_attendance ctx s a i t) = t"
  by (simp_all add: new_attendance_def)

lemma clockIn_row_fields:
  assumes "clockIn_row ctx clk s a i dto ev = Inr t"
  shows "at_id t = i \<and> at_assignment t = sa_id a \<and> at_shift t = sh_id s \<and> at_staff t = sa_staff a \<and> at_status t = CLOCKED_IN
    \<and> at_clock_in_at t = node_now clk \<and> at_location_verified t = se_verified ev \<and> at_clock_in_method t = Some ''staff''"
  using assms by (auto simp: clockIn_row_def res_simps)

lemma clockIn_shape:
  assumes "clockIn env ctx clk i dto d = Inr (d', t')"
  obtains sp a s v ev t where "find_staff_of_user (cx_user ctx) d = Some sp" and "find_seat (in_shift dto) (sp_id sp) d = Some a"
    and "sa_status a = A_CONFIRMED" and "find_shift (sa_shift a) d = Some s" and "clockIn_guards env clk a s d = Inr ()"
    and "validateQr env (sh_id s) (in_qr dto) d = Inr ()" and "find_venue (sh_venue s) d = Some v"
    and "verifyLocation env clk v (in_fix dto) (sa_check_in_required a) (sa_check_in_captured_at a) = Inr ev"
    and "clockIn_row ctx clk s a i (in_fix dto) ev = Inr t" and "clocks_in d a t d'" and "find_attendance i d' = Some t'"
proof -
  note c = assms [unfolded clockIn_def Let_def ownStaffProfile_def bindE_Inr_iff from_option_Inr_iff require_Inr_iff sum.inject prod.inject]
  then obtain sp a s v ev t d1 d2 u1 u2 where sp: "find_staff_of_user (cx_user ctx) d = Some sp"
    and a: "find_seat (in_shift dto) (sp_id sp) d = Some a" and st: "sa_status a = A_CONFIRMED"
    and s: "find_shift (sa_shift a) d = Some s" and g: "clockIn_guards env clk a s d = Inr u1"
    and q: "validateQr env (sh_id s) (in_qr dto) d = Inr u2" and v: "find_venue (sh_venue s) d = Some v"
    and ev: "verifyLocation env clk v (in_fix dto) (sa_check_in_required a) (sa_check_in_captured_at a) = Inr ev"
    and t: "clockIn_row ctx clk s a i (in_fix dto) ev = Inr t"
    and 1: "save_attendance (Conflict ''You already have an active clock-in -- clock out first.'') t d = Inr d1"
    and 2: "markShiftInProgress s d1 = Inr d2"
    and d': "emit [Audit STAFF_CLOCKED_IN i (audit_actor ctx), Realtime ''attendance.changed'' i] d2 = d'"
    and f: "find_attendance i (emit [Audit STAFF_CLOCKED_IN i (audit_actor ctx), Realtime ''attendance.changed'' i] d2) = Some t'"
    by blast
  have m: "a \<in> set (assignments d)" using a find_Some_mem unfolding find_seat_def by fast
  have "attended_seat t a" using clockIn_row_fields [OF t] st find_shift_SomeD [OF s] by (simp add: attended_seat_def active_def)
  then have ci: "clocks_in d a t d'"
    unfolding d' [symmetric] using clockIn_row_fields [OF t] by (intro clocks_in_intro [OF 1 2 m st _ _ s]) simp_all
  have "u1 = ()" "u2 = ()" by simp_all
  then show ?thesis using that [OF sp a st s _ _ v ev t ci] g q f unfolding d' by blast
qed

lemma dbok_clockIn:
  assumes "db_ok d" and "clockIn env ctx clk i dto d = Inr (d', t')"
  shows "db_ok d' \<and> older d d' \<and> advances d d'"
  using assms(2) by (rule clockIn_shape) (rule dbok_clocks_in [OF assms(1)])

lemma clockInOnBehalf_shape:
  assumes "clockInOnBehalf env ctx clk i sid staff reason d0 d = Inr d'"
  obtains s0 seat s a v t where "openOnBehalf env ctx sid staff d0 d = Inr (s0, seat)" and "find_shift sid d = Some s"
    and "find_assignment (sa_id seat) d = Some a" and "onBehalf_guards env clk a s d = Inr ()" and "find_venue (sh_venue s) d = Some v"
    and "presence_proof v a = Inr ()" and "at_status t = CLOCKED_IN" and "at_assignment t = sa_id a" and "at_shift t = sid"
    and "at_staff t = sa_staff a" and "at_clock_in_by t = Some (cx_user ctx)" and "at_clock_in_at t = node_now clk"
    and "sa_shift a = sid \<Longrightarrow> clocks_in d a t d'"
proof -
  note c = assms [unfolded clockInOnBehalf_def Let_def bindE_Inr_iff from_option_Inr_iff sum.inject]
  then obtain r p where p: "openOnBehalf env ctx sid staff d0 d = Inr p"
    and k: "(case p of (_, seat) \<Rightarrow> bindE (from_option ROW_NOT_FOUND (find_shift sid d)) (\<lambda>s.
     bindE (from_option ROW_NOT_FOUND (find_assignment (sa_id seat) d)) (\<lambda>a.
     bindE (onBehalf_guards env clk a s d) (\<lambda>_.
     bindE (from_option ROW_NOT_FOUND (find_venue (sh_venue s) d)) (\<lambda>v.
     bindE (presence_proof v a) (\<lambda>_.
     bindE (save_attendance (AlreadyClockedIn ''This staff member has already clocked in for this shift.'')
        ((new_attendance ctx s a i (node_now clk))\<lparr>at_clock_in_method := Some ''manager_on_behalf'',
           at_clock_in_by := Some (cx_user ctx), at_clock_in_reason := Some r,
           at_clock_in_captured_at := sa_check_in_captured_at a\<rparr>) d) (\<lambda>d1.
     bindE (markShiftInProgress s d1) (\<lambda>d2.
     Inr (emit [Audit ATTENDANCE_CLOCKED_IN_ON_BEHALF i (audit_actor ctx), Realtime ''attendance.changed'' i] d2))))))))) = Inr d'"
    by blast
  obtain s0 seat where p': "p = (s0, seat)" by (cases p)
  from k [unfolded p' prod.case bindE_Inr_iff from_option_Inr_iff sum.inject] obtain s a v d1 d2 u1 u2 where s: "find_shift sid d = Some s"
    and a: "find_assignment (sa_id seat) d = Some a" and g: "onBehalf_guards env clk a s d = Inr u1" and v: "find_venue (sh_venue s) d = Some v"
    and pr: "presence_proof v a = Inr u2"
    and 1: "save_attendance (AlreadyClockedIn ''This staff member has already clocked in for this shift.'')
        ((new_attendance ctx s a i (node_now clk))\<lparr>at_clock_in_method := Some ''manager_on_behalf'',
           at_clock_in_by := Some (cx_user ctx), at_clock_in_reason := Some r,
           at_clock_in_captured_at := sa_check_in_captured_at a\<rparr>) d = Inr d1"
    and 2: "markShiftInProgress s d1 = Inr d2"
    and d': "emit [Audit ATTENDANCE_CLOCKED_IN_ON_BEHALF i (audit_actor ctx), Realtime ''attendance.changed'' i] d2 = d'"
    by blast
  have st: "sa_status a = A_CONFIRMED" using g by (auto simp: onBehalf_guards_def res_simps)
  note si = find_shift_SomeD [OF s] and ai = find_assignment_SomeD [OF a]
  have ci: "sa_shift a = sid \<Longrightarrow> clocks_in d a ((new_attendance ctx s a i (node_now clk))\<lparr>at_clock_in_method := Some ''manager_on_behalf'',
           at_clock_in_by := Some (cx_user ctx), at_clock_in_reason := Some r,
           at_clock_in_captured_at := sa_check_in_captured_at a\<rparr>) d'"
    unfolding d' [symmetric] using ai si s st
    by (intro clocks_in_intro [OF 1 2 conjunct1 [OF ai] st]) (simp_all add: attended_seat_def active_def)
  have "u1 = ()" "u2 = ()" by simp_all
  show ?thesis
    by (rule that [OF p [unfolded p'] s a _ v _ _ _ _ _ _ _ ci]) (use g pr si in simp_all)
qed

end
