(* ===== verification/AttendanceHistory.thy ===== *)
theory AttendanceHistory
  imports AttendanceSteps
begin

text \<open>Clock-out, the manager's corrections and the seat-level decisions keep the invariant \<open>db_ok\<close>.\<close>

section \<open>Clock Out\<close>

text \<open>
  What a committed clock-out does: the active row \<open>x\<close> of the locked state, named by the stale row \<open>t\<close>, is closed by \<open>f\<close>, its
  seat completes, and the roll-up runs.
\<close>

definition clocks_out :: "auth_ctx \<Rightarrow> db \<Rightarrow> attendance_row \<Rightarrow> attendance_row \<Rightarrow> assignment_row \<Rightarrow> (attendance_row \<Rightarrow> attendance_row)
    \<Rightarrow> db \<Rightarrow> bool" where
  "clocks_out ctx d t x b f d' \<longleftrightarrow> x \<in> set (attendances d) \<and> att_ident x = att_ident t \<and> at_status x = at_status t \<and> active x
     \<and> find_assignment (at_assignment x) d = Some b \<and> sa_status b = A_CONFIRMED \<and> attended_seat x b \<and> offers d' = offers d
     \<and> attendances d' = update_where (\<lambda>y. at_id y = at_id x \<and> at_status y = at_status x) (updated f) (attendances d)
     \<and> list_all attendance_checks (attendances d') \<and> one_per_seat (attendances d') \<and> one_active_per_staff (attendances d')
     \<and> no_double_booking (assignments d')
     \<and> (\<exists>h. completes h \<and> reseats d b (\<lambda>a. a\<lparr>sa_status := A_COMPLETED\<rparr>) h d') \<and> \<not> stuck (cx_org ctx) (at_shift x) d'"

lemma seat_upd_status: "seat_upd (\<lambda>a. a\<lparr>sa_status := st\<rparr>)"
  by (simp add: seat_upd_def seat_ident_def)

lemma clock_out_write_clocks_out:
  assumes db_ok: "db_ok d" and old: "older d0 d" and t: "t \<in> set (attendances d0)" "active t"
    and a: "find_assignment (at_assignment t) d0 = Some a" and w: "clock_out_write ctx t a f act d = Inr d'"
  obtains x b where "clocks_out ctx d t x b f d'"
proof -
  let ?P = "\<lambda>y. at_id y = at_id t \<and> at_status y = at_status t"
  obtain x0 where x0: "x0 \<in> set (attendances d)" "att_ident x0 = att_ident t" by (rule older_attendance [OF old t(1)])
  note w = w [unfolded clock_out_write_def Let_def bindE_Inr_iff require_Inr_iff]
  then obtain d1 d2 d3 c where ex: "\<exists>x \<in> set (attendances d). ?P x" and 1: "update_attendance ?P f d = Inr d1"
    and 2: "update_assignment (sa_id a) (\<lambda>x. x\<lparr>sa_status := A_COMPLETED\<rparr>) d1 = Inr d2"
    and 3: "completeShiftIfSettled (cx_org ctx) (at_shift t)
        (emit [Audit act (at_id t) (audit_actor ctx), Realtime ''attendance.changed'' (at_id t)] d2) = Inr (d3, c)" and d3: "d' = d3"
    by (auto split: prod.splits)
  from ex obtain x where x: "x \<in> set (attendances d)" "?P x" by blast
  have "x = x0" using attendance_table.keyed_unique [of "attendances d" x x0] db_ok x x0
    by (simp add: db_ok_def attended_db_def att_ident_def)
  then have i: "att_ident x = att_ident t" "at_assignment x = at_assignment t" "at_shift x = at_shift t" "at_id x = at_id t"
    using x0(2) by (simp_all add: att_ident_def)
  have ax: "active x" using t(2) x(2) by (simp add: active_def)
  obtain b where b: "find_assignment (at_assignment x) d = Some b" "attended_seat x b" by (rule attendance_seat [OF db_ok x(1)])
  have sb: "sa_status b = A_CONFIRMED" using b(2) ax by (simp add: attended_seat_def)
  have ab: "sa_id a = sa_id b" "sa_shift b = at_shift t"
    using find_assignment_SomeD [OF a] find_assignment_SomeD [OF b(1)] b(2) i by (simp_all add: attended_seat_def)
  note 1 = 1 [unfolded update_attendance_Inr] and 2 = 2 [unfolded update_assignment_Inr]
  obtain h where h: "completes h" and d': "d' = (emit [Audit act (at_id t) (audit_actor ctx), Realtime ''attendance.changed'' (at_id t)] d2)
      \<lparr>shifts := update_where (\<lambda>s. sh_id s = at_shift t) h (shifts d2)\<rparr>"
    using complete_shape [OF 3] d3 by auto
  have "reseats d b (\<lambda>a. a\<lparr>sa_status := A_COMPLETED\<rparr>) h d'"
    using 1 2 completes_upd [OF h] by (simp add: reseats_def seat_upd_status d' ab)
  moreover have "\<not> stuck (cx_org ctx) (at_shift x) d'" using complete_not_stuck [OF 3] d3 i by simp
  ultimately have "clocks_out ctx d t x b f d'"
    using x i ax b sb 1 2 h by (auto simp: clocks_out_def d')
  then show ?thesis by (rule that)
qed

lemma dbok_clocks_out:
  assumes db_ok: "db_ok d" and c: "clocks_out ctx d t x b f d'" and f: "att_upd f" "\<And>y. at_status (f y) = CLOCKED_OUT"
  shows "db_ok d' \<and> older d d' \<and> advances d d'"
proof -
  from c [unfolded clocks_out_def] obtain h where x: "x \<in> set (attendances d)" and b: "find_assignment (at_assignment x) d = Some b"
    and sb: "sa_status b = A_CONFIRMED" and fit: "attended_seat x b" and o: "offers d' = offers d"
    and e: "attendances d' = update_where (\<lambda>y. at_id y = at_id x \<and> at_status y = at_status x) (updated f) (attendances d)"
    and k: "list_all attendance_checks (attendances d')" "one_per_seat (attendances d')" "one_active_per_staff (attendances d')"
    and nd: "no_double_booking (assignments d')" and h: "completes h" and r: "reseats d b (\<lambda>a. a\<lparr>sa_status := A_COMPLETED\<rparr>) h d'"
    by blast
  have "attended_seat (f x) (b\<lparr>sa_status := A_COMPLETED\<rparr>)"
    using fit by (simp add: attended_seat_def active_def f(2) att_updD [OF f(1)] booked_def)
  moreover have "att_reaches (at_status y) (at_status (f y))" if "at_id y = at_id x \<and> at_status y = at_status x" for y
    using att_reaches_step [of "at_status y" CLOCKED_OUT] c that f(2) by (auto simp: clocks_out_def active_def res_simps)
  ultimately show ?thesis
    using dbok_attended_update [OF db_ok x b _ _ f(1) r o e k _ disjI1 [OF sb] rolls_completes [OF h] nd]
      advances_same [OF o att_moves_update [OF e f(1)]] by simp
qed

lemma clocked_out_row_upd: "att_upd (clocked_out_row now w p dto acc v m ob)"
  "at_status (clocked_out_row now w p dto acc v m ob t) = CLOCKED_OUT"
  by (simp_all add: clocked_out_row_def att_upd_def att_ident_def)

lemma performClockOut_shape:
  assumes db_ok: "db_ok d" and old: "older d0 d" and t: "t \<in> set (attendances d0)" "active t"
    and p: "performClockOut ctx clk t dto v m ob d0 d = Inr (d', t')"
  obtains a s w p acc x b where "find_assignment (at_assignment t) d0 = Some a" and "find_shift (at_shift t) d0 = Some s"
    and "worked_of t a s (node_now clk) = Inr w" and "pay_of a (workedMinutes w) = Inr p" and "int_column (fx_accuracyM dto) = Inr acc"
    and "clocks_out ctx d t x b (clocked_out_row (node_now clk) (workedMinutes w) p dto acc v m ob) d'"
    and "find_attendance (at_id t) d' = Some t'"
proof -
  from p [unfolded performClockOut_def bindE_Inr_iff from_option_Inr_iff sum.inject prod.inject]
  obtain a s w e acc where a: "find_assignment (at_assignment t) d0 = Some a" and s: "find_shift (at_shift t) d0 = Some s"
    and w: "worked_of t a s (node_now clk) = Inr w" and e: "pay_of a (workedMinutes w) = Inr e"
    and acc: "int_column (fx_accuracyM dto) = Inr acc"
    and c: "clock_out_write ctx t a (clocked_out_row (node_now clk) (workedMinutes w) e dto acc v m ob) (clock_out_audit m) d = Inr d'"
    and f: "find_attendance (at_id t) d' = Some t'"
    by blast
  obtain x b where "clocks_out ctx d t x b (clocked_out_row (node_now clk) (workedMinutes w) e dto acc v m ob) d'"
    by (rule clock_out_write_clocks_out [OF db_ok old t a c])
  then show ?thesis by (rule that [OF a s w e acc _ f])
qed

lemma dbok_performClockOut:
  assumes "db_ok d" and "older d0 d" and "t \<in> set (attendances d0)" and "active t"
    and "performClockOut ctx clk t dto v m ob d0 d = Inr (d', t')"
  shows "db_ok d' \<and> older d d' \<and> advances d d'"
  using assms by (rule performClockOut_shape) (rule dbok_clocks_out [OF assms(1) _ clocked_out_row_upd])

lemma active_ofD: "active_of staff d = Some t \<Longrightarrow> t \<in> set (attendances d) \<and> active t \<and> at_staff t = staff"
  unfolding active_of_def by (drule find_Some_mem) simp

lemma clockOut_performs:
  assumes "clockOut env ctx clk dto d0 d = Inr x"
  obtains sp t s v a ev where "find_staff_of_user (cx_user ctx) d0 = Some sp" and "active_of (sp_id sp) d0 = Some t"
    and "find_shift (at_shift t) d0 = Some s" and "validateQr env (sh_id s) (out_qr dto) d0 = Inr ()"
    and "find_assignment (at_assignment t) d0 = Some a" and "find_venue (sh_venue s) d0 = Some v"
    and "verifyLocation env clk v (out_fix dto) (sa_check_in_required a) (at_clock_in_captured_at t) = Inr ev"
    and "performClockOut ctx clk t (out_fix dto) (se_verified ev) Manual None d0 d = Inr x"
proof -
  from assms [unfolded clockOut_def ownStaffProfile_def bindE_Inr_iff from_option_Inr_iff] obtain sp t s u a v ev
    where 1: "find_staff_of_user (cx_user ctx) d0 = Some sp" "active_of (sp_id sp) d0 = Some t" "find_shift (at_shift t) d0 = Some s"
      "validateQr env (sh_id s) (out_qr dto) d0 = Inr u" "find_assignment (at_assignment t) d0 = Some a" "find_venue (sh_venue s) d0 = Some v"
      "verifyLocation env clk v (out_fix dto) (sa_check_in_required a) (at_clock_in_captured_at t) = Inr ev"
      "performClockOut ctx clk t (out_fix dto) (se_verified ev) Manual None d0 d = Inr x"
    by (elim exE conjE) (rule that; assumption)
  have "u = ()" by simp
  then show ?thesis using that 1 by blast
qed

lemma auto_performs:
  assumes "autoClockOutOnGeofenceExit env ctx clk dto d0 d = Inr x"
  obtains sp t s v a where "find_staff_of_user (cx_user ctx) d0 = Some sp" and "active_of (sp_id sp) d0 = Some t"
    and "find_shift (at_shift t) d0 = Some s" and "find_venue (sh_venue s) d0 = Some v" and "isGeofenceConfigured (venue_fence v)"
    and "find_assignment (at_assignment t) d0 = Some a" and "outside_fence env v dto = Inr ()"
    and "performClockOut ctx clk t (exit_fix dto) True AutoGeofence None d0 d = Inr x"
proof -
  from assms [unfolded autoClockOutOnGeofenceExit_def ownStaffProfile_def bindE_Inr_iff from_option_Inr_iff require_Inr_iff] obtain sp t s v a u
    where 1: "find_staff_of_user (cx_user ctx) d0 = Some sp" "active_of (sp_id sp) d0 = Some t" "find_shift (at_shift t) d0 = Some s"
      "find_venue (sh_venue s) d0 = Some v" "find_assignment (at_assignment t) d0 = Some a" "isGeofenceConfigured (venue_fence v)"
      "outside_fence env v dto = Inr u" "performClockOut ctx clk t (exit_fix dto) True AutoGeofence None d0 d = Inr x"
    by (elim exE conjE) (rule that; assumption)
  have "u = ()" by simp
  then show ?thesis using that 1 by blast
qed

lemma onBehalf_performs:
  assumes "clockOutOnBehalf env ctx clk sid staff reason d0 d = Inr d'"
  obtains s seat t v a r t' where "openOnBehalf env ctx sid staff d0 d = Inr (s, seat)" and "assertOnBehalfReason reason = Inr r"
    and "t \<in> set (attendances d)" and "at_assignment t = sa_id seat" and "active t" and "find_venue (sh_venue s) d = Some v"
    and "\<not> ve_enforce_geofence v" and "performClockOut ctx clk t no_location False ManagerOnBehalf (Some (cx_user ctx, r)) d d = Inr (d', t')"
proof -
  from assms [unfolded clockOutOnBehalf_def bindE_Inr_iff] obtain r p where r: "assertOnBehalfReason reason = Inr r"
    and p: "openOnBehalf env ctx sid staff d0 d = Inr p" and k: "(case p of (s, seat) \<Rightarrow>
     bindE (from_option (NotClockedIn ''This staff member hasn't clocked in.'')
              (find (\<lambda>t. at_assignment t = sa_id seat) (attendances d))) (\<lambda>t.
     bindE (require (active t) (NotClockedIn ''This staff member is no longer clocked in.'')) (\<lambda>_.
     bindE (from_option ROW_NOT_FOUND (find_venue (sh_venue s) d)) (\<lambda>v.
     bindE (require (\<not> ve_enforce_geofence v) PresenceEvidenceRequired) (\<lambda>_.
     bindE (from_option ROW_NOT_FOUND (find_assignment (sa_id seat) d)) (\<lambda>a.
     bindE (effectiveAssignmentTime (sa_period a) (shift_window s)) (\<lambda>w.
     bindE (require (\<not> snd (attendanceWindow env w) < node_now clk) ClockWindowClosed) (\<lambda>_.
     bindE (performClockOut ctx clk t no_location False ManagerOnBehalf (Some (cx_user ctx, r)) d d) (\<lambda>(d', _).
     Inr d'))))))))) = Inr d'"
    by blast
  obtain s seat where p': "p = (s, seat)" by (cases p)
  from k [unfolded p' prod.case bindE_Inr_iff from_option_Inr_iff require_Inr_iff] obtain t v y where
    t: "find (\<lambda>t. at_assignment t = sa_id seat) (attendances d) = Some t" and ac: "active t" and v: "find_venue (sh_venue s) d = Some v"
    and nf: "\<not> ve_enforce_geofence v" and pf: "performClockOut ctx clk t no_location False ManagerOnBehalf (Some (cx_user ctx, r)) d d = Inr y"
    and y: "(case y of (d', _) \<Rightarrow> Inr d') = (Inr d' :: db res)"
    by (elim exE conjE) (rule that; assumption)
  obtain t' where "y = (d', t')" using y by (cases y) simp
  then show ?thesis using that [OF p [unfolded p'] r _ _ ac v nf] pf find_Some_mem [OF t] by blast
qed

lemma dbok_clockOut:
  assumes "db_ok d" and "older d0 d" and "clockOut env ctx clk dto d0 d = Inr (d', t')"
  shows "db_ok d' \<and> older d d' \<and> advances d d'"
  using assms(3) by (rule clockOut_performs) (use active_ofD dbok_performClockOut [OF assms(1,2)] in blast)

lemma dbok_auto:
  assumes "db_ok d" and "older d0 d" and "autoClockOutOnGeofenceExit env ctx clk dto d0 d = Inr (d', t')"
  shows "db_ok d' \<and> older d d' \<and> advances d d'"
  using assms(3) by (rule auto_performs) (use active_ofD dbok_performClockOut [OF assms(1,2)] in blast)

lemma dbok_onBehalf_out:
  assumes "db_ok d" and "clockOutOnBehalf env ctx clk sid staff reason d0 d = Inr d'"
  shows "db_ok d' \<and> older d d' \<and> advances d d'"
  using assms(2) by (rule onBehalf_performs) (use dbok_performClockOut [OF assms(1) older_refl] in blast)

section \<open>The manager's corrections\<close>

definition reviewless :: "assignment_row \<Rightarrow> assignment_row" where
  "reviewless x = (if sa_reviewed_at x \<noteq> None then x\<lparr>sa_reviewed_at := None, sa_reviewed_by := None\<rparr> else x)"

lemma reviewless_simps [simp]: "sa_status (reviewless x) = sa_status x" "seat_ident (reviewless x) = seat_ident x"
  "sa_reviewed_at (reviewless x) = None" "sa_id (reviewless x) = sa_id x"
  by (simp_all add: reviewless_def seat_ident_def)

lemma corrected_row_upd: "att_upd (corrected_row n st w e r)" "at_status (corrected_row n st w e r t) = st"
  by (simp_all add: corrected_row_def att_upd_def att_ident_def)

definition corrects :: "db \<Rightarrow> attendance_row \<Rightarrow> assignment_row \<Rightarrow> (attendance_row \<Rightarrow> attendance_row) \<Rightarrow> db \<Rightarrow> bool" where
  "corrects d t b f d' \<longleftrightarrow> t \<in> set (attendances d) \<and> find_assignment (at_assignment t) d = Some b \<and> attended_seat t b
     \<and> offers d' = offers d \<and> shifts d' = shifts d \<and> assignments d' = update_where (\<lambda>x. sa_id x = sa_id b) reviewless (assignments d)
     \<and> attendances d' = update_where (\<lambda>x. at_id x = at_id t) (updated f) (attendances d) \<and> list_all attendance_checks (attendances d')
     \<and> one_per_seat (attendances d') \<and> one_active_per_staff (attendances d') \<and> no_double_booking (assignments d')"

lemma persist_shape:
  assumes db_ok: "db_ok d" and t: "find_attendance tid d = Some t"
    and p: "persistManagerTimes ctx t a s next outcome changes reason d = Inr d'"
  obtains b w e where "recomputed t a s next = Inr (w, e)" and "corrects d t b (corrected_row next (fst outcome) w e (snd outcome)) d'"
    and "corrections d' = corrections d @ correction_rows (at_id t) reason (cx_user ctx) changes"
proof -
  have m: "t \<in> set (attendances d)" using t db_ok find_attendance_iff by blast
  obtain b where b: "find_assignment (at_assignment t) d = Some b" "attended_seat t b" by (rule attendance_seat [OF db_ok m])
  have i: "sa_id b = at_assignment t" using find_assignment_SomeD [OF b(1)] by simp
  note p = p [unfolded persistManagerTimes_def bindE_Inr_iff]
  then obtain w e d1 d2 where r: "recomputed t a s next = Inr (w, e)"
    and 1: "update_attendance (\<lambda>x. at_id x = at_id t) (corrected_row next (fst outcome) w e (snd outcome)) d = Inr d1"
    and 2: "clear_review (at_assignment t) d1 = Inr d2"
    and d': "d' = emit [Audit ATTENDANCE_CORRECTED (at_id t) (audit_actor ctx), Realtime ''attendance.changed'' (at_id t)]
            (d2\<lparr>corrections := corrections d2 @ correction_rows (at_id t) reason (cx_user ctx) changes\<rparr>)"
    by (auto split: prod.splits simp: bindE_Inr_iff)
  note 1 = 1 [unfolded update_attendance_Inr]
  note 2 = 2 [unfolded clear_review_def, folded reviewless_def, unfolded update_assignment_Inr]
  have "corrects d t b (corrected_row next (fst outcome) w e (snd outcome)) d'"
    using m b 1 2 by (auto simp: corrects_def d' i reviewless_def)
  moreover have "corrections d' = corrections d @ correction_rows (at_id t) reason (cx_user ctx) changes"
    using 1 2 by (auto simp: d' emit_def)
  ultimately show ?thesis using that r by blast
qed

lemma dbok_corrects:
  assumes db_ok: "db_ok d" and c: "corrects d t b f d'" and f: "att_upd f" "\<not> active (f t)" "att_reaches (at_status t) (at_status (f t))"
  shows "db_ok d' \<and> older d d' \<and> advances d d'"
proof -
  from c [unfolded corrects_def] have t: "t \<in> set (attendances d)" and b: "find_assignment (at_assignment t) d = Some b"
    and fit: "attended_seat t b" and o: "offers d' = offers d" and sh: "shifts d' = shifts d"
    and as: "assignments d' = update_where (\<lambda>x. sa_id x = sa_id b) reviewless (assignments d)"
    and e: "attendances d' = update_where (\<lambda>x. at_id x = at_id t) (updated f) (attendances d)"
    and k: "list_all attendance_checks (attendances d')" "one_per_seat (attendances d')" "one_active_per_staff (attendances d')"
    and nd: "no_double_booking (assignments d')"
    by blast+
  have r: "reseats d b reviewless (\<lambda>x. x) d'" by (simp add: reseats_def seat_upd_def shift_upd_def sh as)
  have "seat_ident (reviewless b) = seat_ident b" by simp
  then have "attended_seat (f t) (reviewless b)"
    using fit f(2) by (auto simp: attended_seat_def att_updD [OF f(1)] booked_def seat_ident_def split: if_splits)
  moreover have "att_reaches (at_status y) (at_status (f y))" if "y \<in> set (attendances d)" "at_id y = at_id t" for y
    using f(3) attendance_table.keyed_unique [OF _ that(1) t that(2)] db_ok by (simp add: db_ok_def attended_db_def)
  ultimately show ?thesis
    using dbok_attended_update [OF db_ok t b _ _ f(1) r o e k _ _ rolls_id nd] advances_same [OF o att_moves_update [OF e f(1)]] by simp
qed

lemma resolved_status: "resolveCorrectionStatus t a s now out = Inr (st, r) \<Longrightarrow> st \<noteq> CLOCKED_IN \<and> st \<noteq> ON_BREAK"
  by (auto simp: resolveCorrectionStatus_def Let_def res_simps split: if_splits)

lemma resolved_reaches:
  assumes "resolveCorrectionStatus t a s now out = Inr (st, r)"
  shows "att_reaches (at_status t) st"
proof -
  have 1: "att_reaches CLOCKED_OUT UNDER_REVIEW" "att_reaches MISSING_CLOCK_OUT CLOCKED_OUT" "att_reaches CLOCKED_IN CLOCKED_OUT"
    "att_reaches ON_BREAK CLOCKED_OUT"
    by (rule att_reaches_step, simp add: assertTransition_def)+
  note 2 = 1(2-4) [THEN att_reaches_trans, OF 1(1)]
  show ?thesis
    using assms unfolding resolveCorrectionStatus_def Let_def
    by (cases "at_status t") (auto simp: res_simps 1 2 split: if_splits)
qed

lemma dbok_persist:
  assumes "db_ok d" and "find_attendance tid d = Some t" and "resolveCorrectionStatus t a' s' now out = Inr outcome"
    and "persistManagerTimes ctx t a s next outcome changes reason d = Inr d'"
  shows "db_ok d' \<and> older d d' \<and> advances d d'"
proof -
  obtain b w e where c: "corrects d t b (corrected_row next (fst outcome) w e (snd outcome)) d'"
    by (rule persist_shape [OF assms(1,2,4)])
  have "\<not> active (corrected_row next (fst outcome) w e (snd outcome) t)"
    using resolved_status [of t a' s' now out "fst outcome" "snd outcome"] assms(3) by (simp add: active_def corrected_row_upd)
  moreover have "att_reaches (at_status t) (at_status (corrected_row next (fst outcome) w e (snd outcome) t))"
    using resolved_reaches [of t a' s' now out "fst outcome" "snd outcome"] assms(3) by (simp add: corrected_row_upd)
  ultimately show ?thesis by (rule dbok_corrects [OF assms(1) c corrected_row_upd(1)])
qed

lemma correct_shape:
  assumes "correct env ctx clk tid dto d0 d = Inr d'"
  obtains (same) t ov nx where "find_attendance tid d = Some t" and "correction_of dto (tx_now clk) t = Inr (ov, nx)" and "unchanged dto t nx"
      and "d' = d"
  | (changed) t0 t a s ov nx outcome where "find_attendance tid d0 = Some t0" and "find_shift (at_shift t0) d0 = Some s"
      and "find_assignment (at_assignment t0) d0 = Some a" and "find_attendance tid d = Some t"
      and "correction_of dto (tx_now clk) t = Inr (ov, nx)" and "\<not> unchanged dto t nx"
      and "resolveCorrectionStatus t a s (tx_now clk) (nx_out nx) = Inr outcome"
      and "persistManagerTimes ctx t a s nx outcome [(correctable_str (cr_field dto), ov, cr_newValue dto)] (cr_reason dto) d = Inr d'"
proof -
  from assms [unfolded correct_def bindE_Inr_iff from_option_Inr_iff require_Inr_iff] obtain t0 s a t p where
    t0: "find_attendance tid d0 = Some t0" and s: "find_shift (at_shift t0) d0 = Some s" and a: "find_assignment (at_assignment t0) d0 = Some a"
    and t: "find_attendance tid d = Some t" and p: "correction_of dto (tx_now clk) t = Inr p" and k: "(case p of (oldValue, next) \<Rightarrow>
     bindE (require (\<not> (case nx_out next of None \<Rightarrow> False | Some out \<Rightarrow> out < nx_in next))
              (BadRequest ''clockOutAt cannot be before clockInAt.'')) (\<lambda>_.
     if unchanged dto t next then Inr d
     else
       bindE (resolveCorrectionStatus t a s (tx_now clk) (nx_out next)) (\<lambda>outcome.
       persistManagerTimes ctx t a s next outcome [(correctable_str (cr_field dto), oldValue, cr_newValue dto)] (cr_reason dto) d))) = Inr d'"
    by (elim exE conjE) (rule that; assumption)
  obtain ov nx where p': "p = (ov, nx)" by (cases p)
  show ?thesis
  proof (cases "unchanged dto t nx")
    case True
    then show ?thesis using same t p k by (simp add: p' bindE_Inr_iff)
  next
    case False
    then show ?thesis using changed t0 s a t p k by (auto simp: p' bindE_Inr_iff)
  qed
qed

lemma dbok_correct:
  assumes "db_ok d" and "correct env ctx clk tid dto d0 d = Inr d'"
  shows "db_ok d' \<and> older d d' \<and> advances d d'"
  using assms(2)
proof (cases rule: correct_shape)
  case same
  then show ?thesis using assms(1) older_refl advances_refl by simp
next
  case (changed t0 t a s ov nx outcome)
  show ?thesis by (rule dbok_persist [OF assms(1) changed(4,7,8)])
qed

section \<open>Record attendance\<close>

lemma recordOnExisting_shape:
  assumes "recordOnExisting env ctx tid seat s dto now w brk reason d = Inr d'"
  obtains (same) t where "find_attendance tid d = Some t" and "record_changes t (record_next dto t brk) = []" and "d' = d"
  | (changed) t a outcome where "find_attendance tid d = Some t" and "find_assignment (sa_id seat) d = Some a"
      and "rd_expected dto = Some (at_version t)" and "record_changes t (record_next dto t brk) \<noteq> []"
      and "resolveCorrectionStatus t a s now (nx_out (record_next dto t brk)) = Inr outcome"
      and "persistManagerTimes ctx t a s (record_next dto t brk) outcome (record_changes t (record_next dto t brk)) reason d = Inr d'"
proof -
  from assms obtain t a where t: "find_attendance tid d = Some t" and a: "find_assignment (sa_id seat) d = Some a"
    by (auto simp: recordOnExisting_def bindE_Inr_iff from_option_Inr_iff)
  note r = assms [unfolded recordOnExisting_def Let_def t a from_option_simps bindE.simps]
  show ?thesis
  proof (cases "record_changes t (record_next dto t brk) = []")
    case True
    then show ?thesis using same t r by simp
  next
    case False
    from r [unfolded if_not_P [OF False] bindE_Inr_iff require_Inr_iff] show ?thesis using changed [OF t a _ False] by blast
  qed
qed

lemma seat_to_completed_Inr:
  "seat_to_completed a d = Inr d' \<Longrightarrow> assignments d' = update_where (\<lambda>x. sa_id x = sa_id a)
       (\<lambda>x. if sa_status x = sa_status a then x\<lparr>sa_status := A_COMPLETED\<rparr> else x) (assignments d)
     \<and> d' = d\<lparr>assignments := assignments d'\<rparr> \<and> no_double_booking (assignments d')"
  by (auto simp: seat_to_completed_def res_simps update_assignment_Inr)

lemma catch_record_Inr: "catch_record m = Inr x \<longleftrightarrow> m = Inr x"
  by (auto simp: catch_record_def split: sum.splits)

lemma manager_row_fields [simp]:
  "at_assignment (manager_row_of ctx s a i t u brk w e) = sa_id a" "at_shift (manager_row_of ctx s a i t u brk w e) = sh_id s"
  "at_staff (manager_row_of ctx s a i t u brk w e) = sa_staff a" "at_status (manager_row_of ctx s a i t u brk w e) = UNDER_REVIEW"
  "at_clock_in_at (manager_row_of ctx s a i t u brk w e) = t" "at_clock_out_at (manager_row_of ctx s a i t u brk w e) = Some u"
  "at_worked_minutes (manager_row_of ctx s a i t u brk w e) = Some w" "at_earned_pence (manager_row_of ctx s a i t u brk w e) = Some e"
  "at_id (manager_row_of ctx s a i t u brk w e) = i"
  by (simp_all add: manager_row_of_def)

text \<open>A manager's record for a seat without attendance: the row is inserted, the seat completes, the roll-up runs.\<close>

definition records :: "auth_ctx \<Rightarrow> db \<Rightarrow> shift_row \<Rightarrow> assignment_row \<Rightarrow> attendance_row \<Rightarrow> db \<Rightarrow> bool" where
  "records ctx d s a t d' \<longleftrightarrow> a \<in> set (assignments d) \<and> sa_status a \<in> {A_CONFIRMED, A_NO_SHOW} \<and> \<not> confirmed_no_show a
     \<and> at_assignment t = sa_id a \<and> at_shift t = sh_id s \<and> at_staff t = sa_staff a \<and> at_status t = UNDER_REVIEW \<and> attendance_checks t
     \<and> attendances d' = attendances d @ [t] \<and> attendance_table.keyed (attendances d') \<and> one_per_seat (attendances d')
     \<and> one_active_per_staff (attendances d') \<and> offers d' = offers d \<and> no_double_booking (assignments d')
     \<and> assignments d' = update_where (\<lambda>x. sa_id x = sa_id a)
          (\<lambda>x. if sa_status x = sa_status a then x\<lparr>sa_status := A_COMPLETED\<rparr> else x) (assignments d)
     \<and> (\<exists>h. completes h \<and> shifts d' = update_where (\<lambda>x. sh_id x = sh_id s) h (shifts d)) \<and> \<not> stuck (cx_org ctx) (sh_id s) d'"

lemma recordNew_shape:
  assumes "recordNew env ctx i s a dto now w brk reason d = Inr d'" and m: "a \<in> set (assignments d)"
  obtains reqIn reqOut wk e where "rd_in dto = Some reqIn" and "rd_out dto = Some reqOut"
    and "assertManagerEnteredTimes env w now reqIn (Some reqOut) (case rd_break dto of Some b \<Rightarrow> b | None \<Rightarrow> brk) = Inr ()"
    and "computeWorkedMinutes \<lparr>wm_clockInAt = reqIn, wm_clockOutAt = reqOut, wm_breaks = None,
           wm_scheduledBreakMinutes = Some (case rd_break dto of Some b \<Rightarrow> b | None \<Rightarrow> brk), wm_breaksPaidByDefault = None\<rparr> = Inr wk"
    and "pay_of a (workedMinutes wk) = Inr e"
    and "records ctx d s a (manager_row_of ctx s a i reqIn reqOut (rd_break dto) (workedMinutes wk) e) d'"
    and "corrections d' = corrections d @ correction_rows i reason (cx_user ctx) (recordNew_changes reqIn reqOut (rd_break dto))"
proof -
  obtain reqIn reqOut where io: "rd_in dto = Some reqIn" "rd_out dto = Some reqOut"
    using assms by (auto simp: recordNew_def bindE_Inr_iff split: option.splits)
  let ?brk = "case rd_break dto of Some b \<Rightarrow> b | None \<Rightarrow> brk"
  note r = assms(1) [unfolded recordNew_def io prod.case option.case Let_def bindE_Inr_iff require_Inr_iff catch_record_Inr]
  then obtain u wk e d0 d1 p where st: "sa_status a \<in> {A_NO_SHOW, A_CONFIRMED}" and nc: "\<not> confirmed_no_show a"
    and ck: "assertManagerEnteredTimes env w now reqIn (Some reqOut) ?brk = Inr u"
    and wk: "computeWorkedMinutes \<lparr>wm_clockInAt = reqIn, wm_clockOutAt = reqOut, wm_breaks = None,
           wm_scheduledBreakMinutes = Some ?brk, wm_breaksPaidByDefault = None\<rparr> = Inr wk"
    and e: "pay_of a (workedMinutes wk) = Inr e"
    and 1: "insert_attendance (manager_row_of ctx s a i reqIn reqOut (rd_break dto) (workedMinutes wk) e) d = Inr d0"
    and 2: "seat_to_completed a d0 = Inr d1" and 3: "completeShiftIfSettled (cx_org ctx) (sh_id s) d1 = Inr p"
    and 4: "(case p of (d2, _) \<Rightarrow> Inr (emit [Audit ATTENDANCE_MANAGER_RECORDED i (audit_actor ctx), Realtime ''attendance.changed'' i]
                (d2\<lparr>corrections := corrections d2 @ correction_rows i reason (cx_user ctx)
                   (recordNew_changes reqIn reqOut (rd_break dto))\<rparr>))) = (Inr d' :: db res)"
    by (elim exE conjE) (rule that; assumption)
  obtain d2 b where p: "p = (d2, b)" by (cases p)
  have d': "d' = emit [Audit ATTENDANCE_MANAGER_RECORDED i (audit_actor ctx), Realtime ''attendance.changed'' i]
                (d2\<lparr>corrections := corrections d2 @ correction_rows i reason (cx_user ctx)
                   (recordNew_changes reqIn reqOut (rd_break dto))\<rparr>)" using 4 by (simp add: p)
  note 1 = 1 [unfolded insert_attendance_Inr] and 2 = seat_to_completed_Inr [OF 2]
  obtain h where h: "completes h" "d2 = d1\<lparr>shifts := update_where (\<lambda>x. sh_id x = sh_id s) h (shifts d1)\<rparr>"
    by (rule complete_shape [OF 3 [unfolded p]])
  have ns: "\<not> stuck (cx_org ctx) (sh_id s) d'"
    using complete_not_stuck [OF 3 [unfolded p]] by (simp add: d' stuck_def find_shift_def open_seats_def)
  have t1: "shifts d1 = shifts d" "offers d1 = offers d" "attendances d1 = attendances d0" "corrections d1 = corrections d"
    "assignments d1 = update_where (\<lambda>x. sa_id x = sa_id a)
       (\<lambda>x. if sa_status x = sa_status a then x\<lparr>sa_status := A_COMPLETED\<rparr> else x) (assignments d)"
    using conjunct1 [OF 2] arg_cong [OF conjunct1 [OF conjunct2 [OF 2]], of shifts] arg_cong [OF conjunct1 [OF conjunct2 [OF 2]], of offers]
      arg_cong [OF conjunct1 [OF conjunct2 [OF 2]], of attendances] arg_cong [OF conjunct1 [OF conjunct2 [OF 2]], of corrections] 1
    by simp_all
  have d'': "offers d' = offers d" "assignments d' = assignments d1" "attendances d' = attendances d0"
    "shifts d' = update_where (\<lambda>x. sh_id x = sh_id s) h (shifts d)"
    by (simp_all add: d' h(2) t1)
  have "records ctx d s a (manager_row_of ctx s a i reqIn reqOut (rd_break dto) (workedMinutes wk) e) d'"
    unfolding records_def d'' t1(5) using m st nc 1 2 h(1) ns t1(5) by auto
  moreover have "corrections d' = corrections d @ correction_rows i reason (cx_user ctx) (recordNew_changes reqIn reqOut (rd_break dto))"
    by (simp add: d' emit_def h(2) t1)
  ultimately show ?thesis using that io ck wk e by simp
qed

lemma dbok_records:
  assumes db_ok: "db_ok d" and r: "records ctx d s a t d'" and s: "sa_shift a = sh_id s"
  shows "db_ok d' \<and> older d d' \<and> advances d d'"
proof -
  from r [unfolded records_def] obtain h where a: "a \<in> set (assignments d)" and st: "sa_status a \<in> {A_CONFIRMED, A_NO_SHOW}"
    and nc: "\<not> confirmed_no_show a" and t: "at_assignment t = sa_id a" "at_shift t = sh_id s" "at_staff t = sa_staff a" "at_status t = UNDER_REVIEW"
    and c: "attendance_checks t" and e: "attendances d' = attendances d @ [t]" and k: "attendance_table.keyed (attendances d')"
      "one_per_seat (attendances d')" "one_active_per_staff (attendances d')" and o: "offers d' = offers d" and nd: "no_double_booking (assignments d')"
    and as: "assignments d' = update_where (\<lambda>x. sa_id x = sa_id a)
          (\<lambda>x. if sa_status x = sa_status a then x\<lparr>sa_status := A_COMPLETED\<rparr> else x) (assignments d)"
    and h: "completes h" "shifts d' = update_where (\<lambda>x. sh_id x = sh_id s) h (shifts d)"
    by blast
  have re: "reseats d a (\<lambda>x. if sa_status x = sa_status a then x\<lparr>sa_status := A_COMPLETED\<rparr> else x) h d'"
    using h(2) completes_upd [OF h(1)] by (simp add: reseats_def as s seat_upd_def seat_ident_def)
  have "attended_seat t (if sa_status a = sa_status a then a\<lparr>sa_status := A_COMPLETED\<rparr> else a)"
    using t s by (simp add: attended_seat_def active_def booked_def)
  moreover have "occupiedSeatSql a" using st nc by (auto simp: occupiedSeatSql_def confirmed_no_show_def)
  ultimately show ?thesis
    using dbok_attended_insert [OF db_ok a re o e c k _ _ rolls_completes [OF h(1)] nd] advances_same [OF o att_moves_insert [OF e]] by simp
qed

lemma openOnBehalf_shape:
  assumes "openOnBehalf env ctx sid staff d0 d = Inr (s, seat)"
  shows "ae_may_edit env \<and> find_shift sid d0 = Some s \<and> sh_id s = sid \<and> sh_org s = cx_org ctx \<and> canReadShift env ctx s d0
    \<and> seat \<in> set (assignments d0) \<and> sa_shift seat = sid \<and> sa_staff seat = staff
    \<and> \<not> (\<exists>r \<in> set (reports d). rp_shift r = sid \<and> rp_status r = ''finalised'')"
proof -
  from assms have f: "find (\<lambda>a. sa_shift a = sid \<and> sa_staff a = staff \<and> sa_status a \<in> set SEAT_REPORT_STATUSES) (assignments d0) = Some seat"
    and s: "find_shift sid d0 = Some s"
    and x: "ae_may_edit env" "sh_org s = cx_org ctx" "canReadShift env ctx s d0"
      "\<not> (\<exists>r \<in> set (reports d). rp_shift r = sid \<and> rp_status r = ''finalised'')"
    unfolding openOnBehalf_def lockOpenReport_def bindE_Inr_iff from_option_Inr_iff require_Inr_iff sum.inject prod.inject by auto
  show ?thesis using find_Some_mem [OF f] find_shift_SomeD [OF s] x s by blast
qed

lemma stale_seat:
  assumes "db_ok d" and "older d0 d" and "a0 \<in> set (assignments d0)" and "find_assignment (sa_id a0) d = Some a"
  shows "seat_ident a = seat_ident a0"
proof -
  have "seat_ident a0 \<in> seat_ident ` set (assignments d)" using assms(2,3) by (auto simp: older_def)
  then obtain b where b: "b \<in> set (assignments d)" "seat_ident b = seat_ident a0" by force
  have "b = a" using assignment_table.keyed_unique [of "assignments d" b a] assms(1) b find_assignment_SomeD [OF assms(4)]
    by (simp add: db_ok_def keyed_db_def seat_ident_def)
  then show ?thesis using b(2) by simp
qed

lemma recordAttendance_shape:
  assumes "recordAttendance env ctx clk i sid staff dto d0 d = Inr d'"
  obtains (existing) s seat reason w brk t where "openOnBehalf env ctx sid staff d0 d = Inr (s, seat)" and "attendance_of (sa_id seat) d0 = Some t"
      and "recordOnExisting env ctx (at_id t) seat s dto (tx_now clk) w brk reason d = Inr d'"
  | (raced) s seat where "openOnBehalf env ctx sid staff d0 d = Inr (s, seat)" and "d' = d"
  | (new) s seat a reason w brk where "openOnBehalf env ctx sid staff d0 d = Inr (s, seat)" and "sh_status s \<noteq> CANCELLED"
      and "find_assignment (sa_id seat) d = Some a" and "attendance_of (sa_id a) d = None"
      and "effectiveAssignmentTime (sa_period seat) (shift_window s) = Inr w"
      and "brk = effectiveAssignmentBreakMinutes (sa_break_minutes seat) (sh_break_minutes s)" and "record_reason_text dto = Inr reason"
      and "recordNew env ctx i s a dto (tx_now clk) w brk reason d = Inr d'"
proof -
  from assms [unfolded recordAttendance_def Let_def bindE_Inr_iff] obtain reason p where rs: "record_reason_text dto = Inr reason"
    and p: "openOnBehalf env ctx sid staff d0 d = Inr p" and k: "(case p of (s, seat) \<Rightarrow>
       bindE (require (sh_status s \<noteq> CANCELLED) (Conflict ''This shift was cancelled, so attendance cannot be recorded.'')) (\<lambda>_.
       bindE (effectiveAssignmentTime (sa_period seat) (shift_window s)) (\<lambda>w.
       case attendance_of (sa_id seat) d0 of
         Some existing \<Rightarrow> recordOnExisting env ctx (at_id existing) seat s dto (tx_now clk) w
           (effectiveAssignmentBreakMinutes (sa_break_minutes seat) (sh_break_minutes s)) reason d
       | None \<Rightarrow>
           bindE (from_option ROW_NOT_FOUND (find_assignment (sa_id seat) d)) (\<lambda>a.
           case attendance_of (sa_id a) d of
             Some raced \<Rightarrow> if same_record dto raced (effectiveAssignmentBreakMinutes (sa_break_minutes seat) (sh_break_minutes s)) then Inr d
               else Inl (Conflict ''Attendance was just recorded for this staff member. Refresh to see it.'')
           | None \<Rightarrow> recordNew env ctx i s a dto (tx_now clk) w
               (effectiveAssignmentBreakMinutes (sa_break_minutes seat) (sh_break_minutes s)) reason d)))) = Inr d'"
    by blast
  obtain s seat where p': "p = (s, seat)" by (cases p)
  note o = p [unfolded p']
  show ?thesis
  proof (cases "attendance_of (sa_id seat) d0")
    case (Some t)
    then show ?thesis using k existing [OF o Some] by (auto simp: p' bindE_Inr_iff)
  next
    case None
    from k [unfolded p' prod.case None option.case bindE_Inr_iff require_Inr_iff from_option_Inr_iff] obtain w a where
      ns: "sh_status s \<noteq> CANCELLED" and w: "effectiveAssignmentTime (sa_period seat) (shift_window s) = Inr w"
      and a: "find_assignment (sa_id seat) d = Some a" and x: "(case attendance_of (sa_id a) d of
             Some raced \<Rightarrow> if same_record dto raced (effectiveAssignmentBreakMinutes (sa_break_minutes seat) (sh_break_minutes s)) then Inr d
               else Inl (Conflict ''Attendance was just recorded for this staff member. Refresh to see it.'')
           | None \<Rightarrow> recordNew env ctx i s a dto (tx_now clk) w
               (effectiveAssignmentBreakMinutes (sa_break_minutes seat) (sh_break_minutes s)) reason d) = Inr d'"
      by blast
    show ?thesis
    proof (cases "attendance_of (sa_id a) d")
      case (Some r)
      then show ?thesis using x raced [OF o] by (auto split: if_splits)
    next
      case None
      then show ?thesis using x new [OF o ns a None w refl rs] by simp
    qed
  qed
qed

lemma dbok_recordAttendance:
  assumes db_ok: "db_ok d" and old: "older d0 d" and r: "recordAttendance env ctx clk i sid staff dto d0 d = Inr d'"
  shows "db_ok d' \<and> older d d' \<and> advances d d'"
  using r
proof (cases rule: recordAttendance_shape)
  case (existing s seat reason w brk t)
  show ?thesis
    using existing(3)
  proof (cases rule: recordOnExisting_shape)
    case same
    then show ?thesis using db_ok older_refl advances_refl by simp
  next
    case (changed t a outcome)
    show ?thesis by (rule dbok_persist [OF db_ok changed(1,5,6)])
  qed
next
  case (raced s seat)
  then show ?thesis using db_ok older_refl advances_refl by simp
next
  case (new s seat a reason w brk)
  have a: "a \<in> set (assignments d)" using find_assignment_SomeD [OF new(3)] by simp
  note o = openOnBehalf_shape [OF new(1)]
  have "seat_ident a = seat_ident seat" by (rule stale_seat [OF db_ok old _ new(3)]) (use o in blast)
  then have "sa_shift a = sh_id s" using o by (simp add: seat_ident_def)
  then show ?thesis using recordNew_shape [OF new(8) a] dbok_records [OF db_ok] by metis
qed

lemma dbok_clockInOnBehalf:
  assumes db_ok: "db_ok d" and old: "older d0 d" and c: "clockInOnBehalf env ctx clk i sid staff reason d0 d = Inr d'"
  shows "db_ok d' \<and> older d d' \<and> advances d d'"
  using c
proof (cases rule: clockInOnBehalf_shape)
  case (1 s0 seat s a v t)
  note o = openOnBehalf_shape [OF 1(1)]
  have "seat_ident a = seat_ident seat" by (rule stale_seat [OF db_ok old _ 1(3)]) (use o in blast)
  then have "sa_shift a = sid" using o by (simp add: seat_ident_def)
  then show ?thesis by (rule dbok_clocks_in [OF db_ok 1(13)])
qed

section \<open>Decisions on one seat\<close>

lemma dbok_seat_only:
  assumes db_ok: "db_ok d" and a: "a \<in> set (assignments d)" and g: "seat_upd g"
    and e: "offers d' = offers d" "shifts d' = shifts d" "attendances d' = attendances d"
      "assignments d' = update_where (\<lambda>q. sa_id q = sa_id a) g (assignments d)"
    and st: "sa_status (g a) = sa_status a \<or> (sa_status a = A_CONFIRMED \<and> sa_status (g a) = A_NO_SHOW)"
    and nc: "sa_status a \<noteq> A_CANCELLED" and na: "has_attendance (sa_id a) d \<Longrightarrow> sa_status (g a) = sa_status a"
    and nd: "no_double_booking (assignments d')"
    and cap: "occupiedSeatSql (g a) \<Longrightarrow> occupiedSeatSql a \<or> (\<forall>s. find_shift (sa_shift a) d = Some s \<longrightarrow> occupied (sa_shift a) d < sh_required_count s)"
  shows "db_ok d' \<and> older d d' \<and> advances d d'"
proof -
  have r: "reseats d a g (\<lambda>x. x) d'" by (simp add: reseats_def g shift_upd_def e)
  have att: "attended_db d'" by (rule attended_same [OF db_ok r a e(3) na])
  have "db_ok d'"
  proof (rule dbok_reseat [OF db_ok a r e(1) _ nc rolls_id nd att])
    show "coupled z (sa_status a) \<Longrightarrow> coupled z (sa_status (g a))" for z using st by (cases z) auto
    show "occupied (sa_shift a) d + of_bool (occupiedSeatSql (g a)) - of_bool (occupiedSeatSql a) \<le> sh_required_count s"
      if "find_shift (sa_shift a) d = Some s" for s
      using cap seated_occupied [OF db_ok that] that by (cases "occupiedSeatSql (g a)"; cases "occupiedSeatSql a") auto
  qed
  moreover have "older d d'" by (rule reseats_older [OF r e(1) rolls_id]) (simp add: e(3))
  ultimately show ?thesis using advances_same [OF e(1) att_moves_same [OF e(3)]] by blast
qed

lemma lockSeat_shape:
  assumes "lockSeat env ctx sid staff msg d0 d = Inr (s, a, att)"
  shows "ae_may_edit env \<and> find_shift sid d0 = Some s \<and> canReadShift env ctx s d0 \<and> a \<in> set (assignments d) \<and> sa_shift a = sid
    \<and> sa_staff a = staff \<and> sa_status a \<in> {A_CONFIRMED, A_COMPLETED, A_NO_SHOW} \<and> att = attendance_of (sa_id a) d0
    \<and> \<not> (\<exists>r \<in> set (reports d). rp_shift r = sid \<and> rp_status r = ''finalised'')"
proof -
  from assms have f: "find (\<lambda>a. sa_shift a = sid \<and> sa_staff a = staff \<and> sa_status a \<in> set SEAT_REPORT_STATUSES) (assignments d) = Some a"
    and x: "ae_may_edit env" "find_shift sid d0 = Some s" "canReadShift env ctx s d0" "att = attendance_of (sa_id a) d0"
      "\<not> (\<exists>r \<in> set (reports d). rp_shift r = sid \<and> rp_status r = ''finalised'')"
    unfolding lockSeat_def assertShiftOwned_def bindE_Inr_iff from_option_Inr_iff require_Inr_iff sum.inject prod.inject by auto
  show ?thesis using find_Some_mem [OF f] x by (auto simp: SEAT_REPORT_STATUSES_def)
qed

definition set_reviewed :: "(int \<times> string) option \<Rightarrow> assignment_row \<Rightarrow> assignment_row" where
  "set_reviewed rv x = x\<lparr>sa_reviewed_at := map_option fst rv, sa_reviewed_by := map_option snd rv\<rparr>"

lemma set_reviewed_simps [simp]: "sa_status (set_reviewed rv x) = sa_status x" "sa_id (set_reviewed rv x) = sa_id x"
  "sa_reviewed_at (set_reviewed rv x) = map_option fst rv" "seat_ident (set_reviewed rv x) = seat_ident x" "sa_shift (set_reviewed rv x) = sa_shift x"
  by (simp_all add: set_reviewed_def seat_ident_def)

lemma set_review_Inr:
  "set_review k rv d = Inr d' \<longleftrightarrow> d' = d\<lparr>assignments := update_where (\<lambda>a. sa_id a = k) (set_reviewed rv) (assignments d)\<rparr>
     \<and> no_double_booking (assignments d')"
  unfolding set_review_def set_reviewed_def [abs_def] by (rule update_assignment_Inr)

lemma seat_upd_reviewed: "seat_upd (set_reviewed rv)"
  by (simp add: seat_upd_def)

lemma reviewAttendance_shape:
  assumes "reviewAttendance env ctx clk sid staff d0 d = Inr d'"
  obtains (earlier) s a att where "lockSeat env ctx sid staff ''This shift report has been finalised; attendance can no longer be reviewed.'' d0 d = Inr (s, a, att)"
      and "sa_reviewed_at a \<noteq> None" and "d' = d"
  | (reviewed) s a att evs where "lockSeat env ctx sid staff ''This shift report has been finalised; attendance can no longer be reviewed.'' d0 d = Inr (s, a, att)"
      and "sh_starts_at s \<le> tx_now clk" and "case att of None \<Rightarrow> sa_status a = A_NO_SHOW | Some t \<Rightarrow> \<not> active t"
      and "sa_status a \<noteq> A_NO_SHOW \<Longrightarrow> \<exists>t. att = Some t \<and> at_clock_out_at t \<noteq> None"
      and "d' = emit evs (d\<lparr>assignments := update_where (\<lambda>x. sa_id x = sa_id a) (set_reviewed (Some (tx_now clk, cx_user ctx))) (assignments d)\<rparr>)"
      and "no_double_booking (assignments d')"
proof -
  from assms [unfolded reviewAttendance_def bindE_Inr_iff] obtain p where
    p: "lockSeat env ctx sid staff ''This shift report has been finalised; attendance can no longer be reviewed.'' d0 d = Inr p"
    and k: "(case p of (s, a, att) \<Rightarrow>
     bindE (require (sh_starts_at s \<le> tx_now clk) (Conflict ''Attendance can be reviewed once the shift has started.'')) (\<lambda>_.
     if sa_reviewed_at a \<noteq> None then Inr d
     else
       bindE (require (\<not> (case att of None \<Rightarrow> False | Some t \<Rightarrow> active t))
                (Conflict ''This staff member is still clocked in. Their attendance can be reviewed after they clock out.'')) (\<lambda>_.
       bindE (require (\<not> (sa_status a \<noteq> A_NO_SHOW \<and> (case att of None \<Rightarrow> True | Some t \<Rightarrow> at_clock_out_at t = None)))
                (Conflict (case att of None \<Rightarrow> ''No attendance has been recorded yet. Record the attendance, or confirm the no-show.''
                   | Some _ \<Rightarrow> ''The clock-out time is missing. Add it as a correction before marking attendance as reviewed.''))) (\<lambda>_.
       bindE (set_review (sa_id a) (Some (tx_now clk, cx_user ctx)) d) (\<lambda>d1.
       Inr (emit [Audit ATTENDANCE_REVIEWED (sa_id a) (audit_actor ctx)] d1)))))) = Inr d'"
    by blast
  obtain s a att where p': "p = (s, a, att)" by (cases p)
  show ?thesis
  proof (cases "sa_reviewed_at a \<noteq> None")
    case True
    then show ?thesis using earlier [OF p [unfolded p'] True] k by (simp add: p' bindE_Inr_iff)
  next
    case False
    then show ?thesis
      using k reviewed [OF p [unfolded p']]
      by (cases att) (auto simp: p' bindE_Inr_iff require_Inr_iff set_review_Inr)
  qed
qed

lemma dbok_reviewAttendance:
  assumes db_ok: "db_ok d" and r: "reviewAttendance env ctx clk sid staff d0 d = Inr d'"
  shows "db_ok d' \<and> older d d' \<and> advances d d'"
  using r
proof (cases rule: reviewAttendance_shape)
  case (earlier s a att)
  then show ?thesis using db_ok older_refl advances_refl by simp
next
  case (reviewed s a att evs)
  note l = lockSeat_shape [OF reviewed(1)]
  have a: "a \<in> set (assignments d)" using l by blast
  show ?thesis
    by (rule dbok_seat_only [OF db_ok a seat_upd_reviewed [of "Some (tx_now clk, cx_user ctx)"]])
      (use l reviewed(5,6) in \<open>auto simp: occupiedSeatSql_def\<close>)
qed

text \<open>A confirmed no-show. The seat had no attendance in the snapshot of the locking statement.\<close>

lemma confirmNoShow_shape:
  assumes "confirmNoShow env ctx clk sid staff d0 d = Inr d'"
  obtains (already) s a where "lockSeat env ctx sid staff ''This shift report has been finalised; attendance can no longer be changed.'' d0 d = Inr (s, a, None)"
      and "confirmed_no_show a" and "d' = d"
  | (confirmed) s a g evs where "lockSeat env ctx sid staff ''This shift report has been finalised; attendance can no longer be changed.'' d0 d = Inr (s, a, None)"
      and "seat_upd g" and "sa_status a = A_CONFIRMED \<or> sa_status a = A_NO_SHOW"
      and "sa_status a = A_CONFIRMED \<Longrightarrow> startsAt (assignmentTimeSql (sa_period a) (shift_window s)) + NO_SHOW_GRACE_MINUTES * 60000 \<le> tx_now clk"
      and "confirmed_no_show (g a)" and "d' = emit evs (d\<lparr>assignments := update_where (\<lambda>x. sa_id x = sa_id a) g (assignments d)\<rparr>)"
      and "no_double_booking (assignments d')"
proof -
  let ?msg = "''This shift report has been finalised; attendance can no longer be changed.''"
  let ?flip = "\<lambda>x. if sa_status x = A_CONFIRMED then x\<lparr>sa_status := A_NO_SHOW\<rparr> else x"
  let ?rv = "set_reviewed (Some (tx_now clk, cx_user ctx))"
  from assms [unfolded confirmNoShow_def bindE_Inr_iff] obtain p where p: "lockSeat env ctx sid staff ?msg d0 d = Inr p"
    and k: "(case p of (s, a, att) \<Rightarrow>
     bindE (require (att = None)
       (Conflict ''Attendance has been recorded for this staff member, so they cannot be confirmed as a no-show. Review the recorded attendance instead.'')) (\<lambda>_.
     if confirmed_no_show a then Inr d
     else
       bindE (if sa_status a = A_CONFIRMED
              then
                bindE (require (startsAt (assignmentTimeSql (sa_period a) (shift_window s)) + NO_SHOW_GRACE_MINUTES * 60000 \<le> tx_now clk)
                         (Conflict ''A no-show can be confirmed 30 minutes after the scheduled start.'')) (\<lambda>_.
                bindE (assertSeat A_CONFIRMED A_NO_SHOW) (\<lambda>_. update_assignment (sa_id a) ?flip d))
              else bindE (require (sa_status a = A_NO_SHOW)
                     (Conflict ''This staff member cannot be confirmed as a no-show in their current booking state.'')) (\<lambda>_. Inr d)) (\<lambda>d1.
       bindE (set_review (sa_id a) (Some (tx_now clk, cx_user ctx)) d1) (\<lambda>d2.
       Inr (emit [Audit ATTENDANCE_NO_SHOW_CONFIRMED (sa_id a) (audit_actor ctx)] d2))))) = Inr d'"
    by blast
  obtain s a att where p': "p = (s, a, att)" by (cases p)
  have att: "att = None" using k by (auto simp: p' bindE_Inr_iff require_Inr_iff)
  note l = p [unfolded p' att]
  show ?thesis
  proof (cases "confirmed_no_show a")
    case True
    then show ?thesis using already [OF l] k by (simp add: p' att)
  next
    case False
    then obtain d1 d2 where 1: "(if sa_status a = A_CONFIRMED
              then
                bindE (require (startsAt (assignmentTimeSql (sa_period a) (shift_window s)) + NO_SHOW_GRACE_MINUTES * 60000 \<le> tx_now clk)
                         (Conflict ''A no-show can be confirmed 30 minutes after the scheduled start.'')) (\<lambda>_.
                bindE (assertSeat A_CONFIRMED A_NO_SHOW) (\<lambda>_. update_assignment (sa_id a) ?flip d))
              else bindE (require (sa_status a = A_NO_SHOW)
                     (Conflict ''This staff member cannot be confirmed as a no-show in their current booking state.'')) (\<lambda>_. Inr d)) = Inr d1"
      and 2: "set_review (sa_id a) (Some (tx_now clk, cx_user ctx)) d1 = Inr d2"
      and 3: "d' = emit [Audit ATTENDANCE_NO_SHOW_CONFIRMED (sa_id a) (audit_actor ctx)] d2"
      using k by (auto simp: p' att bindE_Inr_iff)
    note 2 = 2 [unfolded set_review_Inr]
    show ?thesis
    proof (cases "sa_status a = A_CONFIRMED")
      case True
      note u = 1 [unfolded if_P [OF True] bindE_Inr_iff require_Inr_iff update_assignment_Inr]
      have e: "assignments d2 = update_where (\<lambda>x. sa_id x = sa_id a) (\<lambda>x. ?rv (?flip x)) (assignments d)"
        using u 2 by (auto simp: update_where_comp)
      have g: "seat_upd (\<lambda>x. ?rv (?flip x))" by (simp add: seat_upd_def) (simp add: seat_ident_def)
      have d2: "d2 = d\<lparr>assignments := update_where (\<lambda>x. sa_id x = sa_id a) (\<lambda>x. ?rv (?flip x)) (assignments d)\<rparr>"
        using u 2 e by auto
      show ?thesis
        by (rule confirmed [OF l g]) (use True u 2 in \<open>auto simp: confirmed_no_show_def 3 d2 [symmetric]\<close>)
    next
      case False
      then have "d1 = d" "sa_status a = A_NO_SHOW" using 1 by (auto simp: bindE_Inr_iff require_Inr_iff)
      then show ?thesis
        by (intro confirmed [OF l seat_upd_reviewed [of "Some (tx_now clk, cx_user ctx)"]]) (use 2 in \<open>auto simp: confirmed_no_show_def 3\<close>)
    qed
  qed
qed

lemma attendance_of_None: "attendance_of aid d = None \<longleftrightarrow> \<not> has_attendance aid d"
  by (auto simp: attendance_of_def has_attendance_def find_None_iff)

lemma dbok_confirmNoShow:
  assumes db_ok: "db_ok d" and fresh: "\<And>aid. has_attendance aid d0 = has_attendance aid d"
    and c: "confirmNoShow env ctx clk sid staff d0 d = Inr d'"
  shows "db_ok d' \<and> older d d' \<and> advances d d'"
  using c
proof (cases rule: confirmNoShow_shape)
  case (already s a)
  then show ?thesis using db_ok older_refl advances_refl by simp
next
  case (confirmed s a g evs)
  note l = lockSeat_shape [OF confirmed(1)]
  have a: "a \<in> set (assignments d)" using l by blast
  have na: "\<not> has_attendance (sa_id a) d" using l attendance_of_None [of "sa_id a" d0] fresh by auto
  show ?thesis
    by (rule dbok_seat_only [OF db_ok a confirmed(2) _ _ _ _ _ _ notE [OF na] confirmed(7)])
      (use confirmed(3,5,6) in \<open>auto simp: occupiedSeatSql_def confirmed_no_show_def\<close>)
qed

lemma reopenNoShow_shape:
  assumes "reopenNoShow env ctx sid staff reason d0 d = Inr d'"
  obtains s a att evs where "lockSeat env ctx sid staff ''This shift report has been finalised; the no-show can no longer be reopened.'' d0 d = Inr (s, a, att)"
    and "confirmed_no_show a" and "1 \<le> va_vacancy (loadShiftVacancy sid d)"
    and "d' = emit evs (d\<lparr>assignments := update_where (\<lambda>x. sa_id x = sa_id a) (set_reviewed None) (assignments d)\<rparr>)"
    and "no_double_booking (assignments d')"
proof -
  from assms [unfolded reopenNoShow_def bindE_Inr_iff] obtain p where
    p: "lockSeat env ctx sid staff ''This shift report has been finalised; the no-show can no longer be reopened.'' d0 d = Inr p"
    and k: "(case p of (s, a, att) \<Rightarrow>
     bindE (require (confirmed_no_show a) (Conflict ''Only a confirmed no-show can be reopened.'')) (\<lambda>_.
     bindE (require (1 \<le> va_vacancy (loadShiftVacancy sid d))
              (CodedConflict ''SEAT_TAKEN_BY_REPLACEMENT''
                 ''A replacement already holds this staff member's seat, so the no-show can no longer be reopened.'')) (\<lambda>_.
     bindE (set_review (sa_id a) None d) (\<lambda>d1.
     Inr (emit [Audit ATTENDANCE_NO_SHOW_REOPENED (sa_id a) (audit_actor ctx)] d1))))) = Inr d'"
    by blast
  obtain s a att where p': "p = (s, a, att)" by (cases p)
  show ?thesis
    using k that [OF p [unfolded p']] by (auto simp: p' bindE_Inr_iff require_Inr_iff set_review_Inr)
qed

lemma vacancy_spare:
  assumes "1 \<le> va_vacancy (loadShiftVacancy sid d)" and "find_shift sid d = Some s"
  shows "occupied sid d < sh_required_count s"
  using assms by (simp add: loadShiftVacancy_def vacancyFromCounts_def Let_def)

lemma dbok_reopenNoShow:
  assumes db_ok: "db_ok d" and r: "reopenNoShow env ctx sid staff reason d0 d = Inr d'"
  shows "db_ok d' \<and> older d d' \<and> advances d d'"
  using r
proof (cases rule: reopenNoShow_shape)
  case (1 s a att evs)
  note l = lockSeat_shape [OF 1(1)]
  have a: "a \<in> set (assignments d)" using l by blast
  show ?thesis
    by (rule dbok_seat_only [OF db_ok a seat_upd_reviewed [of None]])
      (use l 1(4,5) vacancy_spare [OF 1(3)] in \<open>auto simp: occupiedSeatSql_def\<close>)
qed

section \<open>Check In and the Worker's no-show\<close>

lemma checkIn_shape:
  assumes "checkIn env ctx clk dto d = Inr (d', st)"
  obtains (again) sp a s v where "find_staff_of_user (cx_user ctx) d = Some sp" and "find_seat (ci_shift dto) (sp_id sp) d = Some a"
      and "find_shift (sa_shift a) d = Some s" and "find_venue (sh_venue s) d = Some v" and "sa_checked_in_at a \<noteq> None"
      and "checkInState env clk a s v True d = Inr st" and "d' = d"
  | (first) sp a s v src ev d1 evs fresh where "find_staff_of_user (cx_user ctx) d = Some sp"
      and "find_seat (ci_shift dto) (sp_id sp) d = Some a" and "find_shift (sa_shift a) d = Some s" and "find_venue (sh_venue s) d = Some v"
      and "sa_checked_in_at a = None" and "checkIn_guards env clk a s d = Inr ()" and "verifyLocation env clk v (ci_fix dto) True None = Inr ev"
      and "checkIn_write clk a src ev d = Inr d1" and "d' = emit evs d1" and "find_assignment (sa_id a) d' = Some fresh"
      and "checkInState env clk fresh s v False d' = Inr st"
proof -
  from assms [unfolded checkIn_def ownStaffProfile_def bindE_Inr_iff from_option_Inr_iff] obtain sp a s v where
    1: "find_staff_of_user (cx_user ctx) d = Some sp" "find_seat (ci_shift dto) (sp_id sp) d = Some a" "find_shift (sa_shift a) d = Some s"
      "find_venue (sh_venue s) d = Some v" and k: "(if sa_checked_in_at a \<noteq> None then bindE (checkInState env clk a s v True d) (\<lambda>st. Inr (d, st))
     else
       bindE (checkIn_guards env clk a s d) (\<lambda>_.
       bindE (case ci_qr dto of None \<Rightarrow> Inr ''staff''
                | Some token \<Rightarrow> bindE (validateQr env (sh_id s) token d) (\<lambda>_. Inr ''qr'')) (\<lambda>source.
       bindE (verifyLocation env clk v (ci_fix dto) True None) (\<lambda>evidence.
       bindE (checkIn_write clk a source evidence d) (\<lambda>d1.
       let d2 = emit [Audit STAFF_CHECKED_IN (sa_id a) (audit_actor ctx)] d1 in
       bindE (from_option ROW_NOT_FOUND (find_assignment (sa_id a) d2)) (\<lambda>fresh.
       bindE (checkInState env clk fresh s v False d2) (\<lambda>st. Inr (d2, st)))))))) = Inr (d', st)"
    by blast
  show ?thesis
  proof (cases "sa_checked_in_at a \<noteq> None")
    case True
    from k [unfolded if_P [OF True] bindE_Inr_iff sum.inject prod.inject] have "checkInState env clk a s v True d = Inr st" "d' = d" by auto
    then show ?thesis by (rule again [OF 1 True])
  next
    case False
    note k = k [unfolded if_not_P [OF False] Let_def bindE_Inr_iff from_option_Inr_iff sum.inject prod.inject]
    then obtain u src ev d1 fresh where g: "checkIn_guards env clk a s d = Inr u"
      and ev: "verifyLocation env clk v (ci_fix dto) True None = Inr ev" and w: "checkIn_write clk a src ev d = Inr d1"
      and f: "find_assignment (sa_id a) (emit [Audit STAFF_CHECKED_IN (sa_id a) (audit_actor ctx)] d1) = Some fresh"
      and st: "checkInState env clk fresh s v False (emit [Audit STAFF_CHECKED_IN (sa_id a) (audit_actor ctx)] d1) = Inr st"
      and d': "emit [Audit STAFF_CHECKED_IN (sa_id a) (audit_actor ctx)] d1 = d'"
      by blast
    show ?thesis by (rule first [OF 1 _ _ ev w d' [symmetric]]) (use False g f st d' in auto)
  qed
qed

lemma checkIn_write_shape:
  assumes "checkIn_write clk a src ev d = Inr d'"
  obtains g where "seat_upd g" and "\<forall>x. sa_status (g x) = sa_status x \<and> sa_reviewed_at (g x) = sa_reviewed_at x"
    and "d' = d\<lparr>assignments := update_where (\<lambda>x. sa_id x = sa_id a) g (assignments d)\<rparr>" and "no_double_booking (assignments d')"
    and "\<forall>x. sa_status x = A_CONFIRMED \<and> sa_checked_in_at x = None \<and> sa_id x = sa_id a \<longrightarrow> sa_checked_in_at (g x) = Some (tx_now clk)
      \<and> sa_check_in_location_verified (g x) = Some (se_verified ev) \<and> sa_check_in_source (g x) = Some src"
proof -
  from assms obtain di ac where u: "update_assignment (sa_id a) (\<lambda>x. if sa_id x = sa_id a \<and> sa_status x = A_CONFIRMED \<and> sa_checked_in_at x = None
       then x\<lparr>sa_checked_in_at := Some (tx_now clk), sa_check_in_source := Some src,
              sa_check_in_location_verified := Some (se_verified ev), sa_check_in_distance_m := di,
              sa_check_in_accuracy_m := ac, sa_check_in_captured_at := se_capturedAt ev\<rparr> else x) d = Inr d'"
    by (auto simp: checkIn_write_def Let_def bindE_Inr_iff)
  show ?thesis
    by (rule that [OF _ _ conjunct1 [OF u [unfolded update_assignment_Inr]] conjunct2 [OF u [unfolded update_assignment_Inr]]])
      (simp_all add: seat_upd_def seat_ident_def)
qed

lemma find_seatD: "find_seat sid staff d = Some a \<Longrightarrow> a \<in> set (assignments d) \<and> sa_shift a = sid \<and> sa_staff a = staff"
  unfolding find_seat_def by (drule find_Some_mem) simp

lemma dbok_checkIn:
  assumes db_ok: "db_ok d" and c: "checkIn env ctx clk dto d = Inr (d', st)"
  shows "db_ok d' \<and> older d d' \<and> advances d d'"
  using c
proof (cases rule: checkIn_shape)
  case (again sp a s v)
  then show ?thesis using db_ok older_refl advances_refl by simp
next
  case (first sp a s v src ev d1 evs fresh)
  obtain g where g: "seat_upd g" "\<forall>x. sa_status (g x) = sa_status x \<and> sa_reviewed_at (g x) = sa_reviewed_at x"
    "d1 = d\<lparr>assignments := update_where (\<lambda>x. sa_id x = sa_id a) g (assignments d)\<rparr>" "no_double_booking (assignments d1)"
    by (rule checkIn_write_shape [OF first(8)])
  have "sa_status a = A_CONFIRMED" using first(6) by (auto simp: checkIn_guards_def bindE_Inr_iff require_Inr_iff)
  then show ?thesis
    using dbok_seat_only [OF db_ok conjunct1 [OF find_seatD [OF first(2)]] g(1), of d'] g(2-4) first(9)
    by (simp add: occupiedSeatSql_def)
qed

lemma flip_no_show_shape:
  assumes "flip_no_show org a s u d = Inr (d', b)"
  obtains "d' = d" and "\<not> b"
  | evs where "b" and "d' = emit evs (d\<lparr>assignments := update_where (\<lambda>x. sa_id x = sa_id a)
        (\<lambda>x. if sa_status x = A_CONFIRMED then x\<lparr>sa_status := A_NO_SHOW\<rparr> else x) (assignments d)\<rparr>)" and "no_double_booking (assignments d')"
  using assms by (auto simp: flip_no_show_def bindE_Inr_iff update_assignment_Inr split: if_splits)

lemma loadReminderCandidate_shape:
  assumes "loadReminderCandidate aid d = Some (a, s, u)"
  shows "find_assignment aid d = Some a \<and> sa_status a = A_CONFIRMED \<and> find_shift (sa_shift a) d = Some s"
  using assms by (auto simp: loadReminderCandidate_def split: option.splits if_splits)

lemma flagNoShowLoaded_shape:
  assumes "flagNoShowLoaded clk org a0 ms ev d0 d = Inr (d', ev', b)"
  obtains (nothing) "d' = d" and "\<not> b"
  | (flip) a s u where "loadReminderCandidate (sa_id a0) d = Some (a, s, u)" and "\<not> has_attendance (sa_id a) d"
      and "sa_checked_in_at a = None" and "flip_no_show org a s u d = Inr (d', b)" and "no_show_key (sa_id a0) \<notin> set ev"
      and "ev' = no_show_key (sa_id a0) # ev" and "NO_SHOW_GRACE_MINUTES * 60000 \<le> - ms"
proof -
  let ?skip = "- ms < NO_SHOW_GRACE_MINUTES * 60000 \<or> sa_checked_in_at a0 \<noteq> None \<or> has_attendance (sa_id a0) d0 \<or> no_show_key (sa_id a0) \<in> set ev"
  note f = assms [unfolded flagNoShowLoaded_def Let_def]
  show ?thesis
  proof (cases ?skip)
    case True
    from f [unfolded if_P [OF True]] have "d' = d" "\<not> b" by auto
    then show ?thesis by (rule nothing)
  next
    case False
    note f = f [unfolded if_not_P [OF False]]
    show ?thesis
    proof (cases "loadReminderCandidate (sa_id a0) d")
      case None
      have "d' = d" "\<not> b" using f by (auto simp: None)
      then show ?thesis by (rule nothing)
    next
      case (Some x)
      obtain a s u where x: "x = (a, s, u)" by (cases x)
      show ?thesis
      proof (cases "sa_checked_in_at a \<noteq> None \<or> has_attendance (sa_id a) d")
        case True
        from f [unfolded Some x option.case prod.case if_P [OF True]] have "d' = d" "\<not> b" by auto
        then show ?thesis by (rule nothing)
      next
        case r: False
        then have "bindE (flip_no_show org a s u d) (\<lambda>(d', b). Inr (d', no_show_key (sa_id a0) # ev, b)) = Inr (d', ev', b)"
          using f by (simp add: Some x)
        then have fl: "flip_no_show org a s u d = Inr (d', b)" "ev' = no_show_key (sa_id a0) # ev" by (auto simp: bindE_Inr_iff)
        show ?thesis by (rule flip [OF Some [unfolded x] _ _ fl(1) _ fl(2)]) (use False r in auto)
      qed
    qed
  qed
qed

lemma dbok_flagNoShowLoaded:
  assumes db_ok: "db_ok d" and f: "flagNoShowLoaded clk org a0 ms ev d0 d = Inr (d', ev', b)"
  shows "db_ok d' \<and> older d d' \<and> advances d d'"
  using f
proof (cases rule: flagNoShowLoaded_shape)
  case nothing
  then show ?thesis using db_ok older_refl advances_refl by simp
next
  case (flip a s u)
  note l = loadReminderCandidate_shape [OF flip(1)]
  have a: "a \<in> set (assignments d)" using l find_assignment_SomeD by blast
  show ?thesis
    using flip(4)
  proof (cases rule: flip_no_show_shape)
    case 1
    then show ?thesis using db_ok older_refl advances_refl by simp
  next
    case (2 evs)
    show ?thesis
      by (rule dbok_seat_only [OF db_ok a _ _ _ _ _ _ _ notE [OF flip(2)] 2(3)])
        (use l 2(2) in \<open>auto simp: seat_upd_def seat_ident_def occupiedSeatSql_def\<close>)
  qed
qed

lemma dbok_flagNoShow:
  assumes db_ok: "db_ok d" and f: "flagNoShowCandidate clk org aid ev d0 d = Inr (d', ev', b)"
  shows "db_ok d' \<and> older d d' \<and> advances d d'"
proof -
  have "d' = d \<or> (\<exists>a ms. flagNoShowLoaded clk org a ms ev d0 d = Inr (d', ev', b))"
  proof (cases "loadReminderCandidate aid d0")
    case None
    then show ?thesis using f by (simp add: flagNoShowCandidate_def)
  next
    case (Some x)
    obtain a s u where x: "x = (a, s, u)" by (cases x)
    show ?thesis
      using f unfolding flagNoShowCandidate_def Some x option.case prod.case Let_def bindE_Inr_iff by (metis prod.inject sum.inject(2))
  qed
  then show ?thesis using db_ok older_refl advances_refl dbok_flagNoShowLoaded by blast
qed

end
