(* ===== verification/Shifts.thy ===== *)
theory Shifts
  imports OfferResponses Attendance
begin

text \<open>
  Shifts before and after their offers (\<open>scheduling.service.ts\<close>, \<open>availability.service.ts\<close>, the venue checks of
  \<open>venue.service.ts\<close>, the combined flows of \<open>offer.service.ts\<close> and the Worker's \<open>shift-cancellation-followup.job.ts\<close>):
  drafts, publication, cancellation, archiving, the requests of a venue manager with their selected staff, their approval
  or decline, creating a shift together with its offers, and closing the seats and offers of a cancelled shift.

  \<open>d0\<close> is the state an unlocked read saw, \<open>d\<close> the state the writes apply to; a read under \<open>pessimistic_write\<close> reads \<open>d\<close>.
  \<open>may\<close> is the answer of the permission service. Display values (names, labels, e-mail flags) are left out of events.
\<close>

section \<open>Scope and archive checks\<close>

definition find_job_role :: "string \<Rightarrow> db \<Rightarrow> job_role_row option" where
  "find_job_role k d = find (\<lambda>r. jr_id r = k) (job_roles d)"

definition assertVenueOwned :: "att_env \<Rightarrow> auth_ctx \<Rightarrow> venue_row \<Rightarrow> db \<Rightarrow> unit res" where
  "assertVenueOwned env ctx v d =
     require (case resolveTx env ctx d of
         OwnerScope _ _ \<Rightarrow> ve_created_by v = Some (cx_user ctx)
       | VenueScope vs \<Rightarrow> ve_id v \<in> set vs) (NotFound ''Venue not found.'')"

definition assertVenueAccessibleTx :: "att_env \<Rightarrow> auth_ctx \<Rightarrow> string \<Rightarrow> db \<Rightarrow> venue_row res" where
  "assertVenueAccessibleTx env ctx venueId d =
     bindE (from_option (NotFound ''Venue not found.'') (find_venue venueId d)) (\<lambda>v.
     bindE (assertVenueOwned env ctx v d) (\<lambda>_. Inr v))"

definition assertVenueNotArchived :: "venue_row \<Rightarrow> unit res" where
  "assertVenueNotArchived v =
     require (\<not> (ve_status v = V_ARCHIVED \<or> ve_archived_at v \<noteq> None))
       (CodedConflict ''VENUE_ARCHIVED'' ''This venue is archived. Restore it before scheduling new shifts.'')"

definition assertJobRoleOwned :: "att_env \<Rightarrow> auth_ctx \<Rightarrow> job_role_row \<Rightarrow> db \<Rightarrow> unit res" where
  "assertJobRoleOwned env ctx r d =
     require (case resolveTx env ctx d of
         VenueScope _ \<Rightarrow> True
       | OwnerScope _ _ \<Rightarrow> jr_created_by r = Some (cx_user ctx)) (NotFound ''Job role not found.'')"

definition assertJobRoleNotArchived :: "job_role_row \<Rightarrow> unit res" where
  "assertJobRoleNotArchived r =
     require (jr_archived_at r = None) (CodedConflict ''JOB_ROLE_ARCHIVED'' ''This job role is archived. Restore it before using it.'')"

definition resolveDraftTargetsTx :: "att_env \<Rightarrow> auth_ctx \<Rightarrow> string \<Rightarrow> string \<Rightarrow> db \<Rightarrow> (venue_row \<times> job_role_row) res" where
  "resolveDraftTargetsTx env ctx venueId jobRoleId d =
     bindE (assertVenueAccessibleTx env ctx venueId d) (\<lambda>v.
     bindE (from_option (NotFound ''Job role not found.'') (find_job_role jobRoleId d)) (\<lambda>r.
     bindE (assertJobRoleOwned env ctx r d) (\<lambda>_.
     bindE (assertVenueNotArchived v) (\<lambda>_.
     bindE (assertJobRoleNotArchived r) (\<lambda>_. Inr (v, r))))))"

text \<open>
  The rate of a new shift: the explicit one, else the venue's latest rate in force on the day the request names, else the
  default of the job role, else 0.
\<close>

definition resolvePayRate :: "string \<Rightarrow> string \<Rightarrow> int \<Rightarrow> int option \<Rightarrow> db \<Rightarrow> int" where
  "resolvePayRate venueId jobRoleId day payRate d =
     (case payRate of
        Some p \<Rightarrow> p
      | None \<Rightarrow>
          (case sort_key (\<lambda>r. - rr_effective_from r)
               (filter (\<lambda>r. rr_venue r = venueId \<and> rr_job_role r = jobRoleId \<and> rr_effective_from r \<le> day
                  \<and> (case rr_effective_to r of None \<Rightarrow> True | Some e \<Rightarrow> day \<le> e)) (role_rates d)) of
             r # _ \<Rightarrow> rr_pay_rate_pence r
           | [] \<Rightarrow> (case find_job_role jobRoleId d of None \<Rightarrow> 0 | Some j \<Rightarrow> jr_default_rate_pence j)))"

text \<open>\<open>findBusyStaffIds\<close>.\<close>

definition findBusyStaffIds :: "string list \<Rightarrow> ScheduledWindow \<Rightarrow> string option \<Rightarrow> db \<Rightarrow> string list" where
  "findBusyStaffIds ids w excludeShift d =
     (if ids = [] then [] else
      remdups (map sa_staff (filter (\<lambda>a. sa_staff a \<in> set ids \<and> sa_status a = A_CONFIRMED
         \<and> periods_overlap (sa_period a) (Some w) \<and> (case excludeShift of None \<Rightarrow> True | Some x \<Rightarrow> sa_shift a \<noteq> x)) (assignments d))))"

section \<open>Writing a shift\<close>

definition insert_shift :: "shift_row \<Rightarrow> db \<Rightarrow> db res" where
  "insert_shift s d =
     (if (\<exists>x \<in> set (shifts d). sh_id x = sh_id s) then Inl UNIQUE_VIOLATION
      else if \<not> shift_checks s then Inl CHECK_VIOLATION
      else Inr (d\<lparr>shifts := shifts d @ [s]\<rparr>))"

text \<open>\<open>UPDATE shift SET ... WHERE id = k AND cond RETURNING id\<close>: the new state and whether a row was claimed.\<close>

definition claim_shift :: "string \<Rightarrow> (shift_row \<Rightarrow> bool) \<Rightarrow> (shift_row \<Rightarrow> shift_row) \<Rightarrow> db \<Rightarrow> (db \<times> bool) res" where
  "claim_shift k cond f d =
     bindE (update_shift k (\<lambda>s. if cond s then f s else s) d) (\<lambda>d'.
     Inr (d', case find_shift k d of None \<Rightarrow> False | Some s \<Rightarrow> cond s))"

definition fresh_shift :: "auth_ctx \<Rightarrow> string \<Rightarrow> venue_row \<Rightarrow> string \<Rightarrow> ScheduledWindow \<Rightarrow> int \<Rightarrow> int \<Rightarrow> int \<Rightarrow> shift_status \<Rightarrow> shift_row" where
  "fresh_shift ctx i v jobRole w brk required pay st =
     \<lparr>sh_id = i, sh_org = cx_org ctx, sh_workspace = ve_workspace v, sh_venue = ve_id v, sh_status = st,
      sh_starts_at = startsAt w, sh_ends_at = endsAt w, sh_default_starts_at = None, sh_default_ends_at = None,
      sh_break_minutes = brk, sh_required_count = required, sh_filled_count = 0, sh_pay_rate_pence = pay,
      sh_created_by = cx_user ctx, sh_job_role = jobRole, sh_charge_rate_pence = 0, sh_notes = None, sh_address = None,
      sh_recurrence_group = None, sh_published_at = None, sh_cancelled_reason = None, sh_cancelled_by = None,
      sh_cancelled_at = None, sh_requested_by = None, sh_approved_at = None, sh_approved_by = None, sh_declined_at = None,
      sh_declined_by = None, sh_declined_reason = None, sh_qr_version = 1, sh_archived_at = None, sh_archived_by = None\<rparr>"

section \<open>Drafts\<close>

text \<open>A create request; \<open>cd_day\<close> is the calendar day in the text of the start, which the rate lookup compares.\<close>

record create_shift_dto =
  cd_venue :: string
  cd_job_role :: string
  cd_starts_at :: int
  cd_ends_at :: int
  cd_day :: int
  cd_break_minutes :: "int option"
  cd_required_count :: int
  cd_pay_rate_pence :: "int option"
  cd_charge_rate_pence :: "int option"
  cd_notes :: "string option"

definition createDraftTx :: "bool \<Rightarrow> att_env \<Rightarrow> auth_ctx \<Rightarrow> string \<Rightarrow> create_shift_dto \<Rightarrow> db \<Rightarrow> (db \<times> shift_row) res" where
  "createDraftTx may env ctx i dto d =
     bindE (require may (Forbidden ''Creating shifts is not permitted.'')) (\<lambda>_.
     bindE (resolveDraftTargetsTx env ctx (cd_venue dto) (cd_job_role dto) d) (\<lambda>(v, _).
     let pay = resolvePayRate (cd_venue dto) (cd_job_role dto) (cd_day dto) (cd_pay_rate_pence dto) d;
         s = (fresh_shift ctx i v (cd_job_role dto) \<lparr>startsAt = cd_starts_at dto, endsAt = cd_ends_at dto\<rparr>
                (case cd_break_minutes dto of None \<Rightarrow> 0 | Some b \<Rightarrow> b) (cd_required_count dto) pay DRAFT)
             \<lparr>sh_charge_rate_pence := (case cd_charge_rate_pence dto of None \<Rightarrow> 0 | Some c \<Rightarrow> c), sh_notes := cd_notes dto\<rparr>
     in bindE (insert_shift s d) (\<lambda>d1. Inr (emit [Audit SHIFT_CREATED i (audit_actor ctx)] d1, s))))"

text \<open>\<open>UpdateDraftShiftDto\<close>: an absent field is unchanged; \<open>Some None\<close> clears the notes.\<close>

record update_draft_dto =
  ud_starts_at :: "js_date option"
  ud_ends_at :: "js_date option"
  ud_break_minutes :: "rat option"
  ud_required_count :: "rat option"
  ud_notes :: "string option option"

definition draft_fields_changed :: "update_draft_dto \<Rightarrow> bool" where
  "draft_fields_changed dto \<longleftrightarrow> ud_starts_at dto \<noteq> None \<or> ud_ends_at dto \<noteq> None \<or> ud_break_minutes dto \<noteq> None
     \<or> ud_required_count dto \<noteq> None \<or> ud_notes dto \<noteq> None"

definition getOwnDraftTx :: "att_env \<Rightarrow> auth_ctx \<Rightarrow> string \<Rightarrow> db \<Rightarrow> shift_row res" where
  "getOwnDraftTx env ctx i d =
     bindE (from_option (NotFound ''Shift not found.'') (find_shift i d)) (\<lambda>s.
     bindE (assertShiftOwned env ctx s d) (\<lambda>_.
     bindE (require (sh_archived_at s = None) (CodedConflict ''SHIFT_ARCHIVED'' ''This draft shift is archived. Restore it before editing.'')) (\<lambda>_.
     bindE (require (sh_status s = DRAFT) (CodedConflict ''SHIFT_NOT_DRAFT'' ''Only draft shifts can be edited.'')) (\<lambda>_.
     Inr s))))"

definition date_or :: "js_date option \<Rightarrow> int \<Rightarrow> int" where
  "date_or x dflt = (case x of Some (Time t) \<Rightarrow> t | _ \<Rightarrow> dflt)"

text \<open>The checks of the request before any row is read.\<close>

definition check_draft_update :: "bool \<Rightarrow> update_draft_dto \<Rightarrow> unit res" where
  "check_draft_update may dto =
     bindE (require may (Forbidden ''Editing shifts is not permitted.'')) (\<lambda>_.
     bindE (require (draft_fields_changed dto) (BadRequest ''Name at least one field to change.'')) (\<lambda>_.
     bindE (require (ud_starts_at dto \<noteq> Some InvalidDate \<and> ud_ends_at dto \<noteq> Some InvalidDate)
        (BadRequest ''Start and end must be valid dates.'')) (\<lambda>_.
     bindE (require (case ud_break_minutes dto of None \<Rightarrow> True | Some b \<Rightarrow> is_integer b \<and> 0 \<le> b)
        (BadRequest ''Break minutes must be a whole number of at least 0.'')) (\<lambda>_.
     require (case ud_required_count dto of None \<Rightarrow> True | Some n \<Rightarrow> is_integer n \<and> 1 \<le> n)
        (BadRequest ''The number of people needed must be a whole number of at least 1.'')))))"

text \<open>The five columns the update writes: the given ones, the others from the row it read.\<close>

definition draft_edit :: "update_draft_dto \<Rightarrow> shift_row \<Rightarrow> shift_row \<Rightarrow> shift_row" where
  "draft_edit dto s0 s = s\<lparr>sh_starts_at := date_or (ud_starts_at dto) (sh_starts_at s0), sh_ends_at := date_or (ud_ends_at dto) (sh_ends_at s0),
     sh_break_minutes := (case ud_break_minutes dto of None \<Rightarrow> sh_break_minutes s0 | Some b \<Rightarrow> \<lfloor>b\<rfloor>),
     sh_required_count := (case ud_required_count dto of None \<Rightarrow> sh_required_count s0 | Some n \<Rightarrow> \<lfloor>n\<rfloor>),
     sh_notes := (case ud_notes dto of None \<Rightarrow> sh_notes s0 | Some n \<Rightarrow> n)\<rparr>"

definition updateDraftTx :: "bool \<Rightarrow> att_env \<Rightarrow> auth_ctx \<Rightarrow> string \<Rightarrow> update_draft_dto \<Rightarrow> db \<Rightarrow> db \<Rightarrow> (db \<times> shift_row) res" where
  "updateDraftTx may env ctx i dto d0 d =
     bindE (check_draft_update may dto) (\<lambda>_.
     bindE (getOwnDraftTx env ctx i d0) (\<lambda>s0.
     bindE (require (date_or (ud_starts_at dto) (sh_starts_at s0) < date_or (ud_ends_at dto) (sh_ends_at s0))
        (BadRequest ''A shift must end after it starts.'')) (\<lambda>_.
     bindE (claim_shift i (\<lambda>s. sh_status s = DRAFT \<and> sh_archived_at s = None) (draft_edit dto s0) d) (\<lambda>(d1, claimed).
     bindE (require claimed (Conflict ''This shift changed while it was being edited - please refresh.'')) (\<lambda>_.
     let d2 = emit [Audit SHIFT_DRAFT_UPDATED i (audit_actor ctx)] d1
     in bindE (from_option ROW_NOT_FOUND (find_shift i d2)) (\<lambda>s'. Inr (d2, s')))))))"

section \<open>Publishing, cancelling, archiving\<close>

text \<open>The status check is on the row read before; the update itself is unconditional.\<close>

definition publish :: "bool \<Rightarrow> att_env \<Rightarrow> auth_ctx \<Rightarrow> clock \<Rightarrow> string \<Rightarrow> db \<Rightarrow> db \<Rightarrow> (db \<times> shift_row) res" where
  "publish may env ctx clk i d0 d =
     bindE (require may (Forbidden ''Publishing shifts is not permitted.'')) (\<lambda>_.
     bindE (from_option (NotFound ''Shift not found.'') (find_shift i d0)) (\<lambda>s0.
     bindE (assertShiftOwned env ctx s0 d0) (\<lambda>_.
     bindE (require (sh_archived_at s0 = None) (CodedConflict ''SHIFT_ARCHIVED'' ''This draft shift is archived. Restore it before publishing.'')) (\<lambda>_.
     bindE (assertShift (sh_status s0) OPEN) (\<lambda>_.
     bindE (update_shift i (\<lambda>s. s\<lparr>sh_status := OPEN, sh_published_at := Some (node_now clk)\<rparr>) d) (\<lambda>d1.
     let d2 = emit [Audit SHIFT_PUBLISHED i (audit_actor ctx), Realtime ''shift.updated'' i] d1
     in bindE (from_option ROW_NOT_FOUND (find_shift i d2)) (\<lambda>s'. Inr (d2, s'))))))))"

definition cancel :: "att_env \<Rightarrow> auth_ctx \<Rightarrow> clock \<Rightarrow> string \<Rightarrow> string option \<Rightarrow> db \<Rightarrow> db \<Rightarrow> (db \<times> shift_row) res" where
  "cancel env ctx clk i reason d0 d =
     bindE (from_option (NotFound ''Shift not found.'') (find_shift i d0)) (\<lambda>s0.
     bindE (assertShiftOwned env ctx s0 d0) (\<lambda>_.
     bindE (assertShift (sh_status s0) CANCELLED) (\<lambda>_.
     bindE (claim_shift i (\<lambda>s. sh_status s = sh_status s0) (\<lambda>s. s\<lparr>sh_status := CANCELLED, sh_cancelled_reason := reason,
              sh_cancelled_by := Some (cx_user ctx), sh_cancelled_at := Some (tx_now clk)\<rparr>) d) (\<lambda>(d1, claimed).
     bindE (if claimed then Inr ()
            else bindE (from_option ROW_NOT_FOUND (find_shift i d1)) (\<lambda>current.
              Inl (Conflict (if sh_status current = CANCELLED then ''This shift has already been cancelled.''
                             else ''This shift's status changed and can no longer be cancelled from here - please refresh.'')))) (\<lambda>_.
     let d2 = emit [Audit AU_SHIFT_CANCELLED i (audit_actor ctx), Realtime ''shift.cancelled'' i] d1
     in bindE (from_option ROW_NOT_FOUND (find_shift i d2)) (\<lambda>s'. Inr (d2, s')))))))"

abbreviation "assertArchive \<equiv> assertTransition archive_state_str ARCHIVE_TRANSITIONS"

abbreviation shift_archive_state :: "shift_row \<Rightarrow> archive_state" where
  "shift_archive_state s \<equiv> archiveStateOf (map_option Inl (sh_archived_at s))"

definition archiveShift :: "bool \<Rightarrow> att_env \<Rightarrow> auth_ctx \<Rightarrow> clock \<Rightarrow> string \<Rightarrow> db \<Rightarrow> db \<Rightarrow> (db \<times> shift_row) res" where
  "archiveShift may env ctx clk i d0 d =
     bindE (require may (Forbidden ''Managing shifts is not permitted.'')) (\<lambda>_.
     bindE (from_option (NotFound ''Shift not found.'') (find_shift i d0)) (\<lambda>s0.
     bindE (assertShiftOwned env ctx s0 d0) (\<lambda>_.
     bindE (require (sh_status s0 = DRAFT)
        (CodedConflict ''SHIFT_NOT_DRAFT'' ''Only draft shifts can be archived. Cancel a published shift instead.'')) (\<lambda>_.
     bindE (assertArchive (shift_archive_state s0) AR_ARCHIVED) (\<lambda>_.
     bindE (claim_shift i (\<lambda>s. sh_status s = DRAFT \<and> sh_archived_at s = None)
              (\<lambda>s. s\<lparr>sh_archived_at := Some (tx_now clk), sh_archived_by := Some (cx_user ctx)\<rparr>) d) (\<lambda>(d1, claimed).
     bindE (require claimed (Conflict ''This shift changed while it was being archived - please refresh.'')) (\<lambda>_.
     let d2 = emit [Audit SHIFT_ARCHIVED i (audit_actor ctx)] d1
     in bindE (from_option ROW_NOT_FOUND (find_shift i d2)) (\<lambda>s'. Inr (d2, s')))))))))"

definition restoreShift :: "bool \<Rightarrow> att_env \<Rightarrow> auth_ctx \<Rightarrow> string \<Rightarrow> db \<Rightarrow> db \<Rightarrow> (db \<times> shift_row) res" where
  "restoreShift may env ctx i d0 d =
     bindE (require may (Forbidden ''Managing shifts is not permitted.'')) (\<lambda>_.
     bindE (from_option (NotFound ''Shift not found.'') (find_shift i d0)) (\<lambda>s0.
     bindE (assertShiftOwned env ctx s0 d0) (\<lambda>_.
     bindE (assertArchive (shift_archive_state s0) AR_ACTIVE) (\<lambda>_.
     bindE (case find_venue (sh_venue s0) d0 of None \<Rightarrow> Inr () | Some v \<Rightarrow> assertVenueNotArchived v) (\<lambda>_.
     bindE (claim_shift i (\<lambda>s. sh_archived_at s \<noteq> None) (\<lambda>s. s\<lparr>sh_archived_at := None, sh_archived_by := None\<rparr>) d) (\<lambda>(d1, claimed).
     bindE (require claimed (Conflict ''This shift changed while it was being restored - please refresh.'')) (\<lambda>_.
     let d2 = emit [Audit SHIFT_RESTORED i (audit_actor ctx)] d1
     in bindE (from_option ROW_NOT_FOUND (find_shift i d2)) (\<lambda>s'. Inr (d2, s')))))))))"


section \<open>Shift requests of a venue manager\<close>

text \<open>In order, until one fails.\<close>

fun each :: "('a \<Rightarrow> 's \<Rightarrow> 's res) \<Rightarrow> 'a list \<Rightarrow> 's \<Rightarrow> 's res" where
  "each f [] d = Inr d"
| "each f (x # xs) d = bindE (f x d) (each f xs)"

definition assertStaffSelectable :: "string list \<Rightarrow> string option \<Rightarrow> db \<Rightarrow> unit res" where
  "assertStaffSelectable ids workspace d =
     bindE (require (workspace \<noteq> None)
        (BadRequest ''This venue has no assigned workspace yet - staff cannot be selected.'')) (\<lambda>_.
     require (\<forall>i \<in> set ids. \<exists>sp \<in> set (staff_profiles d). \<exists>u \<in> set (users d). sp_id sp = i \<and> us_id u = sp_user sp
         \<and> sp_workspace sp = workspace \<and> us_status u = U_ACTIVE \<and> sp_employment sp = E_ACTIVE)
       (BadRequest ''One or more selected staff are not available to select.''))"

definition assertStaffAvailable :: "string list \<Rightarrow> ScheduledWindow \<Rightarrow> string option \<Rightarrow> db \<Rightarrow> unit res" where
  "assertStaffAvailable ids w excludeShift d =
     require (findBusyStaffIds ids w excludeShift d = [])
       (Conflict ''One or more selected staff are no longer available for this time - they may already be confirmed on another shift.'')"

definition request_checks :: "request_row \<Rightarrow> bool" where
  "request_checks q \<longleftrightarrow> (case (rq_starts_at q, rq_ends_at q) of (None, None) \<Rightarrow> True | (Some a, Some b) \<Rightarrow> a < b | _ \<Rightarrow> False)
     \<and> (case rq_break_minutes q of None \<Rightarrow> True | Some b \<Rightarrow> 0 \<le> b)"

definition insert_request :: "request_row \<Rightarrow> db \<Rightarrow> db res" where
  "insert_request q d =
     (if (\<exists>x \<in> set (request_staff d). rq_shift x = rq_shift q \<and> rq_staff x = rq_staff q) then Inl UNIQUE_VIOLATION
      else if \<not> request_checks q then Inl CHECK_VIOLATION
      else Inr (d\<lparr>request_staff := request_staff d @ [q]\<rparr>))"

definition requests_of :: "string \<Rightarrow> db \<Rightarrow> request_row list" where
  "requests_of sid d = filter (\<lambda>q. rq_shift q = sid) (request_staff d)"

definition APPROVER_TYPES :: "string list" where "APPROVER_TYPES = [''internal'', ''ceo'']"

definition listApprovers :: "db \<Rightarrow> string list" where
  "listApprovers d = map mp_user (filter (\<lambda>m. mp_type m \<in> set APPROVER_TYPES) (managers d))"

record submit_request_dto =
  sr_venue :: string
  sr_job_role :: string
  sr_starts_at :: "int option" \<comment> \<open>\<open>None\<close>: an invalid date\<close>
  sr_ends_at :: "int option"
  sr_day :: int
  sr_staff_required :: int
  sr_staff_ids :: "string list"
  sr_break_minutes :: "int option"
  sr_assignments :: "(string \<times> proposed_time) list"
  sr_acks :: "(string \<times> string list) list"
  sr_has_pay :: bool \<comment> \<open>the object carries a \<open>payRatePence\<close>\<close>

text \<open>The window of each selected staff member, checked in the order of the selection.\<close>

fun request_windows ::
  "int option \<Rightarrow> int option \<Rightarrow> rat \<Rightarrow> (string \<times> proposed_time) list \<Rightarrow> string list \<Rightarrow> (string \<times> ScheduledWindow) list res" where
  "request_windows ps pe brk overrides [] = Inr []"
| "request_windows ps pe brk overrides (i # ids) =
     bindE (case map_of overrides i of
         None \<Rightarrow> validateAssignmentTime ps pe ps pe brk
       | Some p \<Rightarrow> validateAssignmentTime ps pe (pt_start p) (pt_end p) (case pt_break p of None \<Rightarrow> brk | Some b \<Rightarrow> b)) (\<lambda>w.
     bindE (request_windows ps pe brk overrides ids) (\<lambda>ws. Inr ((i, w) # ws)))"

definition request_row_of :: "string \<Rightarrow> string option \<Rightarrow> (string \<times> proposed_time) list \<Rightarrow> string \<times> ScheduledWindow \<Rightarrow> request_row" where
  "request_row_of sid workspace overrides p =
     \<lparr>rq_shift = sid, rq_staff = fst p, rq_workspace = workspace, rq_starts_at = Some (startsAt (snd p)), rq_ends_at = Some (endsAt (snd p)),
      rq_break_minutes = (case map_of overrides (fst p) of None \<Rightarrow> None | Some o' \<Rightarrow> map_option floor (pt_break o'))\<rparr>"

text \<open>The checks of a submission on the selection itself.\<close>

definition check_selection :: "submit_request_dto \<Rightarrow> unit res" where
  "check_selection dto =
     bindE (require (\<not> sr_has_pay dto) (BadRequest ''Venue requests cannot override pay.'')) (\<lambda>_.
     bindE (require (distinct (sr_staff_ids dto) \<and> sr_staff_ids dto \<noteq> [] \<and> int (length (sr_staff_ids dto)) \<le> sr_staff_required dto)
        (BadRequest ''Invalid staff selection.'')) (\<lambda>_.
     require (distinct (map fst (sr_assignments dto)) \<and> set (map fst (sr_assignments dto)) \<subseteq> set (sr_staff_ids dto))
        (BadRequest ''Invalid assignment selection.'')))"

definition submitted_shift ::
  "auth_ctx \<Rightarrow> string \<Rightarrow> venue_row \<Rightarrow> submit_request_dto \<Rightarrow> ScheduledWindow \<Rightarrow> ScheduledWindow list \<Rightarrow> int \<Rightarrow> int \<Rightarrow> shift_row" where
  "submitted_shift ctx i v dto parent windows brk pay =
     (fresh_shift ctx i v (sr_job_role dto) (assignmentEnvelope parent windows) brk (sr_staff_required dto) pay PENDING_MANAGER_APPROVAL)
       \<lparr>sh_default_starts_at := Some (startsAt parent), sh_default_ends_at := Some (endsAt parent), sh_requested_by := Some (cx_user ctx)\<rparr>"

definition submitRequest ::
  "bool \<Rightarrow> att_env \<Rightarrow> (int \<Rightarrow> int \<times> int \<times> int) \<Rightarrow> auth_ctx \<Rightarrow> string \<Rightarrow> submit_request_dto \<Rightarrow> db \<Rightarrow> (db \<times> shift_row) res" where
  "submitRequest may env london ctx i dto d =
     bindE (require may (Forbidden ''You cannot submit shift requests.'')) (\<lambda>_.
     bindE (assertVenueAccessibleTx env ctx (sr_venue dto) d) (\<lambda>v.
     bindE (from_option (NotFound ''Job role not found.'') (find_job_role (sr_job_role dto) d)) (\<lambda>r.
     bindE (assertJobRoleOwned env ctx r d) (\<lambda>_.
     bindE (assertVenueNotArchived v) (\<lambda>_.
     bindE (assertJobRoleNotArchived r) (\<lambda>_.
     bindE (assertVenueTeamSelection ctx (sr_staff_ids dto) (ve_workspace v) d) (\<lambda>_.
     bindE (assertStaffSelectable (sr_staff_ids dto) (ve_workspace v) d) (\<lambda>_.
     bindE (check_selection dto) (\<lambda>_.
     let brk = (case sr_break_minutes dto of Some b \<Rightarrow> b
           | None \<Rightarrow> (case ve_default_break_minutes v of Some b \<Rightarrow> b | None \<Rightarrow> 30)) in
     bindE (validateAssignmentTime (sr_starts_at dto) (sr_ends_at dto) (sr_starts_at dto) (sr_ends_at dto) (of_int brk)) (\<lambda>parent.
     bindE (request_windows (sr_starts_at dto) (sr_ends_at dto) (of_int brk) (sr_assignments dto) (sr_staff_ids dto)) (\<lambda>windows.
     bindE (each (\<lambda>(i, w) u. assertStaffAvailable [i] w None d) windows ()) (\<lambda>_.
     bindE (assertStaffAvailabilityAcknowledged london windows (sr_acks dto) d) (\<lambda>acked.
     let pay = resolvePayRate (sr_venue dto) (sr_job_role dto) (sr_day dto) None d;
         s = submitted_shift ctx i v dto parent (map snd windows) brk pay in
     bindE (insert_shift s d) (\<lambda>d1.
     bindE (each insert_request (map (request_row_of i (ve_workspace v) (sr_assignments dto)) windows) d1) (\<lambda>d2.
     Inr (emit ([Audit SHIFT_REQUEST_SUBMITTED i (audit_actor ctx)]
            @ map (\<lambda>_. Audit SHIFT_REQUEST_AVAILABILITY_CONFLICT_ACKNOWLEDGED i (audit_actor ctx)) acked
            @ map (\<lambda>u. Notify u ''shift_request_submitted'' i) (listApprovers d)
            @ [Realtime ''shift_request.created'' i]) d2, s))))))))))))))))"

text \<open>The request under its row lock, still waiting for a decision.\<close>

definition pending_request :: "error \<Rightarrow> auth_ctx \<Rightarrow> string \<Rightarrow> db \<Rightarrow> shift_row res" where
  "pending_request actioned ctx sid d =
     bindE (from_option (NotFound ''Shift not found.'') (find_shift sid d)) (\<lambda>s.
     bindE (require (sh_org s = cx_org ctx) (NotFound ''Shift not found.'')) (\<lambda>_.
     bindE (require (sh_status s = PENDING_MANAGER_APPROVAL) actioned) (\<lambda>_. Inr s)))"

definition ACTIONED :: error where "ACTIONED = Conflict ''This request has already been actioned and can no longer be edited.''"

definition removeRequestedStaffTx :: "auth_ctx \<Rightarrow> string \<Rightarrow> string \<Rightarrow> db \<Rightarrow> db res" where
  "removeRequestedStaffTx ctx sid staff d =
     bindE (pending_request ACTIONED ctx sid d) (\<lambda>s.
     bindE (require (\<exists>q \<in> set (requests_of sid d). rq_staff q = staff) (NotFound ''This staff member is not on the request.'')) (\<lambda>_.
     Inr (emit ([Audit SHIFT_REQUEST_STAFF_REMOVED sid (audit_actor ctx)]
            @ (case sh_requested_by s of None \<Rightarrow> [] | Some u \<Rightarrow> [Notify u ''shift_request_staff_removed'' sid]))
          (d\<lparr>request_staff := filter (\<lambda>q. \<not> (rq_shift q = sid \<and> rq_staff q = staff)) (request_staff d)\<rparr>))))"

definition emitRequestStaffChanged :: "string \<Rightarrow> db \<Rightarrow> db" where
  "emitRequestStaffChanged sid = emit [Realtime ''shift.updated'' sid]"

definition removeRequestedStaff :: "auth_ctx \<Rightarrow> string \<Rightarrow> string \<Rightarrow> db \<Rightarrow> db res" where
  "removeRequestedStaff ctx sid staff d = bindE (removeRequestedStaffTx ctx sid staff d) (\<lambda>d1. Inr (emitRequestStaffChanged sid d1))"

definition addRequestedStaffTx :: "auth_ctx \<Rightarrow> string \<Rightarrow> string \<Rightarrow> db \<Rightarrow> db res" where
  "addRequestedStaffTx ctx sid staff d =
     bindE (pending_request ACTIONED ctx sid d) (\<lambda>s.
     bindE (assertStaffSelectable [staff] (sh_workspace s) d) (\<lambda>_.
     bindE (assertStaffAvailable [staff] (shift_default_time s) (Some sid) d) (\<lambda>_.
     bindE (require (\<not> (\<exists>q \<in> set (requests_of sid d). rq_staff q = staff)) (Conflict ''This staff member is already on the request.'')) (\<lambda>_.
     bindE (require (int (length (requests_of sid d)) < sh_required_count s) (Conflict ''All required staff are already selected.'')) (\<lambda>_.
     bindE (insert_request \<lparr>rq_shift = sid, rq_staff = staff, rq_workspace = sh_workspace s, rq_starts_at = Some (startsAt (shift_default_time s)),
              rq_ends_at = Some (endsAt (shift_default_time s)), rq_break_minutes = None\<rparr> d) (\<lambda>d1.
     Inr (emit [Audit SHIFT_REQUEST_STAFF_ADDED sid (audit_actor ctx)] d1)))))))"

definition addRequestedStaff :: "auth_ctx \<Rightarrow> string \<Rightarrow> string \<Rightarrow> db \<Rightarrow> db res" where
  "addRequestedStaff ctx sid staff d = bindE (addRequestedStaffTx ctx sid staff d) (\<lambda>d1. Inr (emitRequestStaffChanged sid d1))"

text \<open>The window a selected staff member is asked for: the one on the request, else the default of the shift.\<close>

definition requested_window :: "shift_row \<Rightarrow> request_row option \<Rightarrow> ScheduledWindow" where
  "requested_window s q =
     (case q of None \<Rightarrow> shift_default_time s
      | Some x \<Rightarrow> \<lparr>startsAt = (case rq_starts_at x of None \<Rightarrow> startsAt (shift_default_time s) | Some t \<Rightarrow> t),
                   endsAt = (case rq_ends_at x of None \<Rightarrow> endsAt (shift_default_time s) | Some t \<Rightarrow> t)\<rparr>)"

definition ownActiveCount :: "auth_ctx \<Rightarrow> string list \<Rightarrow> db \<Rightarrow> nat" where
  "ownActiveCount ctx ids d =
     count_where (\<lambda>sp. sp_id sp \<in> set ids \<and> sp_workspace sp = cx_workspace ctx \<and> sp_created_by sp = Some (cx_user ctx)
        \<and> sp_employment sp = E_ACTIVE) (staff_profiles d)"

definition check_new_selection :: "auth_ctx \<Rightarrow> shift_row \<Rightarrow> string list \<Rightarrow> request_row list \<Rightarrow> db \<Rightarrow> unit res" where
  "check_new_selection ctx s ids current d =
     (if ids = [] then Inr () else
      bindE (assertStaffSelectable ids (sh_workspace s) d) (\<lambda>_.
      bindE (require (ownActiveCount ctx ids d = length ids) (BadRequest ''One or more selected staff are no longer eligible.'')) (\<lambda>_.
      each (\<lambda>i u. assertStaffAvailable [i] (requested_window s (find (\<lambda>q. rq_staff q = i) current)) (Some (sh_id s)) d) ids ())))"

definition setRequestedStaff :: "bool \<Rightarrow> auth_ctx \<Rightarrow> string \<Rightarrow> string list \<Rightarrow> string list \<Rightarrow> db \<Rightarrow> db res" where
  "setRequestedStaff may ctx sid ids expected d =
     bindE (require may (Forbidden ''You cannot edit shift requests.'')) (\<lambda>_.
     bindE (from_option (NotFound ''Shift not found.'') (find_shift sid d)) (\<lambda>s.
     bindE (require (sh_org s = cx_org ctx \<and> cx_workspace ctx \<noteq> None \<and> sh_workspace s = cx_workspace ctx) (NotFound ''Shift not found.'')) (\<lambda>_.
     bindE (require (sh_status s = PENDING_MANAGER_APPROVAL) (Conflict ''This request has already been actioned.'')) (\<lambda>_.
     bindE (require (distinct ids \<and> int (length ids) \<le> sh_required_count s) (BadRequest ''Selection exceeds capacity or contains duplicate staff.'')) (\<lambda>_.
     let current = requests_of sid d; currentIds = remdups (map rq_staff current) in
     bindE (require (length currentIds = length expected \<and> set expected \<subseteq> set currentIds)
        (Conflict ''The selection changed. Reload the request before saving.'')) (\<lambda>_.
     bindE (check_new_selection ctx s ids current d) (\<lambda>_.
     bindE (each (removeRequestedStaffTx ctx sid) (filter (\<lambda>i. i \<notin> set ids) currentIds) d) (\<lambda>d1.
     bindE (each (addRequestedStaffTx ctx sid) (filter (\<lambda>i. i \<notin> set currentIds) ids) d1) (\<lambda>d2.
     Inr (emitRequestStaffChanged sid d2))))))))))"

definition declineRequest :: "auth_ctx \<Rightarrow> clock \<Rightarrow> string \<Rightarrow> string option \<Rightarrow> db \<Rightarrow> (db \<times> shift_row) res" where
  "declineRequest ctx clk sid reason d =
     bindE (pending_request (NotFound ''Shift not found.'') ctx sid d) (\<lambda>s.
     bindE (assertShift (sh_status s) DECLINED) (\<lambda>_.
     bindE (update_shift sid (\<lambda>x. x\<lparr>sh_status := DECLINED, sh_declined_at := Some (node_now clk), sh_declined_by := Some (cx_user ctx),
              sh_declined_reason := (case reason of None \<Rightarrow> sh_declined_reason x | Some r \<Rightarrow> Some r)\<rparr>) d) (\<lambda>d1.
     let d2 = emit ([Audit SHIFT_REQUEST_DECLINED sid (audit_actor ctx)]
                @ (case sh_requested_by s of None \<Rightarrow> [] | Some u \<Rightarrow> [Notify u ''shift_request_declined'' sid])
                @ [Realtime ''shift_request.declined'' sid]) d1
     in bindE (from_option ROW_NOT_FOUND (find_shift sid d2)) (\<lambda>s'. Inr (d2, s')))))"

section \<open>Sending with the shift (offer.service.ts)\<close>

text \<open>The end of a batch that creates or approves: some offer was sent, or nothing happened.\<close>

definition require_some_sent :: "recipient_result list \<Rightarrow> unit res" where
  "require_some_sent results =
     (if any_ok results then Inr ()
      else if results \<noteq> [] \<and> list_all (\<lambda>r. snd r = Inl MSG_SEND) results then Inl (CodedConflict CDP_CODE MSG_SEND)
      else Inl (Conflict ''No offer could be sent to any of the selected staff - see the errors above.''))"

record create_and_send_dto =
  cs_venue :: string
  cs_job_role :: string
  cs_starts_at :: int
  cs_ends_at :: int
  cs_day :: int
  cs_break_minutes :: "int option"
  cs_required_count :: "int option"
  cs_pay_rate_pence :: "int option"
  cs_notes :: "string option"
  cs_address :: "string option"
  cs_staff_ids :: "string list"

definition sent_count :: "recipient_result list \<Rightarrow> int" where
  "sent_count results = int (length (filter (\<lambda>r. case snd r of Inr _ \<Rightarrow> True | Inl _ \<Rightarrow> False) results))"

definition created_shift :: "auth_ctx \<Rightarrow> string \<Rightarrow> venue_row \<Rightarrow> create_and_send_dto \<Rightarrow> int \<Rightarrow> shift_row" where
  "created_shift ctx i v dto pay =
     (fresh_shift ctx i v (cs_job_role dto) \<lparr>startsAt = cs_starts_at dto, endsAt = cs_ends_at dto\<rparr>
        (case cs_break_minutes dto of None \<Rightarrow> 0 | Some b \<Rightarrow> b)
        (case cs_required_count dto of None \<Rightarrow> int (length (cs_staff_ids dto)) | Some n \<Rightarrow> n) pay OPEN)
       \<lparr>sh_notes := cs_notes dto, sh_address := cs_address dto\<rparr>"

text \<open>After the sends: OFFERED, and a count that was not given shrinks to the offers that went out.\<close>

definition offered_shift :: "create_and_send_dto \<Rightarrow> recipient_result list \<Rightarrow> shift_row \<Rightarrow> shift_row" where
  "offered_shift dto results x = x\<lparr>sh_status := OFFERED,
     sh_required_count := (if cs_required_count dto = None \<and> sent_count results < int (length (cs_staff_ids dto))
        then sent_count results else sh_required_count x)\<rparr>"

definition createShiftAndSend ::
  "att_env \<Rightarrow> send_env \<Rightarrow> auth_ctx \<Rightarrow> clock \<Rightarrow> string \<Rightarrow> (string \<Rightarrow> string \<times> string) \<Rightarrow> create_and_send_dto \<Rightarrow> db
    \<Rightarrow> (db \<times> recipient_result list) res" where
  "createShiftAndSend env senv ctx clk i uuid dto d =
     bindE (assertVenueAccessibleTx env ctx (cs_venue dto) d) (\<lambda>v.
     let pay = resolvePayRate (cs_venue dto) (cs_job_role dto) (cs_day dto) (cs_pay_rate_pence dto) d;
         s = created_shift ctx i v dto pay in
     bindE (insert_shift s d) (\<lambda>d1.
     bindE (assertStaffAvailabilityAcknowledged (se_london senv) (map (\<lambda>x. (x, shift_default_time s)) (cs_staff_ids dto)) (se_acks senv) d1) (\<lambda>_.
     let (d2, results) = send_loop (senv\<lparr>se_kind := STANDARD\<rparr>) ctx clk s (\<lambda>_. None) uuid (\<lambda>_ _. Inr ()) (cs_staff_ids dto) d1 [] in
     bindE (require_some_sent results) (\<lambda>_.
     bindE (assertShift (sh_status s) OFFERED) (\<lambda>_.
     bindE (update_shift i (offered_shift dto results) d2) (\<lambda>d3.
     Inr (d3, results)))))))"

definition approved_shift :: "auth_ctx \<Rightarrow> clock \<Rightarrow> shift_row \<Rightarrow> shift_row" where
  "approved_shift ctx clk x = x\<lparr>sh_status := OPEN, sh_approved_at := Some (node_now clk), sh_approved_by := Some (cx_user ctx),
     sh_created_by := cx_user ctx\<rparr>"

definition approveShiftRequest ::
  "send_env \<Rightarrow> auth_ctx \<Rightarrow> clock \<Rightarrow> (string \<Rightarrow> string \<times> string) \<Rightarrow> string \<Rightarrow> db \<Rightarrow> (db \<times> recipient_result list) res" where
  "approveShiftRequest senv ctx clk uuid sid d =
     bindE (pending_request (NotFound ''Shift not found.'') ctx sid d) (\<lambda>s.
     let rows = requests_of sid d; ids = map rq_staff rows;
         row = (\<lambda>x. find (\<lambda>q. rq_staff q = x) rows);
         proposed = (\<lambda>x. let w = requested_window s (row x) in
            Some \<lparr>pt_start = Some (startsAt w), pt_end = Some (endsAt w),
              pt_break = (case row x of None \<Rightarrow> None | Some q \<Rightarrow> map_option of_int (rq_break_minutes q))\<rparr>) in
     bindE (require (ids \<noteq> []) (Conflict ''No staff are selected on this request - add at least one before approving.'')) (\<lambda>_.
     bindE (assertStaffAvailabilityAcknowledged (se_london senv) (map (\<lambda>x. (x, requested_window s (row x))) ids) (se_acks senv) d) (\<lambda>_.
     let (d1, results) = send_loop (senv\<lparr>se_kind := STANDARD\<rparr>) ctx clk s proposed uuid (\<lambda>_ _. Inr ()) ids d [] in
     bindE (require_some_sent results) (\<lambda>_.
     bindE (assertShift (sh_status s) OPEN) (\<lambda>_.
     bindE (update_shift sid (approved_shift ctx clk) d1) (\<lambda>d2.
     bindE (assertShift OPEN OFFERED) (\<lambda>_.
     bindE (update_shift sid (\<lambda>x. x\<lparr>sh_status := OFFERED\<rparr>) d2) (\<lambda>d3.
     Inr (emit ([Audit SHIFT_REQUEST_APPROVED sid (audit_actor ctx)]
            @ (case sh_requested_by s of None \<Rightarrow> [] | Some u \<Rightarrow> [Notify u ''shift_request_approved'' sid])
            @ [Realtime ''shift_request.approved'' sid]) d3, results)))))))))"

section \<open>The seats of a cancelled shift (shift-cancellation-followup.job.ts)\<close>

definition OPEN_ASSIGNMENT_STATUSES :: "assignment_status list" where
  "OPEN_ASSIGNMENT_STATUSES = [A_OFFERED, A_STAFF_ACCEPTED, A_CONFIRMED]"

definition offer_of_seat :: "string \<Rightarrow> db \<Rightarrow> offer_row option" where
  "offer_of_seat aid d = find (\<lambda>r. jo_assignment r = aid) (offers d)"

text \<open>A compare-and-set on the status of one offer, with its audit entry when it claimed the row.\<close>

definition claim_offer :: "string \<Rightarrow> offer_status \<Rightarrow> (offer_row \<Rightarrow> offer_row) \<Rightarrow> audit_action \<Rightarrow> db \<Rightarrow> db \<times> bool" where
  "claim_offer oid st f act d =
     (if (\<exists>r \<in> set (offers d). jo_id r = oid \<and> jo_status r = st)
      then (emit [Audit act oid None] (d\<lparr>offers := update_where (\<lambda>r. jo_id r = oid \<and> jo_status r = st) f (offers d)\<rparr>), True)
      else (d, False))"

definition closeCancelledOffer :: "clock \<Rightarrow> offer_row \<Rightarrow> db \<Rightarrow> (db \<times> bool) res" where
  "closeCancelledOffer clk r d =
     (if jo_status r = PENDING
      then bindE (assertOffer PENDING OFFER_WITHDRAWN) (\<lambda>_. Inr (claim_offer (jo_id r) PENDING
             (\<lambda>q. q\<lparr>jo_status := OFFER_WITHDRAWN, jo_responded_at := Some (node_now clk)\<rparr>) OFFER_WITHDRAWN_BY_WORKER d))
      else if jo_status r = OFFER_STAFF_ACCEPTED
      then bindE (assertOffer OFFER_STAFF_ACCEPTED MANAGER_REJECTED) (\<lambda>_. Inr (claim_offer (jo_id r) OFFER_STAFF_ACCEPTED
             (\<lambda>q. q\<lparr>jo_status := MANAGER_REJECTED, jo_rejected_at := Some (node_now clk), jo_rejected_by := None,
                    jo_rejection_reason := Some ''This shift was cancelled.''\<rparr>) OFFER_REJECTED_BY_WORKER d))
      else Inr (d, False))"

text \<open>The compare-and-set on the seat the transaction read, with its audit entry and the notification of the staff member.\<close>

definition cancelOpenSeat :: "assignment_row \<Rightarrow> db \<Rightarrow> db \<Rightarrow> (db \<times> bool) res" where
  "cancelOpenSeat a d0 d =
     bindE (assertSeat (sa_status a) A_CANCELLED) (\<lambda>_.
     let seat = (\<lambda>x. sa_id x = sa_id a \<and> sa_status x = sa_status a);
         t = update_where seat (\<lambda>x. x\<lparr>sa_status := A_CANCELLED\<rparr>) (assignments d) in
     if \<not> (\<exists>x \<in> set (assignments d). seat x) then Inr (d, False)
     else
       bindE (require (no_double_booking t) EXCLUSION_VIOLATION) (\<lambda>_.
       Inr (emit ([Audit SHIFT_ASSIGNMENT_CANCELLED_BY_WORKER (sa_id a) None]
              @ (case find_staff (sa_staff a) d0 of None \<Rightarrow> []
                 | Some sp \<Rightarrow> (case find_user (sp_user sp) d0 of None \<Rightarrow> [] | Some u \<Rightarrow> [Notify (us_id u) ''shift_cancelled'' (sa_id a)])))
            (d\<lparr>assignments := t\<rparr>), True)))"

text \<open>One candidate: whether the seat and whether the offer was closed.\<close>

definition closeCancelledSeat :: "clock \<Rightarrow> string \<Rightarrow> db \<Rightarrow> db \<Rightarrow> (db \<times> bool \<times> bool) res" where
  "closeCancelledSeat clk aid d0 d =
     (case find_assignment aid d0 of
        None \<Rightarrow> Inr (d, False, False)
      | Some a \<Rightarrow>
          if sa_status a \<notin> set OPEN_ASSIGNMENT_STATUSES then Inr (d, False, False)
          else if (case find_shift (sa_shift a) d0 of None \<Rightarrow> True | Some s \<Rightarrow> sh_status s \<noteq> CANCELLED) then Inr (d, False, False)
          else
            bindE (case offer_of_seat aid d0 of None \<Rightarrow> Inr (d, False) | Some r \<Rightarrow> closeCancelledOffer clk r d) (\<lambda>(d1, offerClosed).
            bindE (cancelOpenSeat a d0 d1) (\<lambda>(d2, seatCancelled). Inr (d2, seatCancelled, offerClosed))))"

definition discoverCancelledSeats :: "db \<Rightarrow> string list" where
  "discoverCancelledSeats d =
     take 500 (map sa_id (filter (\<lambda>a. sa_status a \<in> set OPEN_ASSIGNMENT_STATUSES
        \<and> (\<exists>s \<in> set (shifts d). sh_id s = sa_shift a \<and> sh_status s = CANCELLED)) (assignments d)))"

text \<open>A cycle that runs undisturbed: every candidate in its own transaction, on the state the one before left.\<close>

definition cancellation_followup_cycle :: "clock \<Rightarrow> db \<Rightarrow> db res" where
  "cancellation_followup_cycle clk d = each (\<lambda>aid d'. bindE (closeCancelledSeat clk aid d' d') (\<lambda>(d'', _). Inr d'')) (discoverCancelledSeats d) d"

end
