(* ===== verification/ShiftSteps.thy ===== *)
theory ShiftSteps
  imports OfferProgress Shifts
begin

text \<open>
  What the scheduling transactions do to the tables of the staffing invariant, and that they keep it. Most change one shift
  row or none of the four tables (\<open>untouched\<close>); a lemma \<open>dbok_<op>\<close> is the preservation of \<open>db_ok\<close>, with \<open>older\<close> and
  \<open>advances\<close>. Two operations need more than the invariant: \<open>publish\<close>, whose update is unconditional, and the closing of
  a seat on a cancelled shift, which does not look at attendance; their conditions are premises here.
\<close>

section \<open>Nothing but requests and events\<close>

definition untouched :: "db \<Rightarrow> db \<Rightarrow> bool" where
  "untouched d d' \<longleftrightarrow> offers d' = offers d \<and> assignments d' = assignments d \<and> shifts d' = shifts d \<and> attendances d' = attendances d"

lemma untouched_refl [simp]: "untouched d d"
  by (simp add: untouched_def)

lemma untouched_trans: "untouched d d1 \<Longrightarrow> untouched d1 d2 \<Longrightarrow> untouched d d2"
  by (simp add: untouched_def)

lemma untouched_emit [simp]: "untouched d (emit es d') = untouched d d'"
  by (simp add: untouched_def)

lemma untouched_requests [simp]: "untouched d (d'\<lparr>request_staff := q\<rparr>) = untouched d d'"
  by (simp add: untouched_def)

lemma dbok_untouched:
  assumes "db_ok d" and u: "untouched d d'"
  shows "db_ok d' \<and> older d d' \<and> advances d d'"
proof -
  note e = u [unfolded untouched_def]
  have p: "pair_ok d' = pair_ok d" by (rule pair_ok_tables) (use e in simp)
  have "db_ok d'"
    using assms(1) by (simp add: db_ok_def keyed_db_def linked_db_def coupled_db_def seated_db_def checked_db_def attended_db_def e occupied_count p)
  moreover have "older d d'" by (simp add: older_def e shift_cancelled_def)
  moreover have "advances d d'" by (rule advances_same [OF _ att_moves_same]) (use e in simp_all)
  ultimately show ?thesis by simp
qed

lemma untouched_each:
  assumes "each f xs d = Inr d'" and "\<And>x d d'. f x d = Inr d' \<Longrightarrow> untouched d d'"
  shows "untouched d d'"
  using assms(1)
proof (induction xs arbitrary: d)
  case (Cons x xs)
  then obtain d1 where "f x d = Inr d1" "each f xs d1 = Inr d'" by (auto simp: bindE_Inr_iff)
  then show ?case using Cons.IH assms(2) untouched_trans by blast
qed simp

lemma untouched_insert_request: "insert_request q d = Inr d' \<Longrightarrow> untouched d d'"
  by (auto simp: insert_request_def split: if_splits)

lemma untouched_remove_tx: "removeRequestedStaffTx ctx sid staff d = Inr d' \<Longrightarrow> untouched d d'"
  unfolding removeRequestedStaffTx_def bindE_Inr_iff by auto

lemma untouched_add_tx: "addRequestedStaffTx ctx sid staff d = Inr d' \<Longrightarrow> untouched d d'"
  unfolding addRequestedStaffTx_def bindE_Inr_iff using untouched_insert_request by auto

lemma untouched_remove: "removeRequestedStaff ctx sid staff d = Inr d' \<Longrightarrow> untouched d d'"
  using untouched_remove_tx by (auto simp: removeRequestedStaff_def bindE_Inr_iff emitRequestStaffChanged_def)

lemma untouched_add: "addRequestedStaff ctx sid staff d = Inr d' \<Longrightarrow> untouched d d'"
  using untouched_add_tx by (auto simp: addRequestedStaff_def bindE_Inr_iff emitRequestStaffChanged_def)

lemma setRequestedStaff_shape:
  assumes "setRequestedStaff may ctx sid ids expected d = Inr d'"
  obtains s d1 d2 where "find_shift sid d = Some s" and "sh_status s = PENDING_MANAGER_APPROVAL" and "distinct ids"
    and "int (length ids) \<le> sh_required_count s"
    and "length (remdups (map rq_staff (requests_of sid d))) = length expected" and "set expected \<subseteq> rq_staff ` set (requests_of sid d)"
    and "check_new_selection ctx s ids (requests_of sid d) d = Inr ()"
    and "each (removeRequestedStaffTx ctx sid) (filter (\<lambda>i. i \<notin> set ids) (remdups (map rq_staff (requests_of sid d)))) d = Inr d1"
    and "each (addRequestedStaffTx ctx sid) (filter (\<lambda>i. i \<notin> rq_staff ` set (requests_of sid d)) ids) d1 = Inr d2"
    and "d' = emitRequestStaffChanged sid d2"
proof -
  from assms [unfolded setRequestedStaff_def Let_def bindE_Inr_iff from_option_Inr_iff require_Inr_iff] obtain s u d1 d2
    where 1: "find_shift sid d = Some s" "sh_status s = PENDING_MANAGER_APPROVAL" "distinct ids" "int (length ids) \<le> sh_required_count s"
      "length (remdups (map rq_staff (requests_of sid d))) = length expected" "set expected \<subseteq> set (remdups (map rq_staff (requests_of sid d)))"
      "check_new_selection ctx s ids (requests_of sid d) d = Inr u"
      "each (removeRequestedStaffTx ctx sid) (filter (\<lambda>i. i \<notin> set ids) (remdups (map rq_staff (requests_of sid d)))) d = Inr d1"
      "each (addRequestedStaffTx ctx sid) (filter (\<lambda>i. i \<notin> set (remdups (map rq_staff (requests_of sid d)))) ids) d1 = Inr d2"
      "Inr (emitRequestStaffChanged sid d2) = (Inr d' :: db res)"
    by (elim exE conjE) (rule that; assumption)
  then show ?thesis using that by simp
qed

lemma untouched_set: "setRequestedStaff may ctx sid ids expected d = Inr d' \<Longrightarrow> untouched d d'"
proof (erule setRequestedStaff_shape)
  fix d1 d2
  assume "each (removeRequestedStaffTx ctx sid) (filter (\<lambda>i. i \<notin> set ids) (remdups (map rq_staff (requests_of sid d)))) d = Inr d1"
    and "each (addRequestedStaffTx ctx sid) (filter (\<lambda>i. i \<notin> rq_staff ` set (requests_of sid d)) ids) d1 = Inr d2"
    and e: "d' = emitRequestStaffChanged sid d2"
  then have "untouched d d1" "untouched d1 d2" by (auto elim!: untouched_each intro: untouched_remove_tx untouched_add_tx)
  then show "untouched d d'" using untouched_trans [of d d1 d2] by (simp add: e emitRequestStaffChanged_def)
qed

section \<open>One shift row\<close>

lemma advances_update_shift: "update_shift k f d = Inr d' \<Longrightarrow> advances d d'"
  by (rule advances_same [OF _ att_moves_same]) (auto simp: update_shift_Inr)

lemma dbok_update_shift:
  assumes "db_ok d" and "update_shift k f d = Inr d'" and "shift_upd f" and "\<And>x. sh_required_count (f x) = sh_required_count x"
    and "\<And>x. x \<in> set (shifts d) \<Longrightarrow> sh_id x = k \<Longrightarrow> sh_status x = CANCELLED \<Longrightarrow> sh_status (f x) = CANCELLED"
  shows "db_ok d' \<and> older d d' \<and> advances d d'"
  using dbok_shift_only [OF assms] advances_update_shift [OF assms(2)] by blast

lemma claim_shift_Inr:
  "claim_shift k cond f d = Inr (d', b) \<longleftrightarrow> update_shift k (\<lambda>s. if cond s then f s else s) d = Inr d'
     \<and> b = (case find_shift k d of None \<Rightarrow> False | Some s \<Rightarrow> cond s)"
  by (auto simp: claim_shift_def bindE_Inr_iff)

lemma dbok_claim_shift:
  assumes "db_ok d" and c: "claim_shift k cond f d = Inr (d', b)" and "shift_upd f" and "\<And>x. sh_required_count (f x) = sh_required_count x"
    and "\<And>x. cond x \<Longrightarrow> sh_status x = CANCELLED \<Longrightarrow> sh_status (f x) = CANCELLED"
  shows "db_ok d' \<and> older d d' \<and> advances d d'"
proof (rule dbok_update_shift [OF assms(1) conjunct1 [OF c [unfolded claim_shift_Inr]]])
  show "shift_upd (\<lambda>s. if cond s then f s else s)" using assms(3) by (auto simp: shift_upd_def)
qed (use assms(4,5) in auto)

text \<open>A draft has no seats.\<close>

lemma draft_unseated:
  assumes db_ok: "db_ok d" and x: "x \<in> set (shifts d)" "sh_status x = DRAFT"
  shows "occupied (sh_id x) d = 0"
proof -
  have "sa_shift a \<noteq> sh_id x" if a: "a \<in> set (assignments d)" for a
  proof
    assume "sa_shift a = sh_id x"
    then have "sh_id x \<in> published (shifts d)" using db_ok a unfolding db_ok_def linked_db_def by force
    then obtain s where "s \<in> set (shifts d)" "sh_id s = sh_id x" "sh_status s \<noteq> DRAFT" by (auto simp: published_def)
    then show False using shift_table.keyed_unique [of "shifts d" s x] db_ok x by (auto simp: db_ok_def keyed_db_def)
  qed
  then show ?thesis by (simp add: occupied_count count_where_0_iff)
qed

lemma insert_shift_Inr: "insert_shift s d = Inr d' \<longleftrightarrow> d' = d\<lparr>shifts := shifts d @ [s]\<rparr> \<and> sh_id s \<notin> sh_id ` set (shifts d) \<and> shift_checks s"
proof -
  have "(\<exists>x \<in> set (shifts d). sh_id x = sh_id s) \<longleftrightarrow> sh_id s \<in> sh_id ` set (shifts d)" unfolding image_iff by metis
  then show ?thesis by (auto simp: insert_shift_def)
qed

lemma new_shift_unseated:
  assumes "db_ok d" and "sh_id s \<notin> sh_id ` set (shifts d)"
  shows "occupied (sh_id s) d = 0"
proof -
  have "sa_shift a \<noteq> sh_id s" if "a \<in> set (assignments d)" for a
    using assms that published_sub [of "shifts d"] unfolding db_ok_def linked_db_def by force
  then show ?thesis by (simp add: occupied_count count_where_0_iff)
qed

lemma dbok_insert_shift:
  assumes db_ok: "db_ok d" and i: "insert_shift s d = Inr d'"
  shows "db_ok d' \<and> older d d' \<and> advances d d'"
proof -
  have e: "offers d' = offers d" "assignments d' = assignments d" "attendances d' = attendances d" "shifts d' = shifts d @ [s]"
    and n: "sh_id s \<notin> sh_id ` set (shifts d)" and c: "shift_checks s" using i by (auto simp: insert_shift_Inr)
  have o: "occupied sid d' = occupied sid d" for sid by (simp add: occupied_count e)
  have sc: "shift_cancelled sid d \<Longrightarrow> shift_cancelled sid d'" for sid by (auto simp: shift_cancelled_def e)
  have "keyed_db d'" using db_ok n by (simp add: db_ok_def keyed_db_def shift_table.keyed_def e)
  moreover have "linked_db d'" using db_ok by (auto simp: db_ok_def linked_db_def published_def e)
  moreover have "coupled_db d'" using db_ok sc unfolding db_ok_def coupled_db_def pair_ok_def e(1,2) by blast
  moreover have "seated_db d'"
    using db_ok new_shift_unseated [OF db_ok n] c by (simp add: db_ok_def seated_db_def e o shift_checks_def)
  moreover have "checked_db d'" using db_ok c by (simp add: db_ok_def checked_db_def e)
  moreover have "attended_db d'" using db_ok by (simp add: db_ok_def attended_db_def e)
  ultimately have "db_ok d'" by (simp add: db_ok_def)
  moreover have "older d d'" using sc by (auto simp: older_def e)
  moreover have "advances d d'" by (rule advances_same [OF e(1) att_moves_same [OF e(3)]])
  ultimately show ?thesis by simp
qed

section \<open>Drafts, cancellation, archive\<close>

lemma dbok_createDraftTx:
  assumes "db_ok d" and "createDraftTx may env ctx i dto d = Inr (d', s)"
  shows "db_ok d' \<and> older d d' \<and> advances d d'"
proof -
  from assms(2) obtain s0 d1 es where "insert_shift s0 d = Inr d1" "d' = emit es d1"
    unfolding createDraftTx_def Let_def bindE_Inr_iff by (auto simp: bindE_Inr_iff)
  then show ?thesis using dbok_insert_shift [OF assms(1)] by simp
qed

lemma draft_edit_simps [simp]: "sh_id (draft_edit dto s0 s) = sh_id s" "sh_status (draft_edit dto s0 s) = sh_status s"
  "sh_archived_at (draft_edit dto s0 s) = sh_archived_at s" "sh_filled_count (draft_edit dto s0 s) = sh_filled_count s"
  by (simp_all add: draft_edit_def)

lemma updateDraftTx_shape:
  assumes "updateDraftTx may env ctx i dto d0 d = Inr (d', s')"
  obtains s0 d1 es where "check_draft_update may dto = Inr ()" and "getOwnDraftTx env ctx i d0 = Inr s0"
    and "date_or (ud_starts_at dto) (sh_starts_at s0) < date_or (ud_ends_at dto) (sh_ends_at s0)"
    and "claim_shift i (\<lambda>s. sh_status s = DRAFT \<and> sh_archived_at s = None) (draft_edit dto s0) d = Inr (d1, True)"
    and "d' = emit es d1" and "find_shift i d' = Some s'"
proof -
  from assms [unfolded updateDraftTx_def Let_def bindE_Inr_iff require_Inr_iff from_option_Inr_iff sum.inject prod.inject]
  obtain u s0 p where c: "check_draft_update may dto = Inr u" and g: "getOwnDraftTx env ctx i d0 = Inr s0"
    and w: "date_or (ud_starts_at dto) (sh_starts_at s0) < date_or (ud_ends_at dto) (sh_ends_at s0)"
    and p: "claim_shift i (\<lambda>s. sh_status s = DRAFT \<and> sh_archived_at s = None) (draft_edit dto s0) d = Inr p"
    and k: "(case p of (d1, claimed) \<Rightarrow>
        bindE (require claimed (Conflict ''This shift changed while it was being edited - please refresh.'')) (\<lambda>_.
        let d2 = emit [Audit SHIFT_DRAFT_UPDATED i (audit_actor ctx)] d1
        in bindE (from_option ROW_NOT_FOUND (find_shift i d2)) (\<lambda>s'. Inr (d2, s')))) = Inr (d', s')"
    unfolding Let_def bindE_Inr_iff require_Inr_iff from_option_Inr_iff sum.inject prod.inject by blast
  obtain d1 b where p': "p = (d1, b)" by (cases p)
  have "u = ()" by simp
  with c g w p k show ?thesis by (auto simp: p' Let_def bindE_Inr_iff require_Inr_iff from_option_Inr_iff intro: that)
qed

lemma update_where_mem: "x \<in> set t \<Longrightarrow> P x \<Longrightarrow> f x \<in> set (update_where P f t)"
  by (auto simp: set_update_where)

lemma dbok_updateDraftTx:
  assumes db_ok: "db_ok d" and u: "updateDraftTx may env ctx i dto d0 d = Inr (d', s')"
  shows "db_ok d' \<and> older d d' \<and> advances d d'"
  using u
proof (rule updateDraftTx_shape)
  fix s0 d1 es
  let ?c = "\<lambda>s. sh_status s = DRAFT \<and> sh_archived_at s = None" and ?f = "draft_edit dto s0"
  assume c: "claim_shift i ?c ?f d = Inr (d1, True)" and d': "d' = emit es d1"
  from c have up: "update_shift i (\<lambda>s. if ?c s then ?f s else s) d = Inr d1" by (simp add: claim_shift_Inr)
  have k: "list_all shift_checks (shifts d1)" by (rule conjunct2 [OF up [unfolded update_shift_Inr]])
  have "db_ok d1 \<and> older d d1"
  proof (rule dbok_shift_edit [OF db_ok up])
    fix x
    assume x: "x \<in> set (shifts d)" "sh_id x = i"
    let ?x = "if ?c x then ?f x else x"
    have "?x \<in> set (shifts d1)"
      using update_where_mem [of x "shifts d" "\<lambda>s. sh_id s = i" "\<lambda>s. if ?c s then ?f s else s"] x up by (auto simp: update_shift_Inr)
    then have "0 < sh_required_count ?x" using k by (auto simp: list_all_iff shift_checks_def)
    moreover have "occupied i d = 0" if "?c x" using draft_unseated [OF db_ok x(1)] x(2) that by simp
    moreover have "occupied i d \<le> sh_required_count x" using db_ok x by (auto simp: db_ok_def seated_db_def)
    ultimately show "occupied i d \<le> sh_required_count ?x" by (cases "?c x") auto
  qed (auto simp: shift_upd_def)
  then show ?thesis using advances_update_shift [OF up] by (simp add: d')
qed

lemma cancel_shape:
  assumes "cancel env ctx clk i reason d0 d = Inr (d', s')"
  obtains s0 d1 where "find_shift i d0 = Some s0" and "assertShiftOwned env ctx s0 d0 = Inr ()" and "assertShift (sh_status s0) CANCELLED = Inr ()"
    and "claim_shift i (\<lambda>s. sh_status s = sh_status s0) (\<lambda>s. s\<lparr>sh_status := CANCELLED, sh_cancelled_reason := reason,
           sh_cancelled_by := Some (cx_user ctx), sh_cancelled_at := Some (tx_now clk)\<rparr>) d = Inr (d1, True)"
    and "d' = emit [Audit AU_SHIFT_CANCELLED i (audit_actor ctx), Realtime ''shift.cancelled'' i] d1" and "find_shift i d' = Some s'"
proof -
  let ?f = "\<lambda>s. s\<lparr>sh_status := CANCELLED, sh_cancelled_reason := reason, sh_cancelled_by := Some (cx_user ctx), sh_cancelled_at := Some (tx_now clk)\<rparr>"
  from assms obtain s0 p where 1: "find_shift i d0 = Some s0" "assertShiftOwned env ctx s0 d0 = Inr ()" "assertShift (sh_status s0) CANCELLED = Inr ()"
    and p: "claim_shift i (\<lambda>s. sh_status s = sh_status s0) ?f d = Inr p"
    and k: "(case p of (d1, claimed) \<Rightarrow>
     bindE (if claimed then Inr ()
            else bindE (from_option ROW_NOT_FOUND (find_shift i d1)) (\<lambda>current.
              Inl (Conflict (if sh_status current = CANCELLED then ''This shift has already been cancelled.''
                             else ''This shift's status changed and can no longer be cancelled from here - please refresh.'')))) (\<lambda>_.
     let d2 = emit [Audit AU_SHIFT_CANCELLED i (audit_actor ctx), Realtime ''shift.cancelled'' i] d1
     in bindE (from_option ROW_NOT_FOUND (find_shift i d2)) (\<lambda>s'. Inr (d2, s')))) = Inr (d', s')"
    unfolding cancel_def bindE_Inr_iff from_option_Inr_iff by auto
  obtain d1 b where p': "p = (d1, b)" by (cases p)
  have b using k by (cases b) (auto simp: p' bindE_Inr_iff)
  then show ?thesis using that 1 p k by (auto simp: p' Let_def bindE_Inr_iff from_option_Inr_iff)
qed

lemma dbok_cancel_shift:
  assumes "db_ok d" and "cancel env ctx clk i reason d0 d = Inr (d', s')"
  shows "db_ok d' \<and> older d d' \<and> advances d d'"
  using assms(2)
proof (rule cancel_shape)
  fix s0 d1
  let ?f = "\<lambda>s. s\<lparr>sh_status := CANCELLED, sh_cancelled_reason := reason, sh_cancelled_by := Some (cx_user ctx), sh_cancelled_at := Some (tx_now clk)\<rparr>"
  assume c: "claim_shift i (\<lambda>s. sh_status s = sh_status s0) ?f d = Inr (d1, True)"
    and d': "d' = emit [Audit AU_SHIFT_CANCELLED i (audit_actor ctx), Realtime ''shift.cancelled'' i] d1"
  show ?thesis unfolding d' emit_ok
    by (rule dbok_claim_shift [OF assms(1) c]) (auto simp: shift_upd_def)
qed

lemma dbok_archiveShift:
  assumes "db_ok d" and "archiveShift may env ctx clk i d0 d = Inr (d', s')"
  shows "db_ok d' \<and> older d d' \<and> advances d d'"
proof -
  from assms(2) obtain d1 b es where
    c: "claim_shift i (\<lambda>s. sh_status s = DRAFT \<and> sh_archived_at s = None)
              (\<lambda>s. s\<lparr>sh_archived_at := Some (tx_now clk), sh_archived_by := Some (cx_user ctx)\<rparr>) d = Inr (d1, b)" and d': "d' = emit es d1"
    unfolding archiveShift_def Let_def bindE_Inr_iff by (auto split: prod.splits simp: bindE_Inr_iff)
  show ?thesis unfolding d' emit_ok by (rule dbok_claim_shift [OF assms(1) c]) (auto simp: shift_upd_def)
qed

lemma dbok_restoreShift:
  assumes "db_ok d" and "restoreShift may env ctx i d0 d = Inr (d', s')"
  shows "db_ok d' \<and> older d d' \<and> advances d d'"
proof -
  from assms(2) obtain d1 b es where
    c: "claim_shift i (\<lambda>s. sh_archived_at s \<noteq> None) (\<lambda>s. s\<lparr>sh_archived_at := None, sh_archived_by := None\<rparr>) d = Inr (d1, b)" and d': "d' = emit es d1"
    unfolding restoreShift_def Let_def bindE_Inr_iff by (auto split: prod.splits simp: bindE_Inr_iff)
  show ?thesis unfolding d' emit_ok by (rule dbok_claim_shift [OF assms(1) c]) (auto simp: shift_upd_def)
qed

text \<open>A publication whose stale read is still right about the shift not being cancelled.\<close>

lemma publish_shape:
  assumes "publish may env ctx clk i d0 d = Inr (d', s')"
  obtains s0 d1 where "may" and "find_shift i d0 = Some s0" and "assertShiftOwned env ctx s0 d0 = Inr ()" and "sh_archived_at s0 = None"
    and "assertShift (sh_status s0) OPEN = Inr ()"
    and "update_shift i (\<lambda>s. s\<lparr>sh_status := OPEN, sh_published_at := Some (node_now clk)\<rparr>) d = Inr d1"
    and "d' = emit [Audit SHIFT_PUBLISHED i (audit_actor ctx), Realtime ''shift.updated'' i] d1" and "find_shift i d' = Some s'"
proof -
  from assms [unfolded publish_def Let_def bindE_Inr_iff require_Inr_iff from_option_Inr_iff sum.inject prod.inject] obtain s0 d1 s1 u u'
    where "may" "find_shift i d0 = Some s0" "assertShiftOwned env ctx s0 d0 = Inr u" "sh_archived_at s0 = None"
    "assertShift (sh_status s0) OPEN = Inr u'" "update_shift i (\<lambda>s. s\<lparr>sh_status := OPEN, sh_published_at := Some (node_now clk)\<rparr>) d = Inr d1"
    "find_shift i (emit [Audit SHIFT_PUBLISHED i (audit_actor ctx), Realtime ''shift.updated'' i] d1) = Some s1"
    "emit [Audit SHIFT_PUBLISHED i (audit_actor ctx), Realtime ''shift.updated'' i] d1 = d'" "s1 = s'"
    by (elim exE conjE) (rule that; assumption)
  then show ?thesis using that by simp
qed

lemma dbok_publish:
  assumes "db_ok d" and "\<not> shift_cancelled i d" and "publish may env ctx clk i d0 d = Inr (d', s')"
  shows "db_ok d' \<and> older d d' \<and> advances d d'"
  using assms(3)
proof (rule publish_shape)
  fix d1
  assume u: "update_shift i (\<lambda>s. s\<lparr>sh_status := OPEN, sh_published_at := Some (node_now clk)\<rparr>) d = Inr d1"
    and d': "d' = emit [Audit SHIFT_PUBLISHED i (audit_actor ctx), Realtime ''shift.updated'' i] d1"
  show ?thesis unfolding d' emit_ok
    by (rule dbok_update_shift [OF assms(1) u]) (use assms(2) in \<open>auto simp: shift_upd_def shift_cancelled_def\<close>)
qed

section \<open>Requests\<close>

lemma pending_requestD:
  "pending_request e ctx sid d = Inr s \<Longrightarrow> find_shift sid d = Some s \<and> sh_org s = cx_org ctx \<and> sh_status s = PENDING_MANAGER_APPROVAL"
  by (auto simp: pending_request_def bindE_Inr_iff from_option_Inr_iff require_Inr_iff)

lemma submitRequest_shape:
  assumes "submitRequest may env london ctx i dto d = Inr (d', s)"
  obtains v windows w brk pay d1 d2 es where "find_venue (sr_venue dto) d = Some v" and "check_selection dto = Inr ()"
    and "validateAssignmentTime (sr_starts_at dto) (sr_ends_at dto) (sr_starts_at dto) (sr_ends_at dto) (of_int brk) = Inr w"
    and "request_windows (sr_starts_at dto) (sr_ends_at dto) (of_int brk) (sr_assignments dto) (sr_staff_ids dto) = Inr windows"
    and "each (\<lambda>(i, w) u. assertStaffAvailable [i] w None d) windows () = Inr ()"
    and "assertStaffSelectable (sr_staff_ids dto) (ve_workspace v) d = Inr ()"
    and "s = submitted_shift ctx i v dto w (map snd windows) brk pay" and "insert_shift s d = Inr d1"
    and "each insert_request (map (request_row_of i (ve_workspace v) (sr_assignments dto)) windows) d1 = Inr d2" and "d' = emit es d2"
proof -
  from assms [unfolded submitRequest_def Let_def bindE_Inr_iff require_Inr_iff from_option_Inr_iff sum.inject prod.inject]
  obtain v u1 u2 u3 w windows d1 d2 es brk pay where a: "assertVenueAccessibleTx env ctx (sr_venue dto) d = Inr v"
    and 1: "check_selection dto = Inr u1"
    "validateAssignmentTime (sr_starts_at dto) (sr_ends_at dto) (sr_starts_at dto) (sr_ends_at dto) (of_int brk) = Inr w"
    "request_windows (sr_starts_at dto) (sr_ends_at dto) (of_int brk) (sr_assignments dto) (sr_staff_ids dto) = Inr windows"
    "each (\<lambda>(i, w) u. assertStaffAvailable [i] w None d) windows () = Inr u2"
    "assertStaffSelectable (sr_staff_ids dto) (ve_workspace v) d = Inr u3"
    and 2: "insert_shift (submitted_shift ctx i v dto w (map snd windows) brk pay) d = Inr d1"
    "each insert_request (map (request_row_of i (ve_workspace v) (sr_assignments dto)) windows) d1 = Inr d2" "emit es d2 = d'"
    "submitted_shift ctx i v dto w (map snd windows) brk pay = s"
    by (elim exE conjE) (rule that; assumption)
  have "find_venue (sr_venue dto) d = Some v" using a by (auto simp: assertVenueAccessibleTx_def bindE_Inr_iff from_option_Inr_iff)
  then show ?thesis using 1 2 by (intro that [of v brk w windows pay d1 d2 es]) simp_all
qed

lemma dbok_submitRequest:
  assumes "db_ok d" and "submitRequest may env london ctx i dto d = Inr (d', s)"
  shows "db_ok d' \<and> older d d' \<and> advances d d'"
  using assms(2)
proof (rule submitRequest_shape)
  fix v windows w brk pay d1 d2 es
  assume i: "insert_shift s d = Inr d1"
    and e: "each insert_request (map (request_row_of i (ve_workspace v) (sr_assignments dto)) windows) d1 = Inr d2" and d': "d' = emit es d2"
  note 1 = dbok_insert_shift [OF assms(1) i]
  have "untouched d1 d2" by (rule untouched_each [OF e untouched_insert_request])
  then show ?thesis using 1 dbok_untouched [of d1 d2] older_trans [of d d1 d2] advances_trans [of d d1 d2] by (simp add: d')
qed

lemma dbok_declineRequest:
  assumes "db_ok d" and "declineRequest ctx clk sid reason d = Inr (d', s')"
  shows "db_ok d' \<and> older d d' \<and> advances d d'"
proof -
  from assms(2) obtain s d1 es where p: "pending_request (NotFound ''Shift not found.'') ctx sid d = Inr s"
    and u: "update_shift sid (\<lambda>x. x\<lparr>sh_status := DECLINED, sh_declined_at := Some (node_now clk), sh_declined_by := Some (cx_user ctx),
              sh_declined_reason := (case reason of None \<Rightarrow> sh_declined_reason x | Some r \<Rightarrow> Some r)\<rparr>) d = Inr d1" and d': "d' = emit es d1"
    unfolding declineRequest_def Let_def bindE_Inr_iff by auto
  have "\<not> shift_cancelled sid d" using pending_requestD [OF p] cancelled_find [OF assms(1)] by simp
  then show ?thesis unfolding d' emit_ok
    by (intro dbok_update_shift [OF assms(1) u]) (auto simp: shift_upd_def shift_cancelled_def)
qed

section \<open>Sending with the shift\<close>

lemma occupied_send_loop: "send_loop env ctx clk s proposed uuid pre is d results = (d', out) \<Longrightarrow> occupied sid d' = occupied sid d"
proof (induction "is" arbitrary: d results)
  case (Cons i "is")
  show ?case
  proof (cases "bindE (pre i d) (\<lambda>_. sendOne env ctx clk s i (proposed i) (uuid i) d)")
    case (Inl e)
    then show ?thesis using Cons by simp
  next
    case (Inr q)
    obtain d1 r where q: "q = (d1, r)" by (cases q)
    have "sendOne env ctx clk s i (proposed i) (uuid i) d = Inr (d1, r)" using Inr q by (auto simp: bindE_Inr_iff)
    then obtain t a where t: "sends d s t a r d1" by (rule sendOne_sends)
    have "send_loop env ctx clk s proposed uuid pre is d1 (results @ [(i, Inr (jo_id r))]) = (d', out)" using Cons.prems Inr q by simp
    then show ?thesis using Cons.IH occupied_sends [OF t] by simp
  qed
qed simp

text \<open>A later update of the shift that was sent for.\<close>

lemma dbok_send_then_update:
  assumes "db_ok d" and r: "row_of s d" and nd: "sh_status s \<notin> {DRAFT, CANCELLED}" and l: "send_loop env ctx clk s p uuid pre is d [] = (d1, out)"
    and u: "update_shift (sh_id s) f d1 = Inr d'" and f: "shift_upd f"
    and cap: "\<And>x. occupied (sh_id s) d \<le> sh_required_count x \<Longrightarrow> occupied (sh_id s) d \<le> sh_required_count (f x)"
  shows "db_ok d' \<and> older d d' \<and> advances d d'"
proof -
  have 1: "db_ok d1 \<and> older d d1 \<and> row_of s d1" by (rule dbok_send_loop [OF assms(1) r _ l]) (use nd in simp)
  obtain y where y: "y \<in> set (shifts d1)" "sh_id y = sh_id s" "sh_status y = sh_status s" using 1 by (force simp: row_of_def)
  have "db_ok d' \<and> older d1 d'"
  proof (rule dbok_shift_edit [OF conjunct1 [OF 1] u f])
    fix x
    assume x: "x \<in> set (shifts d1)" "sh_id x = sh_id s"
    then show "occupied (sh_id s) d1 \<le> sh_required_count (f x)"
      using cap [of x] 1 occupied_send_loop [OF l] by (auto simp: db_ok_def seated_db_def)
    assume "sh_status x = CANCELLED"
    moreover have "x = y" using shift_table.keyed_unique [of "shifts d1" x y] 1 x y by (simp add: db_ok_def keyed_db_def)
    ultimately show "sh_status (f x) = CANCELLED" using y nd by simp
  qed
  then show ?thesis
    using 1 older_trans [of d d1 d'] advances_trans [OF adv_send_loop [OF l] advances_update_shift [OF u]] by blast
qed

lemma sent_count_nonneg [simp]: "0 \<le> sent_count results"
  by (simp add: sent_count_def)

lemma created_shift_simps [simp]: "sh_id (created_shift ctx i v dto pay) = i" "sh_status (created_shift ctx i v dto pay) = OPEN"
  "sh_venue (created_shift ctx i v dto pay) = ve_id v" "sh_job_role (created_shift ctx i v dto pay) = cs_job_role dto"
  by (simp_all add: created_shift_def fresh_shift_def)

lemma createShiftAndSend_shape:
  assumes "createShiftAndSend env senv ctx clk i uuid dto d = Inr (d', results)"
  obtains v s pay d1 d2 where "assertVenueAccessibleTx env ctx (cs_venue dto) d = Inr v" and "s = created_shift ctx i v dto pay"
    and "insert_shift s d = Inr d1"
    and "send_loop (senv\<lparr>se_kind := STANDARD\<rparr>) ctx clk s (\<lambda>_. None) uuid (\<lambda>_ _. Inr ()) (cs_staff_ids dto) d1 [] = (d2, results)"
    and "require_some_sent results = Inr ()" and "update_shift i (offered_shift dto results) d2 = Inr d'"
proof -
  from assms [unfolded createShiftAndSend_def Let_def bindE_Inr_iff] obtain v pay d1 p
    where v: "assertVenueAccessibleTx env ctx (cs_venue dto) d = Inr v" and i: "insert_shift (created_shift ctx i v dto pay) d = Inr d1"
    and p: "send_loop (senv\<lparr>se_kind := STANDARD\<rparr>) ctx clk (created_shift ctx i v dto pay) (\<lambda>_. None) uuid (\<lambda>_ _. Inr ()) (cs_staff_ids dto) d1 [] = p"
    and k: "(case p of (d2, results) \<Rightarrow> bindE (require_some_sent results) (\<lambda>_.
     bindE (assertShift (sh_status (created_shift ctx i v dto pay)) OFFERED) (\<lambda>_.
     bindE (update_shift i (offered_shift dto results) d2) (\<lambda>d3. Inr (d3, results))))) = Inr (d', results)"
    by blast
  obtain d2 rs where p': "p = (d2, rs)" by (cases p)
  from k have "rs = results" "require_some_sent rs = Inr ()" "update_shift i (offered_shift dto rs) d2 = Inr d'"
    by (auto simp: p' bindE_Inr_iff)
  then show ?thesis using that [OF v refl i] p by (simp add: p')
qed

lemma dbok_createShiftAndSend:
  assumes "db_ok d" and "createShiftAndSend env senv ctx clk i uuid dto d = Inr (d', results)"
  shows "db_ok d' \<and> older d d' \<and> advances d d'"
  using assms(2)
proof (rule createShiftAndSend_shape)
  fix v s pay d1 d2
  assume s: "s = created_shift ctx i v dto pay" and n: "insert_shift s d = Inr d1"
    and l: "send_loop (senv\<lparr>se_kind := STANDARD\<rparr>) ctx clk s (\<lambda>_. None) uuid (\<lambda>_ _. Inr ()) (cs_staff_ids dto) d1 [] = (d2, results)"
    and u: "update_shift i (offered_shift dto results) d2 = Inr d'"
  have id: "sh_id s = i" "sh_status s = OPEN" by (simp_all add: s)
  note 1 = dbok_insert_shift [OF assms(1) n] and e = n [unfolded insert_shift_Inr]
  have "occupied (sh_id s) d1 = occupied (sh_id s) d" using e by (simp add: occupied_count)
  then have o: "occupied (sh_id s) d1 = 0" using new_shift_unseated [OF assms(1) conjunct1 [OF conjunct2 [OF e]]] by simp
  have "row_of s d1" using e by (simp add: row_of_def)
  then have "db_ok d' \<and> older d1 d' \<and> advances d1 d'"
    by (rule dbok_send_then_update [OF conjunct1 [OF 1] _ _ l u [folded id(1)]]) (auto simp: id(2) o shift_upd_def offered_shift_def)
  then show ?thesis using 1 older_trans [of d d1 d'] advances_trans [of d d1 d'] by blast
qed

lemma approve_shape:
  assumes "approveShiftRequest senv ctx clk uuid sid d = Inr (d', results)"
  obtains s proposed d1 d2 d3 es where "pending_request (NotFound ''Shift not found.'') ctx sid d = Inr s"
    and "send_loop (senv\<lparr>se_kind := STANDARD\<rparr>) ctx clk s proposed uuid (\<lambda>_ _. Inr ()) (map rq_staff (requests_of sid d)) d [] = (d1, results)"
    and "require_some_sent results = Inr ()" and "update_shift sid (approved_shift ctx clk) d1 = Inr d2"
    and "update_shift sid (\<lambda>x. x\<lparr>sh_status := OFFERED\<rparr>) d2 = Inr d3" and "d' = emit es d3"
proof -
  from assms [unfolded approveShiftRequest_def Let_def bindE_Inr_iff] obtain s proposed p es
    where s: "pending_request (NotFound ''Shift not found.'') ctx sid d = Inr s"
    and p: "send_loop (senv\<lparr>se_kind := STANDARD\<rparr>) ctx clk s proposed uuid (\<lambda>_ _. Inr ()) (map rq_staff (requests_of sid d)) d [] = p"
    and k: "(case p of (d1, results) \<Rightarrow> bindE (require_some_sent results) (\<lambda>_.
     bindE (assertShift (sh_status s) OPEN) (\<lambda>_.
     bindE (update_shift sid (approved_shift ctx clk) d1) (\<lambda>d2.
     bindE (assertShift OPEN OFFERED) (\<lambda>_.
     bindE (update_shift sid (\<lambda>x. x\<lparr>sh_status := OFFERED\<rparr>) d2) (\<lambda>d3. Inr (emit es d3, results))))))) = Inr (d', results)"
    by blast
  obtain d1 rs where p': "p = (d1, rs)" by (cases p)
  from k obtain d2 d3 where "rs = results" "require_some_sent rs = Inr ()" "update_shift sid (approved_shift ctx clk) d1 = Inr d2"
    "update_shift sid (\<lambda>x. x\<lparr>sh_status := OFFERED\<rparr>) d2 = Inr d3" "d' = emit es d3"
    by (auto simp: p' bindE_Inr_iff)
  then show ?thesis using that [OF s] p by (simp add: p')
qed

lemma dbok_approveShiftRequest:
  assumes "db_ok d" and "approveShiftRequest senv ctx clk uuid sid d = Inr (d', results)"
  shows "db_ok d' \<and> older d d' \<and> advances d d'"
  using assms(2)
proof (rule approve_shape)
  fix s proposed d1 d2 d3 es
  assume p: "pending_request (NotFound ''Shift not found.'') ctx sid d = Inr s"
    and l: "send_loop (senv\<lparr>se_kind := STANDARD\<rparr>) ctx clk s proposed uuid (\<lambda>_ _. Inr ()) (map rq_staff (requests_of sid d)) d [] = (d1, results)"
    and u: "update_shift sid (approved_shift ctx clk) d1 = Inr d2"
    and w: "update_shift sid (\<lambda>x. x\<lparr>sh_status := OFFERED\<rparr>) d2 = Inr d3" and d': "d' = emit es d3"
  note s = pending_requestD [OF p]
  have id: "sh_id s = sid" using s find_shift_SomeD by blast
  have 1: "db_ok d2 \<and> older d d2 \<and> advances d d2"
    by (rule dbok_send_then_update [OF assms(1) row_of_found [OF conjunct1 [OF s]] _ l u [folded id]]) (use s in \<open>auto simp: shift_upd_def approved_shift_def\<close>)
  have "db_ok d3 \<and> older d2 d3 \<and> advances d2 d3"
  proof (rule dbok_update_shift [OF conjunct1 [OF 1] w])
    fix x
    assume x: "x \<in> set (shifts d2)" "sh_id x = sid" "sh_status x = CANCELLED"
    have "shifts d2 = update_where (\<lambda>s. sh_id s = sid) (approved_shift ctx clk) (shifts d1)" using u by (auto simp: update_shift_Inr)
    then obtain y where "x = (if sh_id y = sid then approved_shift ctx clk y else y)" using x(1) by (auto simp: set_update_where)
    then have False using x(2,3) by (simp add: approved_shift_def split: if_splits)
    then show "sh_status (x\<lparr>sh_status := OFFERED\<rparr>) = CANCELLED" ..
  qed (simp_all add: shift_upd_def)
  then show ?thesis using 1 older_trans [of d d2 d3] advances_trans [of d d2 d3] by (simp add: d')
qed

section \<open>Seats of cancelled shifts\<close>

lemma claim_offer_tables:
  assumes "claim_offer oid st f act d = (d', b)"
  shows "assignments d' = assignments d \<and> shifts d' = shifts d \<and> attendances d' = attendances d \<and> find_shift k d' = find_shift k d
    \<and> offers d' = update_where (\<lambda>r. jo_id r = oid \<and> jo_status r = st) f (offers d)"
proof (cases "\<exists>r \<in> set (offers d). jo_id r = oid \<and> jo_status r = st")
  case True
  then show ?thesis using assms by (auto simp: claim_offer_def find_shift_def)
next
  case False
  then have "update_where (\<lambda>r. jo_id r = oid \<and> jo_status r = st) f (offers d) = offers d" by (intro update_where_none) blast
  then show ?thesis using assms unfolding claim_offer_def if_not_P [OF False] by auto
qed

text \<open>The seat \<open>aid\<close>, if its status is \<open>st\<close>, is cancelled, and its offer, if it is open and fits \<open>st\<close>, may be closed.\<close>

definition closes_offers :: "string \<Rightarrow> assignment_status \<Rightarrow> db \<Rightarrow> db \<Rightarrow> bool" where
  "closes_offers aid st d d' \<longleftrightarrow> (\<exists>P f. offers d' = update_where P f (offers d) \<and> offer_upd f \<and> (\<forall>r \<in> set (offers d). P r \<longrightarrow>
     jo_assignment r = aid \<and> coupled (jo_status r) st
     \<and> (jo_status r, jo_status (f r)) \<in> {(PENDING, OFFER_WITHDRAWN), (OFFER_STAFF_ACCEPTED, MANAGER_REJECTED)}))"

definition closes_seat :: "string \<Rightarrow> assignment_status \<Rightarrow> db \<Rightarrow> db \<Rightarrow> bool" where
  "closes_seat aid st d d' \<longleftrightarrow> shifts d' = shifts d \<and> attendances d' = attendances d \<and> no_double_booking (assignments d')
     \<and> assignments d' = update_where (\<lambda>x. sa_id x = aid \<and> sa_status x = st) (\<lambda>x. x\<lparr>sa_status := A_CANCELLED\<rparr>) (assignments d)
     \<and> closes_offers aid st d d'"

lemma closes_offers_same: "offers d' = offers d \<Longrightarrow> closes_offers aid st d d'"
  unfolding closes_offers_def by (intro exI [of _ "\<lambda>_. False"] exI [of _ "\<lambda>x. x"]) (simp add: offer_upd_def)

lemma count_update_le: "(\<And>x. Q (f x) \<Longrightarrow> Q x) \<Longrightarrow> count_where Q (update_where P f t) \<le> count_where Q t"
proof (induction t)
  case (Cons x t)
  then have "count_where Q (update_where P f t) \<le> count_where Q t" by blast
  then show ?case using Cons.prems [of x] by auto
qed simp

lemma coupled_open:
  "st \<in> {PENDING, OFFER_STAFF_ACCEPTED} \<Longrightarrow> coupled st x \<Longrightarrow> coupled st y \<Longrightarrow> x = y"
  by auto

lemma closes_offers_moves: "closes_offers aid st d d' \<Longrightarrow> offer_moves d d'"
  unfolding offer_moves_def
proof
  fix r
  assume c: "closes_offers aid st d d'" and r: "r \<in> set (offers d)"
  then obtain P f where o: "offers d' = update_where P f (offers d)" and f: "offer_upd f"
    and p: "P r \<Longrightarrow> (jo_status r, jo_status (f r)) \<in> {(PENDING, OFFER_WITHDRAWN), (OFFER_STAFF_ACCEPTED, MANAGER_REJECTED)}"
    unfolding closes_offers_def by blast
  let ?r = "if P r then f r else r"
  have "reaches PENDING OFFER_WITHDRAWN" "reaches OFFER_STAFF_ACCEPTED MANAGER_REJECTED"
    by (rule reaches_step, simp add: assertTransition_def)+
  then have "offer_ident ?r = offer_ident r \<and> reaches (jo_status r) (jo_status ?r)" using f p by (auto simp: offer_upd_def)
  moreover have "?r \<in> set (offers d')" using r by (auto simp: o set_update_where)
  ultimately show "\<exists>r' \<in> set (offers d'). offer_ident r' = offer_ident r \<and> reaches (jo_status r) (jo_status r')" by blast
qed

lemma closes_seat_coupled:
  assumes db_ok: "db_ok d" and c: "closes_seat aid st d d'" and sc: "\<forall>x \<in> set (assignments d). sa_id x = aid \<longrightarrow> shift_cancelled (sa_shift x) d"
  shows "coupled_db d'"
  unfolding coupled_db_def
proof (intro ballI impI)
  fix r' a'
  assume r': "r' \<in> set (offers d')" and a': "a' \<in> set (assignments d')" and e: "sa_id a' = jo_assignment r'"
  from c obtain P f where o: "offers d' = update_where P f (offers d)" and f: "offer_upd f" and p: "\<forall>r \<in> set (offers d). P r \<longrightarrow>
     jo_assignment r = aid \<and> coupled (jo_status r) st
     \<and> (jo_status r, jo_status (f r)) \<in> {(PENDING, OFFER_WITHDRAWN), (OFFER_STAFF_ACCEPTED, MANAGER_REJECTED)}"
    and as: "assignments d' = update_where (\<lambda>x. sa_id x = aid \<and> sa_status x = st) (\<lambda>x. x\<lparr>sa_status := A_CANCELLED\<rparr>) (assignments d)"
    and sh: "shifts d' = shifts d"
    unfolding closes_seat_def closes_offers_def by blast
  from r' obtain q where q: "q \<in> set (offers d)" "r' = (if P q then f q else q)" by (auto simp: o set_update_where)
  from a' obtain b where b: "b \<in> set (assignments d)" "a' = (if sa_id b = aid \<and> sa_status b = st then b\<lparr>sa_status := A_CANCELLED\<rparr> else b)"
    by (auto simp: as set_update_where)
  have i: "sa_id a' = sa_id b" "sa_shift a' = sa_shift b" "jo_assignment r' = jo_assignment q" using b(2) q(2) f by (auto simp: offer_updD)
  have pq: "pair_ok d q b" using db_ok q(1) b(1) e i unfolding db_ok_def coupled_db_def by simp
  have same: "shift_cancelled sid d' = shift_cancelled sid d" for sid by (simp add: shift_cancelled_def sh)
  show "pair_ok d' r' a'"
  proof (cases "sa_id b = aid")
    case False
    then have "r' = q" "a' = b" using p q b(2) e i by auto
    then show ?thesis using pq by (simp add: pair_ok_def same)
  next
    case True
    then have sc': "shift_cancelled (sa_shift a') d'" using sc b(1) i by (simp add: same)
    show ?thesis
    proof (cases "sa_status b = st")
      case True
      then show ?thesis using sc' \<open>sa_id b = aid\<close> b(2) by (simp add: pair_ok_def)
    next
      case False
      then have ab: "a' = b" using b(2) by simp
      show ?thesis
      proof (cases "P q")
        case True
        then have "\<not> coupled (jo_status q) (sa_status b)" using p q(1) False coupled_open by blast
        then show ?thesis using pq sc' ab by (simp add: pair_ok_def)
      next
        case False
        then show ?thesis using pq ab q(2) by (simp add: pair_ok_def same)
      qed
    qed
  qed
qed

lemma dbok_closes_seat:
  assumes db_ok: "db_ok d" and c: "closes_seat aid st d d'" and sc: "\<forall>x \<in> set (assignments d). sa_id x = aid \<longrightarrow> shift_cancelled (sa_shift x) d"
    and na: "\<not> has_attendance aid d"
  shows "db_ok d' \<and> older d d' \<and> advances d d'"
proof -
  from c obtain P f where o: "offers d' = update_where P f (offers d)" and f: "offer_upd f" and as: "assignments d'
      = update_where (\<lambda>x. sa_id x = aid \<and> sa_status x = st) (\<lambda>x. x\<lparr>sa_status := A_CANCELLED\<rparr>) (assignments d)"
    and sh: "shifts d' = shifts d" and at: "attendances d' = attendances d" and nd: "no_double_booking (assignments d')" and co: "closes_offers aid st d d'"
    unfolding closes_seat_def closes_offers_def by blast
  have mo: "map jo_id (offers d') = map jo_id (offers d)" "map jo_assignment (offers d') = map jo_assignment (offers d)"
    "map (\<lambda>x. (jo_assignment x, jo_staff x)) (offers d') = map (\<lambda>x. (jo_assignment x, jo_staff x)) (offers d)"
    "map offer_ident (offers d') = map offer_ident (offers d)"
    using f by (simp_all add: o map_update_where offer_updD offer_upd_maps)
  have ma: "map sa_id (assignments d') = map sa_id (assignments d)" "map sa_shift (assignments d') = map sa_shift (assignments d)"
    "map (\<lambda>x. (sa_id x, sa_staff x)) (assignments d') = map (\<lambda>x. (sa_id x, sa_staff x)) (assignments d)"
    "map seat_ident (assignments d') = map seat_ident (assignments d)"
    by (simp_all add: as map_update_where seat_ident_def)
  have "keyed_db d'" using db_ok mo(1,2) ma(1)
    by (simp add: db_ok_def keyed_db_def shift_table.keyed_def assignment_table.keyed_def offer_table.keyed_def sh)
  moreover have "linked_db d'" using db_ok unfolding db_ok_def linked_db_def set_map [symmetric] ma mo sh by blast
  moreover have "occupied sid d' \<le> occupied sid d" for sid
    unfolding occupied_count as of_nat_le_iff by (rule count_update_le) (auto simp: occupiedSeatSql_def)
  then have "seated_db d'" using db_ok order_trans unfolding db_ok_def seated_db_def sh by blast
  moreover have "\<exists>b \<in> set (assignments d'). attended_seat t b" if t: "t \<in> set (attendances d)" for t
  proof -
    obtain b where b: "b \<in> set (assignments d)" "attended_seat t b" using db_ok t by (auto simp: db_ok_def attended_db_def)
    have "at_assignment t \<noteq> aid" using na t unfolding has_attendance_def by blast
    then have "sa_id b \<noteq> aid" using b(2) by (simp add: attended_seat_def)
    then have "b \<in> set (assignments d')" using b(1) by (auto simp: as set_update_where intro!: exI [of _ b])
    then show ?thesis using b(2) by blast
  qed
  then have "attended_db d'" using db_ok by (simp add: db_ok_def attended_db_def at)
  ultimately have "db_ok d'" using closes_seat_coupled [OF db_ok c sc] db_ok nd by (simp add: db_ok_def checked_db_def sh)
  moreover have "older d d'" unfolding older_def set_map [symmetric] mo ma at by (simp add: shift_cancelled_def sh)
  moreover have "advances d d'" unfolding advances_def using closes_offers_moves [OF co] att_moves_same [OF at] by blast
  ultimately show ?thesis by simp
qed

lemma closeCancelledOffer_closes:
  assumes "db_ok d" and "older d0 d" and r: "r \<in> set (offers d0)" "jo_assignment r = aid" "coupled (jo_status r) st"
    and c: "closeCancelledOffer clk r d = Inr (d', b)"
  shows "closes_offers aid st d d' \<and> assignments d' = assignments d \<and> shifts d' = shifts d \<and> attendances d' = attendances d"
proof -
  obtain q where q: "q \<in> set (offers d)" "offer_ident q = offer_ident r" using assms(2) r(1) unfolding older_def by force
  have u: "jo_assignment x = aid" if "x \<in> set (offers d)" "jo_id x = jo_id r" for x
    using offer_table.keyed_unique [of "offers d" x q] assms(1) that q r(2) by (simp add: db_ok_def keyed_db_def offer_ident_def)
  have k: ?thesis if co: "claim_offer (jo_id r) os f act d = (d', b)" and f: "offer_upd f" "\<And>x. jo_status (f x) = os'"
      and st: "(os, os') \<in> {(PENDING, OFFER_WITHDRAWN), (OFFER_STAFF_ACCEPTED, MANAGER_REJECTED)}" "os = jo_status r" for os os' f act
  proof -
    note e = claim_offer_tables [OF co]
    have "closes_offers aid st d d'"
      unfolding closes_offers_def
      by (rule exI [of _ "\<lambda>x. jo_id x = jo_id r \<and> jo_status x = os"], rule exI [of _ f]) (use e u f st r(3) in auto)
    then show ?thesis using e by blast
  qed
  show ?thesis
  proof (cases "jo_status r = PENDING \<or> jo_status r = OFFER_STAFF_ACCEPTED")
    case True
    then show ?thesis
    proof
      assume e: "jo_status r = PENDING"
      then have "claim_offer (jo_id r) PENDING (\<lambda>q. q\<lparr>jo_status := OFFER_WITHDRAWN, jo_responded_at := Some (node_now clk)\<rparr>)
          OFFER_WITHDRAWN_BY_WORKER d = (d', b)"
        using c by (simp add: closeCancelledOffer_def bindE_Inr_iff)
      then show ?thesis by (rule k [where os' = OFFER_WITHDRAWN]) (simp_all add: offer_upd_def offer_ident_def e)
    next
      assume e: "jo_status r = OFFER_STAFF_ACCEPTED"
      then have "claim_offer (jo_id r) OFFER_STAFF_ACCEPTED
             (\<lambda>q. q\<lparr>jo_status := MANAGER_REJECTED, jo_rejected_at := Some (node_now clk), jo_rejected_by := None,
                    jo_rejection_reason := Some ''This shift was cancelled.''\<rparr>) OFFER_REJECTED_BY_WORKER d = (d', b)"
        using c by (simp add: closeCancelledOffer_def bindE_Inr_iff)
      then show ?thesis by (rule k [where os' = MANAGER_REJECTED]) (simp_all add: offer_upd_def offer_ident_def e)
    qed
  next
    case False
    then have "d' = d" using c by (auto simp: closeCancelledOffer_def split: if_splits)
    then show ?thesis by (simp add: closes_offers_same)
  qed
qed

lemma cancelOpenSeat_closes:
  assumes c: "cancelOpenSeat a d0 d1 = Inr (d', b)" and nd: "no_double_booking (assignments d1)"
  obtains d2 es where "d' = emit es d2" and "offers d2 = offers d1" and "shifts d2 = shifts d1" and "attendances d2 = attendances d1"
    and "assignments d2 = update_where (\<lambda>x. sa_id x = sa_id a \<and> sa_status x = sa_status a) (\<lambda>x. x\<lparr>sa_status := A_CANCELLED\<rparr>) (assignments d1)"
    and "no_double_booking (assignments d2)"
proof (cases "\<exists>x \<in> set (assignments d1). sa_id x = sa_id a \<and> sa_status x = sa_status a")
  case True
  let ?t = "update_where (\<lambda>x. sa_id x = sa_id a \<and> sa_status x = sa_status a) (\<lambda>x. x\<lparr>sa_status := A_CANCELLED\<rparr>) (assignments d1)"
  have "(\<exists>es. d' = emit es (d1\<lparr>assignments := ?t\<rparr>)) \<and> no_double_booking ?t"
    using c True unfolding cancelOpenSeat_def Let_def bindE_Inr_iff by (auto simp: bindE_Inr_iff require_Inr_iff)
  then obtain es where "d' = emit es (d1\<lparr>assignments := ?t\<rparr>)" "no_double_booking ?t" by blast
  then show ?thesis by (intro that [of es "d1\<lparr>assignments := ?t\<rparr>"]) simp_all
next
  case False
  then have "d' = d1" using c by (auto simp: cancelOpenSeat_def bindE_Inr_iff)
  moreover have "update_where (\<lambda>x. sa_id x = sa_id a \<and> sa_status x = sa_status a) (\<lambda>x. x\<lparr>sa_status := A_CANCELLED\<rparr>) (assignments d1)
      = assignments d1"
    using False by (intro update_where_none) blast
  ultimately show ?thesis using nd by (intro that [of "[]" d1]) (simp_all add: emit_def)
qed

lemma closeCancelledSeat_shape:
  assumes db_ok: "db_ok d" "db_ok d0" and old: "older d0 d" and c: "closeCancelledSeat clk aid d0 d = Inr (d', out)"
  obtains (skipped) "d' = d"
  | (closed) a d1 es where "find_assignment aid d0 = Some a" and "sa_status a \<in> set OPEN_ASSIGNMENT_STATUSES"
      and "shift_cancelled (sa_shift a) d0" and "closes_seat aid (sa_status a) d d1" and "d' = emit es d1"
proof -
  consider "d' = d" | a s where "find_assignment aid d0 = Some a" "sa_status a \<in> set OPEN_ASSIGNMENT_STATUSES"
    "find_shift (sa_shift a) d0 = Some s" "sh_status s = CANCELLED"
    using c by (auto simp: closeCancelledSeat_def split: option.splits if_splits)
  then show ?thesis
  proof cases
    case 1
    then show ?thesis by (rule skipped)
  next
    case (2 a s)
    have aid: "sa_id a = aid" using find_assignment_SomeD [OF 2(1)] by simp
    have sc: "shift_cancelled (sa_shift a) d0" using 2 find_shift_SomeD unfolding shift_cancelled_def by blast
    from c obtain d1 b b' where o: "(case offer_of_seat aid d0 of None \<Rightarrow> Inr (d, False) | Some r \<Rightarrow> closeCancelledOffer clk r d) = Inr (d1, b)"
      and k: "cancelOpenSeat a d0 d1 = Inr (d', b')"
      by (auto simp: closeCancelledSeat_def 2 bindE_Inr_iff)
    have c1: "closes_offers aid (sa_status a) d d1 \<and> assignments d1 = assignments d \<and> shifts d1 = shifts d \<and> attendances d1 = attendances d"
    proof (cases "offer_of_seat aid d0")
      case None
      then show ?thesis using o by (simp add: closes_offers_same)
    next
      case (Some r)
      then have r: "r \<in> set (offers d0)" "jo_assignment r = aid" using find_Some_mem [of "\<lambda>r. jo_assignment r = aid" "offers d0" r] by (auto simp: offer_of_seat_def)
      have "pair_ok d0 r a"
        using db_ok(2) r find_assignment_SomeD [OF 2(1)] unfolding db_ok_def coupled_db_def by simp
      then have "coupled (jo_status r) (sa_status a)" using 2(2) by (auto simp: pair_ok_def OPEN_ASSIGNMENT_STATUSES_def)
      then show ?thesis using closeCancelledOffer_closes [OF db_ok(1) old r] o Some by simp
    qed
    have nd: "no_double_booking (assignments d1)" using db_ok(1) c1 by (simp add: db_ok_def checked_db_def)
    obtain d2 es where "d' = emit es d2" "offers d2 = offers d1" "shifts d2 = shifts d1" "attendances d2 = attendances d1"
      "assignments d2 = update_where (\<lambda>x. sa_id x = sa_id a \<and> sa_status x = sa_status a) (\<lambda>x. x\<lparr>sa_status := A_CANCELLED\<rparr>) (assignments d1)"
      "no_double_booking (assignments d2)"
      using cancelOpenSeat_closes [OF k nd] .
    moreover from this have "closes_seat aid (sa_status a) d d2" using c1 by (simp add: closes_seat_def closes_offers_def aid)
    ultimately show ?thesis using closed [OF 2(1,2) sc] by blast
  qed
qed

lemma dbok_closeCancelledSeat:
  assumes db_ok: "db_ok d" "db_ok d0" and old: "older d0 d" and na: "\<not> has_attendance aid d"
    and c: "closeCancelledSeat clk aid d0 d = Inr (d', out)"
  shows "db_ok d' \<and> older d d' \<and> advances d d'"
  using db_ok old c
proof (cases rule: closeCancelledSeat_shape)
  case skipped
  then show ?thesis using db_ok(1) older_refl advances_refl by simp
next
  case (closed a d1 es)
  have "shift_cancelled (sa_shift x) d" if x: "x \<in> set (assignments d)" "sa_id x = aid" for x
  proof -
    obtain b where "find_assignment aid d = Some b" "seat_ident b = seat_ident a" using older_assignment [OF old db_ok(1) closed(1)] .
    moreover from this have "b = x" using x db_ok(1) find_assignment_iff [of d aid] assignment_table.keyed_unique [of "assignments d" b x]
      by (simp add: db_ok_def keyed_db_def)
    ultimately have "sa_shift x = sa_shift a" by (simp add: seat_ident_def)
    then show ?thesis using closed(3) old unfolding older_def by auto
  qed
  then show ?thesis unfolding closed(5) emit_ok by (intro dbok_closes_seat [OF db_ok(1) closed(4) _ na]) blast
qed

section \<open>The step relation\<close>

text \<open>
  One committed transaction on the state \<open>d\<close> with its unlocked reads on the older state \<open>d0\<close>. Two rules carry a
  condition the code does not check: a publication does not race a cancellation, and the follow-up does not close the seat of
  somebody with an attendance. What the code does without them is stated in \<open>ShiftProperties\<close>
  (\<open>publish_reopens_cancelled\<close>, \<open>cancellation_traps_clocked_in_staff\<close>).
\<close>

inductive shift_step :: "db \<Rightarrow> db \<Rightarrow> db \<Rightarrow> bool" where
  create_draft: "createDraftTx may env ctx i dto d = Inr (d', s) \<Longrightarrow> shift_step d0 d d'"
| edit_draft: "updateDraftTx may env ctx i udto d0 d = Inr (d', s) \<Longrightarrow> shift_step d0 d d'"
| publish: "\<not> shift_cancelled i d \<Longrightarrow> publish may env ctx clk i d0 d = Inr (d', s) \<Longrightarrow> shift_step d0 d d'"
| cancel: "cancel env ctx clk i reason d0 d = Inr (d', s) \<Longrightarrow> shift_step d0 d d'"
| archive: "archiveShift may env ctx clk i d0 d = Inr (d', s) \<Longrightarrow> shift_step d0 d d'"
| restore: "restoreShift may env ctx i d0 d = Inr (d', s) \<Longrightarrow> shift_step d0 d d'"
| submit: "submitRequest may env london ctx i sdto d = Inr (d', s) \<Longrightarrow> shift_step d0 d d'"
| remove_staff: "removeRequestedStaff ctx i staff d = Inr d' \<Longrightarrow> shift_step d0 d d'"
| add_staff: "addRequestedStaff ctx i staff d = Inr d' \<Longrightarrow> shift_step d0 d d'"
| set_staff: "setRequestedStaff may ctx i ids expected d = Inr d' \<Longrightarrow> shift_step d0 d d'"
| decline: "declineRequest ctx clk i reason d = Inr (d', s) \<Longrightarrow> shift_step d0 d d'"
| create_and_send: "createShiftAndSend env senv ctx clk i uuid cdto d = Inr (d', results) \<Longrightarrow> shift_step d0 d d'"
| approve: "approveShiftRequest senv ctx clk uuid i d = Inr (d', results) \<Longrightarrow> shift_step d0 d d'"
| follow_up: "\<not> has_attendance aid d \<Longrightarrow> closeCancelledSeat clk aid d0 d = Inr (d', out) \<Longrightarrow> shift_step d0 d d'"

lemma shift_step_ok:
  assumes "shift_step d0 d d'" and "db_ok d" and "db_ok d0" and "older d0 d"
  shows "db_ok d' \<and> older d d' \<and> advances d d'"
  using assms
proof cases
  case create_draft
  then show ?thesis by (rule dbok_createDraftTx [OF assms(2)])
next
  case edit_draft
  then show ?thesis by (rule dbok_updateDraftTx [OF assms(2)])
next
  case publish
  then show ?thesis by (rule dbok_publish [OF assms(2)])
next
  case cancel
  then show ?thesis by (rule dbok_cancel_shift [OF assms(2)])
next
  case archive
  then show ?thesis by (rule dbok_archiveShift [OF assms(2)])
next
  case restore
  then show ?thesis by (rule dbok_restoreShift [OF assms(2)])
next
  case submit
  then show ?thesis by (rule dbok_submitRequest [OF assms(2)])
next
  case remove_staff
  then show ?thesis by (rule dbok_untouched [OF assms(2) untouched_remove])
next
  case add_staff
  then show ?thesis by (rule dbok_untouched [OF assms(2) untouched_add])
next
  case set_staff
  then show ?thesis by (rule dbok_untouched [OF assms(2) untouched_set])
next
  case decline
  then show ?thesis by (rule dbok_declineRequest [OF assms(2)])
next
  case create_and_send
  then show ?thesis by (rule dbok_createShiftAndSend [OF assms(2)])
next
  case approve
  then show ?thesis by (rule dbok_approveShiftRequest [OF assms(2)])
next
  case follow_up
  then show ?thesis by (rule dbok_closeCancelledSeat [OF assms(2-4)])
qed

end
