(* ===== verification/Platform.thy ===== *)
theory Platform
  imports AttendanceHistory ShiftSteps
begin

text \<open>
  The staffing platform as one step relation: the offer lifecycle, scheduling, the attendance transactions, the manager's
  decisions on seats and the Worker's jobs, interleaved in any order, each with unlocked reads of any earlier state. A
  \<open>history\<close> is a run of them, newest state first; \<open>db_ok\<close> and \<open>advances\<close> hold along every history.

  A confirmed no-show is a step when the joined attendance of its locking statement is current: the statement's snapshot
  may miss an attendance committed while it waited, and then the attendance and the no-show both stand
  (\<open>no_show_over_attendance\<close> in \<open>CorrectionProperties\<close>). A publication is a step when the shift was not cancelled since
  its unlocked read, and the closing of a seat on a cancelled shift when the seat has no attendance: what happens otherwise
  is in \<open>ShiftProperties\<close>.
\<close>

section \<open>Steps\<close>

inductive platform_step :: "db \<Rightarrow> db \<Rightarrow> db \<Rightarrow> bool" where
  offer: "offer_step d0 d d' \<Longrightarrow> platform_step d0 d d'"
| shift: "shift_step d0 d d' \<Longrightarrow> platform_step d0 d d'"
| check_in: "checkIn env ctx clk cdto d = Inr (d', st) \<Longrightarrow> platform_step d0 d d'"
| clock_in: "clockIn env ctx clk i idto d = Inr (d', t) \<Longrightarrow> platform_step d0 d d'"
| clock_in_on_behalf: "clockInOnBehalf env ctx clk i sid staff reason d0 d = Inr d' \<Longrightarrow> platform_step d0 d d'"
| clock_out: "clockOut env ctx clk odto d0 d = Inr (d', t) \<Longrightarrow> platform_step d0 d d'"
| geofence_exit: "autoClockOutOnGeofenceExit env ctx clk gdto d0 d = Inr (d', t) \<Longrightarrow> platform_step d0 d d'"
| clock_out_on_behalf: "clockOutOnBehalf env ctx clk sid staff reason d0 d = Inr d' \<Longrightarrow> platform_step d0 d d'"
| correction: "correct env ctx clk tid xdto d0 d = Inr d' \<Longrightarrow> platform_step d0 d d'"
| recorded: "recordAttendance env ctx clk i sid staff rdto d0 d = Inr d' \<Longrightarrow> platform_step d0 d d'"
| review: "reviewAttendance env ctx clk sid staff d0 d = Inr d' \<Longrightarrow> platform_step d0 d d'"
| confirm_no_show: "\<forall>aid. has_attendance aid d0 = has_attendance aid d \<Longrightarrow> confirmNoShow env ctx clk sid staff d0 d = Inr d'
    \<Longrightarrow> platform_step d0 d d'"
| reopen_no_show: "reopenNoShow env ctx sid staff reason d0 d = Inr d' \<Longrightarrow> platform_step d0 d d'"
| flag_no_show: "flagNoShowCandidate clk org aid ev d0 d = Inr (d', ev', b) \<Longrightarrow> platform_step d0 d d'"

lemma platform_step_ok:
  assumes "platform_step d0 d d'" and "db_ok d" and "older d0 d" and "db_ok d0"
  shows "db_ok d' \<and> older d d' \<and> advances d d'"
  using assms
proof cases
  case offer
  then show ?thesis by (rule step_ok [OF _ assms(2,3)])
next
  case shift
  then show ?thesis by (rule shift_step_ok [OF _ assms(2,4,3)])
next
  case check_in
  then show ?thesis by (rule dbok_checkIn [OF assms(2)])
next
  case clock_in
  then show ?thesis by (rule dbok_clockIn [OF assms(2)])
next
  case clock_in_on_behalf
  then show ?thesis by (rule dbok_clockInOnBehalf [OF assms(2,3)])
next
  case clock_out
  then show ?thesis by (rule dbok_clockOut [OF assms(2,3)])
next
  case geofence_exit
  then show ?thesis by (rule dbok_auto [OF assms(2,3)])
next
  case clock_out_on_behalf
  then show ?thesis by (rule dbok_onBehalf_out [OF assms(2)])
next
  case correction
  then show ?thesis by (rule dbok_correct [OF assms(2)])
next
  case recorded
  then show ?thesis by (rule dbok_recordAttendance [OF assms(2,3)])
next
  case review
  then show ?thesis by (rule dbok_reviewAttendance [OF assms(2)])
next
  case confirm_no_show
  then show ?thesis using dbok_confirmNoShow [OF assms(2)] by blast
next
  case reopen_no_show
  then show ?thesis by (rule dbok_reopenNoShow [OF assms(2)])
next
  case flag_no_show
  then show ?thesis by (rule dbok_flagNoShow [OF assms(2)])
qed

section \<open>Histories\<close>

text \<open>A history, newest state first; the snapshot of each step is any state of the history so far.\<close>

inductive history :: "db \<Rightarrow> db list \<Rightarrow> bool" where
  start: "history init [init]"
| step: "history init (d # ds) \<Longrightarrow> d0 \<in> set (d # ds) \<Longrightarrow> platform_step d0 d d' \<Longrightarrow> history init (d' # d # ds)"

lemma history_ok:
  assumes "history init ds" and "db_ok init"
  shows "ds \<noteq> [] \<and> last ds = init \<and> (\<forall>d \<in> set ds. db_ok d \<and> older d (hd ds) \<and> advances d (hd ds))"
  using assms
proof (induction rule: history.induct)
  case (start init)
  then show ?case by (simp add: older_refl advances_refl)
next
  case (step init d ds d0 d')
  have "db_ok d" "older d0 d" "db_ok d0" using step by auto
  then have 1: "db_ok d' \<and> older d d' \<and> advances d d'" using platform_step_ok [OF step(3)] by simp
  then show ?case using step older_refl advances_refl older_trans [of _ d d'] advances_trans [of _ d d'] by auto
qed

end
