(* ===== verification/OfferProperties.thy ===== *)
theory OfferProperties
  imports Platform
begin

text \<open>
  The properties of the offer lifecycle, over histories of transactions with stale reads where the property is about races,
  each with a concrete run as its witness.
\<close>

section \<open>A sample workspace\<close>

text \<open>A shift of four hours with two places; Ann and Bob hold a seat and an offer each, Cat is free; all sent by one manager.\<close>

definition sample_ctx :: auth_ctx where
  "sample_ctx = \<lparr>cx_org = ''org'', cx_user = ''mgr'', cx_workspace = Some ''ws'', cx_inspected_by = None\<rparr>"

definition bob_ctx :: auth_ctx where
  "bob_ctx = \<lparr>cx_org = ''org'', cx_user = ''u2'', cx_workspace = Some ''ws'', cx_inspected_by = None\<rparr>"

definition sample_clock :: "int \<Rightarrow> clock" where
  "sample_clock t = \<lparr>node_now = t, tx_now = t, stmt_now = t, stmt_next = t\<rparr>"

definition sample_shift :: "shift_status \<Rightarrow> int \<Rightarrow> shift_row" where
  "sample_shift st filled = \<lparr>sh_id = ''s'', sh_org = ''org'', sh_workspace = Some ''ws'', sh_venue = ''v'', sh_status = st,
     sh_starts_at = 36000000, sh_ends_at = 50400000, sh_default_starts_at = None, sh_default_ends_at = None,
     sh_break_minutes = 30, sh_required_count = 2, sh_filled_count = filled, sh_pay_rate_pence = 1200, sh_created_by = ''mgr'',
     sh_job_role = ''r'', sh_charge_rate_pence = 1800, sh_notes = None, sh_address = None, sh_recurrence_group = None,
     sh_published_at = Some 0, sh_cancelled_reason = None, sh_cancelled_by = None, sh_cancelled_at = None, sh_requested_by = None,
     sh_approved_at = None, sh_approved_by = None, sh_declined_at = None, sh_declined_by = None, sh_declined_reason = None,
     sh_qr_version = 1, sh_archived_at = None, sh_archived_by = None\<rparr>"

definition sample_seat :: "string \<Rightarrow> string \<Rightarrow> assignment_status \<Rightarrow> assignment_row" where
  "sample_seat i staff st = \<lparr>sa_id = i, sa_org = ''org'', sa_workspace = Some ''ws'', sa_shift = ''s'', sa_staff = staff, sa_status = st,
     sa_period = Some \<lparr>startsAt = 36000000, endsAt = 50400000\<rparr>, sa_break_minutes = None, sa_pay_snapshot = 1200,
     sa_assigned_by = Some ''mgr'', sa_confirmed_at = None, sa_reviewed_at = None, sa_reviewed_by = None, sa_check_in_required = False,
     sa_checked_in_at = None, sa_check_in_source = None, sa_check_in_location_verified = None, sa_check_in_distance_m = None,
     sa_check_in_accuracy_m = None, sa_check_in_captured_at = None\<rparr>"

definition sample_offer :: "string \<Rightarrow> string \<Rightarrow> string \<Rightarrow> offer_status \<Rightarrow> offer_row" where
  "sample_offer i seat staff st = \<lparr>jo_id = i, jo_org = ''org'', jo_workspace = Some ''ws'', jo_assignment = seat, jo_staff = staff,
     jo_batch = Some ''b'', jo_status = st, jo_kind = Some STANDARD, jo_sent_at = 0, jo_expires_at = 30000000, jo_estimated_pay = 4200,
     jo_created_by = Some ''mgr'', jo_responded_at = None, jo_decline_reason = None, jo_staff_accepted_at = None,
     jo_confirmed_at = None, jo_confirmed_by = None, jo_rejected_at = None, jo_rejected_by = None, jo_rejection_reason = None\<rparr>"

definition sample_staff :: "string \<Rightarrow> string \<Rightarrow> staff_row" where
  "sample_staff i u = \<lparr>sp_id = i, sp_user = u, sp_workspace = Some ''ws'', sp_created_by = Some ''mgr'',
     sp_employment = E_ACTIVE, sp_available_days = None\<rparr>"

definition sample_user :: "string \<Rightarrow> user_row" where
  "sample_user u = \<lparr>us_id = u, us_org = ''org'', us_status = U_ACTIVE, us_deleted_at = None, us_roles = []\<rparr>"

definition sample_db :: "shift_status \<Rightarrow> int \<Rightarrow> offer_status \<Rightarrow> assignment_status \<Rightarrow> offer_status \<Rightarrow> assignment_status \<Rightarrow> db" where
  "sample_db st filled o1 a1 o2 a2 = \<lparr>shifts = [sample_shift st filled],
     assignments = [sample_seat ''a1'' ''ann'' a1, sample_seat ''a2'' ''bob'' a2],
     offers = [sample_offer ''o1'' ''a1'' ''ann'' o1, sample_offer ''o2'' ''a2'' ''bob'' o2],
     staff_profiles = [sample_staff ''ann'' ''u1'', sample_staff ''bob'' ''u2'', sample_staff ''cat'' ''u3''],
     users = [sample_user ''mgr'', sample_user ''u1'', sample_user ''u2'', sample_user ''u3''],
     managers = [], attendances = [], venues = [], reports = [], corrections = [], job_roles = [], role_rates = [], request_staff = [], due_work = [], events = []\<rparr>"

text \<open>Before the shift: Ann accepted, Bob has not answered. During it: Ann has worked, Bob has still not answered.\<close>

definition before :: db where
  "before = sample_db OFFERED 0 OFFER_STAFF_ACCEPTED A_STAFF_ACCEPTED PENDING A_OFFERED"

definition during :: db where
  "during = sample_db IN_PROGRESS 1 MANAGER_CONFIRMED A_COMPLETED PENDING A_OFFERED"

lemmas sample_defs = before_def during_def sample_db_def sample_shift_def sample_seat_def sample_offer_def sample_staff_def sample_user_def

lemma sample_ok: "db_ok before" "db_ok during"
  by (simp_all add: db_ok_def keyed_db_def linked_db_def published_def coupled_db_def seated_db_def checked_db_def attended_db_def pair_ok_def sample_defs
      attendance_table.keyed_def one_per_seat_def one_active_per_staff_def
      shift_table.keyed_def assignment_table.keyed_def offer_table.keyed_def
      occupied_count occupiedSeatSql_def shift_checks_def no_double_booking_def booked_def)

text \<open>The state an operation leaves, for the sample runs.\<close>

fun after :: "(db \<times> 'a) res \<Rightarrow> db" where
  "after (Inr (d, x)) = d"
| "after (Inl e) = during"

fun won :: "'a res \<Rightarrow> bool" where
  "won (Inr x) = True"
| "won (Inl e) = False"

lemma won_after: "won m \<Longrightarrow> \<exists>x. m = Inr (after m, x)"
  by (cases m) auto

definition confirmed :: db where
  "confirmed = after (confirmOne sample_ctx (sample_clock 0) ''o1'' before before)"

definition withdrawn :: db where
  "withdrawn = after (withdrawUnconfirmedOffer (sample_clock 34200000) ''org'' ''o1'' before)"

definition accepted :: db where
  "accepted = after (staffAccept_claim bob_ctx (sample_clock 0) ''o2'' before before)"

definition expired :: db where
  "expired = fst (expireOfferCandidate (sample_clock 40000000) ''o2'' during)"

lemma sample_confirm: "\<exists>q. confirmOne sample_ctx (sample_clock 0) ''o1'' before before = Inr (confirmed, q)"
  unfolding confirmed_def by (rule won_after) code_simp

lemma sample_withdraw: "\<exists>w. withdrawUnconfirmedOffer (sample_clock 34200000) ''org'' ''o1'' before = Inr (withdrawn, w)"
  unfolding withdrawn_def by (rule won_after) code_simp

lemma sample_accept: "\<exists>w. staffAccept_claim bob_ctx (sample_clock 0) ''o2'' before before = Inr (accepted, w)"
  unfolding accepted_def by (rule won_after) code_simp

lemma sample_histories:
  "history before [confirmed, before]" "history before [withdrawn, before]" "history before [accepted, before]"
  "history during [expired, during]"
proof -
  show "history before [confirmed, before]"
    using sample_confirm by (auto intro: history.step [OF history.start _ platform_step.offer [OF offer_step.confirm]])
  have "withdrawPastDeadline (sample_clock 34200000) sample_ctx [''o1''] before = withdrawn"
    using sample_withdraw by (auto simp: withdrawPastDeadline_def sample_ctx_def)
  then show "history before [withdrawn, before]" by (auto intro: history.step [OF history.start _ platform_step.offer [OF offer_step.withdraw_past]])
  show "history before [accepted, before]"
    using sample_accept by (auto intro: history.step [OF history.start _ platform_step.offer [OF offer_step.accept]])
  have "expireOfferCandidate (sample_clock 40000000) ''o2'' during
      = (expired, snd (expireOfferCandidate (sample_clock 40000000) ''o2'' during))" by (simp add: expired_def)
  then show "history during [expired, during]" by (auto intro: history.step [OF history.start _ platform_step.offer [OF offer_step.worker_expire]])
qed

section \<open>States of a history\<close>

lemma history_state:
  assumes "db_ok init" and "history init ds" and "d \<in> set ds"
  shows "db_ok d" "older d (hd ds)" "advances d (hd ds)" "db_ok (hd ds)"
proof -
  note h = history_ok [OF assms(2,1)]
  show "db_ok d" "older d (hd ds)" "advances d (hd ds)" using h assms(3) by blast+
  have "hd ds \<in> set ds" using h by simp
  then show "db_ok (hd ds)" using h by blast
qed

lemma later_offer:
  assumes "db_ok init" and "history init ds" and "d \<in> set ds" and "find_offer oid d = Some r"
  obtains r' where "find_offer oid (hd ds) = Some r'" and "offer_ident r' = offer_ident r" and "reaches (jo_status r) (jo_status r')"
proof -
  note h = history_state [OF assms(1-3)]
  obtain r' where r': "r' \<in> set (offers (hd ds))" "offer_ident r' = offer_ident r" "reaches (jo_status r) (jo_status r')"
    using h(3) find_offer_SomeD [OF assms(4)] unfolding advances_def offer_moves_def by blast
  then have "jo_id r' = oid" using find_offer_SomeD [OF assms(4)] by (simp add: offer_ident_def)
  then show ?thesis using that r' h(4) find_offer_iff [of "hd ds" oid r'] by (simp add: db_ok_def keyed_db_def)
qed

lemma confirmed_after_step:
  assumes "db_ok d" and "platform_step d d d'" and "find_offer k d = Some q" and "jo_status q = MANAGER_CONFIRMED"
  shows "\<exists>q'. find_offer k d' = Some q' \<and> jo_status q' = MANAGER_CONFIRMED"
proof -
  have h: "history d [d', d]" by (rule history.step [OF history.start _ assms(2)]) simp
  have m: "d \<in> set [d', d]" by simp
  obtain q' where "find_offer k (hd [d', d]) = Some q'" "offer_ident q' = offer_ident q" "reaches (jo_status q) (jo_status q')"
    by (rule later_offer [OF assms(1) h m assms(3)])
  then show ?thesis using assms(4) reaches_terminal [of MANAGER_CONFIRMED] by simp
qed

lemma confirm_needs_accepted:
  assumes "db_ok d" and "older d0 d" and "confirmOne ctx clk oid d0 d = Inr (d', q)"
  obtains r where "find_offer oid d = Some r" and "jo_status r = OFFER_STAFF_ACCEPTED"
  using assms
proof (cases rule: confirm_touches)
  case (1 r a s g h)
  then show ?thesis using that offer_join_SomeD [OF 1(1)] by (simp add: confirm_claimable_def)
qed

lemma accept_needs_pending:
  assumes "db_ok d" and "older d0 d" and "staffAccept_claim ctx clk oid d0 d = Inr (d', Accepted q)"
  obtains r where "find_offer oid d = Some r" and "jo_status r = PENDING"
  using assms
proof (cases rule: accept_claim_touches)
  case (won r a s q')
  then show ?thesis using that offer_join_SomeD [OF won(1)] by (simp add: accept_claimable_def)
qed simp

section \<open>Capacity and agreement\<close>



text \<open>
  An offer and its seat never disagree. In every state of every history, the seat of an offer exists, belongs to the
  offer's staff member, and has the status the offer's status calls for (or is cancelled with its cancelled shift).
\<close>

theorem offer_agrees_with_its_seat:
  assumes "db_ok init" and "history init ds" and "d \<in> set ds" and "r \<in> set (offers d)"
  shows "\<exists>a \<in> set (assignments d). sa_id a = jo_assignment r \<and> sa_staff a = jo_staff r
    \<and> (coupled (jo_status r) (sa_status a) \<or> (sa_status a = A_CANCELLED \<and> shift_cancelled (sa_shift a) d))"
proof -
  have ok: "db_ok d" by (rule history_state(1) [OF assms(1-3)])
  then have "(jo_assignment r, jo_staff r) \<in> (\<lambda>a. (sa_id a, sa_staff a)) ` set (assignments d)"
    using assms(4) unfolding db_ok_def linked_db_def by blast
  then obtain a where a: "a \<in> set (assignments d)" "sa_id a = jo_assignment r" "sa_staff a = jo_staff r" by auto
  have "pair_ok d r a" using ok assms(4) a unfolding db_ok_def coupled_db_def by blast
  then show ?thesis using a unfolding pair_ok_def by blast
qed

theorem offer_agrees_with_its_seat_witness:
  "history before [confirmed, before] \<and> map jo_status (offers confirmed) = [MANAGER_CONFIRMED, PENDING]
    \<and> (\<exists>a \<in> set (assignments confirmed). sa_id a = jo_assignment (hd (offers confirmed)) \<and> sa_status a = A_CONFIRMED)"
proof -
  have m: "map jo_status (offers confirmed) = [MANAGER_CONFIRMED, PENDING]" by code_simp
  then have "hd (offers confirmed) \<in> set (offers confirmed)" "jo_status (hd (offers confirmed)) = MANAGER_CONFIRMED" by auto
  then have "\<exists>a \<in> set (assignments confirmed). sa_id a = jo_assignment (hd (offers confirmed))
      \<and> sa_status a \<in> {A_CONFIRMED, A_CANCELLED, A_NO_SHOW, A_COMPLETED}"
    using offer_agrees_with_its_seat [OF sample_ok(1) sample_histories(1), of confirmed "hd (offers confirmed)"] by auto
  moreover have "map sa_status (assignments confirmed) = [A_CONFIRMED, A_OFFERED]" by code_simp
  ultimately show ?thesis using m sample_histories(1) by auto
qed

text \<open>
  C4. Offers only move forward. Between any state of a history and its last state an offer keeps its identity (seat,
  staff member, kind, sender) and its status follows a run of the transition table; a closed offer never changes status again.
\<close>

theorem offer_follows_the_table:
  assumes "db_ok init" and "history init ds" and "d \<in> set ds" and "find_offer oid d = Some r"
  shows "\<exists>r' ts. find_offer oid (hd ds) = Some r' \<and> offer_ident r' = offer_ident r
    \<and> run_transitions offer_status_str OFFER_TRANSITIONS (jo_status r) ts = Inr (jo_status r')
    \<and> (OFFER_TRANSITIONS (jo_status r) = Some [] \<longrightarrow> jo_status r' = jo_status r)"
proof -
  obtain r' where r': "find_offer oid (hd ds) = Some r'" "offer_ident r' = offer_ident r" "reaches (jo_status r) (jo_status r')"
    by (rule later_offer [OF assms])
  have "OFFER_TRANSITIONS (jo_status r) = Some [] \<Longrightarrow> jo_status r' = jo_status r"
    using r'(3) reaches_terminal [of "jo_status r" "jo_status r'"] offers.terminal_iff [of "jo_status r"] by simp
  then show ?thesis using r' unfolding reaches_def by blast
qed

theorem offer_follows_the_table_witness:
  "history before [confirmed, before]
    \<and> (\<exists>r' ts. find_offer ''o1'' confirmed = Some r' \<and> jo_staff r' = ''ann''
         \<and> run_transitions offer_status_str OFFER_TRANSITIONS OFFER_STAFF_ACCEPTED ts = Inr (jo_status r'))"
proof -
  have f: "find_offer ''o1'' before = Some (sample_offer ''o1'' ''a1'' ''ann'' OFFER_STAFF_ACCEPTED)"
    by (simp add: find_offer_def sample_defs)
  show ?thesis
    using offer_follows_the_table [OF sample_ok(1) sample_histories(1) _ f] sample_histories(1)
    by (auto simp: sample_offer_def offer_ident_def)
qed

section \<open>Confirmation\<close>

text \<open>
  C2. A confirmation that commits was made by the sender of the offer, on an accepted offer, strictly before its
  confirmation deadline by the database clock at the claim, on a shift neither cancelled nor completed with a vacancy; it
  leaves the offer confirmed in the sender's name, its seat confirmed and the filled count one more than the seats taken
  before, within the required count. Nothing else of offers, seats and shifts changes. The unlocked reads may be stale.
\<close>

theorem confirm_is_guarded:
  assumes "db_ok d" and "older d0 d" and "confirmOne ctx clk oid d0 d = Inr (d', q)"
  shows "\<exists>r a s g h. offer_join oid d = Some (r, a, s) \<and> jo_created_by r = Some (cx_user ctx)
    \<and> jo_status r = OFFER_STAFF_ACCEPTED \<and> stmt_now clk < deadline_of r a s \<and> sh_status s \<notin> {CANCELLED, COMPLETED}
    \<and> effectiveFilled (sh_id s) (sh_filled_count s) d < sh_required_count s
    \<and> find_offer oid d' = Some q \<and> jo_status q = MANAGER_CONFIRMED \<and> jo_confirmed_by q = Some (cx_user ctx)
    \<and> touches d r a (confirmed_by clk (cx_user ctx)) g h d' \<and> sa_status (g a) = A_CONFIRMED
    \<and> sh_filled_count (h s) = effectiveFilled (sh_id s) (sh_filled_count s) d + 1 \<and> db_ok d'"
  using assms
proof (cases rule: confirm_touches)
  case (1 r a s g h)
  note j = offer_join_SomeD [OF 1(1)]
  have oid: "jo_id r = oid" using j find_offer_SomeD [of oid d r] by simp
  have "find_offer oid d' = map_option (\<lambda>x. if jo_id x = oid then confirmed_by clk (cx_user ctx) x else x) (find_offer oid d)"
    using 1(6) unfolding find_offer_def touches_def oid by (simp add: offer_table.find_update)
  then have "q = confirmed_by clk (cx_user ctx) r" using 1(12) j oid by simp
  then show ?thesis
    using 1 dbok_confirm [OF assms]
    by (intro exI [of _ r] exI [of _ a] exI [of _ s] exI [of _ g] exI [of _ h]) (simp add: confirm_claimable_def)
qed

theorem confirm_is_guarded_witness:
  "(\<exists>q. confirmOne sample_ctx (sample_clock 0) ''o1'' before before = Inr (confirmed, q)
      \<and> jo_status q = MANAGER_CONFIRMED \<and> jo_confirmed_by q = Some ''mgr'') \<and> db_ok confirmed"
proof -
  obtain q where q: "confirmOne sample_ctx (sample_clock 0) ''o1'' before before = Inr (confirmed, q)" using sample_confirm by blast
  have "cx_user sample_ctx = ''mgr''" by (simp add: sample_ctx_def)
  then show ?thesis using confirm_is_guarded [OF sample_ok(1) older_refl q] q by auto
qed

text \<open>
  C3. Confirmation and withdrawal at the deadline exclude each other for ever: once an offer was confirmed, the withdrawal
  finds nothing to do in any later state, whatever the clock; and once the withdrawal happened, every confirmation attempt
  fails, even one whose unlocked reads are older than the withdrawal.
\<close>

theorem confirm_and_deadline_withdrawal_exclude_each_other:
  assumes "db_ok init" and "history init ds" and "d1 \<in> set ds" and "d0 \<in> set ds" and "find_offer oid d1 = Some r"
  shows "(jo_status r = MANAGER_CONFIRMED \<longrightarrow> withdrawUnconfirmedOffer clk org oid (hd ds) = Inr (hd ds, None))
    \<and> (isWithdrawnAtDeadline r \<longrightarrow> (\<exists>e. confirmOne ctx clk oid d0 (hd ds) = Inl e))"
proof (intro conjI impI)
  obtain r' where r': "find_offer oid (hd ds) = Some r'" "reaches (jo_status r) (jo_status r')"
    by (rule later_offer [OF assms(1-3,5)])
  note h = history_state [OF assms(1,2,4)]
  show "withdrawUnconfirmedOffer clk org oid (hd ds) = Inr (hd ds, None)" if "jo_status r = MANAGER_CONFIRMED"
  proof -
    have "jo_status r' = MANAGER_CONFIRMED" using r'(2) reaches_terminal [of MANAGER_CONFIRMED] that by simp
    then show ?thesis
      using r'(1) by (auto simp: withdrawUnconfirmedOffer_def offer_join_def withdraw_claimable_def split: option.splits)
  qed
  show "\<exists>e. confirmOne ctx clk oid d0 (hd ds) = Inl e" if "isWithdrawnAtDeadline r"
  proof (cases "confirmOne ctx clk oid d0 (hd ds)")
    case (Inr p)
    then obtain d' q where c: "confirmOne ctx clk oid d0 (hd ds) = Inr (d', q)" by (cases p) auto
    have "jo_status r' = OFFER_STAFF_ACCEPTED" using r'(1) by (auto intro: confirm_needs_accepted [OF h(4) h(2) c])
    then show ?thesis using r'(2) reaches_terminal [of MANAGER_REJECTED] that by (simp add: isWithdrawnAtDeadline_def)
  qed simp
qed

theorem confirm_and_deadline_withdrawal_exclude_each_other_witness:
  "withdrawUnconfirmedOffer (sample_clock 34200000) ''org'' ''o1'' confirmed = Inr (confirmed, None)
    \<and> (\<exists>e. confirmOne sample_ctx (sample_clock 0) ''o1'' before withdrawn = Inl e)"
proof -
  have "map_option jo_status (find_offer ''o1'' confirmed) = Some MANAGER_CONFIRMED" by code_simp
  then obtain r where r: "find_offer ''o1'' confirmed = Some r" "jo_status r = MANAGER_CONFIRMED" by auto
  have "map_option isWithdrawnAtDeadline (find_offer ''o1'' withdrawn) = Some True" by code_simp
  then obtain q where q: "find_offer ''o1'' withdrawn = Some q" "isWithdrawnAtDeadline q" by auto
  show ?thesis
    using confirm_and_deadline_withdrawal_exclude_each_other [OF sample_ok(1) sample_histories(1) _ _ r(1), of confirmed]
      confirm_and_deadline_withdrawal_exclude_each_other [OF sample_ok(1) sample_histories(2) _ _ q(1), of before] r(2) q(2)
    by simp
qed

section \<open>Acceptance\<close>

text \<open>
  Acceptance books nothing. An acceptance that commits found the offer pending, unexpired and before its confirmation
  deadline; it leaves the offer and its seat accepted, and no shift row, no occupied count and no other offer or seat changes:
  only the manager's confirmation takes a seat.
\<close>

theorem accept_books_nothing:
  assumes "db_ok d" and "older d0 d" and "staffAccept_claim ctx clk oid d0 d = Inr (d', Accepted q)"
  shows "\<exists>r a s. offer_join oid d = Some (r, a, s) \<and> jo_status r = PENDING \<and> tx_now clk < jo_expires_at r
    \<and> stmt_now clk < deadline_of r a s \<and> sh_status s \<noteq> CANCELLED
    \<and> jo_status q = OFFER_STAFF_ACCEPTED \<and> find_offer oid d' = Some q
    \<and> touches d r a (accepted_by clk) (\<lambda>x. x\<lparr>sa_status := A_STAFF_ACCEPTED\<rparr>) (\<lambda>x. x) d'
    \<and> shifts d' = shifts d \<and> (\<forall>sid. occupied sid d' = occupied sid d)"
  using assms
proof (cases rule: accept_claim_touches)
  case (lost m)
  then show ?thesis by simp
next
  case (won r a s q')
  note j = offer_join_SomeD [OF won(1)]
  have oid: "jo_id r = oid" using j find_offer_SomeD [of oid d r] by simp
  have "find_offer oid d' = map_option (\<lambda>x. if jo_id x = oid then accepted_by clk x else x) (find_offer oid d)"
    using won(4) unfolding find_offer_def touches_def oid by (simp add: offer_table.find_update)
  then have q: "q = accepted_by clk r" using won(6,7) j oid by simp
  have a: "a \<in> set (assignments d)" "sa_id a = jo_assignment r" using j find_assignment_SomeD [of _ d a] by auto
  have k: "keyed_db d" using assms(1) by (simp add: db_ok_def)
  have st: "\<not> occupiedSeatSql a"
    using dbok_pair [OF assms(1) conjunct1 [OF j] conjunct1 [OF conjunct2 [OF j]]] won(2)
    by (auto simp: pair_ok_def accept_claimable_def occupiedSeatSql_def)
  have "occupied sid d' = occupied sid d" for sid
    using touches_occupied [OF k a(1) won(4), of sid] st by (simp add: occupiedSeatSql_def)
  moreover have "shifts d' = shifts d" using won(4) by (simp add: touches_def)
  moreover have "jo_status q = OFFER_STAFF_ACCEPTED" by (simp add: q)
  ultimately show ?thesis using won by (intro exI [of _ r] exI [of _ a] exI [of _ s]) (simp add: accept_claimable_def)
qed

theorem accept_books_nothing_witness:
  "(\<exists>q. staffAccept_claim bob_ctx (sample_clock 0) ''o2'' before before = Inr (accepted, Accepted q) \<and> jo_status q = OFFER_STAFF_ACCEPTED)
    \<and> shifts accepted = shifts before \<and> occupied ''s'' accepted = 0"
proof -
  obtain w where w: "staffAccept_claim bob_ctx (sample_clock 0) ''o2'' before before = Inr (accepted, w)" using sample_accept by blast
  have "(case staffAccept_claim bob_ctx (sample_clock 0) ''o2'' before before of Inr (d, Accepted q) \<Rightarrow> True | _ \<Rightarrow> False)" by code_simp
  then obtain q where q: "w = Accepted q" using w by (auto split: accept_outcome.splits)
  have "occupied ''s'' before = 0" by code_simp
  then show ?thesis using accept_books_nothing [OF sample_ok(1) older_refl w [unfolded q]] w q by auto
qed

text \<open>
  Acceptance and expiry exclude each other: once one of them committed, the other never does in any later state of the
  history, whatever older state its unlocked reads saw.
\<close>

theorem accept_and_expiry_exclude_each_other:
  assumes "db_ok init" and "history init ds" and "d1 \<in> set ds" and "d0 \<in> set ds" and "find_offer oid d1 = Some r"
  shows "(jo_status r \<in> {OFFER_STAFF_ACCEPTED, MANAGER_CONFIRMED} \<longrightarrow> claimExpiredOffer clk oid (hd ds) = None)
    \<and> (jo_status r = EXPIRED \<longrightarrow> (\<forall>d' q. staffAccept_claim ctx clk oid d0 (hd ds) \<noteq> Inr (d', Accepted q)))"
proof (intro conjI impI allI notI)
  obtain r' where r': "find_offer oid (hd ds) = Some r'" "reaches (jo_status r) (jo_status r')"
    by (rule later_offer [OF assms(1-3,5)])
  note h = history_state [OF assms(1,2,4)]
  show "claimExpiredOffer clk oid (hd ds) = None" if "jo_status r \<in> {OFFER_STAFF_ACCEPTED, MANAGER_CONFIRMED}"
  proof -
    obtain ts where ts: "run_transitions offer_status_str OFFER_TRANSITIONS (jo_status r) ts = Inr (jo_status r')"
      using r'(2) by (auto simp: reaches_def)
    have "offer_rank PENDING < offer_rank (jo_status r)" using that by auto
    then have "jo_status r' \<noteq> PENDING" using offers.run_rank [OF ts] by auto
    then show ?thesis using r'(1) by (simp add: claimExpiredOffer_def)
  qed
  fix d' q
  assume e: "jo_status r = EXPIRED" and c: "staffAccept_claim ctx clk oid d0 (hd ds) = Inr (d', Accepted q)"
  have "jo_status r' = PENDING" using r'(1) by (auto intro: accept_needs_pending [OF h(4) h(2) c])
  then show False using r'(2) reaches_terminal [of EXPIRED] e by simp
qed

theorem accept_and_expiry_exclude_each_other_witness:
  "claimExpiredOffer (sample_clock 40000000) ''o2'' accepted = None
    \<and> (\<forall>d' q. staffAccept_claim bob_ctx (sample_clock 0) ''o2'' during expired \<noteq> Inr (d', Accepted q))"
proof -
  have "map_option jo_status (find_offer ''o2'' accepted) = Some OFFER_STAFF_ACCEPTED" by code_simp
  then obtain r where r: "find_offer ''o2'' accepted = Some r" "jo_status r = OFFER_STAFF_ACCEPTED" by auto
  have "map_option jo_status (find_offer ''o2'' expired) = Some EXPIRED" by code_simp
  then obtain q where q: "find_offer ''o2'' expired = Some q" "jo_status q = EXPIRED" by auto
  show ?thesis
    using accept_and_expiry_exclude_each_other [OF sample_ok(1) sample_histories(3) _ _ r(1), of accepted]
      accept_and_expiry_exclude_each_other [OF sample_ok(2) sample_histories(4) _ _ q(1), of during] r(2) q(2)
    by simp
qed

section \<open>The completion roll-up\<close>

lemma close_not_stuck:
  assumes "close_offer ctx r a f seat lost evs d = Inr (d', q)"
  shows "\<not> stuck (cx_org ctx) (sa_shift a) d'"
proof -
  from assms obtain d1 d2 b es where "completeShiftIfSettled (cx_org ctx) (sa_shift a) d1 = Inr (d2, b)" and "d' = emit es d2"
    by (auto simp: close_offer_def bindE_Inr_iff from_option_Inr_iff Let_def)
  then show ?thesis using complete_not_stuck by simp
qed

lemma stale_shift:
  assumes "db_ok d" and "older d0 d" and "find_offer oid d0 = Some r0" and "find_assignment (jo_assignment r0) d0 = Some a0"
    and "find_offer oid d = Some r" and "find_assignment (jo_assignment r) d = Some a"
  shows "sa_shift a0 = sa_shift a"
proof -
  obtain r' a' s where "find_offer oid d = Some r'" "find_assignment (jo_assignment r') d = Some a'" "seat_ident a' = seat_ident a0"
    using stale_pair [OF assms(1-4)] .
  then show ?thesis using assms(5,6) by (simp add: seat_ident_def)
qed

lemma withdraw_unconfirmed_not_stuck:
  assumes "db_ok d" and "find_offer oid d = Some r" and "find_assignment (jo_assignment r) d = Some a"
    and "withdrawUnconfirmedOffer clk org oid d = Inr (d', Some w)"
  shows "\<not> stuck org (sa_shift a) d'"
proof -
  obtain s where s: "find_shift (sa_shift a) d = Some s" using dbok_shift_exists [OF assms(1,3)] .
  then have "offer_join oid d = Some (r, a, s)" "sh_id s = sa_shift a"
    using assms(2,3) find_shift_SomeD [OF s] by (simp_all add: offer_join_def)
  then obtain d1 d2 b es where "completeShiftIfSettled org (sa_shift a) d1 = Inr (d2, b)" and "d' = emit es d2"
    using assms(4) by (auto simp: withdrawUnconfirmedOffer_def bindE_Inr_iff Let_def split: if_splits)
  then show ?thesis using complete_not_stuck by simp
qed

text \<open>
  C5. No closing transition strands an in-progress shift: after a committed decline, withdrawal, rejection or withdrawal at the
  deadline, the offer's shift is not in progress with every seat closed. It was completed in the same transaction.
\<close>

theorem closing_an_offer_settles_its_shift:
  assumes "db_ok d" and "older d0 d" and "find_offer oid d = Some r" and "find_assignment (jo_assignment r) d = Some a"
    and "(\<exists>q. decline ctx clk oid reason d0 d = Inr (d', q)) \<or> (\<exists>q. withdraw ctx clk oid d0 d = Inr (d', q))
      \<or> (\<exists>q. managerReject ctx clk oid reason d0 d = Inr (d', q))
      \<or> (\<exists>w. withdrawUnconfirmedOffer clk (cx_org ctx) oid d = Inr (d', Some w))"
  shows "\<not> stuck (cx_org ctx) (sa_shift a) d'"
proof -
  have close: "\<not> stuck (cx_org ctx) (sa_shift a) d'"
    if "find_offer oid d0 = Some r0" "find_assignment (jo_assignment r0) d0 = Some a0" "close_offer ctx r0 a0 f seat lost evs d = Inr (d', q)"
    for r0 a0 f seat lost evs q
    using close_not_stuck [OF that(3)] stale_shift [OF assms(1,2) that(1,2) assms(3,4)] by simp
  from assms(5) show ?thesis
  proof (elim disjE exE)
    fix q
    assume "decline ctx clk oid reason d0 d = Inr (d', q)"
    then obtain r0 a0 f lost evs where "find_offer oid d0 = Some r0" "find_assignment (jo_assignment r0) d0 = Some a0"
      "close_offer ctx r0 a0 f A_DECLINED lost evs d = Inr (d', q)"
      by (fastforce simp: decline_def bindE_Inr_iff from_option_Inr_iff split: option.splits if_splits)
    then show ?thesis by (rule close)
  next
    fix q
    assume "withdraw ctx clk oid d0 d = Inr (d', q)"
    then obtain r0 a0 f lost evs where "find_offer oid d0 = Some r0" "find_assignment (jo_assignment r0) d0 = Some a0"
      "close_offer ctx r0 a0 f A_WITHDRAWN lost evs d = Inr (d', q)"
      by (fastforce simp: withdraw_def bindE_Inr_iff from_option_Inr_iff)
    then show ?thesis by (rule close)
  next
    fix q
    assume "managerReject ctx clk oid reason d0 d = Inr (d', q)"
    then obtain r0 a0 f lost evs where "find_offer oid d0 = Some r0" "find_assignment (jo_assignment r0) d0 = Some a0"
      "close_offer ctx r0 a0 f A_REJECTED lost evs d = Inr (d', q)"
      by (fastforce simp: managerReject_def bindE_Inr_iff from_option_Inr_iff)
    then show ?thesis by (rule close)
  next
    fix w
    assume "withdrawUnconfirmedOffer clk (cx_org ctx) oid d = Inr (d', Some w)"
    then show ?thesis by (rule withdraw_unconfirmed_not_stuck [OF assms(1,3,4)])
  qed
qed

theorem closing_an_offer_settles_its_shift_witness:
  "\<exists>d' q. decline bob_ctx (sample_clock 40000000) ''o2'' None during during = Inr (d', q) \<and> \<not> stuck ''org'' ''s'' d'
    \<and> map sh_status (shifts d') = [COMPLETED]"
proof -
  let ?m = "decline bob_ctx (sample_clock 40000000) ''o2'' None during during"
  have "won ?m" by code_simp
  then obtain q where q: "?m = Inr (after ?m, q)" using won_after by blast
  have f: "find_offer ''o2'' during = Some (sample_offer ''o2'' ''a2'' ''bob'' PENDING)"
    "find_assignment (jo_assignment (sample_offer ''o2'' ''a2'' ''bob'' PENDING)) during = Some (sample_seat ''a2'' ''bob'' A_OFFERED)"
    by (simp_all add: find_offer_def find_assignment_def sample_defs)
  have "\<not> stuck (cx_org bob_ctx) (sa_shift (sample_seat ''a2'' ''bob'' A_OFFERED)) (after ?m)"
    by (rule closing_an_offer_settles_its_shift [OF sample_ok(2) older_refl f]) (use q in blast)
  moreover have "cx_org bob_ctx = ''org''" "sa_shift (sample_seat ''a2'' ''bob'' A_OFFERED) = ''s''"
    by (simp_all add: bob_ctx_def sample_seat_def)
  moreover have "map sh_status (shifts (after ?m)) = [COMPLETED]" by code_simp
  ultimately show ?thesis using q by metis
qed

text \<open>
  C6. Expiry is the exception: an expired offer keeps its seat \<open>offered\<close> in every later state (unless the shift is cancelled),
  the roll-up counts that seat as open, and so it never completes the shift again.
\<close>

theorem expired_offer_blocks_completion:
  assumes "db_ok init" and "history init ds" and "d \<in> set ds" and "find_offer oid d = Some r" and "jo_status r = EXPIRED"
    and "find_assignment (jo_assignment r) (hd ds) = Some a" and "\<not> shift_cancelled (sa_shift a) (hd ds)"
  shows "sa_status a = A_OFFERED \<and> completeShiftIfSettled (sa_org a) (sa_shift a) (hd ds) = Inr (hd ds, False)"
proof -
  obtain r' where r': "find_offer oid (hd ds) = Some r'" "offer_ident r' = offer_ident r" "reaches (jo_status r) (jo_status r')"
    by (rule later_offer [OF assms(1-4)])
  have e: "jo_status r' = EXPIRED" using r'(3) reaches_terminal [of EXPIRED] assms(5) by simp
  have "jo_assignment r' = jo_assignment r" using r'(2) by (simp add: offer_ident_def)
  then have "pair_ok (hd ds) r' a" using dbok_pair [OF history_state(4) [OF assms(1-3)] r'(1)] assms(6) by simp
  then have st: "sa_status a = A_OFFERED" using e assms(7) by (simp add: pair_ok_def)
  have "a \<in> set (assignments (hd ds))" using find_assignment_SomeD [OF assms(6)] by simp
  then have "open_seats (sa_org a) (sa_shift a) (hd ds) \<noteq> 0"
    using st by (auto simp: open_seats_def count_where_0_iff OPEN_SEAT_STATUSES_def)
  then show ?thesis using st by (simp add: completeShiftIfSettled_def Let_def)
qed

theorem expired_offer_blocks_completion_witness:
  "expireOfferCandidate (sample_clock 40000000) ''o2'' during = (expired, True) \<and> map sh_status (shifts expired) = [IN_PROGRESS]
    \<and> completeShiftIfSettled ''org'' ''s'' expired = Inr (expired, False)"
proof -
  have "snd (expireOfferCandidate (sample_clock 40000000) ''o2'' during) = True" by code_simp
  then have x: "expireOfferCandidate (sample_clock 40000000) ''o2'' during = (expired, True)" by (simp add: expired_def prod_eq_iff)
  have "map_option (\<lambda>r. (jo_status r, jo_assignment r)) (find_offer ''o2'' expired) = Some (EXPIRED, ''a2'')" by code_simp
  then obtain r where r: "find_offer ''o2'' expired = Some r" "jo_status r = EXPIRED" "jo_assignment r = ''a2''" by auto
  have "map_option (\<lambda>a. (sa_org a, sa_shift a)) (find_assignment ''a2'' expired) = Some (''org'', ''s'')" by code_simp
  then obtain a where a: "find_assignment (jo_assignment r) (hd [expired, during]) = Some a" "sa_org a = ''org''" "sa_shift a = ''s''"
    using r(3) by auto
  have s: "map sh_status (shifts expired) = [IN_PROGRESS]" by code_simp
  then have "CANCELLED \<notin> sh_status ` set (shifts expired)" unfolding set_map [symmetric] by simp
  then have "\<not> shift_cancelled (sa_shift a) (hd [expired, during])" unfolding shift_cancelled_def image_iff by auto
  then show ?thesis
    using expired_offer_blocks_completion [OF sample_ok(2) sample_histories(4) _ r(1,2) a(1)] a x s by simp
qed

section \<open>The deadline\<close>

lemma complete_never_throws:
  assumes "list_all shift_checks (shifts d)"
  shows "\<exists>x. completeShiftIfSettled org sid d = Inr x"
proof -
  let ?f = "\<lambda>s. if sh_org s = org \<and> sh_status s = IN_PROGRESS then s\<lparr>sh_status := COMPLETED\<rparr> else s"
  have "list_all shift_checks (update_where (\<lambda>s. sh_id s = sid) ?f (shifts d))"
    by (rule list_all_update_where [OF assms], rule completesD(5)) (simp_all add: completes_def)
  then have "update_shift sid ?f d = Inr (d\<lparr>shifts := update_where (\<lambda>s. sh_id s = sid) ?f (shifts d)\<rparr>)"
    by (simp add: update_shift_def Let_def)
  then show ?thesis by (auto simp: completeShiftIfSettled_def Let_def assertTransition_def)
qed

lemma double_booking_update:
  assumes "no_double_booking t" and "\<And>x. booked (g x) \<Longrightarrow> g x = x"
  shows "no_double_booking (update_where P g t)"
proof -
  have "x \<in> set t" if x: "x \<in> set (update_where P g t)" "booked x" for x
  proof -
    obtain r where "r \<in> set t" "x = (if P r then g r else r)" using x(1) unfolding set_update_where by blast
    then show ?thesis using assms(2) [of r] x(2) by (cases "P r") simp_all
  qed
  then show ?thesis using assms(1) unfolding no_double_booking_def by blast
qed

lemma deadline_withdrawal_runs:
  assumes "db_ok d" and j: "offer_join oid d = Some (r, a, s)" and c: "withdraw_claimable org clk (r, a, s)"
  obtains d' v q where "withdrawUnconfirmedOffer clk org oid d = Inr (d', Some v)" and "find_offer oid d' = Some q"
    and "isWithdrawnAtDeadline q"
proof -
  let ?g = "\<lambda>q. if sa_status q = A_STAFF_ACCEPTED then q\<lparr>sa_status := A_REJECTED\<rparr> else q"
  let ?d1 = "update_offer oid (deadline_rejected clk) d"
  have nd: "no_double_booking (update_where (\<lambda>x. sa_id x = sa_id a) ?g (assignments d))"
    by (rule double_booking_update) (use assms in \<open>auto simp: db_ok_def checked_db_def booked_def split: if_splits\<close>)
  let ?d2 = "?d1\<lparr>assignments := update_where (\<lambda>x. sa_id x = sa_id a) ?g (assignments d)\<rparr>"
  have u: "update_assignment (sa_id a) ?g ?d1 = Inr ?d2" using nd by (simp add: update_assignment_def Let_def)
  have "list_all shift_checks (shifts ?d2)" using assms by (simp add: db_ok_def checked_db_def)
  from complete_never_throws [OF this] obtain x where "completeShiftIfSettled org (sh_id s) ?d2 = Inr x" ..
  then obtain d3 b where k: "completeShiftIfSettled org (sh_id s) ?d2 = Inr (d3, b)" by (cases x) auto
  have "\<exists>d' v. withdrawUnconfirmedOffer clk org oid d = Inr (d', Some v)"
    using j c u k by (simp add: withdrawUnconfirmedOffer_def Let_def assertTransition_def)
  then obtain d' v where w: "withdrawUnconfirmedOffer clk org oid d = Inr (d', Some v)" by blast
  obtain q where "find_offer oid d' = Some q" "isWithdrawnAtDeadline q"
    using assms(1) w
  proof (cases rule: withdraw_unconfirmed_touches)
    case (won r' a' s' h v')
    note j' = offer_join_SomeD [OF won(1)]
    have oid: "jo_id r' = oid" using j' find_offer_SomeD [of oid d r'] by simp
    have "find_offer oid d' = map_option (\<lambda>x. if jo_id x = oid then deadline_rejected clk x else x) (find_offer oid d)"
      using won(3) unfolding find_offer_def touches_def oid by (simp add: offer_table.find_update)
    then show ?thesis using that j' oid by (simp add: isWithdrawnAtDeadline_def)
  qed simp
  then show ?thesis using w that by blast
qed

text \<open>
  The withdrawal at the deadline cannot fail: on every consistent database it returns, and it withdraws the offer exactly
  when the offer is accepted with its seat, in the organisation, on a shift that is not cancelled, and its deadline has come.
\<close>

theorem deadline_withdrawal_total:
  assumes "db_ok d"
  shows "\<exists>d' out. withdrawUnconfirmedOffer clk org oid d = Inr (d', out)
    \<and> (out \<noteq> None \<longleftrightarrow> (\<exists>r a s. offer_join oid d = Some (r, a, s) \<and> jo_org r = org \<and> jo_status r = OFFER_STAFF_ACCEPTED
         \<and> sa_status a = A_STAFF_ACCEPTED \<and> sh_status s \<noteq> CANCELLED \<and> deadline_of r a s \<le> stmt_now clk))
    \<and> (if out = None then d' = d else \<exists>q. find_offer oid d' = Some q \<and> isWithdrawnAtDeadline q)"
proof (cases "\<exists>r a s. offer_join oid d = Some (r, a, s) \<and> withdraw_claimable org clk (r, a, s)")
  case False
  then have "withdrawUnconfirmedOffer clk org oid d = Inr (d, None)"
    by (auto simp: withdrawUnconfirmedOffer_def split: option.splits)
  then show ?thesis using False by (auto simp: withdraw_claimable_def)
next
  case True
  then obtain r a s where j: "offer_join oid d = Some (r, a, s)" and c: "withdraw_claimable org clk (r, a, s)" by blast
  obtain d' v q where "withdrawUnconfirmedOffer clk org oid d = Inr (d', Some v)" "find_offer oid d' = Some q" "isWithdrawnAtDeadline q"
    by (rule deadline_withdrawal_runs [OF assms j c])
  then show ?thesis using j c by (auto simp: withdraw_claimable_def)
qed

theorem deadline_withdrawal_total_witness:
  "(\<exists>w q. withdrawUnconfirmedOffer (sample_clock 34200000) ''org'' ''o1'' before = Inr (withdrawn, Some w)
      \<and> find_offer ''o1'' withdrawn = Some q \<and> isWithdrawnAtDeadline q)
    \<and> withdrawUnconfirmedOffer (sample_clock 34199999) ''org'' ''o1'' before = Inr (before, None)"
proof -
  obtain w where w: "withdrawUnconfirmedOffer (sample_clock 34200000) ''org'' ''o1'' before = Inr (withdrawn, w)" using sample_withdraw by blast
  have "(case withdrawUnconfirmedOffer (sample_clock 34200000) ''org'' ''o1'' before of Inr (d, Some w) \<Rightarrow> True | _ \<Rightarrow> False)" by code_simp
  then have "w \<noteq> None" using w by (auto split: option.splits)
  then have 1: "\<exists>q. find_offer ''o1'' withdrawn = Some q \<and> isWithdrawnAtDeadline q" "\<exists>x. w = Some x"
    using deadline_withdrawal_total [OF sample_ok(1), of "sample_clock 34200000" "''org''" "''o1''"] w by auto
  have "(case withdrawUnconfirmedOffer (sample_clock 34199999) ''org'' ''o1'' before of Inr (d, None) \<Rightarrow> True | _ \<Rightarrow> False)" by code_simp
  then have "withdrawUnconfirmedOffer (sample_clock 34199999) ''org'' ''o1'' before = Inr (before, None)"
    using deadline_withdrawal_total [OF sample_ok(1), of "sample_clock 34199999" "''org''" "''o1''"] by auto
  then show ?thesis using w 1 by auto
qed

text \<open>
  A manager who confirms too late gets the deadline conflict and the acceptance is withdrawn: the confirm rolls back, then the
  withdrawal runs, even though the request as a whole fails.
\<close>

theorem late_confirm_withdraws:
  assumes "db_ok d" and "offer_join oid d = Some (r, a, s)" and "jo_created_by r = Some (cx_user ctx)" and "jo_org r = cx_org ctx"
    and "jo_status r = OFFER_STAFF_ACCEPTED" and "sh_status s \<notin> {CANCELLED, COMPLETED}" and "cx_user ctx \<noteq> []" and "cx_org ctx \<noteq> []"
    and "deadline_of r a s \<le> stmt_now clk" and "stmt_now clk \<le> stmt_next clk" and "stmt_next clk \<le> stmt_now clk'"
  shows "\<exists>d' q. managerConfirm ctx clk clk' oid d = (d', Inl (DeadlinePassed oid (confirm_message r)))
    \<and> find_offer oid d' = Some q \<and> isWithdrawnAtDeadline q"
proof -
  note j = offer_join_SomeD [OF assms(2)]
  have oid: "jo_id r = oid" using j find_offer_SomeD [of oid d r] by simp
  have "pair_ok d r a" using dbok_pair [OF assms(1)] j by blast
  then have st: "sa_status a = A_STAFF_ACCEPTED"
    using assms(5,6) j cancelled_find [OF assms(1), of "sa_shift a"] by (auto simp: pair_ok_def)
  have "confirmOne ctx clk oid d d = Inl (DeadlinePassed oid (confirm_message r))"
    using assms j st oid by (simp add: confirmOne_def applyOfferConfirmation_def confirm_guards_def assertOfferOwned_def
        isWithdrawnAtDeadline_def assertTransition_def confirm_claimable_def deadline_error_def)
  then have m: "managerConfirm ctx clk clk' oid d = (withdrawPastDeadline clk' ctx [oid] d, Inl (DeadlinePassed oid (confirm_message r)))"
    by (simp add: managerConfirm_def)
  have "withdraw_claimable (cx_org ctx) clk' (r, a, s)" using assms st by (simp add: withdraw_claimable_def)
  then obtain d' v q where "withdrawUnconfirmedOffer clk' (cx_org ctx) oid d = Inr (d', Some v)" "find_offer oid d' = Some q"
    "isWithdrawnAtDeadline q" by (rule deadline_withdrawal_runs [OF assms(1,2)])
  then show ?thesis by (simp add: m withdrawPastDeadline_def)
qed

theorem late_confirm_withdraws_witness:
  "\<exists>d' q. managerConfirm sample_ctx (sample_clock 34200000) (sample_clock 34200000) ''o1'' before
      = (d', Inl (DeadlinePassed ''o1'' MSG_CONFIRM)) \<and> find_offer ''o1'' d' = Some q \<and> isWithdrawnAtDeadline q"
proof -
  have j: "offer_join ''o1'' before = Some (sample_offer ''o1'' ''a1'' ''ann'' OFFER_STAFF_ACCEPTED,
      sample_seat ''a1'' ''ann'' A_STAFF_ACCEPTED, sample_shift OFFERED 0)"
    by (simp add: offer_join_def find_offer_def find_assignment_def find_shift_def sample_defs)
  have "confirm_message (sample_offer ''o1'' ''a1'' ''ann'' OFFER_STAFF_ACCEPTED) = MSG_CONFIRM"
    by (simp add: confirm_message_def kind_of_def sample_offer_def)
  moreover have "deadline_of (sample_offer ''o1'' ''a1'' ''ann'' OFFER_STAFF_ACCEPTED) (sample_seat ''a1'' ''ann'' A_STAFF_ACCEPTED)
      (sample_shift OFFERED 0) = 34200000" by code_simp
  ultimately show ?thesis
    using late_confirm_withdraws [OF sample_ok(1) j, of sample_ctx "sample_clock 34200000" "sample_clock 34200000"]
    by (simp add: sample_offer_def sample_shift_def sample_ctx_def sample_clock_def)
qed

section \<open>Sending and cancelling\<close>

definition sample_env :: send_env where
  "sample_env = \<lparr>se_london = (\<lambda>t. (2026, 1, 5)), se_batch = ''b2'', se_expires_in_hours = None, se_acks = [], se_kind = STANDARD\<rparr>"

abbreviation sample_send :: "string \<Rightarrow> db \<Rightarrow> (db \<times> offer_row) res" where
  "sample_send i \<equiv> sendOne sample_env sample_ctx (sample_clock 0) (sample_shift OFFERED 0) i None (''a3'', ''o3'')"

definition sent :: db where
  "sent = after (sample_send ''cat'' before)"

lemma sample_sent: "\<exists>q. sample_send ''cat'' before = Inr (sent, q)"
  unfolding sent_def by (rule won_after) code_simp

lemma sample_found: "find_shift (sh_id (sample_shift OFFERED 0)) before = Some (sample_shift OFFERED 0)"
  by (simp add: find_shift_def sample_defs)

lemma sample_published: "sh_status (sample_shift OFFERED 0) \<noteq> DRAFT"
  by (simp add: sample_shift_def)



text \<open>
  A staff member is offered a shift at most once: after a send committed, every later send of the same shift to the same
  staff member fails, by any manager, with any proposed time.
\<close>

theorem one_offer_per_staff_and_shift:
  assumes "db_ok init" and "history init ds" and "d1 \<in> set ds" and "sendOne env ctx clk s i p ids d = Inr (d1, r)" and "sh_id s' = sh_id s"
  shows "\<exists>e. sendOne env' ctx' clk' s' i p' ids' (hd ds) = Inl e"
proof -
  obtain t a where t: "sends d s t a r d1" and a: "sa_staff a = i" using sendOne_sends [OF assms(4)] by metis
  have "seat_ident a \<in> seat_ident ` set (assignments d1)" using t by (simp add: sends_def)
  then have "seat_ident a \<in> seat_ident ` set (assignments (hd ds))"
    using history_state(2) [OF assms(1-3)] unfolding older_def by blast
  then obtain b where b: "b \<in> set (assignments (hd ds))" "sa_staff b = i" "sa_shift b = sh_id s'"
    using t a assms(5) by (auto simp: seat_ident_def sends_def)
  show ?thesis
  proof (cases "sendOne env' ctx' clk' s' i p' ids' (hd ds)")
    case (Inr q)
    then obtain t' where "\<exists>sp. assertStaffEligibleForOffer i (sh_id s') t' (hd ds) = Inr sp"
      using sendOne_sends by (cases q) metis
    then have False using b by (auto simp: assertStaffEligibleForOffer_def res_simps)
    then show ?thesis ..
  qed simp
qed

theorem one_offer_per_staff_and_shift_witness:
  "\<exists>e. sendOne sample_env sample_ctx (sample_clock 5) (sample_shift OFFERED 0) ''cat'' None (''a4'', ''o4'') sent = Inl e"
proof -
  obtain q where q: "sample_send ''cat'' before = Inr (sent, q)" using sample_sent by blast
  have "sample_env\<lparr>se_kind := STANDARD\<rparr> = sample_env" by (simp add: sample_env_def)
  then have "sendOneWithManager sample_env sample_ctx (sample_clock 0) (sample_shift OFFERED 0) ''cat'' (''a3'', ''o3'') before = Inr (sent, q)"
    using q by (simp add: sendOneWithManager_def open_to_offered_def sample_shift_def)
  then have "history before [sent, before]"
    by (auto intro: history.step [OF history.start _ platform_step.offer [OF offer_step.send_one [OF sample_found sample_published]]])
  from one_offer_per_staff_and_shift [OF sample_ok(1) this _ q refl] show ?thesis by simp
qed

text \<open>
  Cancelling a booking frees exactly its seat. It commits only for the offer's sender, more than 15 minutes before the shift
  starts and before any attendance; a confirmed seat's cancellation lowers the occupied count and the filled count by one, any
  other leaves both, and the shift keeps a vacancy consistent with its seats.
\<close>

theorem cancel_frees_exactly_its_seat:
  assumes "db_ok d" and "find_shift (sh_id s) d = Some s" and "cancelBookingWithManager ctx clk s oid reason d = Inr d'"
  shows "\<exists>r a s'. offer_join oid d = Some (r, a, s) \<and> jo_created_by r = Some (cx_user ctx)
    \<and> stmt_now clk < sh_starts_at s - 900000 \<and> \<not> has_attendance (sa_id a) d
    \<and> find_assignment (sa_id a) d' = Some (a\<lparr>sa_status := (if jo_status r = PENDING then A_WITHDRAWN else A_CANCELLED)\<rparr>)
    \<and> find_shift (sh_id s) d' = Some s'
    \<and> occupied (sh_id s) d' = occupied (sh_id s) d - of_bool (sa_status a = A_CONFIRMED)
    \<and> sh_filled_count s' = (if sa_status a = A_CONFIRMED then max 0 (sh_filled_count s - 1) else sh_filled_count s)
    \<and> occupied (sh_id s) d' \<le> sh_required_count s'"
  using assms
proof (cases rule: cancel_touches)
  case (1 r a f h n)
  note j = offer_join_SomeD [OF 1(1)]
  have k: "keyed_db d" using assms(1) by (simp add: db_ok_def)
  have a: "a \<in> set (assignments d)" "find_assignment (sa_id a) d = Some a" "sa_shift a = sh_id s"
    using j find_assignment_SomeD [of _ d a] find_shift_SomeD [of _ d s] by auto
  have "find_assignment (sa_id a) d' = map_option (\<lambda>x. if sa_id x = sa_id a then x\<lparr>sa_status := n\<rparr> else x) (find_assignment (sa_id a) d)"
    using 1(5) unfolding find_assignment_def touches_def by (simp add: assignment_table.find_update)
  then have 2: "find_assignment (sa_id a) d' = Some (a\<lparr>sa_status := n\<rparr>)" using a(2) by simp
  have hu: "shift_upd h" using 1(5) by (simp add: touches_def)
  have "find_shift (sh_id s) d' = map_option (\<lambda>x. if sh_id x = sa_shift a then h x else x) (find_shift (sh_id s) d)"
    using 1(5) hu unfolding find_shift_def touches_def shift_upd_def by (simp add: shift_table.find_update)
  then have 3: "find_shift (sh_id s) d' = Some (h s)" using assms(2) a(3) by simp
  have oc: "occupiedSeatSql a \<longleftrightarrow> sa_status a = A_CONFIRMED" using 1(3) by (auto simp: canCancelVenueOffer_def occupiedSeatSql_def)
  have 4: "occupied (sh_id s) d' = occupied (sh_id s) d - of_bool (sa_status a = A_CONFIRMED)"
  proof -
    have "\<not> occupiedSeatSql (a\<lparr>sa_status := n\<rparr>)" by (simp add: 1(4) occupiedSeatSql_def)
    then show ?thesis using touches_occupied [OF k a(1) 1(5), of "sh_id s"] a(3) oc by simp
  qed
  have 5: "occupied (sh_id s) d' \<le> sh_required_count (h s)"
    by (rule seated_occupied [OF conjunct1 [OF dbok_cancel [OF assms]] 3])
  show ?thesis
    using 1(1-4,7) 2 3 4 5 by (intro exI [of _ r] exI [of _ a] exI [of _ "h s"]) (simp add: canCancelVenueOffer_def)
qed

theorem cancel_frees_exactly_its_seat_witness:
  "occupied ''s'' confirmed = 1 \<and> (\<exists>s d'. find_shift ''s'' confirmed = Some s \<and> sh_filled_count s = 1
    \<and> cancelBookingWithManager sample_ctx (sample_clock 1000) s ''o1'' None confirmed = Inr d'
    \<and> occupied ''s'' d' = 0 \<and> \<not> has_attendance ''a1'' confirmed)"
proof -
  let ?s = "(sample_shift PARTIALLY_FILLED 1)"
  have "find_shift ''s'' confirmed = Some ?s" by code_simp
  moreover have "won (cancelBookingWithManager sample_ctx (sample_clock 1000) ?s ''o1'' None confirmed)" by code_simp
  then obtain d' where c: "cancelBookingWithManager sample_ctx (sample_clock 1000) ?s ''o1'' None confirmed = Inr d'"
    by (cases "cancelBookingWithManager sample_ctx (sample_clock 1000) ?s ''o1'' None confirmed") auto
  moreover have ok: "db_ok confirmed" using history_state(1) [OF sample_ok(1) sample_histories(1)] by simp
  moreover have i: "sh_id ?s = ''s''" "sh_filled_count ?s = 1" by (simp_all add: sample_shift_def)
  moreover have j: "map_option (\<lambda>(r, a, s). (sa_id a, sa_status a)) (offer_join ''o1'' confirmed) = Some (''a1'', A_CONFIRMED)" by code_simp
  moreover have o: "occupied ''s'' confirmed = 1" by code_simp
  ultimately show ?thesis
    using cancel_frees_exactly_its_seat [OF ok _ c] by auto
qed

lemma confirmed_row:
  assumes "db_ok d" and "older d0 d" and "confirmOne ctx clk oid d0 d = Inr (d', q)"
  shows "find_offer oid d' = Some q \<and> jo_status q = MANAGER_CONFIRMED"
  using assms
proof (cases rule: confirm_touches)
  case (1 r a s g h)
  note j = offer_join_SomeD [OF 1(1)]
  have oid: "jo_id r = oid" using j find_offer_SomeD [of oid d r] by simp
  have "find_offer oid d' = map_option (\<lambda>x. if jo_id x = oid then confirmed_by clk (cx_user ctx) x else x) (find_offer oid d)"
    using 1(6) unfolding find_offer_def touches_def oid by (simp add: offer_table.find_update)
  then have "q = confirmed_by clk (cx_user ctx) r" using 1(12) j oid by simp
  then show ?thesis using 1(12) by simp
qed

lemma confirm_loop_results:
  assumes "db_ok d" and "confirm_loop ctx clk rs d results past = (d', results', past')"
  shows "map fst results' = map fst results @ map jo_staff rs
    \<and> (\<forall>i k. (i, Inr k) \<in> set results' \<longrightarrow> (i, Inr k) \<in> set results \<or> (\<exists>q. find_offer k d' = Some q \<and> jo_status q = MANAGER_CONFIRMED))"
  using assms
proof (induction rs arbitrary: d results past)
  case (Cons r rs)
  show ?case
  proof (cases "confirmOne ctx clk (jo_id r) d d")
    case (Inl e)
    then have "confirm_loop ctx clk rs d (results @ [(jo_staff r, Inl (error_message e))])
        (case e of DeadlinePassed k m \<Rightarrow> past @ [k] | _ \<Rightarrow> past) = (d', results', past')"
      using Cons.prems(2) by simp
    from Cons.IH [OF Cons.prems(1) this] show ?thesis by auto
  next
    case (Inr p)
    obtain d1 q where p: "confirmOne ctx clk (jo_id r) d d = Inr (d1, q)" using Inr by (cases p) auto
    have l: "confirm_loop ctx clk rs d1 (results @ [(jo_staff r, Inr (jo_id q))]) past = (d', results', past')"
      using Cons.prems(2) p by simp
    have ok: "db_ok d1" using dbok_confirm [OF Cons.prems(1) older_refl p] by simp
    note IH = Cons.IH [OF ok l]
    have q: "find_offer (jo_id r) d1 = Some q" "jo_status q = MANAGER_CONFIRMED"
      using confirmed_row [OF Cons.prems(1) older_refl p] by simp_all
    have ok': "db_ok d'" using dbok_confirm_loop [OF ok l] by simp
    have "find_offer (jo_id q) d1 = Some q" using q(1) find_offer_SomeD [OF q(1)] by simp
    from confirmed_after_step [OF ok platform_step.offer [OF offer_step.confirm_all [OF l]] this q(2)]
    have "\<exists>q'. find_offer (jo_id q) d' = Some q' \<and> jo_status q' = MANAGER_CONFIRMED" .
    then show ?thesis using IH by auto
  qed
qed simp

text \<open>
  Confirm-all isolates its offers: every accepted offer of the run gets one result, in order; each reported success is
  confirmed in the final state, whatever failed around it, and the final state is consistent.
\<close>

theorem confirm_all_isolates_its_offers:
  assumes "db_ok d" and "confirmAll ctx clk clk' batch d = (d', Inr results)"
  shows "map fst results = map jo_staff (filter (\<lambda>r. jo_batch r = Some batch \<and> jo_status r = OFFER_STAFF_ACCEPTED) (offers d))
    \<and> (\<forall>i k. (i, Inr k) \<in> set results \<longrightarrow> (\<exists>q. find_offer k d' = Some q \<and> jo_status q = MANAGER_CONFIRMED)) \<and> db_ok d'"
proof -
  let ?rs = "filter (\<lambda>r. jo_status r = OFFER_STAFF_ACCEPTED) (filter (\<lambda>r. jo_batch r = Some batch) (offers d))"
  obtain d1 past where l: "confirm_loop ctx clk ?rs d [] [] = (d1, results, past)" and d': "d' = withdrawPastDeadline clk' ctx past d1"
    using assms(2) by (auto simp: confirmAll_def Let_def split: if_splits prod.splits)
  note r = confirm_loop_results [OF assms(1) l]
  have ok: "db_ok d1" using dbok_confirm_loop [OF assms(1) l] by simp
  have "\<exists>q. find_offer k d' = Some q \<and> jo_status q = MANAGER_CONFIRMED" if m: "(i, Inr k) \<in> set results" for i k
  proof -
    obtain q where q: "find_offer k d1 = Some q" "jo_status q = MANAGER_CONFIRMED" using conjunct2 [OF r, rule_format, OF m] by auto
    show ?thesis by (rule confirmed_after_step [OF ok _ q]) (rule platform_step.offer, rule offer_step.withdraw_past, simp add: d')
  qed
  moreover have "map fst results = map jo_staff ?rs" using r by simp
  moreover have "db_ok d'" using dbok_withdraw_past [OF ok] d' by simp
  ultimately show ?thesis by (simp add: filter_filter conj_commute)
qed

theorem confirm_all_isolates_its_offers_witness:
  "\<exists>d'. confirmAll sample_ctx (sample_clock 0) (sample_clock 0) ''b'' before = (d', Inr [(''ann'', Inr ''o1'')])
    \<and> (\<exists>q. find_offer ''o1'' d' = Some q \<and> jo_status q = MANAGER_CONFIRMED) \<and> db_ok d'"
proof -
  have "snd (confirmAll sample_ctx (sample_clock 0) (sample_clock 0) ''b'' before) = Inr [(''ann'', Inr ''o1'')]" by code_simp
  then obtain d' where d': "confirmAll sample_ctx (sample_clock 0) (sample_clock 0) ''b'' before = (d', Inr [(''ann'', Inr ''o1'')])"
    by (metis surjective_pairing)
  show ?thesis using confirm_all_isolates_its_offers [OF sample_ok(1) d'] d' by auto
qed

end
