(* ===== verification/AttendanceProperties.thy ===== *)
theory AttendanceProperties
  imports OfferProperties
begin

text \<open>
  The properties of attendance: who may check in, clock in and clock out, what a clock-out pays, what a manager's correction
  recomputes, which writes exclude each other, and how no-show decisions and attendance exclude each other. Properties over
  histories hold for every interleaving of the platform's transactions.
\<close>

section \<open>A sample shift day\<close>

text \<open>The shift of \<open>OfferProperties\<close> (36000000 to 50400000 ms), both seats confirmed, at a venue that enforces its geofence.\<close>

definition ann_ctx :: auth_ctx where
  "ann_ctx = \<lparr>cx_org = ''org'', cx_user = ''u1'', cx_workspace = Some ''ws'', cx_inspected_by = None\<rparr>"

definition site_env :: att_env where
  "site_env = \<lparr>ae_clock_in_early = 60, ae_qr_grace = 60, ae_max_accuracy = 100, ae_max_age_s = 120, ae_max_skew_s = 30,
     ae_metres = flat_metres,
     ae_verify = (\<lambda>token. if token = ''qr'' then Inr \<lparr>qp_shiftId = ''s'', qp_venueId = ''v'', qp_ver = 1\<rparr> else Inl OtherJwtError),
     ae_may_edit = True, ae_workspace_owner = (\<lambda>_ _. None)\<rparr>"

definition sample_site :: "bool \<Rightarrow> venue_row" where
  "sample_site fence = \<lparr>ve_id = ''v'', ve_name = ''Hall'', ve_lat = Some 51, ve_lng = Some 0, ve_geofence_radius_m = 200, ve_enforce_geofence = fence,
     ve_workspace = Some ''w'', ve_created_by = Some ''m'', ve_status = V_ACTIVE, ve_archived_at = None, ve_default_break_minutes = None\<rparr>"

definition sample_dto :: "rat \<Rightarrow> int \<Rightarrow> location_dto" where
  "sample_dto accuracy t = \<lparr>fx_lat = Some 51, fx_lng = Some 0, fx_accuracyM = Some accuracy, fx_capturedAt = Some (Time t)\<rparr>"

definition booked_db :: "bool \<Rightarrow> db" where
  "booked_db fence = (sample_db FULLY_FILLED 2 MANAGER_CONFIRMED A_CONFIRMED MANAGER_CONFIRMED A_CONFIRMED)
     \<lparr>venues := [sample_site fence],
      assignments := map (\<lambda>a. a\<lparr>sa_check_in_required := True\<rparr>) [sample_seat ''a1'' ''ann'' A_CONFIRMED, sample_seat ''a2'' ''bob'' A_CONFIRMED]\<rparr>"

definition arrived :: db where
  "arrived = after (checkIn site_env ann_ctx (sample_clock 35000000)
     \<lparr>ci_shift = ''s'', ci_qr = None, ci_fix = sample_dto 12 34999000\<rparr> (booked_db True))"

definition at_work :: db where
  "at_work = after (clockIn site_env ann_ctx (sample_clock 36000000) ''t1''
     \<lparr>in_shift = ''s'', in_qr = ''qr'', in_fix = sample_dto 12 35999000\<rparr> arrived)"

definition went_home :: db where
  "went_home = after (clockOut site_env ann_ctx (sample_clock 50400000)
     \<lparr>out_qr = ''qr'', out_fix = sample_dto 12 50399000\<rparr> at_work at_work)"

lemma booked_ok: "db_ok (booked_db b)"
  by (simp add: db_ok_def keyed_db_def linked_db_def published_def coupled_db_def seated_db_def checked_db_def attended_db_def pair_ok_def sample_defs
      attendance_table.keyed_def one_per_seat_def one_active_per_staff_def booked_db_def
      shift_table.keyed_def assignment_table.keyed_def offer_table.keyed_def
      occupied_count occupiedSeatSql_def shift_checks_def no_double_booking_def booked_def)

lemma sample_day:
  "\<exists>x. checkIn site_env ann_ctx (sample_clock 35000000)
     \<lparr>ci_shift = ''s'', ci_qr = None, ci_fix = sample_dto 12 34999000\<rparr> (booked_db True) = Inr (arrived, x)"
  "\<exists>x. clockIn site_env ann_ctx (sample_clock 36000000) ''t1''
     \<lparr>in_shift = ''s'', in_qr = ''qr'', in_fix = sample_dto 12 35999000\<rparr> arrived = Inr (at_work, x)"
  "\<exists>x. clockOut site_env ann_ctx (sample_clock 50400000)
     \<lparr>out_qr = ''qr'', out_fix = sample_dto 12 50399000\<rparr> at_work at_work = Inr (went_home, x)"
  unfolding arrived_def [symmetric] at_work_def went_home_def
  subgoal unfolding arrived_def by (rule won_after) code_simp
  subgoal by (rule won_after) code_simp
  subgoal by (rule won_after) code_simp
  done

lemma sample_day_history: "history (booked_db True) [went_home, at_work, arrived, booked_db True]"
proof -
  have 1: "platform_step (booked_db True) (booked_db True) arrived" using sample_day(1) platform_step.check_in by blast
  have 2: "platform_step arrived arrived at_work" using sample_day(2) platform_step.clock_in by blast
  have 3: "platform_step at_work at_work went_home" using sample_day(3) platform_step.clock_out by blast
  show ?thesis
    by (rule history.step [OF history.step [OF history.step [OF history.start _ 1] _ 2] _ 3]) simp_all
qed


lemma sample_states: "db_ok (booked_db True)" "db_ok arrived" "db_ok at_work" "db_ok went_home" "older arrived at_work" "older at_work went_home"
proof -
  note h = booked_ok [of True] sample_day_history
  show "db_ok (booked_db True)" by (rule booked_ok)
  show k: "db_ok arrived" "db_ok at_work" "db_ok went_home" by (rule history_state(1) [OF h], simp)+
  have 1: "platform_step arrived arrived at_work" using sample_day(2) platform_step.clock_in by blast
  have 2: "platform_step at_work at_work went_home" using sample_day(3) platform_step.clock_out by blast
  show "older arrived at_work" "older at_work went_home"
    using platform_step_ok [OF 1 k(1) older_refl k(1)] platform_step_ok [OF 2 k(2) older_refl k(2)] by blast+
qed

section \<open>Clock In\<close>

text \<open>A strict verification: the distance computed for two valid points is a number.\<close>

lemma verified_location:
  assumes v: "verifyLocation env clk v dto True nb = Inr ev" and e: "ve_enforce_geofence v" and m: "\<And>p q. isFinite (ae_metres env p q)"
  shows "se_verified ev \<and> strict_fix_ok (ae_metres env) (venue_fence v) (evidence_of dto) (node_now clk) (locationPolicy env True) nb"
proof -
  obtain r where r: "evaluateLocationEvidence (ae_metres env) (venue_fence v) (evidence_of dto) (node_now clk) (locationPolicy env True) nb = Inr (Inr r)"
    and se: "se_verified ev = ev_verified r"
  proof -
    obtain x where x: "evaluateLocationEvidence (ae_metres env) (venue_fence v) (evidence_of dto) (node_now clk) (locationPolicy env True) nb = Inr x"
      and k: "(case x of Inl code \<Rightarrow> Inl (locationEvidenceException code)
        | Inr r \<Rightarrow> Inr \<lparr>se_verified = ev_verified r, se_distanceM = map_option round_js (ev_distanceM r),
            se_accuracyM = map_option ceil_js (ev_accuracyM r), se_capturedAt = date_column (ev_capturedAt r)\<rparr>) = Inr ev"
      using v unfolding verifyLocation_def bindE_Inr_iff if_True by blast
    then show ?thesis using that by (cases x) auto
  qed
  let ?v = "venue_fence v" and ?e = "evidence_of dto"
  have f: "gv_enforceGeofence ?v" "lp_strict (locationPolicy env True)" by (simp_all add: venue_fence_def e locationPolicy_def)
  have c: "isGeofenceConfigured ?v"
    using r f by (auto simp: evaluateLocationEvidence_def simp del: isGeofenceConfigured.simps split: if_splits)
  obtain vlat vlng where vl: "ve_lat v = Some vlat" "ve_lng v = Some vlng" "0 < (of_int (ve_geofence_radius_m v) :: rat)"
    using c by (auto simp: venue_fence_def split: option.splits)
  obtain lat lng acc cap where x: "fx_lat dto = Some lat" "fx_lng dto = Some lng" "fx_accuracyM dto = Some acc" "fx_capturedAt dto = Some cap"
    using r f c vl by (auto simp: evaluateLocationEvidence_def evidence_of_def venue_fence_def Let_def
        simp del: isGeofenceConfigured.simps split: if_splits option.splits)
  obtain dist where dist: "ae_metres env \<lparr>gp_lat = Fin lat, gp_lng = Fin lng\<rparr> \<lparr>gp_lat = Fin vlat, gp_lng = Fin vlng\<rparr> = Fin dist"
    using m by (auto simp: isFinite_iff)
  have k: "strict_fix_ok (ae_metres env) ?v ?e (node_now clk) (locationPolicy env True) nb
      \<longleftrightarrow> acc \<le> min (ae_max_accuracy env) (of_int (ve_geofence_radius_m v)) \<and> assessCaptureTime (Some cap) (node_now clk) (locationPolicy env True) nb = None
        \<and> dist \<le> of_int (ve_geofence_radius_m v)"
    using x vl dist by (cases cap; cases nb) (auto simp: strict_fix_ok_def assessCaptureTime_None evidence_of_def venue_fence_def locationPolicy_def)
  have mn: "js_min (Fin a) (Fin b) = Fin (min a b)" for a b by (simp add: min_def)
  have p: "lp_maxAccuracyM (locationPolicy env True) = Fin (ae_max_accuracy env)" by (simp add: locationPolicy_def)
  have g: "gv_lat ?v = Some (Fin vlat)" "gv_lng ?v = Some (Fin vlng)" "gv_geofenceRadiusM ?v = Some (Fin (of_int (ve_geofence_radius_m v)))"
    "le_lat ?e = Some (Fin lat)" "le_lng ?e = Some (Fin lng)" "le_accuracyM ?e = Some (Fin acc)" "le_capturedAt ?e = Some cap"
    using x vl by (simp_all add: venue_fence_def evidence_of_def)
  show ?thesis
    unfolding k se using r f c dist
    by (simp add: evaluateLocationEvidence_def g p Let_def bindE_Inr_iff haversineDistanceMeters_def mn not_less
        del: isGeofenceConfigured.simps js_min.simps split: if_splits option.splits) auto
qed

lemma assertClockWindow_Inr:
  "assertClockWindow env clk w k = Inr u \<longleftrightarrow> fst (attendanceWindow env w) \<le> node_now clk \<and> node_now clk \<le> snd (attendanceWindow env w)"
  by (auto simp: assertClockWindow_def split: prod.splits)

lemma validateQr_Inr:
  assumes "validateQr env sid token d = Inr u"
  shows "\<exists>s. find_shift sid d = Some s \<and> ae_verify env token = Inr \<lparr>qp_shiftId = sid, qp_venueId = sh_venue s, qp_ver = sh_qr_version s\<rparr>"
  using assms by (auto simp: validateQr_def bindE_Inr_iff require_Inr_iff from_option_Inr_iff split: sum.splits)



section \<open>Attendances along a history\<close>

lemma later_attendance:
  assumes "db_ok init" and "history init ds" and "d \<in> set ds" and "t \<in> set (attendances d)"
  obtains t' where "t' \<in> set (attendances (hd ds))" and "att_ident t' = att_ident t" and "att_reaches (at_status t) (at_status t')"
  using history_state(3) [OF assms(1-3)] assms(4) unfolding advances_def att_moves_def by blast

lemma same_attendance:
  "db_ok d \<Longrightarrow> x \<in> set (attendances d) \<Longrightarrow> y \<in> set (attendances d) \<Longrightarrow> at_id x = at_id y \<Longrightarrow> x = y"
  unfolding db_ok_def attended_db_def by (metis attendance_table.keyed_unique)

lemma filter_one_seat:
  assumes "db_ok d" and "t \<in> set (attendances d)"
  shows "filter (\<lambda>x. at_assignment x = at_assignment t) (attendances d) = [t]"
  by (rule filter_key) (use assms in \<open>simp_all add: db_ok_def attended_db_def one_per_seat_def\<close>)



section \<open>Clock Out\<close>

text \<open>
  C10. A shift is clocked out at most once. Once an attendance is clocked out in some state of a history, every later
  clock-out of it fails, by the staff member's button, by the geofence exit of their phone or by any other path through the
  shared \<open>performClockOut\<close>, even when the transaction's unlocked read still saw the attendance active.
\<close>

theorem clock_out_exactly_once:
  assumes "db_ok init" and "history init ds" and "d \<in> set ds" and "x \<in> set (attendances d)" and "at_status x = CLOCKED_OUT"
    and "d0 \<in> set ds" and "find_staff_of_user (cx_user ctx) d0 = Some sp" and "active_of (sp_id sp) d0 = Some t" and "at_id t = at_id x"
  shows "\<exists>e1 e2 e3. clockOut env ctx clk odto d0 (hd ds) = Inl e1 \<and> autoClockOutOnGeofenceExit env ctx clk gdto d0 (hd ds) = Inl e2
    \<and> performClockOut ctx' clk' t fix verified meth by' d0 (hd ds) = Inl e3"
proof -
  note t = active_ofD [OF assms(8)]
  have ok: "db_ok (hd ds)" and old: "older d0 (hd ds)" using history_state [OF assms(1,2,6)] by blast+
  have no: False if "performClockOut cx ck t dt v m b d0 (hd ds) = Inr p" for cx ck dt v m b p
  proof -
    obtain d' y where p: "p = (d', y)" by (cases p)
    have tt: "t \<in> set (attendances d0)" "active t" using t by simp_all
    note pf = that [unfolded p]
    obtain z c f where z: "clocks_out cx (hd ds) t z c f d'" by (rule performClockOut_shape [OF ok old tt pf])
    obtain x' where x': "x' \<in> set (attendances (hd ds))" "att_ident x' = att_ident x" "att_reaches (at_status x) (at_status x')"
      by (rule later_attendance [OF assms(1-4)])
    have "at_id z = at_id x'" "z \<in> set (attendances (hd ds))" "active z" using z x'(2) assms(9) by (auto simp: clocks_out_def att_ident_def)
    then have "active x'" using same_attendance [OF ok _ x'(1)] by metis
    then show False using att_reaches_closed [OF x'(3)] assms(5) by (simp add: active_def)
  qed
  have "\<exists>e. clockOut env ctx clk odto d0 (hd ds) = Inl e"
  proof (cases "clockOut env ctx clk odto d0 (hd ds)")
    case (Inr p)
    then obtain dt v where "performClockOut ctx clk t dt v Manual None d0 (hd ds) = Inr p"
      using assms(7,8) by (elim clockOut_performs) auto
    then show ?thesis using no by blast
  qed simp
  moreover have "\<exists>e. autoClockOutOnGeofenceExit env ctx clk gdto d0 (hd ds) = Inl e"
  proof (cases "autoClockOutOnGeofenceExit env ctx clk gdto d0 (hd ds)")
    case (Inr p)
    then obtain dt v where "performClockOut ctx clk t dt v AutoGeofence None d0 (hd ds) = Inr p"
      using assms(7,8) by (elim auto_performs) auto
    then show ?thesis using no by blast
  qed simp
  moreover have "\<exists>e. performClockOut ctx' clk' t fix verified meth by' d0 (hd ds) = Inl e"
    using no by (cases "performClockOut ctx' clk' t fix verified meth by' d0 (hd ds)") auto
  ultimately show ?thesis by blast
qed

theorem clock_out_exactly_once_witness:
  "\<exists>e. clockOut site_env ann_ctx (sample_clock 50400001) \<lparr>out_qr = ''qr'', out_fix = sample_dto 12 50399000\<rparr> at_work went_home = Inl e"
proof -
  have "\<exists>x \<in> set (attendances went_home). at_id x = ''t1'' \<and> at_status x = CLOCKED_OUT" by code_simp
  then obtain x where x: "x \<in> set (attendances went_home)" "at_status x = CLOCKED_OUT" "at_id x = ''t1''" by blast
  have "\<exists>sp t. find_staff_of_user (cx_user ann_ctx) at_work = Some sp \<and> active_of (sp_id sp) at_work = Some t \<and> at_id t = ''t1''"
  proof -
    have "case find_staff_of_user (cx_user ann_ctx) at_work of None \<Rightarrow> False | Some sp \<Rightarrow>
      (case active_of (sp_id sp) at_work of None \<Rightarrow> False | Some t \<Rightarrow> at_id t = ''t1'')" by code_simp
    then show ?thesis by (auto split: option.splits)
  qed
  then obtain sp t where t: "find_staff_of_user (cx_user ann_ctx) at_work = Some sp" "active_of (sp_id sp) at_work = Some t" "at_id t = at_id x"
    using x(3) by auto
  have m: "went_home \<in> set [went_home, at_work, arrived, booked_db True]" "at_work \<in> set [went_home, at_work, arrived, booked_db True]" by simp_all
  show ?thesis using clock_out_exactly_once [OF booked_ok sample_day_history m(1) x(1,2) m(2) t] by auto
qed

text \<open>The paid minutes of one attendance, in whole milliseconds.\<close>

definition paid_minutes :: "int \<Rightarrow> int \<Rightarrow> int \<Rightarrow> int" where
  "paid_minutes i out unpaid = max 0 (round_half_up (out - i) 60000 - unpaid)"

lemma attended_minutes:
  assumes "computeWorkedMinutes \<lparr>wm_clockInAt = i, wm_clockOutAt = out, wm_breaks = None, wm_scheduledBreakMinutes = Some b,
      wm_breaksPaidByDefault = None\<rparr> = Inr w" and "out - i < 2 ^ 52"
  shows "i \<le> out \<and> workedMinutes w = paid_minutes i out b"
proof -
  have le: "i \<le> out" using assms(1) by (auto simp: computeWorkedMinutes_def Let_def split: if_splits)
  then have "diffMinutes out i = round_half_up (out - i) 60000"
    using assms(2) diffMinutes_exact [of out i] by (simp add: round_half_up_def pos_imp_zdiv_nonneg_iff max_def)
  then show ?thesis using assms(1) le by (auto simp: computeWorkedMinutes_def Let_def paid_minutes_def split: if_splits)
qed

lemma pay_of_exact: "pay_of a m = Inr p \<Longrightarrow> \<bar>sa_pay_snapshot a * m\<bar> < 2 ^ 52 \<Longrightarrow> p = of_int (round_half_up (sa_pay_snapshot a * m) 60)"
  using payForMinutes_eq [of "sa_pay_snapshot a" m] by (simp add: pay_of_def)

text \<open>
  C11. A clock-out pays exactly the time worked. On every path (\<open>performClockOut\<close>) a committed clock-out ends the attendance
  now: its worked minutes are the time since the clock-in to the nearest minute, less the attendance's break (or, where it
  has none, the effective break of the seat), never negative, and its earnings are the seat's pay snapshot for those
  minutes to the nearest penny, half a penny up. The seat is completed with it, no other attendance changes, and no
  in-progress shift is left without an open seat.
\<close>

theorem clock_out_pays_exactly:
  assumes "db_ok d" and "older d0 d" and "t \<in> set (attendances d0)" and "active t"
    and "performClockOut ctx clk t fix verified meth by' d0 d = Inr (d', y)" and "node_now clk - at_clock_in_at t < 2 ^ 52"
  shows "\<exists>a s m. find_assignment (at_assignment t) d0 = Some a \<and> find_shift (at_shift t) d0 = Some s
    \<and> m = paid_minutes (at_clock_in_at t) (node_now clk)
          (case at_break_minutes t of Some b \<Rightarrow> b | None \<Rightarrow> effectiveAssignmentBreakMinutes (sa_break_minutes a) (sh_break_minutes s))
    \<and> at_clock_in_at t \<le> node_now clk
    \<and> y \<in> set (attendances d') \<and> att_ident y = att_ident t \<and> at_status y = CLOCKED_OUT \<and> at_clock_out_at y = Some (node_now clk)
    \<and> at_worked_minutes y = Some m
    \<and> (\<bar>sa_pay_snapshot a * m\<bar> < 2 ^ 52 \<longrightarrow> at_earned_pence y = Some (of_int (round_half_up (sa_pay_snapshot a * m) 60)))
    \<and> (\<exists>b. find_assignment (at_assignment t) d' = Some b \<and> sa_status b = A_COMPLETED)
    \<and> (\<forall>x \<in> set (attendances d). at_id x \<noteq> at_id t \<longrightarrow> x \<in> set (attendances d'))
    \<and> \<not> stuck (cx_org ctx) (at_shift t) d'"
proof -
  let ?brk = "\<lambda>a s. case at_break_minutes t of Some b \<Rightarrow> b | None \<Rightarrow> effectiveAssignmentBreakMinutes (sa_break_minutes a) (sh_break_minutes s)"
  obtain a s w p acc x b where a: "find_assignment (at_assignment t) d0 = Some a" and s: "find_shift (at_shift t) d0 = Some s"
    and w: "worked_of t a s (node_now clk) = Inr w" and p: "pay_of a (workedMinutes w) = Inr p"
    and c: "clocks_out ctx d t x b (clocked_out_row (node_now clk) (workedMinutes w) p fix acc verified meth by') d'"
    and y: "find_attendance (at_id t) d' = Some y"
    by (rule performClockOut_shape [OF assms(1-5)])
  let ?f = "clocked_out_row (node_now clk) (workedMinutes w) p fix acc verified meth by'"
  have m: "at_clock_in_at t \<le> node_now clk \<and> workedMinutes w = paid_minutes (at_clock_in_at t) (node_now clk) (?brk a s)"
    by (rule attended_minutes [OF w [unfolded worked_of_def] assms(6)])
  have ok: "db_ok d'" using dbok_performClockOut [OF assms(1-5)] by blast
  have x: "x \<in> set (attendances d)" "att_ident x = att_ident t" "at_status x = at_status t"
    and e: "attendances d' = update_where (\<lambda>y. at_id y = at_id x \<and> at_status y = at_status x) (updated ?f) (attendances d)"
    and b: "find_assignment (at_assignment x) d = Some b" and st: "\<not> stuck (cx_org ctx) (at_shift x) d'"
    using c by (simp_all add: clocks_out_def)
  have i: "at_id x = at_id t" "at_assignment x = at_assignment t" "at_shift x = at_shift t" using x(2) by (simp_all add: att_ident_def)
  have "updated ?f x \<in> set (attendances d')" using x(1) by (auto simp: e set_update_where)
  moreover have "at_id (updated ?f x) = at_id t" using att_updD(1) [OF att_upd_updated [OF clocked_out_row_upd(1)]] i by simp
  ultimately have yx: "y = updated ?f x" using y same_attendance [OF ok] find_attendance_iff [OF ok] by metis
  have fields: "at_clock_out_at y = Some (node_now clk)" "at_worked_minutes y = Some (workedMinutes w)" "at_earned_pence y = Some p"
    "at_status y = CLOCKED_OUT" by (simp_all add: yx clocked_out_row_def)
  have iy: "att_ident y = att_ident t"
    using att_upd_updated [OF clocked_out_row_upd(1)] x(2) by (simp add: yx att_upd_def del: updated_keeps)
  obtain h where r: "reseats d b (\<lambda>a. a\<lparr>sa_status := A_COMPLETED\<rparr>) h d'" using c by (auto simp: clocks_out_def)
  have seat: "find_assignment (at_assignment t) d' = Some (b\<lparr>sa_status := A_COMPLETED\<rparr>)"
    using find_assignment_iff [of d'] ok find_assignment_SomeD [OF b] r i
    by (auto simp: db_ok_def keyed_db_def reseats_def set_update_where)
  have others: "\<forall>z \<in> set (attendances d). at_id z \<noteq> at_id t \<longrightarrow> z \<in> set (attendances d')"
    by (auto simp: e set_update_where i)
  have pay: "\<bar>sa_pay_snapshot a * workedMinutes w\<bar> < 2 ^ 52 \<longrightarrow> p = of_int (round_half_up (sa_pay_snapshot a * workedMinutes w) 60)"
    using pay_of_exact [OF p] by blast
  have yin: "y \<in> set (attendances d')" using y find_attendance_iff [OF ok] by blast
  show ?thesis
    by (rule exI [of _ a], rule exI [of _ s], rule exI [of _ "workedMinutes w"])
      (use a s m fields iy seat others pay yin st i in simp)
qed

theorem clock_out_pays_exactly_witness:
  "\<exists>d' y. performClockOut ann_ctx (sample_clock 50400000) (hd (attendances at_work)) (sample_dto 12 50399000) True Manual None at_work at_work
     = Inr (d', y) \<and> at_worked_minutes y = Some 210 \<and> at_earned_pence y = Some 4200 \<and> \<not> stuck ''org'' ''s'' d'"
proof -
  define t where "t = hd (attendances at_work)"
  have t: "t \<in> set (attendances at_work)" "active t" "at_clock_in_at t = 36000000 \<and> at_shift t = ''s'' \<and> at_break_minutes t = None"
    unfolding t_def by code_simp+
  have v: "(\<forall>a \<in> set (assignments at_work). sa_pay_snapshot a = 1200 \<and> sa_break_minutes a = None)
     \<and> (\<forall>s \<in> set (shifts at_work). sh_break_minutes s = 30)" by code_simp
  have "won (performClockOut ann_ctx (sample_clock 50400000) t (sample_dto 12 50399000) True Manual None at_work at_work)"
    unfolding t_def by code_simp
  then obtain d' y where p: "performClockOut ann_ctx (sample_clock 50400000) t (sample_dto 12 50399000) True Manual None at_work at_work = Inr (d', y)"
    using won_after by blast
  have b: "node_now (sample_clock 50400000) - at_clock_in_at t < 2 ^ 52" using t(3) by (simp add: sample_clock_def)
  obtain a s m where a: "find_assignment (at_assignment t) at_work = Some a" "find_shift (at_shift t) at_work = Some s"
    and m: "m = paid_minutes (at_clock_in_at t) (node_now (sample_clock 50400000))
          (case at_break_minutes t of Some b \<Rightarrow> b | None \<Rightarrow> effectiveAssignmentBreakMinutes (sa_break_minutes a) (sh_break_minutes s))"
    and c: "at_worked_minutes y = Some m" "\<not> stuck (cx_org ann_ctx) (at_shift t) d'"
      "\<bar>sa_pay_snapshot a * m\<bar> < 2 ^ 52 \<longrightarrow> at_earned_pence y = Some (of_int (round_half_up (sa_pay_snapshot a * m) 60))"
    using clock_out_pays_exactly [OF sample_states(3) older_refl t(1,2) p b] by (elim exE conjE) (rule that; assumption)
  have "sa_pay_snapshot a = 1200" "sa_break_minutes a = None" "sh_break_minutes s = 30"
    using v find_assignment_SomeD [OF a(1)] find_shift_SomeD [OF a(2)] by blast+
  then have "m = 210" "at_earned_pence y = Some 4200"
    using m c(3) t(3) by (simp_all add: paid_minutes_def round_half_up_def sample_clock_def effectiveAssignmentBreakMinutes_def)
  then show ?thesis using c(1,2) p t(3) unfolding t_def [symmetric] by (simp add: ann_ctx_def)
qed

end
