(* ===== verification/CorrectionProperties.thy ===== *)
theory CorrectionProperties
  imports AttendanceProperties
begin

text \<open>
  The properties of the manager's side of attendance: what a correction recomputes and what it leaves, which decisions a
  finalised report refuses, and how no-show decisions and attendance exclude each other, with the two places where the code
  lets a shift or a seat slip through: a recovered clock-out, and a no-show confirmed on a stale snapshot.
\<close>

section \<open>Corrections\<close>

lemma resolved_cases:
  assumes "resolveCorrectionStatus t a s now out = Inr (st, r)"
  shows "at_status t \<noteq> AT_APPROVED \<and> st \<in> {UNDER_REVIEW, DISPUTED} \<and> (active t \<longrightarrow> out \<noteq> None \<and> st = UNDER_REVIEW)"
  using assms by (auto simp: resolveCorrectionStatus_def Let_def res_simps active_def split: if_splits)

lemma recomputed_Some:
  assumes "recomputed t a s nx = Inr (w, e)" and "nx_out nx = Some out" and "out - nx_in nx < 2 ^ 52"
  shows "\<exists>m. m = paid_minutes (nx_in nx) out (case nx_break nx of Some b \<Rightarrow> b | None \<Rightarrow> effectiveAssignmentBreakMinutes (sa_break_minutes a) (sh_break_minutes s))
    \<and> w = Some m \<and> (\<bar>sa_pay_snapshot a * m\<bar> < 2 ^ 52 \<longrightarrow> e = Some (of_int (round_half_up (sa_pay_snapshot a * m) 60)))"
  using assms attended_minutes [OF _ assms(3)] pay_of_exact
  by (auto simp: recomputed_def bindE_Inr_iff)

lemma correction_keeps:
  assumes "correction_of dto now t = Inr (ov, nx)"
  shows "keep (nx_out nx) (at_clock_out_at t) = nx_out nx \<and> keep (nx_break nx) (at_break_minutes t) = nx_break nx"
  using assms
  by (cases "cr_field dto"; cases "at_clock_out_at t"; cases "at_break_minutes t") (auto simp: correction_of_def bindE_Inr_iff keep_def)

lemma corrects_row:
  assumes ok: "db_ok d" and c: "corrects d t b f d'" and f: "att_upd f"
  shows "find_attendance (at_id t) d' = Some (updated f t)"
proof -
  have t: "t \<in> set (attendances d)" and e: "attendances d' = update_where (\<lambda>x. at_id x = at_id t) (updated f) (attendances d)"
    using c by (simp_all add: corrects_def)
  have "find_attendance (at_id t) d = Some t" using t find_attendance_iff [OF ok] by simp
  then show ?thesis
    unfolding find_attendance_def e using find_update_keep [of "\<lambda>x. at_id x = at_id t" "updated f"] att_updD(1) [OF att_upd_updated [OF f]] by simp
qed

text \<open>
  C12. A correction recomputes the hours and the pay from the corrected times, and only that. A committed correction that
  changed something changed one attendance, not approved and afterwards under review or disputed: its times are the ones the
  request and the row determine, its worked minutes and earnings are those of its own new times, its break and the seat's
  pay snapshot, whenever it has a clock-out; one audit row records the field, the old and the new value, the reason and the
  manager; a review of the seat is withdrawn; no shift and no seat status changes.
\<close>

theorem corrections_recompute:
  assumes "db_ok d" and "older d0 d" and "correct env ctx clk tid dto d0 d = Inr d'" and "d' \<noteq> d"
  shows "\<exists>t y a s ov nx. find_attendance tid d = Some t \<and> find_attendance tid d' = Some y \<and> att_ident y = att_ident t
    \<and> at_status t \<noteq> AT_APPROVED \<and> at_status y \<in> {UNDER_REVIEW, DISPUTED}
    \<and> correction_of dto (tx_now clk) t = Inr (ov, nx)
    \<and> at_clock_in_at y = nx_in nx \<and> at_clock_out_at y = nx_out nx \<and> at_break_minutes y = nx_break nx
    \<and> find_assignment (at_assignment t) d0 = Some a \<and> find_shift (at_shift t) d0 = Some s
    \<and> (\<forall>out. at_clock_out_at y = Some out \<and> out - at_clock_in_at y < 2 ^ 52 \<longrightarrow>
         (\<exists>m. m = paid_minutes (at_clock_in_at y) out
               (case at_break_minutes y of Some b \<Rightarrow> b | None \<Rightarrow> effectiveAssignmentBreakMinutes (sa_break_minutes a) (sh_break_minutes s))
            \<and> at_worked_minutes y = Some m
            \<and> (\<bar>sa_pay_snapshot a * m\<bar> < 2 ^ 52 \<longrightarrow> at_earned_pence y = Some (of_int (round_half_up (sa_pay_snapshot a * m) 60)))))
    \<and> (\<forall>x \<in> set (attendances d). at_id x \<noteq> tid \<longrightarrow> x \<in> set (attendances d'))
    \<and> corrections d' = corrections d @ [\<lparr>ac_attendance = tid, ac_field = correctable_str (cr_field dto), ac_old = ov,
          ac_new = cr_newValue dto, ac_reason = cr_reason dto, ac_by = cx_user ctx\<rparr>]
    \<and> (\<exists>b. find_assignment (at_assignment t) d' = Some b \<and> sa_reviewed_at b = None)
    \<and> shifts d' = shifts d \<and> map sa_status (assignments d') = map sa_status (assignments d)"
  using assms(3)
proof (cases rule: correct_shape)
  case same
  then show ?thesis using assms(4) by simp
next
  case (changed t0 t a s ov nx outcome)
  obtain st r where o: "outcome = (st, r)" by (cases outcome)
  obtain b w e where rc: "recomputed t a s nx = Inr (w, e)" and c: "corrects d t b (corrected_row nx (fst outcome) w e (snd outcome)) d'"
    and cs: "corrections d' = corrections d @ correction_rows (at_id t) (cr_reason dto) (cx_user ctx) [(correctable_str (cr_field dto), ov, cr_newValue dto)]"
    by (rule persist_shape [OF assms(1) changed(4,8)])
  let ?f = "corrected_row nx st w e r"
  let ?y = "updated ?f t"
  note rs = resolved_cases [OF changed(7) [unfolded o]] and kp = correction_keeps [OF changed(5)]
  note c = c [unfolded o fst_conv snd_conv]
  have t: "t \<in> set (attendances d)" "at_id t = tid" using changed(4) find_attendance_iff [OF assms(1)] by simp_all
  have t0: "t0 \<in> set (attendances d0)" "at_id t0 = tid" using changed(1) find_Some_mem unfolding find_attendance_def by fast+
  obtain x where x: "x \<in> set (attendances d)" "att_ident x = att_ident t0" by (rule older_attendance [OF assms(2) t0(1)])
  have "x = t" using same_attendance [OF assms(1) x(1) t(1)] x(2) t0(2) t(2) by (simp add: att_ident_def)
  then have i0: "at_assignment t0 = at_assignment t" "at_shift t0 = at_shift t" using x(2) by (simp_all add: att_ident_def)
  have y: "find_attendance tid d' = Some ?y" using corrects_row [OF assms(1) c corrected_row_upd(1)] t(2) by simp
  have iy: "att_ident ?y = att_ident t" using corrected_row_upd(1) by (simp add: att_upd_def)
  have fy: "at_status ?y = st" "at_clock_in_at ?y = nx_in nx" "at_clock_out_at ?y = nx_out nx" "at_break_minutes ?y = nx_break nx"
    "at_worked_minutes ?y = keep w (at_worked_minutes t)" "at_earned_pence ?y = keep e (at_earned_pence t)"
    using kp by (simp_all add: corrected_row_def)
  have pay: "\<exists>m. m = paid_minutes (at_clock_in_at ?y) out
               (case at_break_minutes ?y of Some b \<Rightarrow> b | None \<Rightarrow> effectiveAssignmentBreakMinutes (sa_break_minutes a) (sh_break_minutes s))
            \<and> at_worked_minutes ?y = Some m
            \<and> (\<bar>sa_pay_snapshot a * m\<bar> < 2 ^ 52 \<longrightarrow> at_earned_pence ?y = Some (of_int (round_half_up (sa_pay_snapshot a * m) 60)))"
    if "at_clock_out_at ?y = Some out" "out - at_clock_in_at ?y < 2 ^ 52" for out
    unfolding fy using recomputed_Some [OF rc that [unfolded fy]] by (auto simp: keep_def)
  have e: "attendances d' = update_where (\<lambda>x. at_id x = at_id t) (updated ?f) (attendances d)"
    and as: "assignments d' = update_where (\<lambda>x. sa_id x = sa_id b) reviewless (assignments d)" and sh: "shifts d' = shifts d"
    and b: "find_assignment (at_assignment t) d = Some b" using c by (simp_all add: corrects_def)
  have "find_assignment (at_assignment t) d' = Some (reviewless b)"
    using b find_update_keep [of "\<lambda>x. sa_id x = at_assignment t" reviewless "\<lambda>x. sa_id x = sa_id b"] find_assignment_SomeD [OF b]
    by (simp add: find_assignment_def as)
  then have rv: "\<exists>b. find_assignment (at_assignment t) d' = Some b \<and> sa_reviewed_at b = None" by simp
  have st: "map sa_status (assignments d') = map sa_status (assignments d)" by (simp add: as map_update_where)
  have others: "\<forall>x \<in> set (attendances d). at_id x \<noteq> tid \<longrightarrow> x \<in> set (attendances d')" by (auto simp: e set_update_where t(2))
  show ?thesis
    by (rule exI [of _ t], rule exI [of _ ?y], rule exI [of _ a], rule exI [of _ s], rule exI [of _ ov], rule exI [of _ nx])
      (use changed(2-5) i0 y iy fy(1-4) rs pay others cs rv st sh t(2) in \<open>simp add: correction_rows_def del: updated_keeps\<close>)
qed

text \<open>Ann's clock-out corrected by the manager to a quarter of an hour earlier; and the one she forgot, recovered.\<close>

definition day_db :: "attendance_status \<Rightarrow> assignment_status \<Rightarrow> int option \<Rightarrow> int option \<Rightarrow> Pence option \<Rightarrow> db" where
  "day_db st seat out worked earned = (booked_db True)
     \<lparr>shifts := [sample_shift IN_PROGRESS 2], assignments := [sample_seat ''a1'' ''ann'' seat, sample_seat ''a2'' ''bob'' A_CONFIRMED],
      attendances := [(new_attendance ann_ctx (sample_shift IN_PROGRESS 2) (sample_seat ''a1'' ''ann'' A_CONFIRMED) ''t1'' 36000000)
        \<lparr>at_status := st, at_clock_out_at := out, at_worked_minutes := worked, at_earned_pence := earned, at_clock_in_method := Some ''staff''\<rparr>]\<rparr>"

definition worked_day :: db where "worked_day = day_db CLOCKED_OUT A_COMPLETED (Some 50400000) (Some 210) (Some 4200)"

definition working_day :: db where "working_day = day_db CLOCKED_IN A_CONFIRMED None None None"

lemma sample_days_ok: "db_ok worked_day" "db_ok working_day"
  by (simp_all add: db_ok_def keyed_db_def linked_db_def published_def coupled_db_def seated_db_def checked_db_def attended_db_def pair_ok_def sample_defs
      attendance_table.keyed_def one_per_seat_def one_active_per_staff_def booked_db_def worked_day_def working_day_def day_db_def
      shift_table.keyed_def assignment_table.keyed_def offer_table.keyed_def new_attendance_def attended_seat_def active_def
      occupied_count occupiedSeatSql_def shift_checks_def no_double_booking_def booked_def attendance_checks_def clock_out_method_check_def
      attendance_post_shift_order_def post_shift_of_def on_behalf_check_def)

definition earlier_dto :: correct_dto where
  "earlier_dto = \<lparr>cr_field = ClockOutAt, cr_newValue = ''1970-01-01T13:45:00Z'', cr_date = Time 49500000, cr_number = NaN, cr_reason = ''Left early''\<rparr>"

fun kept :: "db \<Rightarrow> db res \<Rightarrow> db" where
  "kept d (Inr d') = d'"
| "kept d (Inl e) = d"

lemma won_kept: "won m \<Longrightarrow> m = Inr (kept d m)"
  by (cases m) auto

definition corrected_day :: db where
  "corrected_day = kept worked_day (correct site_env sample_ctx (sample_clock 54000000) ''t1'' earlier_dto worked_day worked_day)"

definition recovered_day :: db where
  "recovered_day = kept working_day (correct site_env sample_ctx (sample_clock 86400000) ''t1'' earlier_dto working_day working_day)"

lemma sample_corrections:
  "correct site_env sample_ctx (sample_clock 54000000) ''t1'' earlier_dto worked_day worked_day = Inr corrected_day"
  "correct site_env sample_ctx (sample_clock 86400000) ''t1'' earlier_dto working_day working_day = Inr recovered_day"
  unfolding corrected_day_def recovered_day_def by (rule won_kept, code_simp)+

lemma sample_corrected: "corrected_day \<noteq> worked_day" "recovered_day \<noteq> working_day"
proof -
  have "list_ex (\<lambda>t. at_status t = UNDER_REVIEW) (attendances corrected_day)" "list_ex (\<lambda>t. at_status t = UNDER_REVIEW) (attendances recovered_day)"
    "\<not> list_ex (\<lambda>t. at_status t = UNDER_REVIEW) (attendances worked_day)" "\<not> list_ex (\<lambda>t. at_status t = UNDER_REVIEW) (attendances working_day)"
    by code_simp+
  then show "corrected_day \<noteq> worked_day" "recovered_day \<noteq> working_day" by auto
qed

theorem corrections_recompute_witness:
  "\<exists>y. find_attendance ''t1'' corrected_day = Some y \<and> at_clock_out_at y = Some 49500000 \<and> at_worked_minutes y = Some 195 \<and> at_earned_pence y = Some 3900"
proof -
  note k = corrections_recompute [OF sample_days_ok(1) older_refl sample_corrections(1) sample_corrected(1)]
  obtain t y a s ov nx where t: "find_attendance ''t1'' worked_day = Some t" "find_attendance ''t1'' corrected_day = Some y"
    "correction_of earlier_dto (tx_now (sample_clock 54000000)) t = Inr (ov, nx)"
    "at_clock_in_at y = nx_in nx" "at_clock_out_at y = nx_out nx" "at_break_minutes y = nx_break nx"
    "find_assignment (at_assignment t) worked_day = Some a" "find_shift (at_shift t) worked_day = Some s"
    and p: "\<forall>out. at_clock_out_at y = Some out \<and> out - at_clock_in_at y < 2 ^ 52 \<longrightarrow>
         (\<exists>m. m = paid_minutes (at_clock_in_at y) out
               (case at_break_minutes y of Some b \<Rightarrow> b | None \<Rightarrow> effectiveAssignmentBreakMinutes (sa_break_minutes a) (sh_break_minutes s))
            \<and> at_worked_minutes y = Some m
            \<and> (\<bar>sa_pay_snapshot a * m\<bar> < 2 ^ 52 \<longrightarrow> at_earned_pence y = Some (of_int (round_half_up (sa_pay_snapshot a * m) 60))))"
    using k by (elim exE conjE) (rule that; assumption)
  have v: "(\<forall>a \<in> set (assignments worked_day). sa_pay_snapshot a = 1200 \<and> sa_break_minutes a = None)
     \<and> (\<forall>s \<in> set (shifts worked_day). sh_break_minutes s = 30)
     \<and> (\<forall>t \<in> set (attendances worked_day). at_clock_in_at t = 36000000 \<and> at_break_minutes t = None)" by code_simp
  have "t \<in> set (attendances worked_day)" using t(1) find_Some_mem unfolding find_attendance_def by fast
  then have n: "nx_in nx = 36000000 \<and> nx_out nx = Some 49500000 \<and> nx_break nx = None"
    using t(3) v by (auto simp: correction_of_def earlier_dto_def parse_instant_def sample_clock_def)
  have "sa_pay_snapshot a = 1200" "sa_break_minutes a = None" "sh_break_minutes s = 30"
    using v find_assignment_SomeD [OF t(7)] find_shift_SomeD [OF t(8)] by blast+
  then show ?thesis using t(2,4,5,6) n spec [OF p, of 49500000] by (simp add: paid_minutes_def round_half_up_def effectiveAssignmentBreakMinutes_def)
qed

text \<open>
  A recovered clock-out leaves the shift open. When a correction closes an attendance that was still clocked in, the
  attendance is under review with its hours, but its seat is still confirmed and the roll-up is not run: the completion
  roll-up run afterwards finds the seat open and does nothing, so the shift stays in progress although everyone has gone.
\<close>

theorem recovered_clock_out_leaves_shift_open:
  assumes "db_ok d" and "older d0 d" and "correct env ctx clk tid dto d0 d = Inr d'" and "d' \<noteq> d"
    and "find_attendance tid d = Some t" and "active t" and "\<And>a. a \<in> set (assignments d) \<Longrightarrow> sa_org a = org"
  shows "\<exists>y b. find_attendance tid d' = Some y \<and> at_status y = UNDER_REVIEW \<and> at_clock_out_at y \<noteq> None
    \<and> find_assignment (at_assignment y) d' = Some b \<and> sa_status b = A_CONFIRMED
    \<and> shifts d' = shifts d \<and> completeShiftIfSettled org (at_shift y) d' = Inr (d', False)"
  using assms(3)
proof (cases rule: correct_shape)
  case same
  then show ?thesis using assms(4) by simp
next
  case (changed t0 t' a s ov nx outcome)
  obtain st r where o: "outcome = (st, r)" by (cases outcome)
  have t: "t' = t" using changed(4) assms(5) by simp
  obtain b w e where c: "corrects d t b (corrected_row nx (fst outcome) w e (snd outcome)) d'"
    by (rule persist_shape [OF assms(1) changed(4,8) [unfolded t]])
  note c = c [unfolded o fst_conv snd_conv]
  let ?y = "updated (corrected_row nx st w e r) t"
  have rs: "nx_out nx \<noteq> None" "st = UNDER_REVIEW" using resolved_cases [OF changed(7) [unfolded o]] assms(6) t by simp_all
  have "at_id t = tid" using assms(5) find_attendance_iff [OF assms(1)] by simp
  then have y: "find_attendance tid d' = Some ?y" using corrects_row [OF assms(1) c corrected_row_upd(1)] by simp
  have iy: "at_assignment ?y = at_assignment t" "at_shift ?y = at_shift t"
    using att_updD [OF att_upd_updated [OF corrected_row_upd(1)]] by blast+
  have b: "find_assignment (at_assignment t) d = Some b" "attended_seat t b" and sh: "shifts d' = shifts d"
    and as: "assignments d' = update_where (\<lambda>x. sa_id x = sa_id b) reviewless (assignments d)" using c by (simp_all add: corrects_def)
  have bs: "sa_status b = A_CONFIRMED" "sa_shift b = at_shift t" using b(2) assms(6) by (simp_all add: attended_seat_def)
  have fb: "find_assignment (at_assignment t) d' = Some (reviewless b)"
    using b find_update_keep [of "\<lambda>x. sa_id x = at_assignment t" reviewless "\<lambda>x. sa_id x = sa_id b"] find_assignment_SomeD [OF b(1)]
    by (simp add: find_assignment_def as)
  have m: "reviewless b \<in> set (assignments d')" using find_assignment_SomeD [OF fb] by blast
  have "sa_org (reviewless b) = org" "sa_shift (reviewless b) = at_shift t"
    using assms(7) find_assignment_SomeD [OF b(1)] bs by (simp_all add: reviewless_def)
  then have "0 < open_seats org (at_shift t) d'"
    using m bs(1) by (auto simp: open_seats_def count_where_def OPEN_SEAT_STATUSES_def filter_empty_conv intro!: bexI [of _ "reviewless b"])
  then have "completeShiftIfSettled org (at_shift ?y) d' = Inr (d', False)" by (simp add: completeShiftIfSettled_def Let_def iy)
  moreover have "at_status ?y = UNDER_REVIEW" "at_clock_out_at ?y \<noteq> None" using rs by (auto simp: corrected_row_def keep_def)
  ultimately show ?thesis using y fb bs(1) sh iy by auto
qed

theorem recovered_clock_out_leaves_shift_open_witness:
  "\<exists>y b. find_attendance ''t1'' recovered_day = Some y \<and> at_status y = UNDER_REVIEW \<and> find_assignment (at_assignment y) recovered_day = Some b
    \<and> sa_status b = A_CONFIRMED \<and> completeShiftIfSettled ''org'' (at_shift y) recovered_day = Inr (recovered_day, False)"
proof -
  have "case find_attendance ''t1'' working_day of None \<Rightarrow> False | Some t \<Rightarrow> active t" by code_simp
  then obtain t where t: "find_attendance ''t1'' working_day = Some t" "active t" by (auto split: option.splits)
  have "\<forall>a \<in> set (assignments working_day). sa_org a = ''org''" by code_simp
  then show ?thesis
    using recovered_clock_out_leaves_shift_open [OF sample_days_ok(2) older_refl sample_corrections(2) sample_corrected(2) t, of "''org''"] by blast
qed

section \<open>A finalised report\<close>

lemma frozen_open: "r \<in> set (reports d) \<Longrightarrow> rp_shift r = sid \<Longrightarrow> rp_status r = ''finalised'' \<Longrightarrow> openOnBehalf env ctx sid staff d0 d \<noteq> Inr p"
  by (cases p) (use openOnBehalf_shape [of env ctx sid staff d0 d] in blast)

lemma frozen_seat: "r \<in> set (reports d) \<Longrightarrow> rp_shift r = sid \<Longrightarrow> rp_status r = ''finalised'' \<Longrightarrow> lockSeat env ctx sid staff m d0 d \<noteq> Inr p"
  by (cases p) (use lockSeat_shape [of env ctx sid staff m d0 d] in blast)

lemma not_Inr: "(\<And>x. m \<noteq> Inr x) \<Longrightarrow> \<exists>e. m = Inl e"
  by (cases m) auto

text \<open>
  C13. A finalised report is frozen. Once a shift's report is finalised every manager write to its attendance fails: clocking
  a staff member in or out on their behalf, recording or correcting attendance, marking it reviewed, confirming or reopening
  a no-show, whatever the transaction's unlocked reads saw.
\<close>

theorem finalised_report_is_frozen:
  assumes "r \<in> set (reports d)" and "rp_shift r = sid" and "rp_status r = ''finalised''"
  shows "(\<exists>e. clockInOnBehalf env ctx clk i sid staff reason d0 d = Inl e) \<and> (\<exists>e. clockOutOnBehalf env ctx clk sid staff reason d0 d = Inl e)
    \<and> (\<exists>e. recordAttendance env ctx clk i sid staff rdto d0 d = Inl e) \<and> (\<exists>e. reviewAttendance env ctx clk sid staff d0 d = Inl e)
    \<and> (\<exists>e. confirmNoShow env ctx clk sid staff d0 d = Inl e) \<and> (\<exists>e. reopenNoShow env ctx sid staff reason d0 d = Inl e)
    \<and> (\<forall>tid t. find_attendance tid d0 = Some t \<and> at_shift t = sid \<longrightarrow> (\<exists>e. correct env ctx clk tid xdto d0 d = Inl e))"
proof (intro conjI allI impI)
  note o = frozen_open [OF assms] and l = frozen_seat [OF assms]
  show "\<exists>e. clockInOnBehalf env ctx clk i sid staff reason d0 d = Inl e"
    by (rule not_Inr) (use o in \<open>simp add: clockInOnBehalf_def bindE_Inr_iff\<close>)
  show "\<exists>e. clockOutOnBehalf env ctx clk sid staff reason d0 d = Inl e"
    by (rule not_Inr) (use o in \<open>simp add: clockOutOnBehalf_def bindE_Inr_iff\<close>)
  show "\<exists>e. recordAttendance env ctx clk i sid staff rdto d0 d = Inl e"
    by (rule not_Inr) (use o in \<open>simp add: recordAttendance_def bindE_Inr_iff\<close>)
  show "\<exists>e. reviewAttendance env ctx clk sid staff d0 d = Inl e"
    by (rule not_Inr) (use l in \<open>simp add: reviewAttendance_def bindE_Inr_iff\<close>)
  show "\<exists>e. confirmNoShow env ctx clk sid staff d0 d = Inl e"
    by (rule not_Inr) (use l in \<open>simp add: confirmNoShow_def bindE_Inr_iff\<close>)
  show "\<exists>e. reopenNoShow env ctx sid staff reason d0 d = Inl e"
    by (rule not_Inr) (use l in \<open>simp add: reopenNoShow_def bindE_Inr_iff\<close>)
  fix tid t
  assume t: "find_attendance tid d0 = Some t \<and> at_shift t = sid"
  have "lockOpenReport sid d \<noteq> Inr u" for u using assms by (auto simp: lockOpenReport_def require_Inr_iff)
  then show "\<exists>e. correct env ctx clk tid xdto d0 d = Inl e"
    by (intro not_Inr) (use t in \<open>simp add: correct_def bindE_Inr_iff\<close>)
qed

theorem finalised_report_is_frozen_witness:
  "\<exists>e1 e2. correct site_env sample_ctx (sample_clock 54000000) ''t1'' earlier_dto worked_day
      (worked_day\<lparr>reports := [\<lparr>rp_shift = ''s'', rp_status = ''finalised'', rp_finalised_at = Some 54000000, rp_finalised_by = Some ''mgr'', rp_signed_off = Some ''mgr''\<rparr>]\<rparr>) = Inl e1
    \<and> reviewAttendance site_env sample_ctx (sample_clock 54000000) ''s'' ''ann'' worked_day
      (worked_day\<lparr>reports := [\<lparr>rp_shift = ''s'', rp_status = ''finalised'', rp_finalised_at = Some 54000000, rp_finalised_by = Some ''mgr'', rp_signed_off = Some ''mgr''\<rparr>]\<rparr>) = Inl e2"
proof -
  let ?d = "worked_day\<lparr>reports := [\<lparr>rp_shift = ''s'', rp_status = ''finalised'', rp_finalised_at = Some 54000000, rp_finalised_by = Some ''mgr'', rp_signed_off = Some ''mgr''\<rparr>]\<rparr>"
  have r: "\<lparr>rp_shift = ''s'', rp_status = ''finalised'', rp_finalised_at = Some 54000000, rp_finalised_by = Some ''mgr'', rp_signed_off = Some ''mgr''\<rparr> \<in> set (reports ?d)" by simp
  have "\<exists>t. find_attendance ''t1'' worked_day = Some t \<and> at_shift t = ''s''"
    by (simp add: worked_day_def day_db_def find_attendance_def new_attendance_def sample_shift_def)
  then show ?thesis
    using finalised_report_is_frozen [OF r, of "''s''" site_env sample_ctx "sample_clock 54000000" _ "''ann''" _ worked_day _ earlier_dto]
    by auto
qed

section \<open>No-shows and attendance\<close>

text \<open>
  A no-show never takes an attended seat. The Worker's provisional no-show, whatever it saw when it selected the
  candidate, leaves every seat that has an attendance or a check-in as it was; so does the manager's confirmation, when the
  attendance its locking statement joined is current, for every seat with an attendance.
\<close>

theorem no_show_spares_attended_seats:
  assumes "db_ok d" and "flagNoShowCandidate clk org aid ev d0 d = Inr (d1, ev', flagged)"
    and "confirmNoShow env ctx clk' sid staff d d = Inr d2"
  shows "(\<forall>a \<in> set (assignments d). has_attendance (sa_id a) d \<or> sa_checked_in_at a \<noteq> None \<longrightarrow> a \<in> set (assignments d1))
    \<and> (\<forall>a \<in> set (assignments d). has_attendance (sa_id a) d \<longrightarrow> a \<in> set (assignments d2))
    \<and> attendances d1 = attendances d \<and> attendances d2 = attendances d"
proof -
  have k: "assignment_table.keyed (assignments d)" using assms(1) by (simp add: db_ok_def keyed_db_def)
  have eq: "x = b" if "x \<in> set (assignments d)" "b \<in> set (assignments d)" "sa_id x = sa_id b" for x b
    by (rule assignment_table.keyed_unique [OF k that])
  have 1: "(\<forall>a \<in> set (assignments d). has_attendance (sa_id a) d \<or> sa_checked_in_at a \<noteq> None \<longrightarrow> a \<in> set (assignments d1))
    \<and> attendances d1 = attendances d"
  proof (cases "d1 = d")
    case False
    then obtain a0 ms where "flagNoShowLoaded clk org a0 ms ev d0 d = Inr (d1, ev', flagged)"
      using assms(2) by (auto simp: flagNoShowCandidate_def Let_def bindE_Inr_iff split: option.splits if_splits)
    then show ?thesis
    proof (cases rule: flagNoShowLoaded_shape)
      case (flip b s u)
      have b: "b \<in> set (assignments d)" using loadReminderCandidate_shape [OF flip(1)] find_assignment_SomeD by blast
      show ?thesis
        using flip(4)
      proof (cases rule: flip_no_show_shape)
        case (2 evs)
        have "a \<in> set (assignments d1)" if a: "a \<in> set (assignments d)" "has_attendance (sa_id a) d \<or> sa_checked_in_at a \<noteq> None" for a
        proof -
          have "sa_id a \<noteq> sa_id b" using eq [OF a(1) b] a(2) flip(2,3) by auto
          then show ?thesis using a(1) 2(2) by (auto simp: set_update_where)
        qed
        then show ?thesis using 2(2) by simp
      qed simp
    qed simp
  qed simp
  have 2: "(\<forall>a \<in> set (assignments d). has_attendance (sa_id a) d \<longrightarrow> a \<in> set (assignments d2)) \<and> attendances d2 = attendances d"
    using assms(3)
  proof (cases rule: confirmNoShow_shape)
    case (confirmed s b g evs)
    note l = lockSeat_shape [OF confirmed(1)]
    have b: "b \<in> set (assignments d)" "\<not> has_attendance (sa_id b) d" using l attendance_of_None [of "sa_id b" d] by auto
    have "a \<in> set (assignments d2)" if a: "a \<in> set (assignments d)" "has_attendance (sa_id a) d" for a
    proof -
      have "sa_id a \<noteq> sa_id b" using eq [OF a(1) b(1)] a(2) b(2) by auto
      then show ?thesis using a(1) confirmed(6) by (auto simp: set_update_where)
    qed
    then show ?thesis using confirmed(6) by simp
  qed simp
  show ?thesis using 1 2 by blast
qed

theorem no_show_spares_attended_seats_witness:
  "\<exists>d1 d2 ev. flagNoShowCandidate (sample_clock 37800000) ''org'' ''a2'' [] working_day working_day = Inr (d1, ev, True)
    \<and> confirmNoShow site_env sample_ctx (sample_clock 37800000) ''s'' ''bob'' working_day working_day = Inr d2
    \<and> sample_seat ''a1'' ''ann'' A_CONFIRMED \<in> set (assignments d1) \<and> sample_seat ''a1'' ''ann'' A_CONFIRMED \<in> set (assignments d2)"
proof -
  have "case flagNoShowCandidate (sample_clock 37800000) ''org'' ''a2'' [] working_day working_day of Inl e \<Rightarrow> False | Inr (d1, ev, b) \<Rightarrow> b"
    by code_simp
  then obtain d1 ev where 1: "flagNoShowCandidate (sample_clock 37800000) ''org'' ''a2'' [] working_day working_day = Inr (d1, ev, True)"
    by (auto split: sum.splits)
  have "won (confirmNoShow site_env sample_ctx (sample_clock 37800000) ''s'' ''bob'' working_day working_day)" by code_simp
  then obtain d2 where 2: "confirmNoShow site_env sample_ctx (sample_clock 37800000) ''s'' ''bob'' working_day working_day = Inr d2"
    using won_kept by blast
  have m: "sample_seat ''a1'' ''ann'' A_CONFIRMED \<in> set (assignments working_day)" by (simp add: working_day_def day_db_def)
  have "has_attendance (sa_id (sample_seat ''a1'' ''ann'' A_CONFIRMED)) working_day"
    by (simp add: has_attendance_def working_day_def day_db_def new_attendance_def sample_seat_def)
  then show ?thesis using no_show_spares_attended_seats [OF sample_days_ok(2) 1 2] m 1 2 by blast
qed


end
