(* ===== verification/ShiftProperties.thy ===== *)
theory ShiftProperties
  imports CorrectionProperties
begin

text \<open>
  The properties of scheduling: what a cancellation stops and when it is undone, the closing of the seats of cancelled shifts,
  the selection and the approval of a shift request, and what a draft edit may change. The sample runs extend the
  workspace of \<open>OfferProperties\<close>.
\<close>

section \<open>Cancellation\<close>

lemma cancel_cancels:
  assumes "cancel env ctx clk i reason d0 d = Inr (d', s)"
  shows "shift_cancelled i d'"
  using assms
proof (rule cancel_shape)
  fix s0 d1
  assume c: "claim_shift i (\<lambda>s. sh_status s = sh_status s0) (\<lambda>s. s\<lparr>sh_status := CANCELLED, sh_cancelled_reason := reason,
           sh_cancelled_by := Some (cx_user ctx), sh_cancelled_at := Some (tx_now clk)\<rparr>) d = Inr (d1, True)"
    and d': "d' = emit [Audit AU_SHIFT_CANCELLED i (audit_actor ctx), Realtime ''shift.cancelled'' i] d1"
  let ?f = "\<lambda>s. if sh_status s = sh_status s0 then s\<lparr>sh_status := CANCELLED, sh_cancelled_reason := reason,
           sh_cancelled_by := Some (cx_user ctx), sh_cancelled_at := Some (tx_now clk)\<rparr> else s"
  have u: "shifts d1 = update_where (\<lambda>s. sh_id s = i) ?f (shifts d)" using c by (auto simp: claim_shift_Inr update_shift_Inr)
  obtain x where x: "find_shift i d = Some x" "sh_status x = sh_status s0" using c by (auto simp: claim_shift_Inr split: option.splits)
  note x' = find_shift_SomeD [OF x(1)]
  have "?f x \<in> set (shifts d1)" unfolding u by (rule update_where_mem [of x "shifts d" "\<lambda>s. sh_id s = i" ?f]) (use x' in simp_all)
  then have "\<exists>y \<in> set (shifts d1). sh_id y = i \<and> sh_status y = CANCELLED" using x(2) x' by (intro bexI [of _ "?f x"]) simp_all
  then show ?thesis unfolding shift_cancelled_def d' by simp
qed

lemma cancelled_no_cancel:
  assumes "db_ok d" and "shift_cancelled i d"
  shows "\<exists>e. cancel env ctx clk i reason d0 d = Inl e"
proof (cases "cancel env ctx clk i reason d0 d")
  case (Inr p)
  obtain d' s where p: "p = (d', s)" by (cases p)
  obtain x where x: "find_shift i d = Some x" "sh_status x = CANCELLED" using cancelled_find [OF assms(1)] assms(2) by blast
  have "\<not> (\<exists>y. cancel env ctx clk i reason d0 d = Inr y)"
  proof
    assume "\<exists>y. cancel env ctx clk i reason d0 d = Inr y"
    then obtain d' s where "cancel env ctx clk i reason d0 d = Inr (d', s)" by force
    then show False
    proof (rule cancel_shape)
      fix s0 d1
      assume a: "assertShift (sh_status s0) CANCELLED = Inr ()"
        and c: "claim_shift i (\<lambda>s. sh_status s = sh_status s0) (\<lambda>s. s\<lparr>sh_status := CANCELLED, sh_cancelled_reason := reason,
           sh_cancelled_by := Some (cx_user ctx), sh_cancelled_at := Some (tx_now clk)\<rparr>) d = Inr (d1, True)"
      have "sh_status s0 = CANCELLED" using c x by (simp add: claim_shift_Inr)
      then show False using a by (simp add: assertTransition_def)
    qed
  qed
  then show ?thesis using Inr by blast
qed simp

text \<open>
  C15. A cancellation is final: once one committed, in every later state of every history the shift is still cancelled, every
  further cancellation fails (from any stale read), no offer of one of its seats can be confirmed or accepted, and nobody
  clocks in to it. The histories are those in which no publication races the cancellation; that race is the next property.
\<close>

theorem cancellation_is_final:
  assumes "db_ok init" and "history init ds" and "d1 \<in> set ds" and "cancel env ctx clk i reason d0 d = Inr (d1, s)"
    and "d0' \<in> set ds"
  shows "shift_cancelled i (hd ds) \<and> (\<exists>e. cancel env' ctx' clk' i reason' d0'' (hd ds) = Inl e)
    \<and> (\<forall>r a s. offer_join oid (hd ds) = Some (r, a, s) \<and> sa_shift a = i \<longrightarrow>
         (\<exists>e. confirmOne ctx' clk' oid d0' (hd ds) = Inl e)
         \<and> (\<forall>d' q. staffAccept_claim ctx' clk' oid d0' (hd ds) \<noteq> Inr (d', Accepted q)))
    \<and> (in_shift dto = i \<longrightarrow> (\<exists>e. clockIn env' ctx' clk' k dto (hd ds) = Inl e))"
proof -
  note h = history_state [OF assms(1-3)] and h0 = history_state [OF assms(1,2,5)]
  have c: "shift_cancelled i (hd ds)" using cancel_cancels [OF assms(4)] h(2) unfolding older_def by blast
  have "\<exists>e. confirmOne ctx' clk' oid d0' (hd ds) = Inl e" and "staffAccept_claim ctx' clk' oid d0' (hd ds) \<noteq> Inr (d', Accepted q)"
    if j: "offer_join oid (hd ds) = Some (r, a, s)" "sa_shift a = i" for r a s d' q
  proof -
    obtain x where x: "find_shift i (hd ds) = Some x" "sh_status x = CANCELLED" using cancelled_find [OF h(4)] c by blast
    then have st: "sh_status s = CANCELLED" using offer_join_SomeD [OF j(1)] j(2) by simp
    show "\<exists>e. confirmOne ctx' clk' oid d0' (hd ds) = Inl e"
    proof (cases "confirmOne ctx' clk' oid d0' (hd ds)")
      case (Inr p)
      then obtain d' q where "confirmOne ctx' clk' oid d0' (hd ds) = Inr (d', q)" by (cases p) simp
      with h(4) h0(2) show ?thesis by (rule confirm_touches) (use j(1) st in simp)
    qed simp
    show "staffAccept_claim ctx' clk' oid d0' (hd ds) \<noteq> Inr (d', Accepted q)"
    proof
      assume "staffAccept_claim ctx' clk' oid d0' (hd ds) = Inr (d', Accepted q)"
      with h(4) h0(2) show False by (rule accept_claim_touches) (use j(1) st in simp_all)
    qed
  qed
  moreover have "\<exists>e. clockIn env' ctx' clk' k dto (hd ds) = Inl e" if i: "in_shift dto = i" for k dto
  proof (cases "clockIn env' ctx' clk' k dto (hd ds)")
    case (Inr p)
    then obtain d' t where "clockIn env' ctx' clk' k dto (hd ds) = Inr (d', t)" by (cases p) simp
    then show ?thesis
    proof (rule clockIn_shape)
      fix sp a s
      assume a: "find_seat (in_shift dto) (sp_id sp) (hd ds) = Some a" and s: "find_shift (sa_shift a) (hd ds) = Some s"
        and g: "clockIn_guards env' clk' a s (hd ds) = Inr ()"
      have "sh_status s \<noteq> CANCELLED" using g by (auto simp: clockIn_guards_def bindE_Inr_iff require_Inr_iff)
      then show ?thesis using cancelled_find [OF h(4)] c s find_seatD [OF a] i by auto
    qed
  qed simp
  ultimately show ?thesis using c cancelled_no_cancel [OF h(4) c] by blast
qed

definition site :: "venue_status \<Rightarrow> venue_row" where
  "site st = \<lparr>ve_id = ''v'', ve_name = ''Hall'', ve_lat = Some 51, ve_lng = Some 0, ve_geofence_radius_m = 200, ve_enforce_geofence = False,
     ve_workspace = Some ''ws'', ve_created_by = Some ''mgr'', ve_status = st,
     ve_archived_at = (if st = V_ARCHIVED then Some 1 else None), ve_default_break_minutes = None\<rparr>"

text \<open>The sample shift without seats, in a status, at a venue in a status, with one job role.\<close>

definition planned :: "shift_status \<Rightarrow> venue_status \<Rightarrow> db" where
  "planned st vst = (sample_db st 0 PENDING A_OFFERED PENDING A_OFFERED)\<lparr>assignments := [], offers := [], venues := [site vst],
     job_roles := [\<lparr>jr_id = ''r'', jr_name = ''Waiter'', jr_default_rate_pence = 1150, jr_created_by = Some ''mgr'', jr_archived_at = None\<rparr>]\<rparr>"

lemma planned_ok: "db_ok (planned st vst)"
  by (simp add: db_ok_def keyed_db_def linked_db_def published_def coupled_db_def seated_db_def checked_db_def attended_db_def pair_ok_def sample_defs planned_def
      attendance_table.keyed_def one_per_seat_def one_active_per_staff_def shift_table.keyed_def assignment_table.keyed_def offer_table.keyed_def
      occupied_count shift_checks_def no_double_booking_def)

definition called_off :: db where
  "called_off = after (cancel site_env sample_ctx (sample_clock 1000) ''s'' (Some ''rain'') before before)"

lemma called_off_won: "\<exists>s. cancel site_env sample_ctx (sample_clock 1000) ''s'' (Some ''rain'') before before = Inr (called_off, s)"
  unfolding called_off_def by (rule won_after) code_simp

lemma called_off_history: "history before [called_off, before]"
proof -
  have "platform_step before before called_off" using called_off_won by (auto intro: platform_step.shift shift_step.cancel)
  then show ?thesis by (intro history.step [OF history.start]) simp_all
qed

theorem cancellation_is_final_witness:
  "(\<exists>e. cancel site_env sample_ctx (sample_clock 2000) ''s'' None before called_off = Inl e)
    \<and> (\<exists>e. confirmOne sample_ctx (sample_clock 2000) ''o1'' before called_off = Inl e)"
proof -
  obtain s where "cancel site_env sample_ctx (sample_clock 1000) ''s'' (Some ''rain'') before before = Inr (called_off, s)"
    using called_off_won by blast
  note f = cancellation_is_final [OF sample_ok(1) called_off_history _ this, where d0' = before, simplified]
  have "offer_join ''o1'' called_off \<noteq> None \<and> (case offer_join ''o1'' called_off of None \<Rightarrow> False | Some (r, a, s) \<Rightarrow> sa_shift a = ''s'')"
    by code_simp
  then obtain r a s where "offer_join ''o1'' called_off = Some (r, a, s)" "sa_shift a = ''s''" by auto
  then show ?thesis using f by blast
qed

text \<open>A draft that was cancelled.\<close>

definition dropped :: db where
  "dropped = after (cancel site_env sample_ctx (sample_clock 1000) ''s'' None (planned DRAFT V_ACTIVE) (planned DRAFT V_ACTIVE))"

lemma dropped_won: "\<exists>s. cancel site_env sample_ctx (sample_clock 1000) ''s'' None (planned DRAFT V_ACTIVE) (planned DRAFT V_ACTIVE) = Inr (dropped, s)"
  unfolding dropped_def by (rule won_after) code_simp

text \<open>
  C16. A publication can undo a cancellation. \<open>publish\<close> checks the status of the row it read without a lock and then updates
  unconditionally, so a draft cancelled in between is reopened: the publication commits, the shift is open, and its
  cancellation time, author and reason stay on the row.
\<close>

theorem publish_reopens_cancelled:
  assumes "db_ok d" and "find_shift i d = Some s" and "sh_status s = CANCELLED" and "find_shift i d0 = Some s0"
    and "canReadShift env ctx s0 d0" and "sh_archived_at s0 = None" and "sh_status s0 = DRAFT"
  shows "\<exists>d' s'. publish True env ctx clk i d0 d = Inr (d', s') \<and> find_shift i d' = Some s' \<and> sh_status s' = OPEN \<and> \<not> shift_cancelled i d'
    \<and> sh_cancelled_at s' = sh_cancelled_at s \<and> sh_cancelled_by s' = sh_cancelled_by s \<and> sh_cancelled_reason s' = sh_cancelled_reason s"
proof -
  let ?f = "\<lambda>s. s\<lparr>sh_status := OPEN, sh_published_at := Some (node_now clk)\<rparr>"
  let ?d1 = "d\<lparr>shifts := update_where (\<lambda>s. sh_id s = i) ?f (shifts d)\<rparr>"
  note s = find_shift_SomeD [OF assms(2)]
  have k: "shift_table.keyed (shifts d)" and ck: "list_all shift_checks (shifts d)" using assms(1) by (simp_all add: db_ok_def keyed_db_def checked_db_def)
  have "shift_checks x \<Longrightarrow> sh_status x \<noteq> DRAFT \<Longrightarrow> shift_checks (?f x)" for x by (simp add: shift_checks_def) blast
  moreover have "x = s" if "x \<in> set (shifts d)" "sh_id x = i" for x using shift_table.keyed_unique [OF k, of x s] that s by simp
  ultimately have c: "list_all shift_checks (shifts ?d1)" using ck assms(3) by (auto simp: list_all_iff set_update_where)
  then obtain d1 where u: "update_shift i ?f d = Inr d1" and e: "shifts d1 = update_where (\<lambda>s. sh_id s = i) ?f (shifts d)"
    by (simp add: update_shift_Inr)
  have f: "find_shift i (emit es d1) = Some (?f s)" for es
    using shift_table.find_update [of ?f i "\<lambda>s. sh_id s = i" "shifts d"] assms(2) s by (simp add: find_shift_def e)
  let ?d2 = "emit [Audit SHIFT_PUBLISHED i (audit_actor ctx), Realtime ''shift.updated'' i] d1"
  have a: "assertShift (sh_status s0) OPEN = Inr ()" unfolding assms(7) by (simp add: assertTransition_def)
  have o: "assertShiftOwned env ctx s0 d0 = Inr ()" unfolding assertShiftOwned_def by (simp add: assms(5))
  have r: "require (sh_archived_at s0 = None) err = Inr ()" for err :: error by (simp add: assms(6))
  have "publish True env ctx clk i d0 d = Inr (?d2, ?f s)"
    unfolding publish_def Let_def assms(4) require_True from_option_simps bindE.simps o r a u f by (rule refl)
  moreover have "\<not> shift_cancelled i ?d2"
  proof
    assume "shift_cancelled i ?d2"
    then obtain y where y: "y \<in> set (shifts d1)" "sh_id y = i" "sh_status y = CANCELLED" by (auto simp: shift_cancelled_def)
    then obtain x where "y = (if sh_id x = i then ?f x else x)" unfolding e set_update_where by blast
    then show False using y(2,3) by (simp split: if_splits)
  qed
  ultimately show ?thesis using f by (intro exI [of _ ?d2] exI [of _ "?f s"]) simp
qed

theorem publish_reopens_cancelled_witness:
  "\<exists>d' s'. publish True site_env sample_ctx (sample_clock 2000) ''s'' (planned DRAFT V_ACTIVE) dropped = Inr (d', s')
    \<and> sh_status s' = OPEN \<and> sh_cancelled_at s' = Some 1000"
proof -
  let ?d0 = "planned DRAFT V_ACTIVE"
  have ok: "db_ok dropped" using dropped_won dbok_cancel_shift [OF planned_ok] by blast
  have "(case find_shift ''s'' dropped of None \<Rightarrow> False | Some s \<Rightarrow> sh_status s = CANCELLED \<and> sh_cancelled_at s = Some 1000)" by code_simp
  then obtain s where s: "find_shift ''s'' dropped = Some s" "sh_status s = CANCELLED" "sh_cancelled_at s = Some 1000" by (auto split: option.splits)
  have s0: "find_shift ''s'' ?d0 = Some (sample_shift DRAFT 0)" by (simp add: find_shift_def planned_def sample_db_def sample_shift_def)
  have "canReadShift site_env sample_ctx (sample_shift DRAFT 0) ?d0" by code_simp
  from publish_reopens_cancelled [OF ok s(1,2) s0 this, of "sample_clock 2000"] show ?thesis
    using s(3) by (simp add: sample_shift_def) metis
qed

section \<open>Closing the seats of cancelled shifts\<close>

text \<open>The seats a cycle of the follow-up works on.\<close>

definition leftover :: "db \<Rightarrow> assignment_row list" where
  "leftover d = filter (\<lambda>a. sa_status a \<in> set OPEN_ASSIGNMENT_STATUSES \<and> shift_cancelled (sa_shift a) d) (assignments d)"

lemma discover_leftover: "discoverCancelledSeats d = take 500 (map sa_id (leftover d))"
  by (simp add: discoverCancelledSeats_def leftover_def shift_cancelled_def)

definition closable :: "db \<Rightarrow> bool" where
  "closable d \<longleftrightarrow> shift_table.keyed (shifts d) \<and> assignment_table.keyed (assignments d) \<and> no_double_booking (assignments d)"

lemma no_double_booking_cancel: "no_double_booking t \<Longrightarrow> no_double_booking (update_where P (\<lambda>x. x\<lparr>sa_status := A_CANCELLED\<rparr>) t)"
  unfolding no_double_booking_def
proof (intro ballI impI)
  fix a b
  let ?t = "update_where P (\<lambda>x. x\<lparr>sa_status := A_CANCELLED\<rparr>) t"
  assume n: "\<forall>a \<in> set t. \<forall>b \<in> set t. sa_id a \<noteq> sa_id b \<longrightarrow> sa_staff a = sa_staff b \<longrightarrow> booked a \<longrightarrow> booked b
      \<longrightarrow> \<not> periods_overlap (sa_period a) (sa_period b)"
    and a: "a \<in> set ?t" and b: "b \<in> set ?t" and i: "sa_id a \<noteq> sa_id b" "sa_staff a = sa_staff b" and k: "booked a" "booked b"
  have m: "x \<in> set t" if "x \<in> set ?t" "booked x" for x
    using that by (auto simp: set_update_where booked_def split: if_splits)
  show "\<not> periods_overlap (sa_period a) (sa_period b)" using n m [OF a k(1)] m [OF b k(2)] i k by blast
qed

lemma claim_offer_seats:
  "claim_offer oid st f act d = (d', b) \<Longrightarrow> assignments d' = assignments d \<and> shifts d' = shifts d \<and> attendances d' = attendances d"
  using claim_offer_tables by blast

lemma closeCancelledOffer_total:
  "\<exists>d' b. closeCancelledOffer clk r d = Inr (d', b) \<and> assignments d' = assignments d \<and> shifts d' = shifts d \<and> attendances d' = attendances d"
proof (cases "jo_status r")
  case PENDING
  obtain d' b where c: "claim_offer (jo_id r) PENDING (\<lambda>q. q\<lparr>jo_status := OFFER_WITHDRAWN, jo_responded_at := Some (node_now clk)\<rparr>)
      OFFER_WITHDRAWN_BY_WORKER d = (d', b)" by fastforce
  then show ?thesis using PENDING claim_offer_seats [OF c] by (simp add: closeCancelledOffer_def assertTransition_def)
next
  case OFFER_STAFF_ACCEPTED
  obtain d' b where c: "claim_offer (jo_id r) OFFER_STAFF_ACCEPTED
             (\<lambda>q. q\<lparr>jo_status := MANAGER_REJECTED, jo_rejected_at := Some (node_now clk), jo_rejected_by := None,
                    jo_rejection_reason := Some ''This shift was cancelled.''\<rparr>) OFFER_REJECTED_BY_WORKER d = (d', b)" by fastforce
  then show ?thesis using OFFER_STAFF_ACCEPTED claim_offer_seats [OF c] by (simp add: closeCancelledOffer_def assertTransition_def)
qed (auto simp: closeCancelledOffer_def)

lemma cancelOpenSeat_total:
  assumes "sa_status a \<in> set OPEN_ASSIGNMENT_STATUSES" and "no_double_booking (assignments d)"
  shows "\<exists>d' b. cancelOpenSeat a d0 d = Inr (d', b) \<and> shifts d' = shifts d
    \<and> assignments d' = update_where (\<lambda>x. sa_id x = sa_id a \<and> sa_status x = sa_status a) (\<lambda>x. x\<lparr>sa_status := A_CANCELLED\<rparr>) (assignments d)"
proof -
  let ?t = "update_where (\<lambda>x. sa_id x = sa_id a \<and> sa_status x = sa_status a) (\<lambda>x. x\<lparr>sa_status := A_CANCELLED\<rparr>) (assignments d)"
  have s: "assertSeat (sa_status a) A_CANCELLED = Inr ()" using assms(1) by (auto simp: OPEN_ASSIGNMENT_STATUSES_def assertTransition_def)
  have n: "no_double_booking ?t" by (rule no_double_booking_cancel [OF assms(2)])
  show ?thesis
  proof (cases "\<exists>x \<in> set (assignments d). sa_id x = sa_id a \<and> sa_status x = sa_status a")
    case True
    then have "\<not> \<not> (\<exists>x \<in> set (assignments d). sa_id x = sa_id a \<and> sa_status x = sa_status a)" by blast
    then show ?thesis unfolding cancelOpenSeat_def Let_def s bindE.simps by (simp only: if_False) (simp add: n, blast)
  next
    case False
    then have "?t = assignments d" by (intro update_where_none) blast
    then show ?thesis using s False by (auto simp: cancelOpenSeat_def)
  qed
qed

lemma close_one:
  assumes k: "closable d" and a: "a \<in> set (leftover d)"
  shows "\<exists>d' out. closeCancelledSeat clk (sa_id a) d d = Inr (d', out) \<and> closable d' \<and> leftover d' = filter (\<lambda>x. sa_id x \<noteq> sa_id a) (leftover d)"
proof -
  note k' = k [unfolded closable_def]
  from a have m: "a \<in> set (assignments d)" and st: "sa_status a \<in> set OPEN_ASSIGNMENT_STATUSES" and sc: "shift_cancelled (sa_shift a) d"
    by (simp_all add: leftover_def)
  have f: "find_assignment (sa_id a) d = Some a" using find_assignment_iff [of d] k' m by blast
  obtain s where s: "find_shift (sa_shift a) d = Some s" "sh_status s = CANCELLED"
    using sc find_shift_iff [of d] k' by (auto simp: shift_cancelled_def)
  obtain d1 b where o: "(case offer_of_seat (sa_id a) d of None \<Rightarrow> Inr (d, False) | Some r \<Rightarrow> closeCancelledOffer clk r d) = Inr (d1, b)"
    and e1: "assignments d1 = assignments d" "shifts d1 = shifts d"
  proof (cases "offer_of_seat (sa_id a) d")
    case None
    then show ?thesis using that [of d False] by simp
  next
    case (Some r)
    obtain d1 b where "closeCancelledOffer clk r d = Inr (d1, b)" "assignments d1 = assignments d" "shifts d1 = shifts d"
      using closeCancelledOffer_total by blast
    then show ?thesis using that [of d1 b] Some by simp
  qed
  let ?P = "\<lambda>x. sa_id x = sa_id a \<and> sa_status x = sa_status a"
  obtain d2 b' where c: "cancelOpenSeat a d d1 = Inr (d2, b')" and e2: "shifts d2 = shifts d1"
    "assignments d2 = update_where ?P (\<lambda>x. x\<lparr>sa_status := A_CANCELLED\<rparr>) (assignments d1)"
    using cancelOpenSeat_total [OF st, of d1 d] k' e1 by auto
  have r: "closeCancelledSeat clk (sa_id a) d d = Inr (d2, b', b)"
    using st by (simp add: closeCancelledSeat_def f s o c)
  have u: "x = a" if "x \<in> set (assignments d)" "sa_id x = sa_id a" for x
    using assignment_table.keyed_unique [of "assignments d" x a] k' m that by simp
  have "closable d2"
    using k' no_double_booking_cancel by (simp add: closable_def e1 e2 assignment_table.keyed_def map_update_where)
  moreover have "leftover d2 = filter (\<lambda>x. sa_id x \<noteq> sa_id a) (leftover d)"
  proof -
    have sc2: "shift_cancelled sid d2 = shift_cancelled sid d" for sid by (simp add: shift_cancelled_def e1 e2)
    have "filter (\<lambda>x. sa_status x \<in> set OPEN_ASSIGNMENT_STATUSES \<and> shift_cancelled (sa_shift x) d)
        (update_where ?P (\<lambda>x. x\<lparr>sa_status := A_CANCELLED\<rparr>) l)
      = filter (\<lambda>x. sa_id x \<noteq> sa_id a) (filter (\<lambda>x. sa_status x \<in> set OPEN_ASSIGNMENT_STATUSES \<and> shift_cancelled (sa_shift x) d) l)"
      if "set l \<subseteq> set (assignments d)" for l
      using that by (induction l) (auto simp: OPEN_ASSIGNMENT_STATUSES_def dest: u)
    then show ?thesis unfolding leftover_def sc2 e2 e1 by simp
  qed
  ultimately show ?thesis using r by blast
qed

lemma close_each:
  assumes "closable d" and "distinct ids" and "set ids \<subseteq> sa_id ` set (leftover d)"
  shows "\<exists>d'. each (\<lambda>aid d'. bindE (closeCancelledSeat clk aid d' d') (\<lambda>(d'', _). Inr d'')) ids d = Inr d' \<and> closable d'
    \<and> leftover d' = filter (\<lambda>x. sa_id x \<notin> set ids) (leftover d)"
  using assms
proof (induction ids arbitrary: d)
  case (Cons i ids)
  then obtain a where a: "a \<in> set (leftover d)" "sa_id a = i" by auto
  obtain d1 out where c: "closeCancelledSeat clk i d d = Inr (d1, out)" "closable d1" "leftover d1 = filter (\<lambda>x. sa_id x \<noteq> i) (leftover d)"
    using close_one [OF Cons.prems(1) a(1)] a(2) by blast
  have "set ids \<subseteq> sa_id ` set (leftover d1)"
  proof
    fix k
    assume "k \<in> set ids"
    then show "k \<in> sa_id ` set (leftover d1)" using Cons.prems(2,3) by (force simp: c(3))
  qed
  then obtain d' where "each (\<lambda>aid d'. bindE (closeCancelledSeat clk aid d' d') (\<lambda>(d'', _). Inr d'')) ids d1 = Inr d'" "closable d'"
      "leftover d' = filter (\<lambda>x. sa_id x \<notin> set ids) (leftover d1)"
    using Cons.IH [OF c(2)] Cons.prems(2) by auto
  then show ?case using c by (cases out) (auto simp: conj_commute intro: filter_cong)
qed simp

lemma cycle_progress:
  assumes "closable d"
  shows "\<exists>d'. cancellation_followup_cycle clk d = Inr d' \<and> closable d' \<and> length (leftover d') = length (leftover d) - 500"
proof -
  let ?ids = "map sa_id (leftover d)"
  have di: "distinct ?ids"
    using assms unfolding closable_def assignment_table.keyed_def leftover_def by (simp add: distinct_map_filter)
  have "set (take 500 ?ids) \<subseteq> sa_id ` set (leftover d)" using set_take_subset [of 500 ?ids] by simp
  then obtain d' where c: "cancellation_followup_cycle clk d = Inr d'" "closable d'"
      and l: "leftover d' = filter (\<lambda>x. sa_id x \<notin> set (take 500 ?ids)) (leftover d)"
    using close_each [OF assms distinct_take [OF di, of 500], of clk] unfolding cancellation_followup_cycle_def discover_leftover by blast
  have e: "filter (\<lambda>x. sa_id x \<notin> set (take 500 ?ids)) (leftover d) = drop 500 (leftover d)"
  proof -
    have "leftover d = take 500 (leftover d) @ drop 500 (leftover d)" by simp
    moreover have "filter (\<lambda>x. sa_id x \<notin> set (take 500 ?ids)) (take 500 (leftover d)) = []"
      by (simp add: filter_empty_conv take_map)
    moreover have "filter (\<lambda>x. sa_id x \<notin> set (take 500 ?ids)) (drop 500 (leftover d)) = drop 500 (leftover d)"
    proof -
      have "set (take 500 ?ids) \<inter> set (drop 500 ?ids) = {}" using di set_take_disj_set_drop_if_distinct by blast
      then show ?thesis by (auto simp: filter_id_conv drop_map)
    qed
    ultimately show ?thesis by (metis (no_types, lifting) append_Nil filter_append)
  qed
  then show ?thesis using c by (simp add: l)
qed

lemma cycles_settle:
  "closable d \<Longrightarrow> length (leftover d) \<le> 500 * length clks \<Longrightarrow> \<exists>d'. each cancellation_followup_cycle clks d = Inr d' \<and> leftover d' = []"
proof (induction clks arbitrary: d)
  case (Cons clk clks)
  obtain d1 where c: "cancellation_followup_cycle clk d = Inr d1" "closable d1" "length (leftover d1) = length (leftover d) - 500"
    using cycle_progress [OF Cons.prems(1)] by blast
  have "length (leftover d1) \<le> 500 * length clks" using Cons.prems(2) by (simp add: c(3))
  then show ?case using Cons.IH [OF c(2)] c(1) by simp
qed simp

text \<open>
  C17. The follow-up settles every cancelled shift: each undisturbed cycle returns, whatever the data, and closes the next 500 open
  seats, so after enough cycles no seat of a cancelled shift is offered, accepted or confirmed and the Worker finds nothing to do.
\<close>

theorem followup_settles_cancelled_shifts:
  assumes "db_ok d" and "length (discoverCancelledSeats d) < 500 \<or> length (assignments d) \<le> 500 * length clks" and "clks \<noteq> []"
  shows "\<exists>d'. each cancellation_followup_cycle clks d = Inr d' \<and> discoverCancelledSeats d' = []
    \<and> (\<forall>a \<in> set (assignments d'). shift_cancelled (sa_shift a) d' \<longrightarrow> sa_status a \<notin> {A_OFFERED, A_STAFF_ACCEPTED, A_CONFIRMED})"
proof -
  have k: "closable d" using assms(1) by (simp add: closable_def db_ok_def keyed_db_def checked_db_def)
  have "1 \<le> length clks" using assms(3) by (cases clks) simp_all
  moreover have "length (leftover d) \<le> length (assignments d)" by (simp add: leftover_def)
  moreover have "length (leftover d) < 500" if "length (discoverCancelledSeats d) < 500" using that by (auto simp: discover_leftover)
  ultimately have "length (leftover d) \<le> 500 * length clks" using assms(2) by auto
  then obtain d' where c: "each cancellation_followup_cycle clks d = Inr d'" and l: "leftover d' = []" using cycles_settle [OF k] by blast
  have "discoverCancelledSeats d' = []" by (simp add: discover_leftover l)
  moreover have "sa_status a \<notin> {A_OFFERED, A_STAFF_ACCEPTED, A_CONFIRMED}" if "a \<in> set (assignments d')" "shift_cancelled (sa_shift a) d'" for a
    using l that unfolding leftover_def filter_empty_conv by (auto simp: OPEN_ASSIGNMENT_STATUSES_def)
  ultimately show ?thesis using c by blast
qed

lemma called_off_ok: "db_ok called_off"
  using history_state(1) [OF sample_ok(1) called_off_history] by simp

theorem followup_settles_cancelled_shifts_witness:
  "\<exists>d'. each cancellation_followup_cycle [sample_clock 3000] called_off = Inr d' \<and> discoverCancelledSeats d' = []
    \<and> length (discoverCancelledSeats called_off) = 2"
proof -
  have l: "length (discoverCancelledSeats called_off) = 2" by code_simp
  then show ?thesis using followup_settles_cancelled_shifts [OF called_off_ok, of "[sample_clock 3000]"] by auto
qed

text \<open>A clock-out that commits had a confirmed seat in its read.\<close>

lemma performClockOut_seat:
  "performClockOut ctx clk t dto v m ob d0 d = Inr x \<Longrightarrow> \<exists>a. find_assignment (at_assignment t) d0 = Some a \<and> sa_status a \<noteq> A_CANCELLED"
  unfolding performClockOut_def clock_out_write_def Let_def bindE_Inr_iff from_option_Inr_iff by (auto simp: assertTransition_def)

lemma one_active:
  assumes "one_active_per_staff l" and "t \<in> set l" "active t" and "u \<in> set l" "active u" and "at_staff t = at_staff u"
  shows "t = u"
  using assms unfolding one_active_per_staff_def by (auto simp: distinct_map inj_on_def)

text \<open>
  C18. Cancelling a shift traps who is working it. When the follow-up closes the confirmed seat of a staff member who is clocked in,
  the attendance stays active while its seat is cancelled: on the state the follow-up leaves, neither their clock-out nor a
  geofence exit commits, and they cannot clock in to any other shift.
\<close>

theorem cancellation_traps_clocked_in_staff:
  assumes "db_ok d" and "closeCancelledSeat clk aid d d = Inr (d', True, c)" and "t \<in> set (attendances d)" and "at_assignment t = aid" and "active t"
    and "find_staff_of_user (cx_user ctx) d' = Some sp" and "sp_id sp = at_staff t"
  shows "t \<in> set (attendances d') \<and> (\<exists>a. find_assignment aid d' = Some a \<and> sa_status a = A_CANCELLED)
    \<and> (\<exists>e. clockOut env ctx clk' odto d' d' = Inl e) \<and> (\<exists>e. autoClockOutOnGeofenceExit env ctx clk' gdto d' d' = Inl e)
    \<and> (\<exists>e. clockIn env ctx clk' k idto d' = Inl e)"
proof -
  obtain a d1 b where a: "find_assignment aid d = Some a"
    and o: "(case offer_of_seat aid d of None \<Rightarrow> Inr (d, False) | Some r \<Rightarrow> closeCancelledOffer clk r d) = Inr (d1, b)"
    and co: "cancelOpenSeat a d d1 = Inr (d', True)"
    using assms(2) by (auto simp: closeCancelledSeat_def bindE_Inr_iff split: option.splits if_splits)
  have e1: "assignments d1 = assignments d \<and> attendances d1 = attendances d"
  proof (cases "offer_of_seat aid d")
    case None
    then show ?thesis using o by simp
  next
    case (Some r)
    then show ?thesis using o closeCancelledOffer_total [of clk r d] by auto
  qed
  have aid: "sa_id a = aid" using find_assignment_SomeD [OF a] by simp
  have ka: "assignment_table.keyed (assignments d)" and nd: "no_double_booking (assignments d1)" and oa: "one_active_per_staff (attendances d)"
    using assms(1) e1 by (simp_all add: db_ok_def keyed_db_def checked_db_def attended_db_def)
  let ?P = "\<lambda>x. sa_id x = sa_id a \<and> sa_status x = sa_status a"
  obtain d2 es where d': "d' = emit es d2" "attendances d2 = attendances d1"
    "assignments d2 = update_where ?P (\<lambda>x. x\<lparr>sa_status := A_CANCELLED\<rparr>) (assignments d1)"
    using cancelOpenSeat_closes [OF co nd] by metis
  have as: "assignments d' = update_where ?P (\<lambda>x. x\<lparr>sa_status := A_CANCELLED\<rparr>) (assignments d)" and at: "attendances d' = attendances d"
    using d' e1 by simp_all
  have f: "find_assignment aid d' = Some (a\<lparr>sa_status := A_CANCELLED\<rparr>)"
    using assignment_table.find_update [of "\<lambda>x. x\<lparr>sa_status := A_CANCELLED\<rparr>" aid ?P "assignments d"] a aid by (simp add: find_assignment_def as)
  have act: "u = t" if "active_of (sp_id sp) d' = Some u" for u
  proof -
    have u: "u \<in> set (attendances d)" "active u" "at_staff u = at_staff t" using active_ofD [OF that] unfolding at assms(7) by blast+
    show ?thesis by (rule one_active [OF oa u(1,2) assms(3,5) u(3)])
  qed
  have no: "\<not> (\<exists>x. performClockOut ctx clk' t dto v m ob d' d' = Inr x)" for dto v m ob
    using performClockOut_seat [of ctx clk' t dto v m ob d' d'] f assms(4) by auto
  have "\<exists>e. clockOut env ctx clk' odto d' d' = Inl e"
  proof (cases "clockOut env ctx clk' odto d' d'")
    case (Inr x)
    then show ?thesis
    proof (rule clockOut_performs)
      fix sp2 t2 v ev
      assume sp: "find_staff_of_user (cx_user ctx) d' = Some sp2" and t2: "active_of (sp_id sp2) d' = Some t2"
        and p: "performClockOut ctx clk' t2 (out_fix odto) (se_verified ev) Manual None d' d' = Inr x"
      have "t2 = t" using act t2 sp assms(6) by simp
      then show ?thesis using no p by blast
    qed
  qed simp
  moreover have "\<exists>e. autoClockOutOnGeofenceExit env ctx clk' gdto d' d' = Inl e"
  proof (cases "autoClockOutOnGeofenceExit env ctx clk' gdto d' d'")
    case (Inr x)
    then show ?thesis
    proof (rule auto_performs)
      fix sp2 t2
      assume sp: "find_staff_of_user (cx_user ctx) d' = Some sp2" and t2: "active_of (sp_id sp2) d' = Some t2"
        and p: "performClockOut ctx clk' t2 (exit_fix gdto) True AutoGeofence None d' d' = Inr x"
      have "t2 = t" using act t2 sp assms(6) by simp
      then show ?thesis using no p by blast
    qed
  qed simp
  moreover have "\<exists>e. clockIn env ctx clk' k idto d' = Inl e"
  proof (cases "clockIn env ctx clk' k idto d'")
    case (Inr x)
    then obtain d3 u where "clockIn env ctx clk' k idto d' = Inr (d3, u)" by (cases x) simp
    then show ?thesis
    proof (rule clockIn_shape)
      fix sp2 a2 t2
      assume sp: "find_staff_of_user (cx_user ctx) d' = Some sp2" and st: "find_seat (in_shift idto) (sp_id sp2) d' = Some a2"
        and c: "clocks_in d' a2 t2 d3"
      have e: "attendances d3 = attendances d' @ [t2]" and k3: "attendance_table.keyed (attendances d3)"
        and o3: "one_active_per_staff (attendances d3)" and ac: "active t2" and fit: "attended_seat t2 a2"
        using c unfolding clocks_in_def by (blast, blast, blast, simp add: active_def, blast)
      have "sp2 = sp" using sp assms(6) by simp
      then have s: "at_staff t2 = at_staff t" using fit find_seatD [OF st] assms(7) by (simp add: attended_seat_def)
      have m: "t \<in> set (attendances d')" using assms(3) at by simp
      have "t2 = t" using one_active [OF o3, of t2 t] e ac m assms(5) s by simp
      then show ?thesis using k3 m e by (force simp: attendance_table.keyed_def)
    qed
  qed simp
  ultimately show ?thesis using f assms(3) at by simp
qed

text \<open>Ann is at work when the manager cancels the shift; the follow-up then closes her seat.\<close>

definition pulled :: db where
  "pulled = after (cancel site_env sample_ctx (sample_clock 40000000) ''s'' None at_work at_work)"

lemma pulled_won: "\<exists>s. cancel site_env sample_ctx (sample_clock 40000000) ''s'' None at_work at_work = Inr (pulled, s)"
  unfolding pulled_def by (rule won_after) code_simp

lemma pulled_ok: "db_ok pulled"
  using pulled_won dbok_cancel_shift [OF sample_states(3)] by blast

definition trapped :: db where
  "trapped = after (closeCancelledSeat (sample_clock 40001000) ''a1'' pulled pulled)"

lemma trapped_won: "\<exists>c. closeCancelledSeat (sample_clock 40001000) ''a1'' pulled pulled = Inr (trapped, True, c)"
proof -
  have "\<exists>x. closeCancelledSeat (sample_clock 40001000) ''a1'' pulled pulled = Inr (trapped, x)"
    unfolding trapped_def by (rule won_after) code_simp
  moreover have "(case closeCancelledSeat (sample_clock 40001000) ''a1'' pulled pulled of Inr (_, b, _) \<Rightarrow> b | _ \<Rightarrow> False)" by code_simp
  ultimately show ?thesis by auto
qed

theorem cancellation_traps_clocked_in_staff_witness:
  "\<exists>e. clockOut site_env ann_ctx (sample_clock 50400000) \<lparr>out_qr = ''qr'', out_fix = sample_dto 12 50399000\<rparr> trapped trapped = Inl e"
proof -
  have "(\<exists>t \<in> set (attendances pulled). at_assignment t = ''a1'' \<and> active t)
      \<and> (case find_staff_of_user (cx_user ann_ctx) trapped of None \<Rightarrow> False | Some sp \<Rightarrow>
          \<forall>t \<in> set (attendances pulled). at_assignment t = ''a1'' \<longrightarrow> sp_id sp = at_staff t)" by code_simp
  then obtain t sp where "t \<in> set (attendances pulled)" "at_assignment t = ''a1''" "active t"
      "find_staff_of_user (cx_user ann_ctx) trapped = Some sp" "sp_id sp = at_staff t"
    by (auto split: option.splits)
  then show ?thesis using trapped_won cancellation_traps_clocked_in_staff [OF pulled_ok] by blast
qed

section \<open>The selection of a request\<close>

lemma removed_selection:
  "each (removeRequestedStaffTx ctx sid) ks d = Inr d1
    \<Longrightarrow> request_staff d1 = filter (\<lambda>q. \<not> (rq_shift q = sid \<and> rq_staff q \<in> set ks)) (request_staff d)"
proof (induction ks arbitrary: d)
  case (Cons k ks)
  obtain d2 where 1: "removeRequestedStaffTx ctx sid k d = Inr d2" and 2: "each (removeRequestedStaffTx ctx sid) ks d2 = Inr d1"
    using Cons.prems by (auto simp: bindE_Inr_iff)
  have "request_staff d2 = filter (\<lambda>q. \<not> (rq_shift q = sid \<and> rq_staff q = k)) (request_staff d)"
    using 1 by (auto simp: removeRequestedStaffTx_def bindE_Inr_iff emit_def)
  then show ?case using Cons.IH [OF 2] by (auto intro: filter_cong)
qed simp

lemma added_selection:
  "each (addRequestedStaffTx ctx sid) ks d = Inr d1
    \<Longrightarrow> \<exists>new. request_staff d1 = request_staff d @ new \<and> map rq_staff new = ks \<and> (\<forall>q \<in> set new. rq_shift q = sid)"
proof (induction ks arbitrary: d)
  case (Cons k ks)
  obtain d2 where 1: "addRequestedStaffTx ctx sid k d = Inr d2" and 2: "each (addRequestedStaffTx ctx sid) ks d2 = Inr d1"
    using Cons.prems by (auto simp: bindE_Inr_iff)
  obtain q where q: "request_staff d2 = request_staff d @ [q]" "rq_staff q = k" "rq_shift q = sid"
    using 1 unfolding addRequestedStaffTx_def bindE_Inr_iff by (elim exE conjE) (auto simp: insert_request_def emit_def split: if_splits)
  obtain new where "request_staff d1 = request_staff d2 @ new" "map rq_staff new = ks" "\<forall>q \<in> set new. rq_shift q = sid"
    using Cons.IH [OF 2] by blast
  then show ?case using q by (intro exI [of _ "q # new"]) simp
qed simp

lemma each_checks: "each (\<lambda>i u. f i) xs () = Inr () \<longleftrightarrow> (\<forall>x \<in> set xs. f x = (Inr () :: unit res))"
  by (induction xs) (auto simp: bindE_Inr_iff)

lemma new_selection_available:
  assumes "check_new_selection ctx s ids current d = Inr ()" and "i \<in> set ids"
  shows "findBusyStaffIds [i] (requested_window s (find (\<lambda>q. rq_staff q = i) current)) (Some (sh_id s)) d = []"
proof -
  have "ids \<noteq> []" using assms(2) by auto
  then have "each (\<lambda>i u. assertStaffAvailable [i] (requested_window s (find (\<lambda>q. rq_staff q = i) current)) (Some (sh_id s)) d) ids () = Inr ()"
    using assms(1) by (simp add: check_new_selection_def bindE_Inr_iff)
  then have "assertStaffAvailable [i] (requested_window s (find (\<lambda>q. rq_staff q = i) current)) (Some (sh_id s)) d = Inr ()"
    using assms(2) unfolding each_checks by blast
  then show ?thesis by (simp add: assertStaffAvailable_def require_Inr_iff)
qed

text \<open>
  C19. Saving the selection of a request makes it exactly the given staff. When it commits, the rows of the selected staff who
  were on the request are unchanged and in their order, one row follows for each new one, the rows of all others are gone and
  no other request is touched; the request held no more people than the shift requires, nobody twice, and everybody was free
  in the window they are asked for.
\<close>

theorem set_selection_exact:
  assumes "setRequestedStaff may ctx sid ids expected d = Inr d'"
  shows "rq_staff ` set (requests_of sid d') = set ids
    \<and> (\<exists>new. requests_of sid d' = filter (\<lambda>q. rq_staff q \<in> set ids) (requests_of sid d) @ new
         \<and> map rq_staff new = filter (\<lambda>i. i \<notin> rq_staff ` set (requests_of sid d)) ids)
    \<and> (other \<noteq> sid \<longrightarrow> requests_of other d' = requests_of other d)
    \<and> (\<exists>s. find_shift sid d = Some s \<and> sh_status s = PENDING_MANAGER_APPROVAL \<and> distinct ids \<and> int (length ids) \<le> sh_required_count s
         \<and> (\<forall>i \<in> set ids. findBusyStaffIds [i] (requested_window s (find (\<lambda>q. rq_staff q = i) (requests_of sid d))) (Some sid) d = []))"
  using assms
proof (rule setRequestedStaff_shape)
  fix s d1 d2
  let ?cur = "rq_staff ` set (requests_of sid d)"
  assume s: "find_shift sid d = Some s" "sh_status s = PENDING_MANAGER_APPROVAL" "distinct ids" "int (length ids) \<le> sh_required_count s"
    and c: "check_new_selection ctx s ids (requests_of sid d) d = Inr ()"
    and r: "each (removeRequestedStaffTx ctx sid) (filter (\<lambda>i. i \<notin> set ids) (remdups (map rq_staff (requests_of sid d)))) d = Inr d1"
    and a: "each (addRequestedStaffTx ctx sid) (filter (\<lambda>i. i \<notin> ?cur) ids) d1 = Inr d2"
    and d': "d' = emitRequestStaffChanged sid d2"
  obtain new where n: "request_staff d2 = request_staff d1 @ new" "map rq_staff new = filter (\<lambda>i. i \<notin> ?cur) ids" "\<forall>q \<in> set new. rq_shift q = sid"
    using added_selection [OF a] by blast
  have e: "request_staff d' = request_staff d2" by (simp add: d' emitRequestStaffChanged_def emit_def)
  have o: "requests_of other d' = requests_of other d" if "other \<noteq> sid"
    using n(3) that removed_selection [OF r] by (auto simp: requests_of_def e n(1) filter_empty_conv intro: filter_cong)
  have "requests_of sid d1 = filter (\<lambda>q. rq_staff q \<in> set ids) (requests_of sid d)"
    using removed_selection [OF r] by (auto simp: requests_of_def intro!: filter_cong)
  moreover have "filter (\<lambda>q. rq_shift q = sid) new = new" using n(3) by (simp add: filter_id_conv)
  ultimately have rq: "requests_of sid d' = filter (\<lambda>q. rq_staff q \<in> set ids) (requests_of sid d) @ new"
    by (simp add: requests_of_def e n(1))
  have "set (map rq_staff new) = set ids - ?cur" unfolding n(2) by auto
  then have "rq_staff ` set (requests_of sid d') = set ids" unfolding rq by auto
  moreover have "findBusyStaffIds [i] (requested_window s (find (\<lambda>q. rq_staff q = i) (requests_of sid d))) (Some sid) d = []" if "i \<in> set ids" for i
    using new_selection_available [OF c that] find_shift_SomeD [OF s(1)] by simp
  ultimately show ?thesis using rq n(2) o s by blast
qed

text \<open>Ann and Bob are asked for; the selection is changed to Cat and Bob.\<close>

definition ask_for :: "string \<Rightarrow> request_row" where
  "ask_for i = \<lparr>rq_shift = ''s'', rq_staff = i, rq_workspace = Some ''ws'', rq_starts_at = Some 36000000, rq_ends_at = Some 50400000,
     rq_break_minutes = None\<rparr>"

definition asked :: db where
  "asked = (planned PENDING_MANAGER_APPROVAL V_ACTIVE)\<lparr>request_staff := [ask_for ''ann'', ask_for ''bob'']\<rparr>"

lemma asked_ok: "db_ok asked"
  using dbok_untouched [OF planned_ok, of PENDING_MANAGER_APPROVAL V_ACTIVE asked] by (simp add: asked_def)

theorem set_selection_exact_witness:
  "\<exists>d'. setRequestedStaff True sample_ctx ''s'' [''cat'', ''bob''] [''ann'', ''bob''] asked = Inr d'
    \<and> rq_staff ` set (requests_of ''s'' d') = {''cat'', ''bob''}"
proof -
  have "won (setRequestedStaff True sample_ctx ''s'' [''cat'', ''bob''] [''ann'', ''bob''] asked)" by code_simp
  then obtain d' where d': "setRequestedStaff True sample_ctx ''s'' [''cat'', ''bob''] [''ann'', ''bob''] asked = Inr d'"
    by (cases "setRequestedStaff True sample_ctx ''s'' [''cat'', ''bob''] [''ann'', ''bob''] asked") auto
  then show ?thesis using set_selection_exact [OF d', where other = "''s''"] by simp
qed

section \<open>Approving a request\<close>

text \<open>The send loop leaves one result for every selected staff member, in order, and one offered seat for every success.\<close>

definition sent_pair :: "string \<Rightarrow> assignment_row \<Rightarrow> offer_row \<Rightarrow> bool" where
  "sent_pair sid a r \<longleftrightarrow> sa_shift a = sid \<and> sa_status a = A_OFFERED \<and> jo_assignment r = sa_id a \<and> jo_staff r = sa_staff a \<and> jo_status r = PENDING"

definition successes :: "recipient_result list \<Rightarrow> recipient_result list" where
  "successes results = filter (\<lambda>r. case snd r of Inr _ \<Rightarrow> True | Inl _ \<Rightarrow> False) results"

lemma send_loop_leaves:
  "send_loop env ctx clk s proposed uuid pre is d results = (d', out)
    \<Longrightarrow> \<exists>seats rs more. out = results @ more \<and> map fst more = is \<and> assignments d' = assignments d @ seats \<and> offers d' = offers d @ rs
        \<and> list_all2 (sent_pair (sh_id s)) seats rs \<and> successes more = map (\<lambda>r. (jo_staff r, Inr (jo_id r))) rs"
proof (induction "is" arbitrary: d results)
  case Nil
  then show ?case by (auto simp: successes_def)
next
  case (Cons i "is")
  show ?case
  proof (cases "bindE (pre i d) (\<lambda>_. sendOne env ctx clk s i (proposed i) (uuid i) d)")
    case (Inl e)
    then have "send_loop env ctx clk s proposed uuid pre is d (results @ [(i, Inl (error_message e))]) = (d', out)" using Cons.prems by simp
    then obtain seats rs more where "out = results @ (i, Inl (error_message e)) # more" "map fst more = is" "assignments d' = assignments d @ seats"
      "offers d' = offers d @ rs" "list_all2 (sent_pair (sh_id s)) seats rs" "successes more = map (\<lambda>r. (jo_staff r, Inr (jo_id r))) rs"
      using Cons.IH by fastforce
    then show ?thesis by (intro exI [of _ seats] exI [of _ rs] exI [of _ "(i, Inl (error_message e)) # more"]) (simp add: successes_def)
  next
    case (Inr q)
    obtain d1 r where q: "q = (d1, r)" by (cases q)
    have "sendOne env ctx clk s i (proposed i) (uuid i) d = Inr (d1, r)" using Inr q by (auto simp: bindE_Inr_iff)
    then obtain t a where t: "sends d s t a r d1" and a: "sa_staff a = i" by (rule sendOne_sends)
    have "send_loop env ctx clk s proposed uuid pre is d1 (results @ [(i, Inr (jo_id r))]) = (d', out)" using Cons.prems Inr q by simp
    then obtain seats rs more where "out = results @ (i, Inr (jo_id r)) # more" "map fst more = is" "assignments d' = assignments d1 @ seats"
      "offers d' = offers d1 @ rs" "list_all2 (sent_pair (sh_id s)) seats rs" "successes more = map (\<lambda>r. (jo_staff r, Inr (jo_id r))) rs"
      using Cons.IH by fastforce
    moreover have "sent_pair (sh_id s) a r" "assignments d1 = assignments d @ [a]" "offers d1 = offers d @ [r]" "jo_staff r = i"
      using t a by (simp_all add: sends_def sent_pair_def)
    ultimately show ?thesis
      by (intro exI [of _ "a # seats"] exI [of _ "r # rs"] exI [of _ "(i, Inr (jo_id r)) # more"]) (simp add: successes_def)
  qed
qed

lemma some_success: "require_some_sent results = Inr () \<Longrightarrow> successes results \<noteq> []"
  unfolding require_some_sent_def any_ok_def successes_def filter_empty_conv by (auto split: if_splits)

lemma updated_shift:
  assumes "update_shift i f d = Inr d'" and "find_shift i d = Some s" and "\<And>x. sh_id (f x) = sh_id x"
  shows "find_shift i d' = Some (f s)"
  using shift_table.find_update [of f i "\<lambda>s. sh_id s = i" "shifts d"] assms find_shift_SomeD [OF assms(2)]
  by (simp add: update_shift_Inr find_shift_def)

lemma sent_still_found: "row_of s d \<Longrightarrow> db_ok d \<Longrightarrow> \<exists>x. find_shift (sh_id s) d = Some x \<and> sh_status x = sh_status s"
  unfolding row_of_def using shift_table.find_keyed [of "shifts d"] by (force simp: find_shift_def db_ok_def keyed_db_def)

text \<open>
  C20. Approving a request offers the shift to its selection. When it commits, the request was pending, every selected staff
  member has exactly one result in the order of the selection, at least one is a success, exactly the successes gained an
  offered seat on the shift with a pending offer (every other seat and offer is unchanged), and the shift is offered in the
  name of the approver.
\<close>

theorem approval_offers_selection:
  assumes "db_ok d" and "approveShiftRequest senv ctx clk uuid sid d = Inr (d', results)"
  shows "map fst results = map rq_staff (requests_of sid d) \<and> successes results \<noteq> []
    \<and> (\<exists>seats rs. assignments d' = assignments d @ seats \<and> offers d' = offers d @ rs \<and> list_all2 (sent_pair sid) seats rs
         \<and> successes results = map (\<lambda>r. (jo_staff r, Inr (jo_id r))) rs)
    \<and> (\<exists>s s'. find_shift sid d = Some s \<and> sh_status s = PENDING_MANAGER_APPROVAL \<and> find_shift sid d' = Some s' \<and> sh_status s' = OFFERED
         \<and> sh_created_by s' = cx_user ctx \<and> sh_approved_by s' = Some (cx_user ctx) \<and> sh_approved_at s' = Some (node_now clk))"
  using assms(2)
proof (rule approve_shape)
  fix s proposed d1 d2 d3 es
  assume p: "pending_request (NotFound ''Shift not found.'') ctx sid d = Inr s"
    and l: "send_loop (senv\<lparr>se_kind := STANDARD\<rparr>) ctx clk s proposed uuid (\<lambda>_ _. Inr ()) (map rq_staff (requests_of sid d)) d [] = (d1, results)"
    and q: "require_some_sent results = Inr ()" and u: "update_shift sid (approved_shift ctx clk) d1 = Inr d2"
    and w: "update_shift sid (\<lambda>x. x\<lparr>sh_status := OFFERED\<rparr>) d2 = Inr d3" and d': "d' = emit es d3"
  note s = pending_requestD [OF p]
  have id: "sh_id s = sid" using s find_shift_SomeD by blast
  obtain seats rs where r: "map fst results = map rq_staff (requests_of sid d)" "assignments d1 = assignments d @ seats" "offers d1 = offers d @ rs"
      "list_all2 (sent_pair sid) seats rs" "successes results = map (\<lambda>r. (jo_staff r, Inr (jo_id r))) rs"
    using send_loop_leaves [OF l] unfolding id by auto
  have "db_ok d1 \<and> older d d1 \<and> row_of s d1"
    by (rule dbok_send_loop [OF assms(1) row_of_found [OF conjunct1 [OF s]] _ l]) (use s in simp)
  then obtain x where x: "find_shift sid d1 = Some x" using sent_still_found id by blast
  have y: "find_shift sid d3 = Some (approved_shift ctx clk x\<lparr>sh_status := OFFERED\<rparr>)"
    by (rule updated_shift [OF w updated_shift [OF u x]]) (simp_all add: approved_shift_def)
  have t: "assignments d' = assignments d1" "offers d' = offers d1" using u w by (simp_all add: update_shift_Inr d')
  have f: "find_shift sid d' = find_shift sid d3" by (simp add: d' find_shift_def)
  show ?thesis using r some_success [OF q] s y by (auto simp: t f approved_shift_def)
qed

theorem approval_offers_selection_witness:
  "\<exists>d' results. approveShiftRequest sample_env sample_ctx (sample_clock 0) (\<lambda>i. (''seat-'' @ i, ''offer-'' @ i)) ''s'' asked = Inr (d', results)
    \<and> map fst results = [''ann'', ''bob''] \<and> successes results \<noteq> []
    \<and> (\<exists>s'. find_shift ''s'' d' = Some s' \<and> sh_status s' = OFFERED \<and> sh_created_by s' = ''mgr'')"
proof -
  let ?run = "approveShiftRequest sample_env sample_ctx (sample_clock 0) (\<lambda>i. (''seat-'' @ i, ''offer-'' @ i)) ''s'' asked"
  have "won ?run" by code_simp
  then obtain results where r: "?run = Inr (after ?run, results)" using won_after [of ?run] by blast
  have e: "map rq_staff (requests_of ''s'' asked) = [''ann'', ''bob'']" "cx_user sample_ctx = ''mgr''" by code_simp+
  show ?thesis
    by (rule exI [of _ "after ?run"], rule exI [of _ results])
      (use r approval_offers_selection [OF asked_ok r] in \<open>unfold e, blast\<close>)
qed

section \<open>Editing a draft\<close>

lemma draft_edit_runs:
  assumes "shift_table.keyed (shifts d)" and "find_shift i d = Some x" and "find_shift i d0 = Some s" and "updateDraftTx may env ctx i dto d0 d = Inr (d', s')"
  shows "s' = draft_edit dto s x \<and> find_shift i d' = Some (draft_edit dto s x) \<and> shift_table.keyed (shifts d') \<and> sh_status x = DRAFT"
  using assms(4)
proof (rule updateDraftTx_shape)
  fix s0 d1 es
  assume g: "getOwnDraftTx env ctx i d0 = Inr s0" and f: "find_shift i d' = Some s'" and d': "d' = emit es d1"
    and c: "claim_shift i (\<lambda>s. sh_status s = DRAFT \<and> sh_archived_at s = None) (draft_edit dto s0) d = Inr (d1, True)"
  let ?f = "\<lambda>y. if sh_status y = DRAFT \<and> sh_archived_at y = None then draft_edit dto s0 y else y"
  have s0: "s0 = s" using g assms(3) by (auto simp: getOwnDraftTx_def bindE_Inr_iff from_option_Inr_iff require_Inr_iff)
  have u: "update_shift i ?f d = Inr d1" and x: "sh_status x = DRAFT \<and> sh_archived_at x = None"
    using c assms(2) by (auto simp: claim_shift_Inr)
  have "find_shift i d1 = Some (?f x)" by (rule updated_shift [OF u assms(2)]) simp
  moreover have "shift_table.keyed (shifts d1)" using u assms(1) by (auto simp: update_shift_Inr intro!: shift_table.keyed_update)
  moreover have "find_shift i d' = find_shift i d1" by (simp add: d' find_shift_def)
  ultimately show ?thesis using f x by (simp add: s0 d')
qed

text \<open>
  C21. Two edits of a draft from the same read do not add up. An edit writes all five schedule columns, the ones its request
  leaves out from the row it read, so when both commit the draft is what the second edit alone would have made of the original
  row: what only the first one changed is lost, without an error. Every other column is kept, the pay rate and the status
  included.
\<close>

theorem stale_edit_overwrites:
  assumes "db_ok d" and "find_shift i d = Some s" and "updateDraftTx may env ctx i dto1 d d = Inr (d1, s1)"
    and "updateDraftTx may' env' ctx' i dto2 d d1 = Inr (d2, s2)"
  shows "s1 = draft_edit dto1 s s \<and> find_shift i d1 = Some s1 \<and> s2 = draft_edit dto2 s s \<and> find_shift i d2 = Some s2
    \<and> sh_status s2 = DRAFT \<and> sh_pay_rate_pence s2 = sh_pay_rate_pence s \<and> sh_venue s2 = sh_venue s"
proof -
  have k: "shift_table.keyed (shifts d)" using assms(1) by (simp add: db_ok_def keyed_db_def)
  note 1 = draft_edit_runs [OF k assms(2,2,3)]
  then have f: "find_shift i d1 = Some (draft_edit dto1 s s)" and k1: "shift_table.keyed (shifts d1)" by blast+
  note 2 = draft_edit_runs [OF k1 f assms(2,4)]
  have "draft_edit dto2 s (draft_edit dto1 s s) = draft_edit dto2 s s" by (simp add: draft_edit_def)
  then show ?thesis using 1 2 by (simp add: draft_edit_def)
qed

definition no_edit :: update_draft_dto where
  "no_edit = \<lparr>ud_starts_at = None, ud_ends_at = None, ud_break_minutes = None, ud_required_count = None, ud_notes = None\<rparr>"

definition noted :: db where
  "noted = after (updateDraftTx True site_env sample_ctx ''s'' (no_edit\<lparr>ud_notes := Some (Some ''black shoes'')\<rparr>)
     (planned DRAFT V_ACTIVE) (planned DRAFT V_ACTIVE))"

theorem stale_edit_overwrites_witness:
  "\<exists>s1 d2 s2. updateDraftTx True site_env sample_ctx ''s'' (no_edit\<lparr>ud_notes := Some (Some ''black shoes'')\<rparr>)
        (planned DRAFT V_ACTIVE) (planned DRAFT V_ACTIVE) = Inr (noted, s1) \<and> sh_notes s1 = Some ''black shoes''
    \<and> updateDraftTx True site_env sample_ctx ''s'' (no_edit\<lparr>ud_required_count := Some 3\<rparr>) (planned DRAFT V_ACTIVE) noted = Inr (d2, s2)
    \<and> sh_required_count s2 = 3 \<and> sh_notes s2 = None"
proof -
  let ?d = "planned DRAFT V_ACTIVE" and ?e1 = "no_edit\<lparr>ud_notes := Some (Some ''black shoes'')\<rparr>" and ?e2 = "no_edit\<lparr>ud_required_count := Some 3\<rparr>"
  have "\<exists>s1. updateDraftTx True site_env sample_ctx ''s'' ?e1 ?d ?d = Inr (noted, s1)" unfolding noted_def by (rule won_after) code_simp
  then obtain s1 where 1: "updateDraftTx True site_env sample_ctx ''s'' ?e1 ?d ?d = Inr (noted, s1)" by blast
  have "won (updateDraftTx True site_env sample_ctx ''s'' ?e2 ?d noted)" by code_simp
  then obtain d2 s2 where 2: "updateDraftTx True site_env sample_ctx ''s'' ?e2 ?d noted = Inr (d2, s2)" by (metis won_after)
  have f: "find_shift ''s'' ?d = Some (sample_shift DRAFT 0)" by (simp add: find_shift_def planned_def sample_db_def sample_shift_def)
  note stale_edit_overwrites [OF planned_ok f 1 2]
  then show ?thesis using 1 2 by (auto simp: draft_edit_def no_edit_def sample_shift_def)
qed

section \<open>Archived venues\<close>

lemma accessible_found: "assertVenueAccessibleTx env ctx vid d = Inr v \<Longrightarrow> find_venue vid d = Some v"
  by (auto simp: assertVenueAccessibleTx_def bindE_Inr_iff from_option_Inr_iff)

lemma archived_refused: "ve_status v = V_ARCHIVED \<or> ve_archived_at v \<noteq> None \<Longrightarrow> assertVenueNotArchived v \<noteq> Inr x"
  by (auto simp: assertVenueNotArchived_def require_Inr_iff)

text \<open>
  Nothing is planned at an archived venue: no draft is created there, no venue manager's request is submitted for it, and
  no archived draft of it is restored, whoever asks and whatever the request says.
\<close>

theorem archived_venue_refuses_planning:
  assumes "find_venue vid d = Some v" and "ve_status v = V_ARCHIVED \<or> ve_archived_at v \<noteq> None"
  shows "(cd_venue cdto = vid \<longrightarrow> (\<exists>e. createDraftTx may env ctx i cdto d = Inl e))
    \<and> (sr_venue sdto = vid \<longrightarrow> (\<exists>e. submitRequest may env london ctx i sdto d = Inl e))
    \<and> (find_shift j d = Some s \<and> sh_venue s = vid \<longrightarrow> (\<exists>e. restoreShift may env ctx j d d' = Inl e))"
proof (intro conjI impI not_Inr notI)
  fix x
  assume "cd_venue cdto = vid" and "createDraftTx may env ctx i cdto d = Inr x"
  then obtain w where "resolveDraftTargetsTx env ctx vid (cd_job_role cdto) d = Inr w" by (auto simp: createDraftTx_def bindE_Inr_iff)
  then show False using accessible_found archived_refused [OF assms(2)] assms(1)
    by (fastforce simp: resolveDraftTargetsTx_def bindE_Inr_iff from_option_Inr_iff)
next
  fix x
  assume "sr_venue sdto = vid" and "submitRequest may env london ctx i sdto d = Inr x"
  then obtain w u where "assertVenueAccessibleTx env ctx vid d = Inr w" "assertVenueNotArchived w = Inr u"
    unfolding submitRequest_def bindE_Inr_iff by blast
  then show False using accessible_found archived_refused [OF assms(2)] assms(1) by fastforce
next
  fix x
  assume s: "find_shift j d = Some s \<and> sh_venue s = vid" and "restoreShift may env ctx j d d' = Inr x"
  then obtain u where "(case find_venue (sh_venue s) d of None \<Rightarrow> Inr () | Some v \<Rightarrow> assertVenueNotArchived v) = Inr u"
    unfolding restoreShift_def bindE_Inr_iff from_option_Inr_iff by auto
  then show False using archived_refused [OF assms(2)] assms(1) s by auto
qed

definition draft_request :: create_shift_dto where
  "draft_request = \<lparr>cd_venue = ''v'', cd_job_role = ''r'', cd_starts_at = 36000000, cd_ends_at = 50400000, cd_day = 20260105,
     cd_break_minutes = None, cd_required_count = 1, cd_pay_rate_pence = None, cd_charge_rate_pence = None, cd_notes = None\<rparr>"

theorem archived_venue_refuses_planning_witness:
  "(\<exists>e. createDraftTx True site_env sample_ctx ''n'' draft_request (planned DRAFT V_ARCHIVED) = Inl e)
    \<and> (\<exists>x. createDraftTx True site_env sample_ctx ''n'' draft_request (planned DRAFT V_ACTIVE) = Inr x)"
proof -
  have v: "find_venue ''v'' (planned DRAFT V_ARCHIVED) = Some (site V_ARCHIVED)" by (simp add: find_venue_def planned_def site_def)
  have "won (createDraftTx True site_env sample_ctx ''n'' draft_request (planned DRAFT V_ACTIVE))" by code_simp
  then have "\<exists>x. createDraftTx True site_env sample_ctx ''n'' draft_request (planned DRAFT V_ACTIVE) = Inr x" using won_after by blast
  then show ?thesis using archived_venue_refuses_planning [OF v, of draft_request True site_env sample_ctx "''n''"] by (simp add: site_def draft_request_def)
qed

text \<open>Creating a shift together with its offers has no such check: it commits at the archived venue.\<close>

definition send_request :: create_and_send_dto where
  "send_request = \<lparr>cs_venue = ''v'', cs_job_role = ''r'', cs_starts_at = 36000000, cs_ends_at = 50400000, cs_day = 20260105,
     cs_break_minutes = None, cs_required_count = None, cs_pay_rate_pence = None, cs_notes = None, cs_address = None, cs_staff_ids = [''ann'']\<rparr>"

lemma create_and_send_at_archived_venue:
  "won (createShiftAndSend site_env sample_env sample_ctx (sample_clock 0) ''n'' (\<lambda>i. (''seat-'' @ i, ''offer-'' @ i)) send_request
     (planned DRAFT V_ARCHIVED))"
  by code_simp

end
