(* ===== verification/Payroll.thy ===== *)
theory Payroll
  imports AttendanceCorrections
begin

text \<open>
  Payroll (\<open>payroll-allocation.ts\<close>, \<open>payroll-calendar.service.ts\<close>, \<open>payroll.service.ts\<close>, \<open>payroll-run.service.ts\<close>) and the
  finalisation of a shift report that feeds it (\<open>shift-report.service.ts\<close>): the agency calendar, one record per approved
  attendance, its approval, the run of a period with its immutable lines, payslips and their payment.

  The payroll tables of a workspace, with the calendar of its organisation, are the record \<open>pay_db\<close>; an operation also reads
  the staffing tables \<open>d\<close>. Reads are under row locks or an advisory lock, so there is one state. A calendar date is its day
  number (\<open>utc_days\<close>): the code compares the \<open>YYYY-MM-DD\<close> texts, whose order is that of the dates. The London date of an
  instant is the parameter \<open>london\<close>. The columns of the statement document that only the Worker writes are left out, as are
  the view an operation returns after its writes, the dates in the error texts of the calendar and the row-level security of
  the tables; the dates of an import are valid ones, as its DTO requires.
\<close>

section \<open>Tables\<close>

datatype run_status = PREPARED | FINALISED

datatype statement_status = ST_NONE | ST_PENDING | ST_GENERATED | ST_FAILED

record pay_row =
  pr_id :: string
  pr_attendance :: string
  pr_shift :: string
  pr_staff :: string
  pr_status :: payroll_record_status
  pr_minutes :: int
  pr_rate :: int
  pr_amount :: Pence
  pr_approved_at :: "int option"
  pr_approved_by :: "string option"
  pr_rejected_at :: "int option"
  pr_rejected_by :: "string option"
  pr_rejection_reason :: "string option"
  pr_statement :: statement_status
  pr_attempts :: int

record calendar_row =
  pc_id :: string
  pc_year :: int
  pc_version :: int
  pc_source :: string
  pc_active :: bool
  pc_notes :: "string option"
  pc_created_by :: string

record period_row =
  pp_id :: string
  pp_calendar :: string
  pp_start :: int
  pp_end :: int
  pp_payday :: int
  pp_note :: "string option"
  pp_needs_confirmation :: bool
  pp_active :: bool

record run_row =
  rn_id :: string
  rn_period :: string
  rn_status :: run_status
  rn_prepared_by :: string
  rn_finalised_at :: "int option"
  rn_finalised_by :: "string option"

record line_row =
  ln_run :: string
  ln_record :: string
  ln_staff :: string
  ln_work_date :: int
  ln_original :: "string option"
  ln_late :: bool
  ln_minutes :: int
  ln_rate :: int
  ln_amount :: Pence

record payslip_row =
  sl_id :: string
  sl_run :: string
  sl_staff :: string
  sl_version :: nat
  sl_net :: "int option"
  sl_net_by :: "string option"
  sl_net_at :: "int option"
  sl_paid_at :: "int option"
  sl_paid_by :: "string option"
  sl_reference :: "string option"

record document_row =
  pd_payslip :: string
  pd_version :: nat
  pd_sha :: string
  pd_by :: string

datatype pay_action = PAYROLL_CALENDAR_IMPORTED | PAYROLL_RUN_PREPARED | PAYROLL_LATE_CARRIED_FORWARD | PAYROLL_RUN_FINALISED
  | PAYROLL_RECORD_APPROVED | PAYROLL_RECORD_REJECTED | SHIFT_STATEMENT_RETRY_REQUESTED | PAYSLIP_UPLOADED | PAYSLIP_NET_RECORDED
  | PAYSLIP_MARKED_PAID

datatype pay_event =
    PayAudit pay_action string "string option"
  | PayNotify string string string
  | PayRealtime string string

record pay_db =
  pay_records :: "pay_row list"
  calendars :: "calendar_row list"
  periods :: "period_row list"
  runs :: "run_row list"
  lines :: "line_row list"
  payslips :: "payslip_row list"
  documents :: "document_row list"
  pay_events :: "pay_event list"

interpretation pay_table: keyed_table pr_id .
interpretation run_table: keyed_table rn_id .
interpretation slip_table: keyed_table sl_id .

definition find_record :: "string \<Rightarrow> pay_db \<Rightarrow> pay_row option" where
  "find_record i p = find (\<lambda>r. pr_id r = i) (pay_records p)"

definition find_run :: "string \<Rightarrow> pay_db \<Rightarrow> run_row option" where
  "find_run i p = find (\<lambda>r. rn_id r = i) (runs p)"

definition run_of_period :: "string \<Rightarrow> pay_db \<Rightarrow> run_row option" where
  "run_of_period i p = find (\<lambda>r. rn_period r = i) (runs p)"

definition find_period :: "string \<Rightarrow> pay_db \<Rightarrow> period_row option" where
  "find_period i p = find (\<lambda>q. pp_id q = i) (periods p)"

definition lined :: "string \<Rightarrow> pay_db \<Rightarrow> bool" where
  "lined i p \<longleftrightarrow> (\<exists>l \<in> set (lines p). ln_record l = i)"

definition lines_of_run :: "string \<Rightarrow> pay_db \<Rightarrow> line_row list" where
  "lines_of_run i p = filter (\<lambda>l. ln_run l = i) (lines p)"

definition pay_emit :: "pay_event list \<Rightarrow> pay_db \<Rightarrow> pay_db" where
  "pay_emit es p = p\<lparr>pay_events := pay_events p @ es\<rparr>"

text \<open>The CHECK constraints of \<open>payroll_record\<close>, and its update with the trigger \<open>core.payroll_record_guard\<close>.\<close>

definition record_checks :: "pay_row \<Rightarrow> bool" where
  "record_checks r \<longleftrightarrow> 0 \<le> pr_minutes r \<and> 0 \<le> pr_rate r \<and> 0 \<le> pr_amount r
     \<and> (pr_approved_at r = None) = (pr_approved_by r = None) \<and> (pr_rejected_at r = None) = (pr_rejected_by r = None)
     \<and> (pr_status r \<notin> {PR_APPROVED, PR_PROCESSING, PR_PAID} \<or> pr_approved_at r \<noteq> None)
     \<and> (pr_status r \<noteq> PR_REJECTED \<or> pr_rejected_at r \<noteq> None \<and> pr_rejection_reason r \<noteq> None)
     \<and> (case pr_rejection_reason r of None \<Rightarrow> True | Some t \<Rightarrow> 3 \<le> length (js_trim t) \<and> length (js_trim t) \<le> 500)
     \<and> (pr_statement r = ST_NONE \<or> pr_status r \<in> {PR_APPROVED, PR_PROCESSING, PR_PAID, PR_CORRECTED}) \<and> 0 \<le> pr_attempts r"

definition record_edges :: "(payroll_record_status \<times> payroll_record_status) list" where
  "record_edges =
     [(PR_DRAFT, PR_PENDING_APPROVAL), (PR_PENDING_APPROVAL, PR_APPROVED), (PR_PENDING_APPROVAL, PR_REJECTED),
      (PR_APPROVED, PR_PROCESSING), (PR_PROCESSING, PR_PAID), (PR_PROCESSING, PR_CORRECTED), (PR_PAID, PR_CORRECTED),
      (PR_REJECTED, PR_DRAFT)]"

text \<open>The trigger for a session of the API: a status moves along an edge, the statement is requested or retried, never completed.\<close>

definition payroll_record_guard :: "pay_row \<Rightarrow> pay_row \<Rightarrow> bool" where
  "payroll_record_guard old new \<longleftrightarrow>
     (let retry = pr_statement old = ST_FAILED \<and> pr_statement new = ST_PENDING in
      (pr_status new = pr_status old \<or> (pr_status old, pr_status new) \<in> set record_edges)
      \<and> (pr_statement new = pr_statement old \<or> pr_statement old = ST_NONE \<and> pr_statement new = ST_PENDING \<or> retry)
      \<and> (pr_attempts new = pr_attempts old \<or> retry \<and> pr_attempts new = 0))"

definition update_records :: "(pay_row \<Rightarrow> bool) \<Rightarrow> (pay_row \<Rightarrow> pay_row) \<Rightarrow> pay_db \<Rightarrow> pay_db res" where
  "update_records P f p =
     (let t = update_where P f (pay_records p) in
      if (\<exists>r \<in> set (pay_records p). P r \<and> \<not> payroll_record_guard r (f r)) then Inl CHECK_VIOLATION
      else if \<not> list_all record_checks t then Inl CHECK_VIOLATION
      else Inr (p\<lparr>pay_records := t\<rparr>))"

text \<open>The Worker's session may write the statement of a decided record (\<open>payroll_record_worker_update\<close>), never its status.\<close>

definition worker_statement :: "string \<Rightarrow> statement_status \<Rightarrow> int \<Rightarrow> pay_db \<Rightarrow> pay_db res" where
  "worker_statement i st n p =
     (let t = update_where (\<lambda>r. pr_id r = i \<and> pr_status r \<in> {PR_APPROVED, PR_PROCESSING, PR_PAID})
                (\<lambda>r. r\<lparr>pr_statement := st, pr_attempts := n\<rparr>) (pay_records p)
      in if \<not> list_all record_checks t then Inl CHECK_VIOLATION else Inr (p\<lparr>pay_records := t\<rparr>))"

abbreviation "assertRecord \<equiv> assertTransition payroll_record_status_str PAYROLL_RECORD_TRANSITIONS"

section \<open>Access\<close>

text \<open>\<open>assertFlag\<close> and \<open>assertPayrollAccess\<close>: the workspace is bound, the flag is granted, and a venue manager is refused.\<close>

definition pay_access :: "bool \<Rightarrow> att_env \<Rightarrow> auth_ctx \<Rightarrow> db \<Rightarrow> unit res" where
  "pay_access may env ctx d =
     bindE (require (cx_workspace ctx \<noteq> None)
        (Forbidden ''Complete your Workspace setup before creating this - your account has no private Workspace yet.'')) (\<lambda>_.
     bindE (require may (Forbidden ''Permission required.'')) (\<lambda>_.
     require (case resolveTx env ctx d of VenueScope _ \<Rightarrow> False | OwnerScope _ _ \<Rightarrow> True) (Forbidden ''Permission required.'')))"

section \<open>Allocation to a period (payroll-allocation.ts)\<close>

datatype allocation_status = ALLOCATED | CARRIED_FORWARD | UNALLOCATED

record allocation =
  al_status :: allocation_status
  al_period :: "period_row option"
  al_original :: "period_row option"
  al_work_date :: int
  al_run :: "string option"
  al_run_status :: "run_status option"

definition payrollDate :: "(int \<Rightarrow> int \<times> int \<times> int) \<Rightarrow> int \<Rightarrow> int" where
  "payrollDate london t = utc_days (london t)"

definition periodForDate :: "period_row list \<Rightarrow> int \<Rightarrow> period_row option" where
  "periodForDate ps date = find (\<lambda>q. pp_start q \<le> date \<and> date \<le> pp_end q) ps"

definition activePeriods :: "pay_db \<Rightarrow> period_row list" where
  "activePeriods p = sort_key pp_start (filter pp_active (periods p))"

text \<open>The line of a record with its run, as the query joins them.\<close>

definition line_of :: "string \<Rightarrow> pay_db \<Rightarrow> (line_row \<times> run_row) option" where
  "line_of i p = (case find (\<lambda>l. ln_record l = i) (lines p) of None \<Rightarrow> None
     | Some l \<Rightarrow> (case find_run (ln_run l) p of None \<Rightarrow> None | Some r \<Rightarrow> Some (l, r)))"

definition finalised_period :: "pay_db \<Rightarrow> period_row \<Rightarrow> bool" where
  "finalised_period p q \<longleftrightarrow> map_option rn_status (run_of_period (pp_id q) p) = Some FINALISED"

definition allocation_in :: "allocation_status \<Rightarrow> period_row \<Rightarrow> period_row option \<Rightarrow> int \<Rightarrow> pay_db \<Rightarrow> allocation" where
  "allocation_in st q orig date p = \<lparr>al_status = st, al_period = Some q, al_original = orig, al_work_date = date,
     al_run = map_option rn_id (run_of_period (pp_id q) p), al_run_status = map_option rn_status (run_of_period (pp_id q) p)\<rparr>"

definition not_allocated :: "period_row option \<Rightarrow> int \<Rightarrow> allocation" where
  "not_allocated orig date = \<lparr>al_status = UNALLOCATED, al_period = None, al_original = orig, al_work_date = date, al_run = None, al_run_status = None\<rparr>"

text \<open>One record of \<open>allocateRecords\<close>: its line decides; else its own period unless that is finalised; else the next one that is not.\<close>

definition allocate :: "pay_db \<Rightarrow> string \<Rightarrow> int \<Rightarrow> allocation" where
  "allocate p i date =
     (case line_of i p of
        Some (l, r) \<Rightarrow> \<lparr>al_status = (if ln_late l then CARRIED_FORWARD else ALLOCATED), al_period = find_period (rn_period r) p,
          al_original = (if ln_late l then Option.bind (ln_original l) (\<lambda>o'. find_period o' p) else None),
          al_work_date = date, al_run = Some (rn_id r), al_run_status = Some (rn_status r)\<rparr>
      | None \<Rightarrow>
          (case periodForDate (activePeriods p) date of
             None \<Rightarrow> not_allocated None date
           | Some natural \<Rightarrow>
               if \<not> finalised_period p natural then allocation_in ALLOCATED natural None date p
               else (case find (\<lambda>q. pp_start q > pp_start natural \<and> \<not> finalised_period p q) (activePeriods p) of
                   Some q \<Rightarrow> allocation_in CARRIED_FORWARD q (Some natural) date p
                 | None \<Rightarrow> not_allocated (Some natural) date)))"

section \<open>The calendar (payroll-calendar.service.ts)\<close>

record period_dto =
  dp_start :: int
  dp_end :: int
  dp_payday :: int
  dp_note :: "string option"
  dp_needs_confirmation :: bool

datatype calendar_error = EndsBeforeStart int int | PaydayBeforeEnd int int int | StartTwice int

record calendar_report =
  cr_count :: nat
  cr_errors :: "calendar_error list"
  cr_overlaps :: "((int \<times> int) \<times> (int \<times> int)) list"
  cr_gaps :: "(int \<times> int \<times> int) list"
  cr_lengths :: "(int \<times> int \<times> int) list"

fun calendar_errors :: "int list \<Rightarrow> period_dto list \<Rightarrow> calendar_error list" where
  "calendar_errors seen [] = []"
| "calendar_errors seen (q # qs) =
     (if dp_end q < dp_start q then [EndsBeforeStart (dp_start q) (dp_end q)] else [])
     @ (if dp_payday q < dp_end q then [PaydayBeforeEnd (dp_payday q) (dp_start q) (dp_end q)] else [])
     @ (if dp_start q \<in> set seen then [StartTwice (dp_start q)] else []) @ calendar_errors (dp_start q # seen) qs"

text \<open>The pairs of consecutive periods.\<close>

definition consecutive :: "'a list \<Rightarrow> ('a \<times> 'a) list" where
  "consecutive xs = zip xs (tl xs)"

definition validateCalendarPeriods :: "period_dto list \<Rightarrow> calendar_report" where
  "validateCalendarPeriods ps =
     (let sorted = sort_key dp_start ps in
      \<lparr>cr_count = length sorted, cr_errors = calendar_errors [] sorted,
       cr_overlaps = map (\<lambda>(a, b). ((dp_start a, dp_end a), (dp_start b, dp_end b)))
         (filter (\<lambda>(a, b). dp_start b \<le> dp_end a) (consecutive sorted)),
       cr_gaps = map (\<lambda>(a, b). (dp_end a, dp_start b, dp_start b - dp_end a - 1))
         (filter (\<lambda>(a, b). \<not> dp_start b \<le> dp_end a \<and> dp_start b - dp_end a > 1) (consecutive sorted)),
       cr_lengths = map (\<lambda>q. (dp_start q, dp_end q, dp_end q - dp_start q + 1)) (filter (\<lambda>q. dp_end q - dp_start q + 1 \<noteq> 14) sorted)\<rparr>)"

fun calendar_error_text :: "calendar_error \<Rightarrow> string" where
  "calendar_error_text (EndsBeforeStart s e) = ''Period ends before it starts.''"
| "calendar_error_text (PaydayBeforeEnd y s e) = ''Payday is before the end of period.''"
| "calendar_error_text (StartTwice s) = ''Period start appears twice.''"

definition period_overlaps :: "period_row \<Rightarrow> period_row \<Rightarrow> bool" where
  "period_overlaps a b \<longleftrightarrow> pp_start a \<le> pp_end b \<and> pp_start b \<le> pp_end a"

definition insert_period :: "period_row \<Rightarrow> pay_db \<Rightarrow> pay_db res" where
  "insert_period q p =
     (if \<not> (pp_start q \<le> pp_end q \<and> pp_end q \<le> pp_payday q \<and> (case pp_note q of None \<Rightarrow> True | Some t \<Rightarrow> length t \<le> 500))
      then Inl CHECK_VIOLATION
      else if (\<exists>x \<in> set (periods p). pp_id x = pp_id q \<or> pp_calendar x = pp_calendar q \<and> pp_start x = pp_start q) then Inl UNIQUE_VIOLATION
      else if pp_active q \<and> (\<exists>x \<in> set (periods p). pp_active x \<and> period_overlaps x q) then Inl EXCLUSION_VIOLATION
      else Inr (p\<lparr>periods := periods p @ [q]\<rparr>))"

text \<open>\<open>x?.trim() || null\<close>.\<close>

definition text_or_null :: "string option \<Rightarrow> string option" where
  "text_or_null x = (case x of None \<Rightarrow> None | Some t \<Rightarrow> if js_trim t = [] then None else Some (js_trim t))"

definition period_of_dto :: "string \<Rightarrow> (int \<Rightarrow> string) \<Rightarrow> period_dto \<Rightarrow> period_row" where
  "period_of_dto cal uuid q = \<lparr>pp_id = uuid (dp_start q), pp_calendar = cal, pp_start = dp_start q, pp_end = dp_end q,
     pp_payday = dp_payday q, pp_note = text_or_null (dp_note q), pp_needs_confirmation = dp_needs_confirmation q, pp_active = True\<rparr>"

fun insert_periods :: "period_row list \<Rightarrow> pay_db \<Rightarrow> pay_db res" where
  "insert_periods [] p = Inr p"
| "insert_periods (q # qs) p = bindE (insert_period q p) (insert_periods qs)"

record import_dto =
  im_year :: int
  im_source :: string
  im_notes :: "string option"
  im_dry_run :: bool
  im_periods :: "period_dto list"

text \<open>The previous active version of the year is switched off, with its periods; it is never edited otherwise.\<close>

definition deactivate_year :: "int \<Rightarrow> pay_db \<Rightarrow> pay_db" where
  "deactivate_year y p =
     (case find (\<lambda>c. pc_year c = y \<and> pc_active c) (calendars p) of
        None \<Rightarrow> p
      | Some c \<Rightarrow> p\<lparr>periods := update_where (\<lambda>q. pp_calendar q = pc_id c) (\<lambda>q. q\<lparr>pp_active := False\<rparr>) (periods p),
          calendars := update_where (\<lambda>x. pc_id x = pc_id c) (\<lambda>x. x\<lparr>pc_active := False\<rparr>) (calendars p)\<rparr>)"

definition next_version :: "int \<Rightarrow> pay_db \<Rightarrow> int" where
  "next_version y p = foldr max (map pc_version (filter (\<lambda>c. pc_year c = y) (calendars p))) 0 + 1"

text \<open>A version of a year and one active version of a year are unique; the texts arrive trimmed.\<close>

definition insert_calendar :: "calendar_row \<Rightarrow> pay_db \<Rightarrow> pay_db res" where
  "insert_calendar c p =
     (if \<not> (2000 \<le> pc_year c \<and> pc_year c \<le> 2100 \<and> 1 \<le> pc_version c \<and> 1 \<le> length (pc_source c) \<and> length (pc_source c) \<le> 200
            \<and> (case pc_notes c of None \<Rightarrow> True | Some t \<Rightarrow> length t \<le> 2000)) then Inl CHECK_VIOLATION
      else if (\<exists>x \<in> set (calendars p). pc_id x = pc_id c
                 \<or> pc_year x = pc_year c \<and> (pc_version x = pc_version c \<or> pc_active x \<and> pc_active c)) then Inl UNIQUE_VIOLATION
      else Inr (p\<lparr>calendars := calendars p @ [c]\<rparr>))"

definition import_calendar ::
  "bool \<Rightarrow> bool \<Rightarrow> att_env \<Rightarrow> auth_ctx \<Rightarrow> import_dto \<Rightarrow> string \<Rightarrow> (int \<Rightarrow> string) \<Rightarrow> db \<Rightarrow> pay_db \<Rightarrow> (pay_db \<times> bool \<times> calendar_report) res" where
  "import_calendar may initial env ctx dto cal uuid d p =
     (let report = validateCalendarPeriods (im_periods dto) in
      bindE (require may (Forbidden ''Permission required.'')) (\<lambda>_.
      bindE (require (case resolveTx env ctx d of VenueScope _ \<Rightarrow> False | OwnerScope _ _ \<Rightarrow> True) (Forbidden ''Permission required.'')) (\<lambda>_.
      bindE (require initial (Forbidden ''Only the Initial Manager can import or replace the payment calendar.'')) (\<lambda>_.
      bindE (case cr_errors report of [] \<Rightarrow> Inr () | e # _ \<Rightarrow> Inl (BadRequest (calendar_error_text e))) (\<lambda>_.
      bindE (require (cr_overlaps report = []) (Conflict ''Calendar periods overlap; nothing was imported.'')) (\<lambda>_.
      if im_dry_run dto then Inr (p, False, report)
      else
        let p1 = deactivate_year (im_year dto) p;
            c = \<lparr>pc_id = cal, pc_year = im_year dto, pc_version = next_version (im_year dto) p1, pc_source = js_trim (im_source dto),
                 pc_active = True, pc_notes = text_or_null (im_notes dto), pc_created_by = cx_user ctx\<rparr>
        in bindE (insert_calendar c p1) (\<lambda>p1'.
           bindE (case insert_periods (map (period_of_dto cal uuid) (sort_key dp_start (im_periods dto))) p1' of
             Inl e \<Rightarrow> Inl (if e = EXCLUSION_VIOLATION
               then Conflict ''These periods overlap another active payroll calendar of this organisation; nothing was imported.'' else e)
           | Inr p2 \<Rightarrow> Inr p2) (\<lambda>p2.
           Inr (pay_emit [PayAudit PAYROLL_CALENDAR_IMPORTED cal (audit_actor ctx)] p2, True, report)))))))))"

section \<open>Records and their approval (payroll.service.ts)\<close>

text \<open>\<open>INSERT ... ON CONFLICT DO NOTHING\<close>: the unique keys are the id and the attendance.\<close>

definition insert_record :: "pay_row \<Rightarrow> pay_db \<Rightarrow> pay_db res" where
  "insert_record r p =
     (if \<not> record_checks r then Inl CHECK_VIOLATION
      else if (\<exists>x \<in> set (pay_records p). pr_id x = pr_id r \<or> pr_attendance x = pr_attendance r) then Inr p
      else Inr (p\<lparr>pay_records := pay_records p @ [r]\<rparr>))"

definition pending_record :: "string \<Rightarrow> attendance_row \<Rightarrow> int \<Rightarrow> int \<Rightarrow> Pence \<Rightarrow> pay_row" where
  "pending_record i t minutes rate amount = \<lparr>pr_id = i, pr_attendance = at_id t, pr_shift = at_shift t, pr_staff = at_staff t,
     pr_status = PR_PENDING_APPROVAL, pr_minutes = minutes, pr_rate = rate, pr_amount = amount, pr_approved_at = None, pr_approved_by = None,
     pr_rejected_at = None, pr_rejected_by = None, pr_rejection_reason = None, pr_statement = ST_NONE, pr_attempts = 0\<rparr>"

text \<open>The gross of one approved attendance, derived again from the rate of its seat and refused when the stored pay differs.\<close>

definition verified_pay :: "attendance_row \<Rightarrow> assignment_row \<Rightarrow> (int \<times> Pence) res" where
  "verified_pay t a =
     (case (at_worked_minutes t, at_earned_pence t) of
        (Some minutes, Some earned) \<Rightarrow>
          bindE (assertSafePence (of_int (sa_pay_snapshot a)) ''shift_assignment.pay_rate_snapshot_pence'') (\<lambda>rate.
          bindE (payForMinutes rate (of_int minutes)) (\<lambda>amount.
          bindE (assertSafePence earned ''attendance.earned_pence'') (\<lambda>stored.
          bindE (require (amount = stored)
             (Conflict ''The recorded pay for a staff member does not match their rate and hours, so payroll cannot be prepared. Contact support.'')) (\<lambda>_.
          Inr (minutes, amount)))))
      | _ \<Rightarrow> Inl (Conflict ''An approved attendance has no recorded hours or pay, so payroll cannot be prepared. Contact support.''))"

fun add_records :: "(string \<Rightarrow> string) \<Rightarrow> (attendance_row \<times> assignment_row) list \<Rightarrow> pay_db \<Rightarrow> pay_db res" where
  "add_records uuid [] p = Inr p"
| "add_records uuid ((t, a) # rest) p =
     bindE (verified_pay t a) (\<lambda>(minutes, amount).
     bindE (insert_record (pending_record (uuid (at_id t)) t minutes (sa_pay_snapshot a) amount) p) (add_records uuid rest))"

text \<open>The approved attendances of a shift with their seats, as the query joins and orders them.\<close>

definition approved_of_shift :: "auth_ctx \<Rightarrow> string \<Rightarrow> db \<Rightarrow> (attendance_row \<times> assignment_row) list" where
  "approved_of_shift ctx sid d =
     concat (map (\<lambda>t. case find_assignment (at_assignment t) d of None \<Rightarrow> [] | Some a \<Rightarrow> [(t, a)])
       (sort_key at_id (filter (\<lambda>t. at_shift t = sid \<and> at_org t = cx_org ctx \<and> at_status t = AT_APPROVED) (attendances d))))"

definition createPendingForShift :: "auth_ctx \<Rightarrow> string \<Rightarrow> (string \<Rightarrow> string) \<Rightarrow> db \<Rightarrow> pay_db \<Rightarrow> (pay_db \<times> nat) res" where
  "createPendingForShift ctx sid uuid d p =
     (let rows = approved_of_shift ctx sid d in
      bindE (add_records uuid rows p) (\<lambda>p1.
      Inr (if rows = [] then p1 else pay_emit [PayRealtime ''payroll.record_changed'' sid] p1, length rows)))"

text \<open>\<open>lockRecords\<close>: the records among \<open>ids\<close> with the user whose hours they are, in id order.\<close>

definition lockRecords :: "string list \<Rightarrow> db \<Rightarrow> pay_db \<Rightarrow> (pay_row \<times> string) list" where
  "lockRecords ids d p =
     concat (map (\<lambda>r. case find_staff (pr_staff r) d of None \<Rightarrow> [] | Some sp \<Rightarrow> [(r, sp_user sp)])
       (sort_key pr_id (filter (\<lambda>r. pr_id r \<in> set ids) (pay_records p))))"

definition approve_row :: "auth_ctx \<Rightarrow> clock \<Rightarrow> pay_row \<Rightarrow> pay_row" where
  "approve_row ctx clk r = r\<lparr>pr_status := PR_APPROVED, pr_approved_at := Some (tx_now clk), pr_approved_by := Some (cx_user ctx),
     pr_statement := ST_PENDING\<rparr>"

definition applyApproval :: "auth_ctx \<Rightarrow> clock \<Rightarrow> string list \<Rightarrow> pay_db \<Rightarrow> pay_db res" where
  "applyApproval ctx clk ids p =
     (let P = (\<lambda>r. pr_id r \<in> set ids \<and> pr_status r = PR_PENDING_APPROVAL) in
      bindE (update_records P (approve_row ctx clk) p) (\<lambda>p1.
      bindE (require (count_where P (pay_records p) = length ids)
        (Conflict ''Payroll changed while you were approving it. Refresh and try again.'')) (\<lambda>_.
      Inr (pay_emit (concat (map (\<lambda>i. [PayAudit PAYROLL_RECORD_APPROVED i (audit_actor ctx), PayRealtime ''payroll.record_changed'' i]) ids)) p1))))"

definition OWN_HOURS_MESSAGE :: string where "OWN_HOURS_MESSAGE = ''You cannot approve payroll for your own hours.''"

definition approve :: "bool \<Rightarrow> att_env \<Rightarrow> auth_ctx \<Rightarrow> clock \<Rightarrow> string \<Rightarrow> db \<Rightarrow> pay_db \<Rightarrow> pay_db res" where
  "approve may env ctx clk i d p =
     bindE (pay_access may env ctx d) (\<lambda>_.
     bindE (case lockRecords [i] d p of [] \<Rightarrow> Inl (NotFound ''Payroll record not found.'') | x # _ \<Rightarrow> Inr x) (\<lambda>(r, user).
     bindE (assertRecord (pr_status r) PR_APPROVED) (\<lambda>_.
     bindE (require (user \<noteq> cx_user ctx) (Forbidden OWN_HOURS_MESSAGE)) (\<lambda>_.
     applyApproval ctx clk [pr_id r] p))))"

datatype block_reason = BR_NOT_FOUND | BR_NOT_READY | BR_OWN_HOURS

text \<open>The verdict of a bulk approval on one id.\<close>

definition judge :: "auth_ctx \<Rightarrow> (pay_row \<times> string) list \<Rightarrow> string \<Rightarrow> block_reason option" where
  "judge ctx found i =
     (case find (\<lambda>x. pr_id (fst x) = i) found of
        None \<Rightarrow> Some BR_NOT_FOUND
      | Some (r, user) \<Rightarrow>
          if PR_APPROVED \<notin> set (case PAYROLL_RECORD_TRANSITIONS (pr_status r) of None \<Rightarrow> [] | Some ts \<Rightarrow> ts) then Some BR_NOT_READY
          else if user = cx_user ctx then Some BR_OWN_HOURS else None)"

definition bulkApprove ::
  "bool \<Rightarrow> att_env \<Rightarrow> auth_ctx \<Rightarrow> clock \<Rightarrow> string list \<Rightarrow> db \<Rightarrow> pay_db \<Rightarrow> (pay_db \<times> string list \<times> (string \<times> block_reason) list) res" where
  "bulkApprove may env ctx clk ids d p =
     bindE (pay_access may env ctx d) (\<lambda>_.
     let found = lockRecords ids d p;
         eligible = filter (\<lambda>i. judge ctx found i = None) ids;
         blocked = concat (map (\<lambda>i. case judge ctx found i of None \<Rightarrow> [] | Some b \<Rightarrow> [(i, b)]) ids)
     in bindE (if eligible = [] then Inr p else applyApproval ctx clk eligible p) (\<lambda>p1. Inr (p1, eligible, blocked)))"

definition retryStatement :: "bool \<Rightarrow> att_env \<Rightarrow> auth_ctx \<Rightarrow> string \<Rightarrow> db \<Rightarrow> pay_db \<Rightarrow> pay_db res" where
  "retryStatement may env ctx i d p =
     bindE (pay_access may env ctx d) (\<lambda>_.
     bindE (from_option (NotFound ''Payroll record not found.'') (find_record i p)) (\<lambda>r.
     bindE (require (pr_statement r = ST_FAILED) (Conflict ''Only a failed Approved Shift Statement can be retried.'')) (\<lambda>_.
     bindE (update_records (\<lambda>x. pr_id x = i \<and> pr_statement x = ST_FAILED) (\<lambda>x. x\<lparr>pr_statement := ST_PENDING, pr_attempts := 0\<rparr>) p) (\<lambda>p1.
     Inr (pay_emit [PayAudit SHIFT_STATEMENT_RETRY_REQUESTED i (audit_actor ctx)] p1)))))"

definition reject :: "bool \<Rightarrow> att_env \<Rightarrow> auth_ctx \<Rightarrow> clock \<Rightarrow> string \<Rightarrow> string \<Rightarrow> db \<Rightarrow> pay_db \<Rightarrow> pay_db res" where
  "reject may env ctx clk i reason d p =
     bindE (pay_access may env ctx d) (\<lambda>_.
     bindE (case lockRecords [i] d p of [] \<Rightarrow> Inl (NotFound ''Payroll record not found.'') | x # _ \<Rightarrow> Inr x) (\<lambda>(r, _).
     bindE (assertRecord (pr_status r) PR_REJECTED) (\<lambda>_.
     let P = (\<lambda>x. pr_id x = i \<and> pr_status x = PR_PENDING_APPROVAL) in
     bindE (update_records P (\<lambda>x. x\<lparr>pr_status := PR_REJECTED, pr_rejected_at := Some (tx_now clk), pr_rejected_by := Some (cx_user ctx),
              pr_rejection_reason := Some (js_trim reason)\<rparr>) p) (\<lambda>p1.
     bindE (require (count_where P (pay_records p) = 1) (Conflict ''Payroll changed while you were rejecting it. Refresh and try again.'')) (\<lambda>_.
     Inr (pay_emit [PayAudit PAYROLL_RECORD_REJECTED i (audit_actor ctx), PayRealtime ''payroll.record_changed'' i] p1))))))"

section \<open>The finalisation of a shift report (shift-report.service.ts, report-readiness.ts)\<close>

definition isReportReady :: "(assignment_status \<times> int option \<times> attendance_status option) list \<Rightarrow> bool" where
  "isReportReady rows \<longleftrightarrow> rows \<noteq> [] \<and> list_all (\<lambda>(seat, out, att).
     att \<noteq> Some CLOCKED_IN \<and> att \<noteq> Some ON_BREAK \<and> (seat = A_NO_SHOW \<or> out \<noteq> None)) rows"

text \<open>The update of every attendance that is not approved yet.\<close>

fun approve_attendances :: "attendance_row list \<Rightarrow> db \<Rightarrow> db res" where
  "approve_attendances [] d = Inr d"
| "approve_attendances (t # ts) d =
     (if at_status t = AT_APPROVED then approve_attendances ts d
      else
        bindE (assertAttendance (at_status t) AT_APPROVED) (\<lambda>_.
        bindE (update_attendance (\<lambda>x. at_id x = at_id t) (\<lambda>x. x\<lparr>at_status := AT_APPROVED\<rparr>) d) (approve_attendances ts)))"

text \<open>The report row is created or updated; a typed sign-off is stored with it.\<close>

definition save_report :: "auth_ctx \<Rightarrow> clock \<Rightarrow> string \<Rightarrow> string option \<Rightarrow> db \<Rightarrow> db" where
  "save_report ctx clk sid name d =
     (let stamp = (\<lambda>r. r\<lparr>rp_status := ''finalised'', rp_finalised_at := Some (node_now clk), rp_finalised_by := Some (cx_user ctx),
                    rp_signed_off := (if name = None then rp_signed_off r else name)\<rparr>) in
      if (\<exists>r \<in> set (reports d). rp_shift r = sid) then d\<lparr>reports := update_where (\<lambda>r. rp_shift r = sid) stamp (reports d)\<rparr>
      else d\<lparr>reports := reports d @ [stamp \<lparr>rp_shift = sid, rp_status = ''open'', rp_finalised_at = None, rp_finalised_by = None, rp_signed_off = None\<rparr>]\<rparr>)"

text \<open>
  \<open>sign\<close> is the typed sign-off: the name and the confirmation of the breaks, each possibly left out. \<open>d0\<close> is what
  was read before the advisory lock, \<open>d\<close> the state after it. The manager's writes take the same lock; a clock-in or
  clock-out of staff that commits between two statements of the finalisation is not modelled.
\<close>

definition finaliseReport ::
  "att_env \<Rightarrow> auth_ctx \<Rightarrow> clock \<Rightarrow> string \<Rightarrow> string option \<times> bool option \<Rightarrow> (string \<Rightarrow> string) \<Rightarrow> db \<Rightarrow> db \<Rightarrow> pay_db \<Rightarrow> (db \<times> pay_db) res" where
  "finaliseReport env ctx clk sid sign uuid d0 d p =
     (let name = map_option js_trim (fst sign) in
      bindE (require ((fst sign = None) = (snd sign = None)) (BadRequest ''Signing off needs both your full name and the break confirmation.'')) (\<lambda>_.
      bindE (require (case name of None \<Rightarrow> True | Some n \<Rightarrow> 2 \<le> length n) (BadRequest ''Enter your full name to sign off.'')) (\<lambda>_.
      bindE (from_option (NotFound ''Shift not found.'') (find_shift sid d0)) (\<lambda>s.
      bindE (assertShiftOwned env ctx s d0) (\<lambda>_.
      bindE (require (case find_shift sid d of None \<Rightarrow> False | Some s' \<Rightarrow> sh_starts_at s' \<le> tx_now clk)
        (Conflict ''This shift has not started yet, so its report cannot be finalised.'')) (\<lambda>_.
      let seats = filter (\<lambda>a. sa_shift a = sid \<and> sa_status a \<in> set SEAT_REPORT_STATUSES) (assignments d) in
      bindE (require (seats \<noteq> []) (Conflict ''This shift has no staff to finalise a report for.'')) (\<lambda>_.
      if (\<exists>r \<in> set (reports d). rp_shift r = sid \<and> rp_status r = ''finalised'') then Inr (d, p)
      else
        let atts = filter (\<lambda>t. at_assignment t \<in> sa_id ` set seats) (attendances d);
            att_of = (\<lambda>a. find (\<lambda>t. at_assignment t = sa_id a) atts)
        in bindE (require (isReportReady (map (\<lambda>a. (sa_status a, Option.bind (att_of a) at_clock_out_at, map_option at_status (att_of a))) seats))
             (Conflict ''Wait for every confirmed staff member to clock out or receive a no-show outcome.'')) (\<lambda>_.
           bindE (require (count_where (\<lambda>a. sa_reviewed_at a = None) seats = 0)
             (Conflict ''attendance reviews remaining. Review every staff member's attendance before finalising.'')) (\<lambda>_.
           bindE (require (\<not> (\<exists>t \<in> set atts. at_status t = CLOCKED_IN \<or> at_status t = ON_BREAK))
             (Conflict ''staff member(s) are still clocked in - finalise once everyone has clocked out.'')) (\<lambda>_.
           bindE (approve_attendances atts d) (\<lambda>d1.
           let d2 = save_report ctx clk sid name d1 in
           bindE (createPendingForShift ctx sid uuid d2 p) (\<lambda>(p1, _).
           Inr (emit [Audit ATTENDANCE_REPORT_FINALISED sid (audit_actor ctx)] d2, p1)))))))))))))"

section \<open>Runs and payslips (payroll-run.service.ts)\<close>

definition insert_run :: "run_row \<Rightarrow> pay_db \<Rightarrow> pay_db res" where
  "insert_run r p =
     (if (\<exists>x \<in> set (runs p). rn_id x = rn_id r \<or> rn_period x = rn_period r) then Inl UNIQUE_VIOLATION
      else Inr (p\<lparr>runs := runs p @ [r]\<rparr>))"

definition insert_line :: "line_row \<Rightarrow> pay_db \<Rightarrow> pay_db res" where
  "insert_line l p =
     (if \<not> (0 \<le> ln_minutes l \<and> 0 \<le> ln_rate l \<and> 0 \<le> ln_amount l \<and> (ln_late l \<longrightarrow> ln_original l \<noteq> None)) then Inl CHECK_VIOLATION
      else if lined (ln_record l) p then Inl UNIQUE_VIOLATION
      else Inr (p\<lparr>lines := lines p @ [l]\<rparr>))"

text \<open>The scheduled start of a record's work, as the queries join it.\<close>

definition record_start :: "pay_row \<Rightarrow> db \<Rightarrow> int option" where
  "record_start r d =
     (case find_attendance (pr_attendance r) d of None \<Rightarrow> None
      | Some t \<Rightarrow> (case find_assignment (at_assignment t) d of None \<Rightarrow> None
          | Some a \<Rightarrow> map_option (\<lambda>s. startsAt (assignmentTimeSql (sa_period a) (shift_window s))) (find_shift (pr_shift r) d)))"

text \<open>The approved records that are in no run yet, in id order, each with its allocation.\<close>

definition candidates :: "(int \<Rightarrow> int \<times> int \<times> int) \<Rightarrow> db \<Rightarrow> pay_db \<Rightarrow> (pay_row \<times> allocation) list" where
  "candidates london d p =
     concat (map (\<lambda>r. case record_start r d of None \<Rightarrow> [] | Some t \<Rightarrow> [(r, allocate p (pr_id r) (payrollDate london t))])
       (sort_key pr_id (filter (\<lambda>r. pr_status r = PR_APPROVED \<and> \<not> lined (pr_id r) p) (pay_records p))))"

definition allocated_to :: "string \<Rightarrow> allocation \<Rightarrow> bool" where
  "allocated_to periodId a \<longleftrightarrow> map_option pp_id (al_period a) = Some periodId \<and> al_status a \<noteq> UNALLOCATED"

definition line_for :: "string \<Rightarrow> pay_row \<times> allocation \<Rightarrow> line_row" where
  "line_for run x = (case x of (r, a) \<Rightarrow>
     \<lparr>ln_run = run, ln_record = pr_id r, ln_staff = pr_staff r, ln_work_date = al_work_date a,
      ln_original = (if al_status a = CARRIED_FORWARD then map_option pp_id (al_original a) else None),
      ln_late = (al_status a = CARRIED_FORWARD), ln_minutes = pr_minutes r, ln_rate = pr_rate r, ln_amount = pr_amount r\<rparr>)"

fun add_lines :: "auth_ctx \<Rightarrow> string \<Rightarrow> string \<Rightarrow> (pay_row \<times> allocation) list \<Rightarrow> pay_db \<Rightarrow> pay_db res" where
  "add_lines ctx run periodId [] p = Inr p"
| "add_lines ctx run periodId (x # xs) p =
     (if \<not> allocated_to periodId (snd x) then add_lines ctx run periodId xs p
      else
        bindE (assertSafePence (of_int (pr_rate (fst x))) ''payroll_record.pay_rate_pence'') (\<lambda>_.
        bindE (assertSafePence (pr_amount (fst x)) ''payroll_record.amount_pence'') (\<lambda>_.
        bindE (insert_line (line_for run x) p) (\<lambda>p1.
        add_lines ctx run periodId xs
          (if ln_late (line_for run x) then pay_emit [PayAudit PAYROLL_LATE_CARRIED_FORWARD (pr_id (fst x)) (audit_actor ctx)] p1 else p1)))))"

definition prepare ::
  "bool \<Rightarrow> att_env \<Rightarrow> (int \<Rightarrow> int \<times> int \<times> int) \<Rightarrow> auth_ctx \<Rightarrow> string \<Rightarrow> string \<Rightarrow> db \<Rightarrow> pay_db \<Rightarrow> (pay_db \<times> string) res" where
  "prepare may env london ctx periodId newRun d p =
     bindE (pay_access may env ctx d) (\<lambda>_.
     bindE (require (\<exists>q \<in> set (periods p). pp_id q = periodId \<and> pp_active q) (NotFound ''Payroll period not found.'')) (\<lambda>_.
     bindE (case run_of_period periodId p of
         Some r \<Rightarrow> if rn_status r = FINALISED then Inl (Conflict ''This payroll run is finalised and can no longer change.'') else Inr (p, rn_id r)
       | None \<Rightarrow> bindE (insert_run \<lparr>rn_id = newRun, rn_period = periodId, rn_status = PREPARED, rn_prepared_by = cx_user ctx,
              rn_finalised_at = None, rn_finalised_by = None\<rparr> p) (\<lambda>p1. Inr (p1, newRun))) (\<lambda>(p1, run).
     bindE (add_lines ctx run periodId (candidates london d p1) p1) (\<lambda>p2.
     Inr (pay_emit [PayAudit PAYROLL_RUN_PREPARED run (audit_actor ctx)] p2, run)))))"

definition insert_payslip :: "string \<Rightarrow> string \<Rightarrow> string \<Rightarrow> pay_db \<Rightarrow> pay_db" where
  "insert_payslip i run staff p =
     (if (\<exists>s \<in> set (payslips p). sl_id s = i \<or> sl_run s = run \<and> sl_staff s = staff) then p
      else p\<lparr>payslips := payslips p @ [\<lparr>sl_id = i, sl_run = run, sl_staff = staff, sl_version = 0, sl_net = None, sl_net_by = None,
        sl_net_at = None, sl_paid_at = None, sl_paid_by = None, sl_reference = None\<rparr>]\<rparr>)"

text \<open>\<open>lockRun\<close> joins the period of the run; \<open>lockPayslip\<close> the user of the staff member.\<close>

definition lockRun :: "string \<Rightarrow> pay_db \<Rightarrow> run_row res" where
  "lockRun run p =
     bindE (from_option (NotFound ''Payroll run not found.'') (find_run run p)) (\<lambda>r.
     bindE (require (find_period (rn_period r) p \<noteq> None) (NotFound ''Payroll run not found.'')) (\<lambda>_. Inr r))"

definition lockPayslip :: "string \<Rightarrow> string \<Rightarrow> db \<Rightarrow> pay_db \<Rightarrow> (payslip_row \<times> string) res" where
  "lockPayslip run staff d p =
     bindE (from_option (NotFound ''Payslip not found.'') (find (\<lambda>s. sl_run s = run \<and> sl_staff s = staff) (payslips p))) (\<lambda>s.
     bindE (from_option (NotFound ''Payslip not found.'') (find_staff staff d)) (\<lambda>sp. Inr (s, sp_user sp)))"

text \<open>The records of some lines, by id, with the check of a transition on each.\<close>

definition records_of :: "line_row list \<Rightarrow> pay_db \<Rightarrow> pay_row list" where
  "records_of ls p = sort_key pr_id (filter (\<lambda>r. \<exists>l \<in> set ls. ln_record l = pr_id r) (pay_records p))"

fun assert_records :: "pay_row list \<Rightarrow> payroll_record_status \<Rightarrow> unit res" where
  "assert_records [] st = Inr ()"
| "assert_records (r # rs) st = bindE (assertRecord (pr_status r) st) (\<lambda>_. assert_records rs st)"

definition finalise :: "bool \<Rightarrow> att_env \<Rightarrow> auth_ctx \<Rightarrow> clock \<Rightarrow> string \<Rightarrow> (string \<Rightarrow> string) \<Rightarrow> db \<Rightarrow> pay_db \<Rightarrow> pay_db res" where
  "finalise may env ctx clk run uuid d p =
     bindE (pay_access may env ctx d) (\<lambda>_.
     bindE (lockRun run p) (\<lambda>r.
     bindE (require (rn_status r \<noteq> FINALISED) (Conflict ''This payroll run is already finalised.'')) (\<lambda>_.
     let rs = records_of (lines_of_run run p) p; P = (\<lambda>x. (\<exists>y \<in> set rs. pr_id y = pr_id x) \<and> pr_status x = PR_APPROVED) in
     bindE (require (rs \<noteq> []) (Conflict ''This payroll run has no records to finalise.'')) (\<lambda>_.
     bindE (assert_records rs PR_PROCESSING) (\<lambda>_.
     bindE (update_records P (\<lambda>x. x\<lparr>pr_status := PR_PROCESSING\<rparr>) p) (\<lambda>p1.
     bindE (require (count_where P (pay_records p) = length rs)
       (Conflict ''Payroll changed while the run was being finalised. Refresh and try again.'')) (\<lambda>_.
     let p2 = p1\<lparr>runs := update_where (\<lambda>x. rn_id x = run)
                   (\<lambda>x. x\<lparr>rn_status := FINALISED, rn_finalised_at := Some (tx_now clk), rn_finalised_by := Some (cx_user ctx)\<rparr>) (runs p1)\<rparr>;
         p3 = fold (\<lambda>staff q. insert_payslip (uuid staff) run staff q) (remdups (map pr_staff rs)) p2
     in Inr (pay_emit [PayAudit PAYROLL_RUN_FINALISED run (audit_actor ctx), PayRealtime ''payroll.record_changed'' run] p3))))))))"

definition update_slip :: "string \<Rightarrow> (payslip_row \<Rightarrow> payslip_row) \<Rightarrow> pay_db \<Rightarrow> pay_db" where
  "update_slip i f p = p\<lparr>payslips := update_where (\<lambda>s. sl_id s = i) f (payslips p)\<rparr>"

text \<open>\<open>sha\<close> is the SHA-256 of the uploaded bytes; the file itself goes to the file store.\<close>

definition uploadPayslip :: "bool \<Rightarrow> att_env \<Rightarrow> auth_ctx \<Rightarrow> string \<Rightarrow> string \<Rightarrow> string \<Rightarrow> db \<Rightarrow> pay_db \<Rightarrow> pay_db res" where
  "uploadPayslip may env ctx run staff sha d p =
     bindE (pay_access may env ctx d) (\<lambda>_.
     bindE (lockRun run p) (\<lambda>r.
     bindE (require (rn_status r = FINALISED) (Conflict ''Payslips can be uploaded once the payroll run is finalised.'')) (\<lambda>_.
     bindE (lockPayslip run staff d p) (\<lambda>(s, user).
     if (\<exists>x \<in> set (documents p). pd_payslip x = sl_id s \<and> pd_version x = sl_version s \<and> pd_sha x = sha) then Inr p
     else
       let version = Suc (sl_version s) in
       bindE (require (\<not> (\<exists>x \<in> set (documents p). pd_payslip x = sl_id s \<and> pd_version x = version)) UNIQUE_VIOLATION) (\<lambda>_.
       Inr (pay_emit [PayAudit PAYSLIP_UPLOADED (sl_id s) (audit_actor ctx), PayNotify user ''payslip_available'' (sl_id s)]
         (update_slip (sl_id s) (\<lambda>x. x\<lparr>sl_version := version\<rparr>)
           (p\<lparr>documents := documents p @ [\<lparr>pd_payslip = sl_id s, pd_version = version, pd_sha = sha, pd_by = cx_user ctx\<rparr>]\<rparr>))))))))"

definition setNet :: "bool \<Rightarrow> att_env \<Rightarrow> auth_ctx \<Rightarrow> clock \<Rightarrow> string \<Rightarrow> string \<Rightarrow> int option \<Rightarrow> db \<Rightarrow> pay_db \<Rightarrow> pay_db res" where
  "setNet may env ctx clk run staff net d p =
     bindE (pay_access may env ctx d) (\<lambda>_.
     bindE (lockRun run p) (\<lambda>r.
     bindE (require (rn_status r = FINALISED) (Conflict ''Net pay can be recorded once the payroll run is finalised.'')) (\<lambda>_.
     bindE (lockPayslip run staff d p) (\<lambda>(s, _).
     bindE (require (\<not> (net \<noteq> None \<and> sl_version s = 0)) (Conflict ''Upload the provider payslip before recording its net pay.'')) (\<lambda>_.
     bindE (require (case net of None \<Rightarrow> True | Some n \<Rightarrow> 0 \<le> n) CHECK_VIOLATION) (\<lambda>_.
     Inr (pay_emit [PayAudit PAYSLIP_NET_RECORDED (sl_id s) (audit_actor ctx)]
       (update_slip (sl_id s) (\<lambda>x. x\<lparr>sl_net := net, sl_net_by := (if net = None then None else Some (cx_user ctx)),
          sl_net_at := (if net = None then None else Some (node_now clk))\<rparr>) p))))))))"

definition markPaid :: "bool \<Rightarrow> att_env \<Rightarrow> auth_ctx \<Rightarrow> clock \<Rightarrow> string \<Rightarrow> string \<Rightarrow> string option \<Rightarrow> db \<Rightarrow> pay_db \<Rightarrow> pay_db res" where
  "markPaid may env ctx clk run staff ref d p =
     bindE (pay_access may env ctx d) (\<lambda>_.
     bindE (lockRun run p) (\<lambda>r.
     bindE (require (rn_status r = FINALISED) (Conflict ''A payslip can be marked paid once the payroll run is finalised.'')) (\<lambda>_.
     bindE (lockPayslip run staff d p) (\<lambda>(s, user).
     bindE (require (sl_paid_at s = None) (Conflict ''This payslip is already marked paid.'')) (\<lambda>_.
     bindE (require (user \<noteq> cx_user ctx) (Forbidden ''You cannot confirm payment of your own pay.'')) (\<lambda>_.
     bindE (require (case text_or_null ref of None \<Rightarrow> True | Some t \<Rightarrow> length t \<le> 120) CHECK_VIOLATION) (\<lambda>_.
     let rs = records_of (filter (\<lambda>l. ln_staff l = staff) (lines_of_run run p)) p in
     bindE (assert_records rs PR_PAID) (\<lambda>_.
     bindE (update_records (\<lambda>x. (\<exists>y \<in> set rs. pr_id y = pr_id x) \<and> pr_status x = PR_PROCESSING) (\<lambda>x. x\<lparr>pr_status := PR_PAID\<rparr>) p) (\<lambda>p1.
     Inr (pay_emit [PayAudit PAYSLIP_MARKED_PAID (sl_id s) (audit_actor ctx), PayRealtime ''payroll.record_changed'' (sl_id s)]
       (update_slip (sl_id s) (\<lambda>x. x\<lparr>sl_paid_at := Some (tx_now clk), sl_paid_by := Some (cx_user ctx), sl_reference := text_or_null ref\<rparr>) p1)))))))))))"

end
