(* ===== verification/PayrollSteps.thy ===== *)
theory PayrollSteps
  imports Payroll
begin

text \<open>
  What every payroll transaction keeps: the invariant \<open>pay_ok\<close> of the records, runs, lines and payslips, and the relation
  \<open>pay_mono\<close> between the state before and after, for the step relation \<open>pay_step\<close> of all the operations of \<open>Payroll\<close>.
\<close>

section \<open>The invariant\<close>

text \<open>What no update changes of a record: the row the staff member is paid by.\<close>

definition figures :: "pay_row \<Rightarrow> string \<times> string \<times> string \<times> string \<times> int \<times> int \<times> Pence" where
  "figures r = (pr_id r, pr_attendance r, pr_shift r, pr_staff r, pr_minutes r, pr_rate r, pr_amount r)"

definition line_matches :: "line_row \<Rightarrow> pay_row \<Rightarrow> bool" where
  "line_matches l r \<longleftrightarrow> ln_record l = pr_id r \<and> ln_staff l = pr_staff r \<and> ln_minutes l = pr_minutes r \<and> ln_rate l = pr_rate r
     \<and> ln_amount l = pr_amount r"

definition slip_paid :: "string \<Rightarrow> string \<Rightarrow> pay_db \<Rightarrow> bool" where
  "slip_paid run staff p \<longleftrightarrow> (\<exists>s \<in> set (payslips p). sl_run s = run \<and> sl_staff s = staff \<and> sl_paid_at s \<noteq> None)"

text \<open>The status a record has by its line: approved while the run is prepared, then processing until its payslip is paid.\<close>

definition lined_status :: "line_row \<Rightarrow> run_row \<Rightarrow> pay_db \<Rightarrow> payroll_record_status" where
  "lined_status l n p = (if rn_status n = PREPARED then PR_APPROVED else if slip_paid (ln_run l) (ln_staff l) p then PR_PAID else PR_PROCESSING)"

definition line_ok :: "pay_db \<Rightarrow> line_row \<Rightarrow> bool" where
  "line_ok p l \<longleftrightarrow> (\<exists>r \<in> set (pay_records p). \<exists>n \<in> set (runs p). line_matches l r \<and> rn_id n = ln_run l \<and> pr_status r = lined_status l n p)"

definition slip_ok :: "pay_db \<Rightarrow> payslip_row \<Rightarrow> bool" where
  "slip_ok p s \<longleftrightarrow> (\<exists>n \<in> set (runs p). rn_id n = sl_run s \<and> rn_status n = FINALISED)"

definition slip_key :: "payslip_row \<Rightarrow> string \<times> string" where
  "slip_key s = (sl_run s, sl_staff s)"

definition keys_ok :: "pay_db \<Rightarrow> bool" where
  "keys_ok p \<longleftrightarrow> pay_table.keyed (pay_records p) \<and> distinct (map pr_attendance (pay_records p)) \<and> run_table.keyed (runs p)
     \<and> distinct (map rn_period (runs p)) \<and> distinct (map ln_record (lines p)) \<and> slip_table.keyed (payslips p)
     \<and> distinct (map slip_key (payslips p))"

definition record_ok :: "pay_db \<Rightarrow> pay_row \<Rightarrow> bool" where
  "record_ok p r \<longleftrightarrow> record_checks r \<and> pr_status r \<notin> {PR_DRAFT, PR_CORRECTED} \<and> (pr_status r \<in> {PR_PROCESSING, PR_PAID} \<longrightarrow> lined (pr_id r) p)"

definition pay_ok :: "pay_db \<Rightarrow> bool" where
  "pay_ok p \<longleftrightarrow> keys_ok p \<and> (\<forall>l \<in> set (lines p). line_ok p l) \<and> (\<forall>s \<in> set (payslips p). slip_ok p s)
     \<and> (\<forall>r \<in> set (pay_records p). record_ok p r)"

section \<open>The steps\<close>

inductive pay_step :: "pay_db \<Rightarrow> pay_db \<Rightarrow> bool" where
  st_import: "import_calendar may initial env ctx dto cal uuid d p = Inr (p', applied, report) \<Longrightarrow> pay_step p p'"
| st_create: "createPendingForShift ctx sid uuid d p = Inr (p', n) \<Longrightarrow> pay_step p p'"
| st_approve: "approve may env ctx clk i d p = Inr p' \<Longrightarrow> pay_step p p'"
| st_bulk: "bulkApprove may env ctx clk ids d p = Inr (p', approved, blocked) \<Longrightarrow> pay_step p p'"
| st_retry: "retryStatement may env ctx i d p = Inr p' \<Longrightarrow> pay_step p p'"
| st_reject: "reject may env ctx clk i reason d p = Inr p' \<Longrightarrow> pay_step p p'"
| st_worker: "worker_statement i st n p = Inr p' \<Longrightarrow> pay_step p p'"
| st_prepare: "prepare may env london ctx periodId newRun d p = Inr (p', run) \<Longrightarrow> pay_step p p'"
| st_finalise: "finalise may env ctx clk run uuid d p = Inr p' \<Longrightarrow> pay_step p p'"
| st_upload: "uploadPayslip may env ctx run staff sha d p = Inr p' \<Longrightarrow> pay_step p p'"
| st_net: "setNet may env ctx clk run staff net d p = Inr p' \<Longrightarrow> pay_step p p'"
| st_paid: "markPaid may env ctx clk run staff ref d p = Inr p' \<Longrightarrow> pay_step p p'"

inductive_cases pay_step_cases: "pay_step p p'"

definition empty_payroll :: pay_db where
  "empty_payroll = \<lparr>pay_records = [], calendars = [], periods = [], runs = [], lines = [], payslips = [], documents = [], pay_events = []\<rparr>"

lemma pay_ok_empty: "pay_ok empty_payroll"
  by (simp add: pay_ok_def keys_ok_def empty_payroll_def pay_table.keyed_def run_table.keyed_def slip_table.keyed_def)

text \<open>What a transaction may do to the rows of the other tables is irrelevant.\<close>

definition core_same :: "pay_db \<Rightarrow> pay_db \<Rightarrow> bool" where
  "core_same p q \<longleftrightarrow> pay_records p = pay_records q \<and> runs p = runs q \<and> lines p = lines q \<and> payslips p = payslips q"

lemma core_same_ok: "core_same p q \<Longrightarrow> pay_ok p = pay_ok q"
  by (simp add: core_same_def pay_ok_def keys_ok_def line_ok_def slip_ok_def record_ok_def lined_def lined_status_def slip_paid_def)

lemma core_same_emit [simp]: "core_same (pay_emit es p) p"
  by (simp add: core_same_def pay_emit_def)

lemma pay_ok_emit [simp]: "pay_ok (pay_emit es p) = pay_ok p"
  by (rule core_same_ok) simp

section \<open>What a step never undoes\<close>

text \<open>The status of a record moves forward.\<close>

fun st_forward :: "payroll_record_status \<Rightarrow> payroll_record_status list" where
  "st_forward PR_PENDING_APPROVAL = [PR_PENDING_APPROVAL, PR_APPROVED, PR_PROCESSING, PR_PAID, PR_REJECTED]"
| "st_forward PR_APPROVED = [PR_APPROVED, PR_PROCESSING, PR_PAID]"
| "st_forward PR_PROCESSING = [PR_PROCESSING, PR_PAID]"
| "st_forward PR_PAID = [PR_PAID]"
| "st_forward PR_REJECTED = [PR_REJECTED]"
| "st_forward PR_DRAFT = [PR_DRAFT]"
| "st_forward PR_CORRECTED = [PR_CORRECTED]"

definition decided :: "pay_row \<Rightarrow> bool" where
  "decided r \<longleftrightarrow> pr_status r \<in> set [PR_APPROVED, PR_PROCESSING, PR_PAID]"

definition record_mono :: "pay_row \<Rightarrow> pay_row \<Rightarrow> bool" where
  "record_mono r r' \<longleftrightarrow> figures r' = figures r \<and> pr_status r' \<in> set (st_forward (pr_status r))
     \<and> (decided r \<longrightarrow> pr_approved_at r' = pr_approved_at r \<and> pr_approved_by r' = pr_approved_by r)"

lemma st_forward_refl [simp]: "s \<in> set (st_forward s)"
  by (cases s) simp_all

lemma st_forward_trans: "t \<in> set (st_forward s) \<Longrightarrow> u \<in> set (st_forward t) \<Longrightarrow> u \<in> set (st_forward s)"
  by (cases s) auto

lemma decided_forward: "decided r \<Longrightarrow> pr_status r' \<in> set (st_forward (pr_status r)) \<Longrightarrow> decided r'"
  by (cases "pr_status r") (auto simp: decided_def)

definition slip_mono :: "payslip_row \<Rightarrow> payslip_row \<Rightarrow> bool" where
  "slip_mono s s' \<longleftrightarrow> sl_id s' = sl_id s \<and> slip_key s' = slip_key s \<and> sl_version s \<le> sl_version s'
     \<and> (sl_paid_at s \<noteq> None \<longrightarrow> sl_paid_at s' = sl_paid_at s \<and> sl_paid_by s' = sl_paid_by s \<and> sl_reference s' = sl_reference s)"

definition run_final :: "string \<Rightarrow> pay_db \<Rightarrow> bool" where
  "run_final i p \<longleftrightarrow> (\<exists>n \<in> set (runs p). rn_id n = i \<and> rn_status n = FINALISED)"

definition pay_mono :: "pay_db \<Rightarrow> pay_db \<Rightarrow> bool" where
  "pay_mono p p' \<longleftrightarrow> (\<exists>ls. lines p' = lines p @ ls \<and> (\<forall>l \<in> set ls. \<not> run_final (ln_run l) p))
     \<and> (\<forall>n \<in> set (runs p). rn_status n = FINALISED \<longrightarrow> n \<in> set (runs p'))
     \<and> (\<forall>s \<in> set (payslips p). \<exists>s' \<in> set (payslips p'). slip_mono s s')
     \<and> (\<forall>r \<in> set (pay_records p). \<exists>r' \<in> set (pay_records p'). record_mono r r')"

lemma record_mono_refl [simp]: "record_mono r r"
  by (simp add: record_mono_def)

lemma record_mono_trans: "record_mono a b \<Longrightarrow> record_mono b c \<Longrightarrow> record_mono a c"
  unfolding record_mono_def using st_forward_trans decided_forward by metis

lemma slip_mono_refl [simp]: "slip_mono s s"
  by (simp add: slip_mono_def)

lemma slip_mono_trans: "slip_mono a b \<Longrightarrow> slip_mono b c \<Longrightarrow> slip_mono a c"
  unfolding slip_mono_def by auto

lemma run_final_mono: "pay_mono p p' \<Longrightarrow> run_final i p \<Longrightarrow> run_final i p'"
  unfolding pay_mono_def run_final_def by blast

lemma core_same_mono: "core_same p p' \<Longrightarrow> pay_mono p p'"
  unfolding core_same_def pay_mono_def using record_mono_refl slip_mono_refl by (metis append_Nil2 empty_iff empty_set)

lemma pay_mono_trans:
  assumes "pay_mono p q" and "pay_mono q r"
  shows "pay_mono p r"
proof -
  obtain ls where 1: "lines q = lines p @ ls" "\<forall>l \<in> set ls. \<not> run_final (ln_run l) p" using assms(1) by (auto simp: pay_mono_def)
  obtain ks where 2: "lines r = lines q @ ks" "\<forall>l \<in> set ks. \<not> run_final (ln_run l) q" using assms(2) by (auto simp: pay_mono_def)
  have "lines r = lines p @ (ls @ ks)" using 1(1) 2(1) by simp
  moreover have "\<forall>l \<in> set (ls @ ks). \<not> run_final (ln_run l) p" using 1(2) 2(2) run_final_mono [OF assms(1)] by auto
  ultimately have a: "\<exists>ls. lines r = lines p @ ls \<and> (\<forall>l \<in> set ls. \<not> run_final (ln_run l) p)" by blast
  have b: "\<forall>n \<in> set (runs p). rn_status n = FINALISED \<longrightarrow> n \<in> set (runs r)" using assms by (simp add: pay_mono_def)
  have c: "\<forall>s \<in> set (payslips p). \<exists>s' \<in> set (payslips r). slip_mono s s'"
    using assms unfolding pay_mono_def by (meson slip_mono_trans)
  have d: "\<forall>s \<in> set (pay_records p). \<exists>s' \<in> set (pay_records r). record_mono s s'"
    using assms unfolding pay_mono_def by (meson record_mono_trans)
  show ?thesis unfolding pay_mono_def using a b c d by blast
qed

section \<open>Updates of the records\<close>

lemma figures_id: "figures x = figures y \<Longrightarrow> pr_id x = pr_id y" "figures x = figures y \<Longrightarrow> pr_attendance x = pr_attendance y"
    "figures x = figures y \<Longrightarrow> line_matches l x = line_matches l y"
  by (simp_all add: figures_def line_matches_def)

lemma map_update_same: "(\<And>x. h (f x) = h x) \<Longrightarrow> map h (update_where P f t) = map h t"
  by (simp add: update_where_def)

lemma mem_update_where: "x \<in> set (update_where P f t) \<longleftrightarrow> (\<exists>y \<in> set t. x = (if P y then f y else y))"
  by (auto simp: update_where_def)

lemma mem_update_image: "y \<in> set t \<Longrightarrow> (if P y then f y else y) \<in> set (update_where P f t)"
  by (simp add: update_where_def)

lemma lined_status_not_pending: "lined_status l n p \<in> {PR_APPROVED, PR_PROCESSING, PR_PAID}"
  by (simp add: lined_status_def)

lemma records_updated_ok:
  assumes ok: "pay_ok p" and f: "\<And>r. figures (f r) = figures r"
    and st: "\<And>r. r \<in> set (pay_records p) \<Longrightarrow> P r \<Longrightarrow> pr_status (f r) = pr_status r \<or>
      pr_status r = PR_PENDING_APPROVAL \<and> pr_status (f r) \<in> {PR_APPROVED, PR_REJECTED}"
    and ck: "list_all record_checks (update_where P f (pay_records p))"
  shows "pay_ok (p\<lparr>pay_records := update_where P f (pay_records p)\<rparr>)" (is "pay_ok ?q")
proof -
  have "pr_id (f x) = pr_id x" "pr_attendance (f x) = pr_attendance x" for x
    using figures_id(1,2) [OF f] by blast+
  then have "map pr_id (update_where P f (pay_records p)) = map pr_id (pay_records p)"
    and "map pr_attendance (update_where P f (pay_records p)) = map pr_attendance (pay_records p)" by (simp_all add: map_update_same)
  then have "keys_ok ?q"
    using ok by (simp add: pay_ok_def keys_ok_def pay_table.keyed_def)
  moreover have "line_ok ?q l" if l: "l \<in> set (lines p)" for l
  proof -
    obtain r n where r: "r \<in> set (pay_records p)" "n \<in> set (runs p)" "line_matches l r" "rn_id n = ln_run l" "pr_status r = lined_status l n p"
      using ok l unfolding pay_ok_def line_ok_def by blast
    let ?r = "if P r then f r else r"
    have 1: "?r \<in> set (pay_records ?q)" using r(1) by (auto simp: mem_update_where)
    have "line_matches l (f r) = line_matches l r" by (rule figures_id(3)) (rule f)
    then have 2: "line_matches l ?r" using r(3) by simp
    have 3: "pr_status ?r = lined_status l n p" using st [OF r(1)] r(5) lined_status_not_pending [of l n p] by auto
    show ?thesis unfolding line_ok_def using 1 2 3 r(2,4) by (intro bexI [of _ ?r] bexI [of _ n]) (simp_all add: lined_status_def slip_paid_def)
  qed
  moreover have "record_ok ?q x" if "x \<in> set (pay_records ?q)" for x
  proof -
    have c: "record_checks x" using ck that by (simp add: list_all_iff)
    have "x \<in> set (update_where P f (pay_records p))" using that by simp
    then obtain y where y: "y \<in> set (pay_records p)" "x = (if P y then f y else y)" unfolding mem_update_where by blast
    have "record_ok p y" using ok y(1) by (simp add: pay_ok_def)
    moreover have "pr_id (f y) = pr_id y" by (rule figures_id(1)) (rule f)
    then have "pr_id x = pr_id y" using y(2) by simp
    ultimately show ?thesis using c st [OF y(1)] y(2) by (auto simp: record_ok_def lined_def)
  qed
  ultimately show ?thesis using ok by (simp add: pay_ok_def slip_ok_def)
qed

lemma records_updated_mono:
  assumes "\<And>r. r \<in> set (pay_records p) \<Longrightarrow> P r \<Longrightarrow> record_mono r (f r)"
  shows "pay_mono p (p\<lparr>pay_records := update_where P f (pay_records p)\<rparr>)"
proof -
  have "\<exists>r' \<in> set (update_where P f (pay_records p)). record_mono r r'" if "r \<in> set (pay_records p)" for r
    using assms [OF that] that by (intro bexI [of _ "if P r then f r else r"]) (auto simp: mem_update_where)
  moreover have "\<forall>s \<in> set (payslips p). \<exists>s' \<in> set (payslips p). slip_mono s s'" using slip_mono_refl by blast
  ultimately show ?thesis unfolding pay_mono_def by simp
qed

lemma record_mono_decision:
  assumes "figures r' = figures r" and "pr_status r' = pr_status r \<and> pr_approved_at r' = pr_approved_at r \<and> pr_approved_by r' = pr_approved_by r \<or>
      pr_status r = PR_PENDING_APPROVAL \<and> pr_status r' \<in> {PR_APPROVED, PR_REJECTED}"
  shows "record_mono r r'"
  using assms by (auto simp: record_mono_def decided_def)

lemma update_records_Inr: "update_records P f p = Inr p' \<longleftrightarrow> p' = p\<lparr>pay_records := update_where P f (pay_records p)\<rparr>
    \<and> list_all record_checks (update_where P f (pay_records p)) \<and> (\<forall>r \<in> set (pay_records p). P r \<longrightarrow> payroll_record_guard r (f r))"
  unfolding update_records_def Let_def by auto

lemma rows_updated:
  assumes ok: "pay_ok p" and f: "\<And>r. figures (f r) = figures r"
    and st: "\<And>r. r \<in> set (pay_records p) \<Longrightarrow> P r \<Longrightarrow>
      pr_status (f r) = pr_status r \<and> pr_approved_at (f r) = pr_approved_at r \<and> pr_approved_by (f r) = pr_approved_by r \<or>
      pr_status r = PR_PENDING_APPROVAL \<and> pr_status (f r) \<in> {PR_APPROVED, PR_REJECTED}"
    and ck: "list_all record_checks (update_where P f (pay_records p))"
  shows "pay_ok (p\<lparr>pay_records := update_where P f (pay_records p)\<rparr>) \<and> pay_mono p (p\<lparr>pay_records := update_where P f (pay_records p)\<rparr>)"
proof
  show "pay_ok (p\<lparr>pay_records := update_where P f (pay_records p)\<rparr>)"
    by (rule records_updated_ok [OF ok f _ ck]) (use st in blast)
  show "pay_mono p (p\<lparr>pay_records := update_where P f (pay_records p)\<rparr>)"
    by (rule records_updated_mono) (use st f in \<open>blast intro: record_mono_decision\<close>)
qed

definition safe_step :: "pay_db \<Rightarrow> pay_db \<Rightarrow> bool" where
  "safe_step p p' \<longleftrightarrow> (pay_ok p \<longrightarrow> pay_ok p' \<and> pay_mono p p')"

lemma safe_stepI: "(pay_ok p \<Longrightarrow> pay_ok p' \<and> pay_mono p p') \<Longrightarrow> safe_step p p'"
  by (simp add: safe_step_def)

lemma safe_step_refl [simp]: "safe_step p p"
  by (simp add: safe_step_def core_same_mono core_same_def)

lemma safe_step_trans: "safe_step p q \<Longrightarrow> safe_step q r \<Longrightarrow> safe_step p r"
  unfolding safe_step_def using pay_mono_trans by blast

lemma core_same_sym: "core_same q p \<Longrightarrow> core_same p q"
  by (simp add: core_same_def)

lemma safe_step_core: "core_same q p \<Longrightarrow> safe_step p q"
  unfolding safe_step_def using core_same_ok [of q p] core_same_mono [OF core_same_sym] by blast

lemma safe_emit [simp]: "safe_step p (pay_emit es q) \<longleftrightarrow> safe_step p q"
proof
  have 1: "core_same q (pay_emit es q)" and 2: "core_same (pay_emit es q) q" by (simp_all add: core_same_def pay_emit_def)
  show "safe_step p (pay_emit es q) \<Longrightarrow> safe_step p q" using safe_step_trans safe_step_core [OF 1] by blast
  show "safe_step p q \<Longrightarrow> safe_step p (pay_emit es q)" using safe_step_trans safe_step_core [OF 2] by blast
qed

lemma applyApproval_safe: "applyApproval ctx clk ids p = Inr p' \<Longrightarrow> safe_step p p'"
proof (rule safe_stepI)
  assume a: "applyApproval ctx clk ids p = Inr p'" and ok: "pay_ok p"
  let ?P = "\<lambda>r. pr_id r \<in> set ids \<and> pr_status r = PR_PENDING_APPROVAL" and ?f = "approve_row ctx clk"
  let ?q = "p\<lparr>pay_records := update_where ?P ?f (pay_records p)\<rparr>"
  from a obtain es where p': "p' = pay_emit es ?q" and ck: "list_all record_checks (update_where ?P ?f (pay_records p))"
    by (auto simp: applyApproval_def Let_def bindE_Inr_iff require_Inr_iff update_records_Inr)
  have "pay_ok ?q \<and> pay_mono p ?q" by (rule rows_updated [OF ok _ _ ck]) (simp_all add: approve_row_def figures_def)
  then show "pay_ok p' \<and> pay_mono p p'" using p' safe_emit [of p es ?q] ok by (simp add: safe_step_def)
qed

lemma approve_safe: "approve may env ctx clk i d p = Inr p' \<Longrightarrow> safe_step p p'"
  by (auto simp: approve_def bindE_Inr_iff require_Inr_iff split: prod.splits intro: applyApproval_safe)

lemma bulkApprove_safe: "bulkApprove may env ctx clk ids d p = Inr (p', a, b) \<Longrightarrow> safe_step p p'"
  by (auto simp: bulkApprove_def Let_def bindE_Inr_iff split: if_splits intro: applyApproval_safe)

lemma update_records_safe:
  assumes "update_records P f p = Inr p'" and "\<And>r. figures (f r) = figures r"
    and "\<And>r. r \<in> set (pay_records p) \<Longrightarrow> P r \<Longrightarrow>
      pr_status (f r) = pr_status r \<and> pr_approved_at (f r) = pr_approved_at r \<and> pr_approved_by (f r) = pr_approved_by r \<or>
      pr_status r = PR_PENDING_APPROVAL \<and> pr_status (f r) \<in> {PR_APPROVED, PR_REJECTED}"
  shows "safe_step p p'"
  using assms rows_updated [of p f P] by (simp add: update_records_Inr safe_step_def)

lemma retryStatement_safe:
  assumes "retryStatement may env ctx i d p = Inr p'"
  shows "safe_step p p'"
proof -
  let ?P = "\<lambda>x. pr_id x = i \<and> pr_statement x = ST_FAILED" and ?f = "\<lambda>x. x\<lparr>pr_statement := ST_PENDING, pr_attempts := 0\<rparr>"
  obtain p1 es where "update_records ?P ?f p = Inr p1" and "p' = pay_emit es p1"
    using assms by (auto simp: retryStatement_def bindE_Inr_iff require_Inr_iff)
  moreover have "safe_step p p1" by (rule update_records_safe [OF calculation(1)]) (simp_all add: figures_def)
  ultimately show ?thesis by simp
qed

lemma reject_safe:
  assumes "reject may env ctx clk i reason d p = Inr p'"
  shows "safe_step p p'"
proof -
  let ?P = "\<lambda>x. pr_id x = i \<and> pr_status x = PR_PENDING_APPROVAL"
    and ?f = "\<lambda>x. x\<lparr>pr_status := PR_REJECTED, pr_rejected_at := Some (tx_now clk), pr_rejected_by := Some (cx_user ctx),
              pr_rejection_reason := Some (js_trim reason)\<rparr>"
  obtain p1 es where "update_records ?P ?f p = Inr p1" and "p' = pay_emit es p1"
    using assms by (auto simp: reject_def Let_def bindE_Inr_iff require_Inr_iff split: prod.splits)
  moreover have "safe_step p p1" by (rule update_records_safe [OF calculation(1)]) (simp_all add: figures_def)
  ultimately show ?thesis by simp
qed

lemma worker_statement_safe:
  assumes "worker_statement i st n p = Inr p'"
  shows "safe_step p p'"
proof -
  let ?P = "\<lambda>r. pr_id r = i \<and> pr_status r \<in> {PR_APPROVED, PR_PROCESSING, PR_PAID}" and ?f = "\<lambda>r. r\<lparr>pr_statement := st, pr_attempts := n\<rparr>"
  have p': "p' = p\<lparr>pay_records := update_where ?P ?f (pay_records p)\<rparr>" and ck: "list_all record_checks (update_where ?P ?f (pay_records p))"
    using assms by (simp_all add: worker_statement_def Let_def split: if_splits)
  show ?thesis unfolding p' safe_step_def using rows_updated [OF _ _ _ ck] by (simp add: figures_def)
qed


section \<open>Records and the calendar\<close>

lemma line_ok_keep:
  assumes "line_ok p l" and "set (pay_records p) \<subseteq> set (pay_records p')" and "set (runs p) \<subseteq> set (runs p')"
    and "slip_paid (ln_run l) (ln_staff l) p' = slip_paid (ln_run l) (ln_staff l) p"
  shows "line_ok p' l"
proof -
  have "lined_status l n p' = lined_status l n p" for n using assms(4) by (simp add: lined_status_def)
  then show ?thesis using assms(1-3) unfolding line_ok_def by (metis subsetD)
qed

lemma insert_record_safe:
  assumes "insert_record r p = Inr p'" and "pr_status r = PR_PENDING_APPROVAL"
  shows "safe_step p p'"
proof (rule safe_stepI)
  assume ok: "pay_ok p"
  show "pay_ok p' \<and> pay_mono p p'"
  proof (cases "\<exists>x \<in> set (pay_records p). pr_id x = pr_id r \<or> pr_attendance x = pr_attendance r")
    case True
    then have "p' = p" using assms(1) by (auto simp: insert_record_def split: if_splits)
    then show ?thesis using ok core_same_mono [of p p] by (simp add: core_same_def)
  next
    case False
    then have p': "p' = p\<lparr>pay_records := pay_records p @ [r]\<rparr>" and ck: "record_checks r"
      using assms(1) by (auto simp: insert_record_def split: if_splits)
    have "keys_ok p'" using ok False by (auto simp: pay_ok_def keys_ok_def p' pay_table.keyed_def)
    moreover have "line_ok p l \<Longrightarrow> line_ok p' l" for l
      by (rule line_ok_keep) (auto simp: p' slip_paid_def)
    moreover have "record_ok p x \<Longrightarrow> record_ok p' x" for x by (simp add: record_ok_def p' lined_def)
    moreover have "record_ok p' r" using ck assms(2) by (simp add: record_ok_def)
    ultimately have "pay_ok p'" using ok by (auto simp: pay_ok_def slip_ok_def p')
    moreover have "pay_mono p p'"
      unfolding pay_mono_def p' using slip_mono_refl record_mono_refl by simp (meson record_mono_refl slip_mono_refl)
    ultimately show ?thesis by blast
  qed
qed

lemma add_records_safe: "add_records uuid rows p = Inr p' \<Longrightarrow> safe_step p p'"
proof (induction uuid rows p rule: add_records.induct)
  case (2 uuid t a rest p)
  then obtain m w q where v: "verified_pay t a = Inr (m, w)"
    and q: "insert_record (pending_record (uuid (at_id t)) t m (sa_pay_snapshot a) w) p = Inr q" and r: "add_records uuid rest q = Inr p'"
    by (auto simp: bindE_Inr_iff split: prod.splits)
  have "safe_step p q" by (rule insert_record_safe [OF q]) (simp add: pending_record_def)
  moreover have "safe_step q p'" by (rule 2(1) [OF r])
  ultimately show ?case by (rule safe_step_trans)
qed simp

lemma createPendingForShift_safe: "createPendingForShift ctx sid uuid d p = Inr (p', n) \<Longrightarrow> safe_step p p'"
  by (auto simp: createPendingForShift_def Let_def bindE_Inr_iff split: if_splits intro: add_records_safe)

lemma insert_periods_core: "insert_periods qs p = Inr p' \<Longrightarrow> core_same p' p"
proof (induction qs arbitrary: p)
  case (Cons q qs)
  then obtain p1 where 1: "insert_period q p = Inr p1" and 2: "insert_periods qs p1 = Inr p'" by (auto simp: bindE_Inr_iff)
  have "core_same p1 p" using 1 by (auto simp: insert_period_def core_same_def split: if_splits)
  then show ?case using Cons.IH [OF 2] by (simp add: core_same_def)
qed (simp add: core_same_def)

lemma deactivate_year_core: "core_same (deactivate_year y p) p"
  by (simp add: deactivate_year_def core_same_def split: option.splits)

lemma insert_calendar_core: "insert_calendar c p = Inr p' \<Longrightarrow> core_same p' p"
  by (auto simp: insert_calendar_def core_same_def split: if_splits)

lemma import_calendar_Inr:
  assumes "import_calendar may initial env ctx dto cal uuid d p = Inr (p', applied, report)" and "\<not> im_dry_run dto"
  obtains c p1 p2 es where "pc_id c = cal" and "pc_year c = im_year dto" and "insert_calendar c (deactivate_year (im_year dto) p) = Inr p1"
    and "insert_periods (map (period_of_dto cal uuid) (sort_key dp_start (im_periods dto))) p1 = Inr p2" and "p' = pay_emit es p2"
    and "cr_errors (validateCalendarPeriods (im_periods dto)) = []" and "cr_overlaps (validateCalendarPeriods (im_periods dto)) = []"
proof -
  let ?p = "deactivate_year (im_year dto) p"
  let ?c = "\<lparr>pc_id = cal, pc_year = im_year dto, pc_version = next_version (im_year dto) ?p, pc_source = js_trim (im_source dto),
                 pc_active = True, pc_notes = text_or_null (im_notes dto), pc_created_by = cx_user ctx\<rparr>"
  let ?ips = "insert_periods (map (period_of_dto cal uuid) (sort_key dp_start (im_periods dto)))"
  let ?rep = "validateCalendarPeriods (im_periods dto)"
  have e: "cr_errors ?rep = []" and o: "cr_overlaps ?rep = []"
    using assms by (auto simp: import_calendar_def Let_def bindE_Inr_iff require_Inr_iff split: list.splits)
  then obtain p1 where 1: "insert_calendar ?c ?p = Inr p1"
    using assms by (auto simp: import_calendar_def Let_def bindE_Inr_iff)
  obtain p2 where 2: "?ips p1 = Inr p2"
    using assms e o 1 by (cases "?ips p1") (auto simp: import_calendar_def Let_def bindE_Inr_iff)
  have 3: "p' = pay_emit [PayAudit PAYROLL_CALENDAR_IMPORTED cal (audit_actor ctx)] p2"
    using assms e o 1 2 by (auto simp: import_calendar_def Let_def bindE_Inr_iff)
  show ?thesis by (rule that [OF _ _ 1 2 3 e o]) simp_all
qed

lemma import_calendar_safe:
  assumes a: "import_calendar may initial env ctx dto cal uuid d p = Inr (p', applied, report)"
  shows "safe_step p p'"
proof (cases "im_dry_run dto")
  case True
  then have "p' = p" using a by (auto simp: import_calendar_def Let_def bindE_Inr_iff)
  then show ?thesis by simp
next
  case False
  obtain c p1 p2 es where 1: "insert_calendar c (deactivate_year (im_year dto) p) = Inr p1"
    and 2: "insert_periods (map (period_of_dto cal uuid) (sort_key dp_start (im_periods dto))) p1 = Inr p2" and 3: "p' = pay_emit es p2"
    by (rule import_calendar_Inr [OF a False]) blast
  have "core_same p2 p"
    using insert_calendar_core [OF 1] insert_periods_core [OF 2] deactivate_year_core [of "im_year dto" p] by (simp add: core_same_def)
  then show ?thesis using safe_step_core 3 by simp
qed

section \<open>Runs, lines and payslips\<close>

lemma insert_run_safe:
  assumes "insert_run r p = Inr p'" and "rn_status r = PREPARED"
  shows "safe_step p p'"
proof (rule safe_stepI)
  assume ok: "pay_ok p"
  have p': "p' = p\<lparr>runs := runs p @ [r]\<rparr>" and fresh: "\<forall>x \<in> set (runs p). rn_id x \<noteq> rn_id r \<and> rn_period x \<noteq> rn_period r"
    using assms(1) by (auto simp: insert_run_def split: if_splits)
  have "keys_ok p'" using ok fresh by (auto simp: pay_ok_def keys_ok_def p' run_table.keyed_def)
  moreover have "line_ok p' l" if "line_ok p l" for l
    by (rule line_ok_keep [OF that]) (auto simp: p' slip_paid_def)
  moreover have "slip_ok p s \<Longrightarrow> slip_ok p' s" for s by (auto simp: slip_ok_def p')
  moreover have "record_ok p x \<Longrightarrow> record_ok p' x" for x by (simp add: record_ok_def p' lined_def)
  ultimately have "pay_ok p'" using ok by (auto simp: pay_ok_def p')
  moreover have "pay_mono p p'"
    unfolding pay_mono_def p' by (simp) (meson record_mono_refl slip_mono_refl)
  ultimately show "pay_ok p' \<and> pay_mono p p'" by blast
qed

lemma insert_line_safe:
  assumes "insert_line l p = Inr p'" and r: "r \<in> set (pay_records p)" "line_matches l r" "pr_status r = PR_APPROVED"
    and n: "n \<in> set (runs p)" "rn_id n = ln_run l" "rn_status n = PREPARED"
  shows "safe_step p p'"
proof (rule safe_stepI)
  assume ok: "pay_ok p"
  have p': "p' = p\<lparr>lines := lines p @ [l]\<rparr>" and fresh: "\<not> lined (ln_record l) p"
    using assms(1) by (auto simp: insert_line_def split: if_splits)
  have "keys_ok p'" using ok fresh by (auto simp: pay_ok_def keys_ok_def p' lined_def)
  moreover have "line_ok p' k" if "line_ok p k" for k
    by (rule line_ok_keep [OF that]) (auto simp: p' slip_paid_def)
  moreover have "line_ok p' l"
    unfolding line_ok_def using r n by (intro bexI [of _ r] bexI [of _ n]) (simp_all add: p' lined_status_def)
  moreover have "record_ok p x \<Longrightarrow> record_ok p' x" for x by (auto simp: record_ok_def p' lined_def)
  ultimately have "pay_ok p'" using ok by (auto simp: pay_ok_def slip_ok_def p')
  moreover have "\<not> run_final (ln_run l) p"
  proof
    assume "run_final (ln_run l) p"
    then obtain m where "m \<in> set (runs p)" "rn_id m = rn_id n" "rn_status m = FINALISED" using n(2) by (auto simp: run_final_def)
    then have "m = n" using run_table.keyed_unique ok n(1) by (auto simp: pay_ok_def keys_ok_def)
    then show False using n(3) \<open>rn_status m = FINALISED\<close> by simp
  qed
  then have "pay_mono p p'"
    unfolding pay_mono_def p' by (simp) (meson record_mono_refl slip_mono_refl)
  ultimately show "pay_ok p' \<and> pay_mono p p'" by blast
qed


text \<open>The candidates of a preparation are approved records, and stay so while its lines are added.\<close>

lemma candidates_mem:
  assumes "x \<in> set (candidates london d p)"
  shows "fst x \<in> set (pay_records p)" and "pr_status (fst x) = PR_APPROVED" and "\<not> lined (pr_id (fst x)) p"
  using assms by (auto simp: candidates_def split: option.splits)

lemma add_lines_safe:
  assumes "add_lines ctx run periodId xs p = Inr p'" and "\<forall>x \<in> set xs. fst x \<in> set (pay_records p) \<and> pr_status (fst x) = PR_APPROVED"
    and "n \<in> set (runs p)" and "rn_id n = run" and "rn_status n = PREPARED"
  shows "safe_step p p' \<and> pay_records p' = pay_records p \<and> runs p' = runs p \<and> payslips p' = payslips p"
  using assms
proof (induction ctx run periodId xs p rule: add_lines.induct)
  case (2 ctx run periodId x xs p)
  show ?case
  proof (cases "allocated_to periodId (snd x)")
    case False
    then show ?thesis using 2 by simp
  next
    case True
    obtain v w q where v: "assertSafePence (of_int (pr_rate (fst x))) ''payroll_record.pay_rate_pence'' = Inr v"
        "assertSafePence (pr_amount (fst x)) ''payroll_record.amount_pence'' = Inr w"
      and q: "insert_line (line_for run x) p = Inr q"
      and r: "add_lines ctx run periodId xs
        (if ln_late (line_for run x) then pay_emit [PayAudit PAYROLL_LATE_CARRIED_FORWARD (pr_id (fst x)) (audit_actor ctx)] q else q) = Inr p'"
      using 2(3) True by (auto simp: bindE_Inr_iff split del: if_split)
    let ?q = "if ln_late (line_for run x) then pay_emit [PayAudit PAYROLL_LATE_CARRIED_FORWARD (pr_id (fst x)) (audit_actor ctx)] q else q"
    have same: "pay_records ?q = pay_records p" "runs ?q = runs p" "payslips ?q = payslips p"
      using q by (auto simp: insert_line_def pay_emit_def split: if_splits)
    have "safe_step p q"
    proof (rule insert_line_safe [OF q])
      show "line_matches (line_for run x) (fst x)" by (simp add: line_for_def line_matches_def split: prod.splits)
      show "rn_id n = ln_run (line_for run x)" using 2(6) by (simp add: line_for_def split: prod.splits)
    qed (use 2 in auto)
    then have "safe_step p ?q" by simp
    moreover have "safe_step ?q p' \<and> pay_records p' = pay_records ?q \<and> runs p' = runs ?q \<and> payslips p' = payslips ?q"
      by (rule 2(2) [OF _ r]) (use True 2 same in auto)
    ultimately show ?thesis using safe_step_trans same by auto
  qed
qed simp

lemma run_status_cases: "rn_status n \<noteq> FINALISED \<longleftrightarrow> rn_status n = PREPARED"
  by (cases "rn_status n") auto

lemma prepare_Inr:
  assumes "prepare may env london ctx periodId newRun d p = Inr (p', run)"
  obtains n p1 p2 es where "\<exists>q \<in> set (periods p). pp_id q = periodId \<and> pp_active q"
    and "rn_id n = run" and "rn_period n = periodId" and "rn_status n = PREPARED" and "n \<in> set (runs p1)"
    and "p1 = p \<or> run_of_period periodId p = None \<and> insert_run n p = Inr p1"
    and "add_lines ctx run periodId (candidates london d p1) p1 = Inr p2" and "p' = pay_emit es p2"
proof -
  let ?n = "\<lparr>rn_id = newRun, rn_period = periodId, rn_status = PREPARED, rn_prepared_by = cx_user ctx, rn_finalised_at = None, rn_finalised_by = None\<rparr>"
  have q: "\<exists>q \<in> set (periods p). pp_id q = periodId \<and> pp_active q"
    using assms unfolding prepare_def bindE_Inr_iff require_Inr_iff by blast
  obtain p1 p2 es where 1: "(case run_of_period periodId p of
         Some r \<Rightarrow> if rn_status r = FINALISED then Inl (Conflict ''This payroll run is finalised and can no longer change.'') else Inr (p, rn_id r)
       | None \<Rightarrow> bindE (insert_run ?n p) (\<lambda>p1. Inr (p1, newRun))) = Inr (p1, run)"
    and 2: "add_lines ctx run periodId (candidates london d p1) p1 = Inr p2" and 3: "p' = pay_emit es p2"
    using assms by (auto simp: prepare_def bindE_Inr_iff)
  show ?thesis
  proof (cases "run_of_period periodId p")
    case None
    then have i: "insert_run ?n p = Inr p1" and "run = newRun" using 1 by (auto simp: bindE_Inr_iff)
    moreover have "?n \<in> set (runs p1)" using i by (auto simp: insert_run_def split: if_splits)
    ultimately show ?thesis by (intro that [OF q _ _ _ _ _ 2 3, of ?n]) (simp_all add: None)
  next
    case (Some r)
    then have r: "r \<in> set (runs p)" "rn_period r = periodId"
      using find_Some_mem [of _ "runs p" r] unfolding run_of_period_def by blast+
    moreover have "p1 = p" "run = rn_id r" "rn_status r = PREPARED" using 1 Some by (auto simp: run_status_cases split: if_splits)
    ultimately show ?thesis by (intro that [OF q _ _ _ _ _ 2 3, of r]) simp_all
  qed
qed

lemma prepare_safe:
  assumes "prepare may env london ctx periodId newRun d p = Inr (p', run)"
  shows "safe_step p p'"
proof -
  obtain n p1 p2 es where n: "rn_id n = run" "rn_status n = PREPARED" "n \<in> set (runs p1)"
    and 1: "p1 = p \<or> run_of_period periodId p = None \<and> insert_run n p = Inr p1"
    and 2: "add_lines ctx run periodId (candidates london d p1) p1 = Inr p2" and 3: "p' = pay_emit es p2"
    by (rule prepare_Inr [OF assms]) blast
  have "safe_step p p1" using 1 insert_run_safe [OF _ n(2)] by auto
  moreover have "safe_step p1 p2" using add_lines_safe [OF 2 _ n(3,1,2)] candidates_mem by blast
  ultimately show ?thesis using safe_step_trans [of p p1 p2] 3 by simp
qed

lemma set_fold_slips:
  "set (payslips (fold (\<lambda>staff q. insert_payslip (uuid staff) run staff q) ss p)) \<supseteq> set (payslips p)
   \<and> (\<forall>s \<in> set (payslips (fold (\<lambda>staff q. insert_payslip (uuid staff) run staff q) ss p)).
        s \<in> set (payslips p) \<or> sl_run s = run \<and> sl_paid_at s = None)"
proof (induction ss arbitrary: p)
  case (Cons x ss)
  have 1: "set (payslips p) \<subseteq> set (payslips (insert_payslip (uuid x) run x p))" by (auto simp: insert_payslip_def)
  have 2: "s \<in> set (payslips p) \<or> sl_run s = run \<and> sl_paid_at s = None" if "s \<in> set (payslips (insert_payslip (uuid x) run x p))" for s
    using that by (auto simp: insert_payslip_def split: if_splits)
  show ?case using Cons.IH [of "insert_payslip (uuid x) run x p"] 1 2 by (simp only: fold_simps) blast
qed simp

lemma insert_payslip_keys:
  "slip_table.keyed (payslips p) \<Longrightarrow> slip_table.keyed (payslips (insert_payslip i run staff p))"
  "distinct (map slip_key (payslips p)) \<Longrightarrow> distinct (map slip_key (payslips (insert_payslip i run staff p)))"
  by (auto simp: insert_payslip_def slip_table.keyed_def slip_key_def)

lemma insert_payslip_same [simp]:
  "pay_records (insert_payslip i run staff p) = pay_records p" "runs (insert_payslip i run staff p) = runs p"
  "lines (insert_payslip i run staff p) = lines p"
  by (simp_all add: insert_payslip_def)

lemma fold_slips_keys:
  "slip_table.keyed (payslips p) \<Longrightarrow> distinct (map slip_key (payslips p)) \<Longrightarrow>
   slip_table.keyed (payslips (fold (\<lambda>staff q. insert_payslip (uuid staff) run staff q) ss p))
   \<and> distinct (map slip_key (payslips (fold (\<lambda>staff q. insert_payslip (uuid staff) run staff q) ss p)))"
  by (induction ss arbitrary: p) (simp_all add: insert_payslip_keys)

lemma fold_slips_same [simp]:
  "pay_records (fold (\<lambda>staff q. insert_payslip (uuid staff) run staff q) ss p) = pay_records p"
  "runs (fold (\<lambda>staff q. insert_payslip (uuid staff) run staff q) ss p) = runs p"
  "lines (fold (\<lambda>staff q. insert_payslip (uuid staff) run staff q) ss p) = lines p"
  by (induction ss arbitrary: p) simp_all

text \<open>The finalisation written with what it does to the three tables.\<close>

definition in_run :: "string \<Rightarrow> pay_db \<Rightarrow> pay_row \<Rightarrow> bool" where
  "in_run run p r \<longleftrightarrow> (\<exists>l \<in> set (lines p). ln_run l = run \<and> ln_record l = pr_id r)"

definition finalised_row :: "auth_ctx \<Rightarrow> clock \<Rightarrow> run_row \<Rightarrow> run_row" where
  "finalised_row ctx clk n = n\<lparr>rn_status := FINALISED, rn_finalised_at := Some (tx_now clk), rn_finalised_by := Some (cx_user ctx)\<rparr>"

lemma records_of_run: "r \<in> set (records_of (lines_of_run run p) p) \<longleftrightarrow> r \<in> set (pay_records p) \<and> in_run run p r"
  by (auto simp: records_of_def lines_of_run_def in_run_def)

lemma assert_records_Inr: "assert_records rs st = Inr u \<longleftrightarrow> (\<forall>r \<in> set rs. assertRecord (pr_status r) st = Inr ())"
  by (induction rs) (auto simp: bindE_Inr_iff)

lemma assert_processing: "assertRecord s PR_PROCESSING = Inr u \<Longrightarrow> s = PR_APPROVED"
  by (cases s) (simp_all add: assertTransition_def)

lemma assert_paid: "assertRecord s PR_PAID = Inr u \<Longrightarrow> s = PR_PROCESSING"
  by (cases s) (simp_all add: assertTransition_def)

lemma update_where_cong: "(\<And>x. x \<in> set t \<Longrightarrow> P x = Q x) \<Longrightarrow> update_where P f t = update_where Q f t"
  by (simp add: update_where_def)

text \<open>To have the id of a record of a run is to be one.\<close>

lemma id_in_run: "x \<in> set (pay_records p) \<Longrightarrow> (\<exists>y \<in> set (records_of (lines_of_run run p) p). pr_id y = pr_id x) \<longleftrightarrow> in_run run p x"
proof -
  assume x: "x \<in> set (pay_records p)"
  have "in_run run p y \<longleftrightarrow> in_run run p x" if "pr_id y = pr_id x" for y using that by (simp add: in_run_def)
  then show ?thesis using x records_of_run by metis
qed

lemma finalise_Inr:
  assumes "finalise may env ctx clk run uuid d p = Inr p'"
  obtains n where "find_run run p = Some n" and "rn_status n = PREPARED" and "\<exists>r \<in> set (pay_records p). in_run run p r"
    and "\<forall>r \<in> set (pay_records p). in_run run p r \<longrightarrow> pr_status r = PR_APPROVED"
    and "list_all record_checks (pay_records p')"
    and "pay_records p' = update_where (\<lambda>r. in_run run p r \<and> pr_status r = PR_APPROVED) (\<lambda>x. x\<lparr>pr_status := PR_PROCESSING\<rparr>) (pay_records p)"
    and "runs p' = update_where (\<lambda>x. rn_id x = run) (finalised_row ctx clk) (runs p)" and "lines p' = lines p"
    and "payslips p' = payslips (fold (\<lambda>staff q. insert_payslip (uuid staff) run staff q)
          (remdups (map pr_staff (records_of (lines_of_run run p) p)))
          (p\<lparr>pay_records := pay_records p', runs := runs p'\<rparr>))"
proof -
  let ?rs = "records_of (lines_of_run run p) p"
  let ?P = "\<lambda>x. (\<exists>y \<in> set ?rs. pr_id y = pr_id x) \<and> pr_status x = PR_APPROVED" and ?f = "\<lambda>x. x\<lparr>pr_status := PR_PROCESSING\<rparr>"
  let ?p = "p\<lparr>pay_records := update_where ?P ?f (pay_records p), runs := update_where (\<lambda>x. rn_id x = run) (finalised_row ctx clk) (runs p)\<rparr>"
  let ?es = "[PayAudit PAYROLL_RUN_FINALISED run (audit_actor ctx), PayRealtime ''payroll.record_changed'' run]"
  have fr: "finalised_row ctx clk = (\<lambda>x. x\<lparr>rn_status := FINALISED, rn_finalised_at := Some (tx_now clk), rn_finalised_by := Some (cx_user ctx)\<rparr>)"
    by (rule ext) (simp add: finalised_row_def)
  have "\<exists>n. find_run run p = Some n \<and> rn_status n = PREPARED \<and> ?rs \<noteq> [] \<and> assert_records ?rs PR_PROCESSING = Inr ()
      \<and> list_all record_checks (update_where ?P ?f (pay_records p))
      \<and> p' = pay_emit ?es (fold (\<lambda>staff q. insert_payslip (uuid staff) run staff q) (remdups (map pr_staff ?rs)) ?p)"
    using assms unfolding finalise_def Let_def bindE_Inr_iff require_Inr_iff lockRun_def from_option_Inr_iff update_records_Inr fr
    by (auto simp: run_status_cases)
  then obtain n where n: "find_run run p = Some n" "rn_status n = PREPARED" and ne: "?rs \<noteq> []" and ar: "assert_records ?rs PR_PROCESSING = Inr ()"
      and ck: "list_all record_checks (update_where ?P ?f (pay_records p))"
      and p': "p' = pay_emit ?es (fold (\<lambda>staff q. insert_payslip (uuid staff) run staff q) (remdups (map pr_staff ?rs)) ?p)" by blast
  have all: "\<forall>r \<in> set (pay_records p). in_run run p r \<longrightarrow> pr_status r = PR_APPROVED"
  proof (intro ballI impI)
    fix r assume "r \<in> set (pay_records p)" and "in_run run p r"
    then have "r \<in> set ?rs" by (simp add: records_of_run)
    then have "assertRecord (pr_status r) PR_PROCESSING = Inr ()" using ar assert_records_Inr by blast
    then show "pr_status r = PR_APPROVED" by (rule assert_processing)
  qed
  obtain r0 where "r0 \<in> set ?rs" using ne by (meson list.set_sel(1))
  then have ex: "\<exists>r \<in> set (pay_records p). in_run run p r" by (auto simp: records_of_run)
  have eq: "update_where ?P ?f (pay_records p) = update_where (\<lambda>r. in_run run p r \<and> pr_status r = PR_APPROVED) ?f (pay_records p)"
    by (rule update_where_cong) (simp add: id_in_run)
  have rec: "pay_records p' = update_where ?P ?f (pay_records p)" and rn: "runs p' = update_where (\<lambda>x. rn_id x = run) (finalised_row ctx clk) (runs p)"
    and ln: "lines p' = lines p" by (simp_all add: p' pay_emit_def)
  have sl: "payslips p' = payslips (fold (\<lambda>staff q. insert_payslip (uuid staff) run staff q) (remdups (map pr_staff ?rs))
      (p\<lparr>pay_records := pay_records p', runs := runs p'\<rparr>))"
    unfolding rec rn by (simp add: p' pay_emit_def)
  show ?thesis by (rule that [OF n ex all _ _ rn ln sl]) (use ck rec eq in simp_all)
qed


lemma find_run_mem: "find_run i p = Some n \<Longrightarrow> n \<in> set (runs p) \<and> rn_id n = i"
  unfolding find_run_def using find_Some_mem [of _ "runs p" n] by blast

lemma finalise_safe:
  assumes a: "finalise may env ctx clk run uuid d p = Inr p'"
  shows "safe_step p p'"
proof (rule safe_stepI)
  assume ok: "pay_ok p"
  let ?P = "\<lambda>r. in_run run p r \<and> pr_status r = PR_APPROVED" and ?f = "\<lambda>x. x\<lparr>pr_status := PR_PROCESSING\<rparr>"
  let ?rn = "\<lambda>n. if rn_id n = run then finalised_row ctx clk n else n"
  obtain n0 where n0: "find_run run p = Some n0" "rn_status n0 = PREPARED" and all: "\<forall>r \<in> set (pay_records p). in_run run p r \<longrightarrow> pr_status r = PR_APPROVED"
    and ck: "list_all record_checks (pay_records p')" and rec: "pay_records p' = update_where ?P ?f (pay_records p)"
    and rn: "runs p' = update_where (\<lambda>x. rn_id x = run) (finalised_row ctx clk) (runs p)" and ln: "lines p' = lines p"
    and sl: "payslips p' = payslips (fold (\<lambda>staff q. insert_payslip (uuid staff) run staff q)
          (remdups (map pr_staff (records_of (lines_of_run run p) p))) (p\<lparr>pay_records := pay_records p', runs := runs p'\<rparr>))"
    by (rule finalise_Inr [OF a]) blast
  note fold = set_fold_slips [of "p\<lparr>pay_records := pay_records p', runs := runs p'\<rparr>" uuid run "remdups (map pr_staff (records_of (lines_of_run run p) p))", folded sl]
  have slips: "set (payslips p) \<subseteq> set (payslips p')" "s \<in> set (payslips p') \<Longrightarrow> s \<in> set (payslips p) \<or> sl_run s = run \<and> sl_paid_at s = None" for s
    using fold by auto
  have paid: "slip_paid i staff p' = slip_paid i staff p" for i staff
  proof
    show "slip_paid i staff p' \<Longrightarrow> slip_paid i staff p" unfolding slip_paid_def using slips(2) by meson
    show "slip_paid i staff p \<Longrightarrow> slip_paid i staff p'" unfolding slip_paid_def using slips(1) by (meson subsetD)
  qed
  have keys: "keys_ok p'"
  proof -
    have k: "keys_ok p" using ok by (simp add: pay_ok_def)
    have "map pr_id (pay_records p') = map pr_id (pay_records p)" "map pr_attendance (pay_records p') = map pr_attendance (pay_records p)"
      "map rn_id (runs p') = map rn_id (runs p)" "map rn_period (runs p') = map rn_period (runs p)"
      unfolding rec rn by (simp_all add: map_update_same finalised_row_def)
    moreover have "slip_table.keyed (payslips p') \<and> distinct (map slip_key (payslips p'))"
      unfolding sl by (rule fold_slips_keys) (use k in \<open>simp_all add: keys_ok_def\<close>)
    ultimately show ?thesis using k ln by (simp add: keys_ok_def pay_table.keyed_def run_table.keyed_def)
  qed
  have unpaid: "\<not> slip_paid run staff p" for staff
  proof
    assume "slip_paid run staff p"
    then obtain s n where "s \<in> set (payslips p)" "n \<in> set (runs p)" "rn_id n = run" "rn_status n = FINALISED"
      using ok by (auto simp: slip_paid_def pay_ok_def slip_ok_def)
    then have "n = n0" using find_run_mem [OF n0(1)] run_table.keyed_unique ok by (auto simp: pay_ok_def keys_ok_def)
    then show False using n0(2) \<open>rn_status n = FINALISED\<close> by simp
  qed
  have lines: "line_ok p' l" if l: "l \<in> set (lines p')" for l
  proof -
    obtain r n where r: "r \<in> set (pay_records p)" "n \<in> set (runs p)" "line_matches l r" "rn_id n = ln_run l" "pr_status r = lined_status l n p"
      using ok l ln unfolding pay_ok_def line_ok_def by auto
    let ?r = "if ?P r then ?f r else r"
    have m1: "?r \<in> set (pay_records p')" unfolding rec by (rule mem_update_image [OF r(1)])
    have m2: "?rn n \<in> set (runs p')" unfolding rn by (rule mem_update_image [OF r(2)])
    have m3: "line_matches l ?r" using r(3) by (simp add: line_matches_def)
    have m4: "rn_id (?rn n) = ln_run l" using r(4) by (simp add: finalised_row_def)
    have ir: "in_run run p r \<longleftrightarrow> ln_run l = run"
    proof
      assume "in_run run p r"
      then obtain k where "k \<in> set (lines p)" "ln_run k = run" "ln_record k = ln_record l" using r(3) by (auto simp: in_run_def line_matches_def)
      moreover have "distinct (map ln_record (lines p))" using ok by (simp add: pay_ok_def keys_ok_def)
      ultimately show "ln_run l = run" using l ln by (metis distinct_map inj_onD)
    next
      assume "ln_run l = run"
      then show "in_run run p r" using l ln r(3) by (auto simp: in_run_def line_matches_def)
    qed
    have "pr_status ?r = lined_status l (?rn n) p'"
    proof (cases "ln_run l = run")
      case True
      then have "pr_status ?r = PR_PROCESSING" using ir all r(1) by simp
      then show ?thesis using True r(4) unpaid by (simp add: lined_status_def paid finalised_row_def)
    next
      case False
      then show ?thesis using ir r(4,5) by (simp add: lined_status_def paid)
    qed
    then show ?thesis unfolding line_ok_def using m1 m2 m3 m4 by blast
  qed
  have recs: "record_ok p' x" if x: "x \<in> set (pay_records p')" for x
  proof -
    obtain y where y: "y \<in> set (pay_records p)" "x = (if ?P y then ?f y else y)" using x unfolding rec mem_update_where by blast
    have "lined (pr_id y) p'" if "in_run run p y" using that by (auto simp: lined_def in_run_def ln)
    moreover have "record_ok p y" "record_checks x" using ok y(1) ck x by (auto simp: pay_ok_def list_all_iff)
    ultimately show ?thesis using y(2) by (auto simp: record_ok_def lined_def ln)
  qed
  have fin: "slip_ok p' s" if "s \<in> set (payslips p')" for s
  proof -
    have "\<exists>n \<in> set (runs p). rn_id n = sl_run s \<and> (rn_status n = FINALISED \<or> rn_id n = run)"
      using slips(2) [OF that] ok find_run_mem [OF n0(1)] by (auto simp: pay_ok_def slip_ok_def)
    then obtain n where "n \<in> set (runs p)" "rn_id n = sl_run s" "rn_status n = FINALISED \<or> rn_id n = run" by blast
    then have "rn_id (?rn n) = sl_run s" "rn_status (?rn n) = FINALISED" by (auto simp: finalised_row_def)
    moreover have "?rn n \<in> set (runs p')" unfolding rn by (rule mem_update_image) fact
    ultimately show ?thesis unfolding slip_ok_def by blast
  qed
  have "n \<in> set (runs p')" if "n \<in> set (runs p)" "rn_status n = FINALISED" for n
  proof -
    have "rn_id n \<noteq> run"
      using that n0(2) find_run_mem [OF n0(1)] run_table.keyed_unique [of "runs p" n n0] ok by (auto simp: pay_ok_def keys_ok_def)
    then show ?thesis using that(1) unfolding rn mem_update_where by auto
  qed
  moreover have "\<exists>r' \<in> set (pay_records p'). record_mono r r'" if "r \<in> set (pay_records p)" for r
    unfolding rec using that by (intro bexI [of _ "if ?P r then ?f r else r"]) (auto simp: mem_update_where record_mono_def figures_def decided_def)
  ultimately have "pay_mono p p'" unfolding pay_mono_def using ln slips(1) slip_mono_refl by (auto) (meson slip_mono_refl subsetD)
  moreover have "pay_ok p'" unfolding pay_ok_def using keys lines recs fin by blast
  ultimately show "pay_ok p' \<and> pay_mono p p'" by blast
qed


text \<open>The updates of a payslip: nothing but the payment may follow a payment.\<close>

lemma slip_updated:
  assumes ok: "pay_ok p" and s0: "s0 \<in> set (payslips p)" and f: "\<And>s. sl_id (f s) = sl_id s" "\<And>s. slip_key (f s) = slip_key s"
    and paid: "sl_paid_at (f s0) = sl_paid_at s0" and m: "slip_mono s0 (f s0)"
  shows "pay_ok (update_slip (sl_id s0) f p) \<and> pay_mono p (update_slip (sl_id s0) f p)"
proof -
  let ?q = "update_slip (sl_id s0) f p" and ?g = "\<lambda>s. if sl_id s = sl_id s0 then f s else s"
  have k: "keys_ok p" using ok by (simp add: pay_ok_def)
  have one: "s = s0" if "s \<in> set (payslips p)" "sl_id s = sl_id s0" for s
    using slip_table.keyed_unique that s0 k by (auto simp: keys_ok_def)
  have mem: "x \<in> set (payslips ?q) \<longleftrightarrow> (\<exists>y \<in> set (payslips p). x = ?g y)" for x by (simp add: update_slip_def mem_update_where)
  have key: "slip_key (?g s) = slip_key s" for s using f(2) by simp
  have pd: "sl_paid_at (?g s) = sl_paid_at s" if "s \<in> set (payslips p)" for s using one [OF that] paid by auto
  have sp: "slip_paid i staff ?q = slip_paid i staff p" for i staff
  proof
    assume "slip_paid i staff ?q"
    then obtain x where "x \<in> set (payslips ?q)" "slip_key x = (i, staff)" "sl_paid_at x \<noteq> None" by (auto simp: slip_paid_def slip_key_def)
    moreover from calculation(1) obtain y where y: "y \<in> set (payslips p)" "x = ?g y" unfolding mem by blast
    ultimately have "slip_key y = (i, staff)" "sl_paid_at y \<noteq> None" using key [of y] pd [OF y(1)] by simp_all
    then show "slip_paid i staff p" unfolding slip_paid_def using y(1) by (auto simp: slip_key_def)
  next
    assume "slip_paid i staff p"
    then obtain y where y: "y \<in> set (payslips p)" "slip_key y = (i, staff)" "sl_paid_at y \<noteq> None" by (auto simp: slip_paid_def slip_key_def)
    have "?g y \<in> set (payslips ?q)" unfolding mem using y(1) by blast
    moreover have "slip_key (?g y) = (i, staff)" using key [of y] y(2) by simp
    moreover have "sl_paid_at (?g y) \<noteq> None" using pd [OF y(1)] y(3) by simp
    ultimately show "slip_paid i staff ?q" unfolding slip_paid_def by (auto simp: slip_key_def)
  qed
  have same: "pay_records ?q = pay_records p" "runs ?q = runs p" "lines ?q = lines p" by (simp_all add: update_slip_def)
  have "map sl_id (payslips ?q) = map sl_id (payslips p)" "map slip_key (payslips ?q) = map slip_key (payslips p)"
    by (simp_all add: update_slip_def map_update_same f)
  then have "keys_ok ?q" using k same by (simp add: keys_ok_def slip_table.keyed_def)
  moreover have "line_ok ?q l" if "line_ok p l" for l by (rule line_ok_keep [OF that]) (simp_all add: same sp)
  moreover have "slip_ok ?q x" if x: "x \<in> set (payslips ?q)" for x
  proof -
    obtain y where "y \<in> set (payslips p)" "x = ?g y" using x [unfolded mem] by blast
    then show ?thesis using ok key [of y] by (auto simp: pay_ok_def slip_ok_def same slip_key_def)
  qed
  moreover have "record_ok ?q = record_ok p" by (rule ext) (simp add: record_ok_def lined_def same)
  ultimately have "pay_ok ?q" using ok same by (simp add: pay_ok_def)
  moreover have "\<exists>s' \<in> set (payslips ?q). slip_mono s s'" if "s \<in> set (payslips p)" for s
  proof (cases "sl_id s = sl_id s0")
    case True
    have "?g s \<in> set (payslips ?q)" unfolding mem using that by blast
    moreover have "slip_mono s (?g s)" using one [OF that True] m by simp
    ultimately show ?thesis by blast
  next
    case False
    then have "s \<in> set (payslips ?q)" unfolding mem using that by (intro bexI [of _ s]) simp_all
    then show ?thesis using slip_mono_refl by blast
  qed
  then have "pay_mono p ?q" unfolding pay_mono_def same by (simp) (meson record_mono_refl)
  ultimately show ?thesis by blast
qed

lemma lockPayslip_Inr: "lockPayslip run staff d p = Inr (s, user) \<Longrightarrow> s \<in> set (payslips p) \<and> sl_run s = run \<and> sl_staff s = staff"
  unfolding lockPayslip_def bindE_Inr_iff from_option_Inr_iff using find_Some_mem [of _ "payslips p" s] by blast

lemma setNet_safe:
  assumes "setNet may env ctx clk run staff net d p = Inr p'"
  shows "safe_step p p'"
proof -
  let ?f = "\<lambda>x. x\<lparr>sl_net := net, sl_net_by := (if net = None then None else Some (cx_user ctx)),
          sl_net_at := (if net = None then None else Some (node_now clk))\<rparr>"
  obtain s user es where s: "lockPayslip run staff d p = Inr (s, user)" and p': "p' = pay_emit es (update_slip (sl_id s) ?f p)"
    using assms unfolding setNet_def bindE_Inr_iff require_Inr_iff by (auto simp: bindE_Inr_iff)
  have "safe_step p (update_slip (sl_id s) ?f p)"
    by (rule safe_stepI, rule slip_updated) (use lockPayslip_Inr [OF s] in \<open>auto simp: slip_mono_def slip_key_def\<close>)
  then show ?thesis using p' by simp
qed

lemma uploadPayslip_safe:
  assumes "uploadPayslip may env ctx run staff sha d p = Inr p'"
  shows "safe_step p p'"
proof (cases "p' = p")
  case False
  let ?f = "\<lambda>v x. x\<lparr>sl_version := v\<rparr>"
  obtain s user es ds where s: "lockPayslip run staff d p = Inr (s, user)"
    and p': "p' = pay_emit es (update_slip (sl_id s) (?f (Suc (sl_version s))) (p\<lparr>documents := ds\<rparr>))"
    using assms False unfolding uploadPayslip_def bindE_Inr_iff require_Inr_iff Let_def by (auto split: if_splits simp: bindE_Inr_iff require_Inr_iff)
  have "safe_step (p\<lparr>documents := ds\<rparr>) (update_slip (sl_id s) (?f (Suc (sl_version s))) (p\<lparr>documents := ds\<rparr>))"
    by (rule safe_stepI, rule slip_updated) (use lockPayslip_Inr [OF s] in \<open>auto simp: slip_mono_def slip_key_def\<close>)
  moreover have "safe_step p (p\<lparr>documents := ds\<rparr>)" by (rule safe_step_core) (simp add: core_same_def)
  ultimately show ?thesis using p' safe_step_trans by simp
qed simp


definition in_slip :: "string \<Rightarrow> string \<Rightarrow> pay_db \<Rightarrow> pay_row \<Rightarrow> bool" where
  "in_slip run staff p r \<longleftrightarrow> (\<exists>l \<in> set (lines p). ln_run l = run \<and> ln_staff l = staff \<and> ln_record l = pr_id r)"

lemma records_of_slip: "r \<in> set (records_of (filter (\<lambda>l. ln_staff l = staff) (lines_of_run run p)) p) \<longleftrightarrow> r \<in> set (pay_records p) \<and> in_slip run staff p r"
  by (auto simp: records_of_def lines_of_run_def in_slip_def)

lemma id_in_slip: "x \<in> set (pay_records p) \<Longrightarrow>
  (\<exists>y \<in> set (records_of (filter (\<lambda>l. ln_staff l = staff) (lines_of_run run p)) p). pr_id y = pr_id x) \<longleftrightarrow> in_slip run staff p x"
proof -
  assume x: "x \<in> set (pay_records p)"
  have "in_slip run staff p y \<longleftrightarrow> in_slip run staff p x" if "pr_id y = pr_id x" for y using that by (simp add: in_slip_def)
  then show ?thesis using x records_of_slip by metis
qed

definition paid_row :: "auth_ctx \<Rightarrow> clock \<Rightarrow> string option \<Rightarrow> payslip_row \<Rightarrow> payslip_row" where
  "paid_row ctx clk ref s = s\<lparr>sl_paid_at := Some (tx_now clk), sl_paid_by := Some (cx_user ctx), sl_reference := text_or_null ref\<rparr>"

lemma markPaid_Inr:
  assumes "markPaid may env ctx clk run staff ref d p = Inr p'"
  obtains s n user where "find_run run p = Some n" and "rn_status n = FINALISED" and "lockPayslip run staff d p = Inr (s, user)"
    and "sl_paid_at s = None" and "user \<noteq> cx_user ctx"
    and "\<forall>r \<in> set (pay_records p). in_slip run staff p r \<longrightarrow> pr_status r = PR_PROCESSING" and "list_all record_checks (pay_records p')"
    and "pay_records p' = update_where (\<lambda>r. in_slip run staff p r \<and> pr_status r = PR_PROCESSING) (\<lambda>x. x\<lparr>pr_status := PR_PAID\<rparr>) (pay_records p)"
    and "payslips p' = update_where (\<lambda>x. sl_id x = sl_id s) (paid_row ctx clk ref) (payslips p)"
    and "runs p' = runs p" and "lines p' = lines p"
proof -
  let ?rs = "records_of (filter (\<lambda>l. ln_staff l = staff) (lines_of_run run p)) p"
  let ?P = "\<lambda>x. (\<exists>y \<in> set ?rs. pr_id y = pr_id x) \<and> pr_status x = PR_PROCESSING" and ?f = "\<lambda>x. x\<lparr>pr_status := PR_PAID\<rparr>"
  let ?p = "\<lambda>s. update_slip (sl_id s) (paid_row ctx clk ref) (p\<lparr>pay_records := update_where ?P ?f (pay_records p)\<rparr>)"
  have pr: "paid_row ctx clk ref = (\<lambda>x. x\<lparr>sl_paid_at := Some (tx_now clk), sl_paid_by := Some (cx_user ctx), sl_reference := text_or_null ref\<rparr>)"
    by (rule ext) (simp add: paid_row_def)
  have "\<exists>n s user es. find_run run p = Some n \<and> rn_status n = FINALISED \<and> lockPayslip run staff d p = Inr (s, user) \<and> sl_paid_at s = None
      \<and> user \<noteq> cx_user ctx \<and> assert_records ?rs PR_PAID = Inr () \<and> list_all record_checks (update_where ?P ?f (pay_records p)) \<and> p' = pay_emit es (?p s)"
    using assms unfolding markPaid_def Let_def bindE_Inr_iff require_Inr_iff lockRun_def from_option_Inr_iff pr
    by (auto simp: bindE_Inr_iff require_Inr_iff update_records_Inr)
  then obtain n s user es where n: "find_run run p = Some n" "rn_status n = FINALISED" and s: "lockPayslip run staff d p = Inr (s, user)"
      "sl_paid_at s = None" "user \<noteq> cx_user ctx" and ar: "assert_records ?rs PR_PAID = Inr ()"
      and ck: "list_all record_checks (update_where ?P ?f (pay_records p))" and p': "p' = pay_emit es (?p s)" by blast
  have all: "\<forall>r \<in> set (pay_records p). in_slip run staff p r \<longrightarrow> pr_status r = PR_PROCESSING"
  proof (intro ballI impI)
    fix r assume "r \<in> set (pay_records p)" and "in_slip run staff p r"
    then have "r \<in> set ?rs" by (simp add: records_of_slip)
    then have "assertRecord (pr_status r) PR_PAID = Inr ()" using ar assert_records_Inr by blast
    then show "pr_status r = PR_PROCESSING" by (rule assert_paid)
  qed
  have eq: "update_where ?P ?f (pay_records p) = update_where (\<lambda>r. in_slip run staff p r \<and> pr_status r = PR_PROCESSING) ?f (pay_records p)"
    by (rule update_where_cong) (simp add: id_in_slip)
  have rec: "pay_records p' = update_where ?P ?f (pay_records p)" and o': "runs p' = runs p" "lines p' = lines p"
    and sl: "payslips p' = update_where (\<lambda>x. sl_id x = sl_id s) (paid_row ctx clk ref) (payslips p)"
    by (simp_all add: p' pay_emit_def update_slip_def)
  show ?thesis by (rule that [OF n s all _ _ sl o']) (use ck rec eq in simp_all)
qed


lemma markPaid_safe:
  assumes a: "markPaid may env ctx clk run staff ref d p = Inr p'"
  shows "safe_step p p'"
proof (rule safe_stepI)
  assume ok: "pay_ok p"
  let ?P = "\<lambda>r. in_slip run staff p r \<and> pr_status r = PR_PROCESSING" and ?f = "\<lambda>x. x\<lparr>pr_status := PR_PAID\<rparr>"
  obtain s0 n0 user where n0: "find_run run p = Some n0" "rn_status n0 = FINALISED" and lp: "lockPayslip run staff d p = Inr (s0, user)"
    and un: "sl_paid_at s0 = None" and all: "\<forall>r \<in> set (pay_records p). in_slip run staff p r \<longrightarrow> pr_status r = PR_PROCESSING"
    and ck: "list_all record_checks (pay_records p')" and rec: "pay_records p' = update_where ?P ?f (pay_records p)"
    and sl: "payslips p' = update_where (\<lambda>x. sl_id x = sl_id s0) (paid_row ctx clk ref) (payslips p)"
    and rn: "runs p' = runs p" and ln: "lines p' = lines p"
    by (rule markPaid_Inr [OF a]) blast
  let ?g = "\<lambda>s. if sl_id s = sl_id s0 then paid_row ctx clk ref s else s"
  have k: "keys_ok p" using ok by (simp add: pay_ok_def)
  have s0: "s0 \<in> set (payslips p)" "sl_run s0 = run" "sl_staff s0 = staff" using lockPayslip_Inr [OF lp] by auto
  have one: "s = s0" if "s \<in> set (payslips p)" "sl_id s = sl_id s0" for s
    using slip_table.keyed_unique that s0(1) k by (auto simp: keys_ok_def)
  have mem: "x \<in> set (payslips p') \<longleftrightarrow> (\<exists>y \<in> set (payslips p). x = ?g y)" for x unfolding sl mem_update_where ..
  have key: "slip_key (?g s) = slip_key s" for s by (simp add: paid_row_def slip_key_def)
  have now: "slip_paid run staff p'"
  proof -
    have "?g s0 \<in> set (payslips p')" unfolding mem using s0(1) by blast
    then show ?thesis unfolding slip_paid_def using s0 by (intro bexI [of _ "?g s0"]) (simp_all add: paid_row_def)
  qed
  have other: "slip_paid i st p' = slip_paid i st p" if ne: "(i, st) \<noteq> (run, staff)" for i st
  proof
    assume "slip_paid i st p'"
    then obtain x where x: "x \<in> set (payslips p')" "slip_key x = (i, st)" "sl_paid_at x \<noteq> None" by (auto simp: slip_paid_def slip_key_def)
    obtain y where y: "y \<in> set (payslips p)" "x = ?g y" using x(1) unfolding mem by blast
    then have "slip_key y = (i, st)" using x(2) key by metis
    then have "y \<noteq> s0" using ne s0 by (auto simp: slip_key_def)
    then have "x = y" using one y by auto
    then show "slip_paid i st p" unfolding slip_paid_def using x y(1) by (auto simp: slip_key_def)
  next
    assume "slip_paid i st p"
    then obtain y where y: "y \<in> set (payslips p)" "slip_key y = (i, st)" "sl_paid_at y \<noteq> None" by (auto simp: slip_paid_def slip_key_def)
    have "?g y \<in> set (payslips p')" unfolding mem using y(1) by blast
    moreover have "y \<noteq> s0" using ne s0 y(2) by (auto simp: slip_key_def)
    then have "?g y = y" using one y(1) by auto
    ultimately show "slip_paid i st p'" unfolding slip_paid_def using y by (auto simp: slip_key_def)
  qed
  have keys: "keys_ok p'"
  proof -
    have "map pr_id (pay_records p') = map pr_id (pay_records p)" "map pr_attendance (pay_records p') = map pr_attendance (pay_records p)"
      "map sl_id (payslips p') = map sl_id (payslips p)" "map slip_key (payslips p') = map slip_key (payslips p)"
      unfolding rec sl by (simp_all add: map_update_same paid_row_def slip_key_def)
    then show ?thesis using k ln rn by (simp add: keys_ok_def pay_table.keyed_def slip_table.keyed_def)
  qed
  have lines: "line_ok p' l" if l: "l \<in> set (lines p')" for l
  proof -
    obtain r n where r: "r \<in> set (pay_records p)" "n \<in> set (runs p)" "line_matches l r" "rn_id n = ln_run l" "pr_status r = lined_status l n p"
      using ok l ln unfolding pay_ok_def line_ok_def by auto
    let ?r = "if ?P r then ?f r else r"
    have m1: "?r \<in> set (pay_records p')" unfolding rec by (rule mem_update_image [OF r(1)])
    have m2: "n \<in> set (runs p')" using r(2) rn by simp
    have m3: "line_matches l ?r" using r(3) by (simp add: line_matches_def)
    have ir: "in_slip run staff p r \<longleftrightarrow> (ln_run l, ln_staff l) = (run, staff)"
    proof
      assume "in_slip run staff p r"
      then obtain j where j: "j \<in> set (lines p)" "ln_run j = run" "ln_staff j = staff" "ln_record j = ln_record l" using r(3) by (auto simp: in_slip_def line_matches_def)
      moreover have "distinct (map ln_record (lines p))" using k by (simp add: keys_ok_def)
      ultimately have "j = l" using l ln by (metis distinct_map inj_onD)
      then show "(ln_run l, ln_staff l) = (run, staff)" using j by simp
    next
      assume "(ln_run l, ln_staff l) = (run, staff)"
      then show "in_slip run staff p r" using l ln r(3) by (auto simp: in_slip_def line_matches_def)
    qed
    have "pr_status ?r = lined_status l n p'"
    proof (cases "(ln_run l, ln_staff l) = (run, staff)")
      case True
      then have "n = n0" using r(2,4) find_run_mem [OF n0(1)] run_table.keyed_unique k by (auto simp: keys_ok_def)
      then show ?thesis using True ir all r(1) now n0(2) by (simp add: lined_status_def)
    next
      case False
      then have "\<not> in_slip run staff p r" using ir by blast
      then show ?thesis using r(5) other [OF False] by (simp add: lined_status_def)
    qed
    then show ?thesis unfolding line_ok_def using m1 m2 m3 r(4) by blast
  qed
  have recs: "record_ok p' x" if x: "x \<in> set (pay_records p')" for x
  proof -
    obtain y where y: "y \<in> set (pay_records p)" "x = (if ?P y then ?f y else y)" using x unfolding rec mem_update_where by blast
    moreover have "record_ok p y" "record_checks x" using ok y(1) ck x by (auto simp: pay_ok_def list_all_iff)
    ultimately show ?thesis by (auto simp: record_ok_def lined_def ln)
  qed
  have fin: "slip_ok p' x" if x: "x \<in> set (payslips p')" for x
  proof -
    obtain y where "y \<in> set (payslips p)" "x = ?g y" using x unfolding mem by blast
    then show ?thesis using ok key [of y] by (auto simp: pay_ok_def slip_ok_def rn slip_key_def)
  qed
  have "\<exists>r' \<in> set (pay_records p'). record_mono r r'" if "r \<in> set (pay_records p)" for r
    unfolding rec using that by (intro bexI [of _ "if ?P r then ?f r else r"] mem_update_image) (auto simp: record_mono_def figures_def decided_def)
  moreover have "\<exists>s' \<in> set (payslips p'). slip_mono s s'" if s: "s \<in> set (payslips p)" for s
  proof -
    have "?g s \<in> set (payslips p')" unfolding mem using s by blast
    moreover have "slip_mono s (?g s)" using one [OF s] un by (auto simp: slip_mono_def paid_row_def slip_key_def)
    ultimately show ?thesis by blast
  qed
  ultimately have "pay_mono p p'" unfolding pay_mono_def using ln rn by simp
  moreover have "pay_ok p'" unfolding pay_ok_def using keys lines recs fin by blast
  ultimately show "pay_ok p' \<and> pay_mono p p'" by blast
qed

text \<open>
  The calendar: active periods are disjoint, and a run keeps its period. Only an import changes the periods, only a
  preparation adds a run.
\<close>

definition periods_ok :: "pay_db \<Rightarrow> bool" where
  "periods_ok p \<longleftrightarrow> distinct (map pp_id (periods p)) \<and> (\<forall>q \<in> set (periods p). pp_start q \<le> pp_end q)
     \<and> (\<forall>a \<in> set (periods p). \<forall>b \<in> set (periods p). pp_active a \<longrightarrow> pp_active b \<longrightarrow> a \<noteq> b \<longrightarrow> \<not> period_overlaps a b)
     \<and> (\<forall>n \<in> set (runs p). \<exists>q \<in> set (periods p). pp_id q = rn_period n)"

text \<open>Every step is safe, so every history is.\<close>

lemma pay_step_safe: "pay_step p p' \<Longrightarrow> safe_step p p'"
  by (erule pay_step_cases)
    (blast intro: import_calendar_safe createPendingForShift_safe approve_safe bulkApprove_safe retryStatement_safe reject_safe
      worker_statement_safe prepare_safe finalise_safe uploadPayslip_safe setNet_safe markPaid_safe)+

lemma pay_history_safe: "pay_step\<^sup>*\<^sup>* p p' \<Longrightarrow> safe_step p p'"
  by (induction rule: rtranclp_induct) (simp, blast intro: safe_step_trans pay_step_safe)

lemma pay_history_ok: "pay_step\<^sup>*\<^sup>* empty_payroll p \<Longrightarrow> pay_ok p"
  using pay_history_safe [of empty_payroll p] pay_ok_empty by (simp add: safe_step_def)

end
