(* ===== verification/PayrollCalendar.thy ===== *)
theory PayrollCalendar
  imports PayrollSteps
begin

text \<open>The calendar along a history of payroll transactions: what only an import and a preparation can change.\<close>

section \<open>The calendar along a history\<close>

definition same_calendar :: "pay_db \<Rightarrow> pay_db \<Rightarrow> bool" where
  "same_calendar p p' \<longleftrightarrow> periods p' = periods p \<and> map rn_period (runs p') = map rn_period (runs p)"

lemma same_calendar_ok: "same_calendar p p' \<Longrightarrow> periods_ok p \<Longrightarrow> periods_ok p'"
proof -
  assume s: "same_calendar p p'" and ok: "periods_ok p"
  have "rn_period ` set (runs p') = rn_period ` set (runs p)" using s unfolding same_calendar_def by (metis list.set_map)
  then have "\<exists>m \<in> set (runs p). rn_period n = rn_period m" if "n \<in> set (runs p')" for n using that by (metis image_eqI imageE)
  then show ?thesis using s ok unfolding periods_ok_def same_calendar_def by metis
qed

lemma same_calendar_emit [simp]: "same_calendar p (pay_emit es p') = same_calendar p p'"
  by (simp add: same_calendar_def pay_emit_def)

lemma update_records_calendar: "update_records P f p = Inr p' \<Longrightarrow> same_calendar p p'"
  by (auto simp: update_records_Inr same_calendar_def)

lemma applyApproval_calendar: "applyApproval ctx clk ids p = Inr p' \<Longrightarrow> same_calendar p p'"
  by (auto simp: applyApproval_def Let_def bindE_Inr_iff dest: update_records_calendar)

lemma same_calendar_refl [simp]: "same_calendar p p"
  by (simp add: same_calendar_def)

lemma add_records_calendar: "add_records uuid rows p = Inr p' \<Longrightarrow> same_calendar p p'"
proof (induction uuid rows p rule: add_records.induct)
  case (2 uuid t a rest p)
  then obtain m w q where q: "insert_record (pending_record (uuid (at_id t)) t m (sa_pay_snapshot a) w) p = Inr q" and r: "add_records uuid rest q = Inr p'"
    by (auto simp: bindE_Inr_iff split: prod.splits)
  have "same_calendar p q" using q by (auto simp: insert_record_def same_calendar_def split: if_splits)
  then show ?case using 2(1) [OF r] by (simp add: same_calendar_def)
qed simp

lemma decision_calendar:
  "approve may env ctx clk i d p = Inr p' \<Longrightarrow> same_calendar p p'"
  "bulkApprove may env ctx clk ids d p = Inr (p', a, b) \<Longrightarrow> same_calendar p p'"
  "retryStatement may env ctx i d p = Inr p' \<Longrightarrow> same_calendar p p'"
  "reject may env ctx clk i reason d p = Inr p' \<Longrightarrow> same_calendar p p'"
  "worker_statement i st n p = Inr p' \<Longrightarrow> same_calendar p p'"
  "createPendingForShift ctx sid uuid d p = Inr (p', m) \<Longrightarrow> same_calendar p p'"
  subgoal by (auto simp: approve_def bindE_Inr_iff split: prod.splits intro: applyApproval_calendar)
  subgoal by (auto simp: bulkApprove_def Let_def bindE_Inr_iff split: if_splits intro: applyApproval_calendar)
  subgoal by (auto simp: retryStatement_def bindE_Inr_iff dest: update_records_calendar)
  subgoal by (auto simp: reject_def Let_def bindE_Inr_iff split: prod.splits dest: update_records_calendar)
  subgoal by (auto simp: worker_statement_def Let_def same_calendar_def split: if_splits)
  subgoal by (auto simp: createPendingForShift_def Let_def bindE_Inr_iff split: if_splits intro: add_records_calendar)
  done

lemma slip_calendar:
  "setNet may env ctx clk run staff net d p = Inr p' \<Longrightarrow> same_calendar p p'"
  "uploadPayslip may env ctx run staff sha d p = Inr p' \<Longrightarrow> same_calendar p p'"
  subgoal by (auto simp: setNet_def bindE_Inr_iff same_calendar_def pay_emit_def update_slip_def split: prod.splits)
  subgoal by (auto simp: uploadPayslip_def Let_def bindE_Inr_iff same_calendar_def pay_emit_def update_slip_def split: prod.splits if_splits)
  done

lemma fold_slips_periods [simp]: "periods (fold (\<lambda>staff q. insert_payslip (uuid staff) run staff q) ss p) = periods p"
  by (induction ss arbitrary: p) (simp_all add: insert_payslip_def)

lemma finalise_calendar:
  assumes "finalise may env ctx clk run uuid d p = Inr p'"
  shows "same_calendar p p'"
proof -
  have "periods p' = periods p"
    using assms unfolding finalise_def Let_def bindE_Inr_iff update_records_Inr by (auto simp: pay_emit_def)
  moreover have "map rn_period (runs p') = map rn_period (runs p)"
    by (rule finalise_Inr [OF assms]) (simp add: map_update_same finalised_row_def)
  ultimately show ?thesis by (simp add: same_calendar_def)
qed

lemma markPaid_calendar:
  assumes "markPaid may env ctx clk run staff ref d p = Inr p'"
  shows "same_calendar p p'"
proof -
  have "periods p' = periods p"
    using assms unfolding markPaid_def Let_def bindE_Inr_iff update_records_Inr by (auto simp: bindE_Inr_iff update_records_Inr pay_emit_def update_slip_def)
  moreover have "map rn_period (runs p') = map rn_period (runs p)"
    by (rule markPaid_Inr [OF assms]) simp
  ultimately show ?thesis by (simp add: same_calendar_def)
qed

lemma add_lines_calendar: "add_lines ctx run periodId xs p = Inr p' \<Longrightarrow> same_calendar p p'"
proof (induction ctx run periodId xs p rule: add_lines.induct)
  case (2 ctx run periodId x xs p)
  show ?case
  proof (cases "allocated_to periodId (snd x)")
    case True
    then obtain q where q: "insert_line (line_for run x) p = Inr q"
      and r: "add_lines ctx run periodId xs
        (if ln_late (line_for run x) then pay_emit [PayAudit PAYROLL_LATE_CARRIED_FORWARD (pr_id (fst x)) (audit_actor ctx)] q else q) = Inr p'"
      using 2(3) by (auto simp: bindE_Inr_iff split del: if_split)
    have "same_calendar p q" using q by (auto simp: insert_line_def same_calendar_def split: if_splits)
    then show ?thesis using 2(2) [OF _ r] True by (auto simp: same_calendar_def pay_emit_def split: if_splits)
  qed (use 2 in simp)
qed simp

lemma prepare_periods:
  assumes a: "prepare may env london ctx periodId newRun d p = Inr (p', run)" and ok: "periods_ok p"
  shows "periods_ok p'"
proof -
  obtain n p1 p2 es where q: "\<exists>q \<in> set (periods p). pp_id q = periodId \<and> pp_active q" and n: "rn_period n = periodId"
    and 1: "p1 = p \<or> run_of_period periodId p = None \<and> insert_run n p = Inr p1"
    and 2: "add_lines ctx run periodId (candidates london d p1) p1 = Inr p2" and 3: "p' = pay_emit es p2"
    by (rule prepare_Inr [OF a]) blast
  have "periods_ok p1" using 1 ok q n by (auto simp: insert_run_def periods_ok_def split: if_splits)
  then have "periods_ok p2" by (rule same_calendar_ok [OF add_lines_calendar [OF 2]])
  then show ?thesis using 3 by (simp add: periods_ok_def pay_emit_def)
qed

lemma insert_period_ok: "insert_period q p = Inr p' \<Longrightarrow> periods_ok p \<Longrightarrow> periods_ok p'"
  by (auto simp: insert_period_def periods_ok_def period_overlaps_def split: if_splits) blast+

lemma insert_periods_ok: "insert_periods qs p = Inr p' \<Longrightarrow> periods_ok p \<Longrightarrow> periods_ok p'"
  by (induction qs arbitrary: p) (auto simp: bindE_Inr_iff intro: insert_period_ok)


lemma run_has_period: "periods_ok p \<Longrightarrow> n \<in> set (runs p) \<Longrightarrow> \<exists>q \<in> set (periods p). pp_id q = rn_period n"
  by (simp add: periods_ok_def)

lemma active_disjoint:
  "periods_ok p \<Longrightarrow> a \<in> set (periods p) \<Longrightarrow> b \<in> set (periods p) \<Longrightarrow> pp_active a \<Longrightarrow> pp_active b \<Longrightarrow> period_overlaps a b \<Longrightarrow> a = b"
  unfolding periods_ok_def by blast

lemma deactivate_year_ok: "periods_ok p \<Longrightarrow> periods_ok (deactivate_year y p)"
proof (cases "find (\<lambda>c. pc_year c = y \<and> pc_active c) (calendars p)")
  case (Some c)
  assume ok: "periods_ok p"
  let ?P = "\<lambda>q. pp_calendar q = pc_id c" and ?f = "\<lambda>q. q\<lparr>pp_active := False\<rparr>"
  have per: "periods (deactivate_year y p) = update_where ?P ?f (periods p)" "runs (deactivate_year y p) = runs p" by (simp_all add: deactivate_year_def Some)
  have same: "map pp_id (update_where ?P ?f (periods p)) = map pp_id (periods p)" by (rule map_update_same) simp
  then have ids: "pp_id ` set (update_where ?P ?f (periods p)) = pp_id ` set (periods p)" by (metis list.set_map)
  have "distinct (map pp_id (update_where ?P ?f (periods p)))" using ok by (simp only: same periods_ok_def)
  moreover have "pp_start q \<le> pp_end q" if q: "q \<in> set (update_where ?P ?f (periods p))" for q
    using q ok unfolding mem_update_where periods_ok_def by (auto simp del: period_overlaps_def)
  moreover have "\<not> period_overlaps a b" if a: "a \<in> set (update_where ?P ?f (periods p))" "b \<in> set (update_where ?P ?f (periods p))"
    and "pp_active a" "pp_active b" "a \<noteq> b" for a b
  proof -
    have "a \<in> set (periods p)" "b \<in> set (periods p)" using a that(3,4) unfolding mem_update_where by (auto split: if_splits)
    then show ?thesis using active_disjoint [OF ok] that(3-5) by blast
  qed
  moreover have "\<exists>q \<in> set (update_where ?P ?f (periods p)). pp_id q = rn_period n" if n: "n \<in> set (runs p)" for n
  proof -
    obtain q where "q \<in> set (periods p)" "pp_id q = rn_period n" using run_has_period [OF ok n] by blast
    then have "rn_period n \<in> pp_id ` set (update_where ?P ?f (periods p))" unfolding ids by (metis image_eqI)
    then show ?thesis by auto
  qed
  ultimately show ?thesis unfolding periods_ok_def per by blast
qed (simp add: deactivate_year_def)

lemma import_calendar_periods:
  assumes a: "import_calendar may initial env ctx dto cal uuid d p = Inr (p', applied, report)" and ok: "periods_ok p"
  shows "periods_ok p'"
proof (cases "im_dry_run dto")
  case True
  then have "p' = p" using a by (auto simp: import_calendar_def Let_def bindE_Inr_iff)
  then show ?thesis using ok by simp
next
  case False
  obtain c p1 p2 es where 1: "insert_calendar c (deactivate_year (im_year dto) p) = Inr p1"
    and 2: "insert_periods (map (period_of_dto cal uuid) (sort_key dp_start (im_periods dto))) p1 = Inr p2" and 3: "p' = pay_emit es p2"
    by (rule import_calendar_Inr [OF a False]) blast
  have "periods_ok p1" using deactivate_year_ok [OF ok, of "im_year dto"] 1 by (auto simp: insert_calendar_def periods_ok_def split: if_splits)
  then have "periods_ok p2" by (rule insert_periods_ok [OF 2])
  then show ?thesis using 3 by (simp add: periods_ok_def pay_emit_def)
qed

lemma pay_step_periods: "pay_step p p' \<Longrightarrow> periods_ok p \<Longrightarrow> periods_ok p'"
  by (erule pay_step_cases)
    (blast intro: import_calendar_periods prepare_periods same_calendar_ok decision_calendar slip_calendar finalise_calendar markPaid_calendar)+

lemma pay_history_periods: "pay_step\<^sup>*\<^sup>* empty_payroll p \<Longrightarrow> periods_ok p"
proof (induction rule: rtranclp_induct)
  case base
  show ?case by (simp add: periods_ok_def empty_payroll_def)
qed (rule pay_step_periods)

end
