(* ===== verification/PayrollSample.thy ===== *)
theory PayrollSample
  imports PayrollCalendar CorrectionProperties
begin

text \<open>A sample payroll of one worked shift, from the calendar to the payment, to witness the properties of \<open>PayrollProperties\<close>.\<close>

text \<open>Ann's shift of \<open>CorrectionProperties\<close>, worked and reviewed, in the fortnight of days 20450 to 20463 (5 January 2026 is day 20458).\<close>

definition reviewed_day :: db where
  "reviewed_day = worked_day\<lparr>assignments := [(sample_seat ''a1'' ''ann'' A_COMPLETED)\<lparr>sa_reviewed_at := Some 54000000, sa_reviewed_by := Some ''mgr''\<rparr>]\<rparr>"

definition fortnights :: import_dto where
  "fortnights = \<lparr>im_year = 2026, im_source = ''agency'', im_notes = None, im_dry_run = False,
     im_periods = [\<lparr>dp_start = 20450, dp_end = 20463, dp_payday = 20470, dp_note = None, dp_needs_confirmation = False\<rparr>,
                   \<lparr>dp_start = 20464, dp_end = 20477, dp_payday = 20484, dp_note = None, dp_needs_confirmation = False\<rparr>]\<rparr>"

definition january :: "int \<Rightarrow> int \<times> int \<times> int" where
  "january t = (2026, 1, 5)"

fun first_or_second :: "string \<Rightarrow> string \<Rightarrow> int \<Rightarrow> string" where
  "first_or_second a b start = (if start = 20450 then a else b)"

definition pay_now :: clock where "pay_now = sample_clock 90000000"

text \<open>The tables after each transaction, written out.\<close>

definition fortnight_rows :: "string \<Rightarrow> string \<Rightarrow> string \<Rightarrow> bool \<Rightarrow> period_row list" where
  "fortnight_rows cal a b on =
     [\<lparr>pp_id = a, pp_calendar = cal, pp_start = 20450, pp_end = 20463, pp_payday = 20470, pp_note = None, pp_needs_confirmation = False, pp_active = on\<rparr>,
      \<lparr>pp_id = b, pp_calendar = cal, pp_start = 20464, pp_end = 20477, pp_payday = 20484, pp_note = None, pp_needs_confirmation = False, pp_active = on\<rparr>]"

definition year_row :: "string \<Rightarrow> int \<Rightarrow> bool \<Rightarrow> calendar_row" where
  "year_row i v on = \<lparr>pc_id = i, pc_year = 2026, pc_version = v, pc_source = ''agency'', pc_active = on, pc_notes = None, pc_created_by = ''mgr''\<rparr>"

definition ann_pending :: pay_row where
  "ann_pending = \<lparr>pr_id = ''rect1'', pr_attendance = ''t1'', pr_shift = ''s'', pr_staff = ''ann'', pr_status = PR_PENDING_APPROVAL, pr_minutes = 210,
     pr_rate = 1200, pr_amount = 4200, pr_approved_at = None, pr_approved_by = None, pr_rejected_at = None, pr_rejected_by = None,
     pr_rejection_reason = None, pr_statement = ST_NONE, pr_attempts = 0\<rparr>"

definition ann_decided :: "payroll_record_status \<Rightarrow> pay_row" where
  "ann_decided st = ann_pending\<lparr>pr_status := st, pr_approved_at := Some 90000000, pr_approved_by := Some ''mgr'', pr_statement := ST_PENDING\<rparr>"

definition january_run :: "run_status \<Rightarrow> run_row" where
  "january_run st = \<lparr>rn_id = ''run1'', rn_period = ''p1'', rn_status = st, rn_prepared_by = ''mgr'',
     rn_finalised_at = (if st = FINALISED then Some 90000000 else None), rn_finalised_by = (if st = FINALISED then Some ''mgr'' else None)\<rparr>"

definition ann_line :: line_row where
  "ann_line = \<lparr>ln_run = ''run1'', ln_record = ''rect1'', ln_staff = ''ann'', ln_work_date = 20458, ln_original = None, ln_late = False,
     ln_minutes = 210, ln_rate = 1200, ln_amount = 4200\<rparr>"

definition ann_slip :: payslip_row where
  "ann_slip = \<lparr>sl_id = ''slipann'', sl_run = ''run1'', sl_staff = ''ann'', sl_version = 0, sl_net = None, sl_net_by = None, sl_net_at = None,
     sl_paid_at = None, sl_paid_by = None, sl_reference = None\<rparr>"

definition pay1 :: pay_db where
  "pay1 = empty_payroll\<lparr>calendars := [year_row ''c1'' 1 True], periods := fortnight_rows ''c1'' ''p1'' ''p2'' True,
     pay_events := [PayAudit PAYROLL_CALENDAR_IMPORTED ''c1'' (Some ''mgr'')]\<rparr>"

definition pay2 :: pay_db where
  "pay2 = pay_emit [PayRealtime ''payroll.record_changed'' ''s''] (pay1\<lparr>pay_records := [ann_pending]\<rparr>)"

definition pay3 :: pay_db where
  "pay3 = pay_emit [PayAudit PAYROLL_RECORD_APPROVED ''rect1'' (Some ''mgr''), PayRealtime ''payroll.record_changed'' ''rect1'']
     (pay2\<lparr>pay_records := [ann_decided PR_APPROVED]\<rparr>)"

definition pay4 :: pay_db where
  "pay4 = pay_emit [PayAudit PAYROLL_RUN_PREPARED ''run1'' (Some ''mgr'')] (pay3\<lparr>runs := [january_run PREPARED], lines := [ann_line]\<rparr>)"

definition pay5 :: pay_db where
  "pay5 = pay_emit [PayAudit PAYROLL_RUN_FINALISED ''run1'' (Some ''mgr''), PayRealtime ''payroll.record_changed'' ''run1'']
     (pay4\<lparr>pay_records := [ann_decided PR_PROCESSING], runs := [january_run FINALISED], payslips := [ann_slip]\<rparr>)"

definition pay6 :: pay_db where
  "pay6 = pay_emit [PayAudit PAYSLIP_MARKED_PAID ''slipann'' (Some ''mgr''), PayRealtime ''payroll.record_changed'' ''slipann'']
     (pay5\<lparr>pay_records := [ann_decided PR_PAID], payslips := [ann_slip\<lparr>sl_paid_at := Some 90000000, sl_paid_by := Some ''mgr''\<rparr>]\<rparr>)"

definition pay7 :: pay_db where
  "pay7 = pay_emit [PayAudit PAYROLL_CALENDAR_IMPORTED ''c2'' (Some ''mgr'')]
     (pay6\<lparr>calendars := [year_row ''c1'' 1 False, year_row ''c2'' 2 True],
       periods := fortnight_rows ''c1'' ''p1'' ''p2'' False @ fortnight_rows ''c2'' ''p3'' ''p4'' True\<rparr>)"

text \<open>The staffing tables after the shift report is finalised.\<close>

definition approved_day :: db where
  "approved_day = emit [Audit ATTENDANCE_REPORT_FINALISED ''s'' (Some ''mgr'')]
     (reviewed_day\<lparr>attendances := map (updated (\<lambda>t. t\<lparr>at_status := AT_APPROVED\<rparr>)) (attendances reviewed_day),
        reports := [\<lparr>rp_shift = ''s'', rp_status = ''finalised'', rp_finalised_at = Some 90000000, rp_finalised_by = Some ''mgr'', rp_signed_off = None\<rparr>]\<rparr>)"

lemma sample_payroll:
  "import_calendar True True site_env sample_ctx fortnights ''c1'' (first_or_second ''p1'' ''p2'') reviewed_day empty_payroll
     = Inr (pay1, True, validateCalendarPeriods (im_periods fortnights))"
  "createPendingForShift sample_ctx ''s'' (\<lambda>i. ''rec'' @ i) approved_day pay1 = Inr (pay2, 1)"
  "approve True site_env sample_ctx pay_now ''rect1'' approved_day pay2 = Inr pay3"
  "prepare True site_env january sample_ctx ''p1'' ''run1'' approved_day pay3 = Inr (pay4, ''run1'')"
  "finalise True site_env sample_ctx pay_now ''run1'' (\<lambda>i. ''slip'' @ i) approved_day pay4 = Inr pay5"
  "markPaid True site_env sample_ctx pay_now ''run1'' ''ann'' None approved_day pay5 = Inr pay6"
  "import_calendar True True site_env sample_ctx fortnights ''c2'' (first_or_second ''p3'' ''p4'') reviewed_day pay6
     = Inr (pay7, True, validateCalendarPeriods (im_periods fortnights))"
  by (code_simp)+

lemma sample_report: "finaliseReport site_env sample_ctx pay_now ''s'' (None, None) (\<lambda>i. ''rec'' @ i) reviewed_day reviewed_day pay1 = Inr (approved_day, pay2)"
  by code_simp

lemma sample_history: "pay_step\<^sup>*\<^sup>* empty_payroll pay4" "pay_step\<^sup>*\<^sup>* empty_payroll pay5" "pay_step\<^sup>*\<^sup>* pay5 pay6"
  "pay_step\<^sup>*\<^sup>* empty_payroll pay6" "pay_step\<^sup>*\<^sup>* empty_payroll pay2" "pay_step\<^sup>*\<^sup>* empty_payroll pay3"
proof -
  have 1: "pay_step empty_payroll pay1" by (rule st_import [OF sample_payroll(1)])
  have 2: "pay_step pay1 pay2" by (rule st_create [OF sample_payroll(2)])
  have 3: "pay_step pay2 pay3" by (rule st_approve [OF sample_payroll(3)])
  have 4: "pay_step pay3 pay4" by (rule st_prepare [OF sample_payroll(4)])
  have 5: "pay_step pay4 pay5" by (rule st_finalise [OF sample_payroll(5)])
  have 6: "pay_step pay5 pay6" by (rule st_paid [OF sample_payroll(6)])
  show c: "pay_step\<^sup>*\<^sup>* empty_payroll pay2" by (rule converse_rtranclp_into_rtranclp [OF 1 r_into_rtranclp [of pay_step, OF 2]])
  show e: "pay_step\<^sup>*\<^sup>* empty_payroll pay3" by (rule rtranclp.rtrancl_into_rtrancl [OF c 3])
  show a: "pay_step\<^sup>*\<^sup>* empty_payroll pay4" by (rule rtranclp.rtrancl_into_rtrancl [OF e 4])
  show b: "pay_step\<^sup>*\<^sup>* empty_payroll pay5" by (rule rtranclp.rtrancl_into_rtrancl [OF a 5])
  show "pay_step\<^sup>*\<^sup>* pay5 pay6" by (rule r_into_rtranclp [of pay_step, OF 6])
  show "pay_step\<^sup>*\<^sup>* empty_payroll pay6" by (rule rtranclp.rtrancl_into_rtrancl [OF b 6])
qed

end
