(* ===== verification/PayrollProperties.thy ===== *)
theory PayrollProperties
  imports PayrollSample "HOL-Library.Multiset"
begin

text \<open>The properties of payroll: what is paid, what is frozen, what a preparation takes, and the calendar.\<close>

section \<open>What is paid\<close>

lemma filter_keyed: "distinct (map f t) \<Longrightarrow> x \<in> set t \<Longrightarrow> f x = k \<Longrightarrow> filter (\<lambda>y. f y = k) t = [x]"
  using filter_key [of f t x] by blast

text \<open>A record, its line and the run of the line.\<close>

lemma line_record:
  assumes "pay_ok p" and "l \<in> set (lines p)"
  obtains r n where "r \<in> set (pay_records p)" and "n \<in> set (runs p)" and "line_matches l r" and "rn_id n = ln_run l" and "pr_status r = lined_status l n p"
  using assms unfolding pay_ok_def line_ok_def by blast

lemma paid_slip_final: "pay_ok p \<Longrightarrow> slip_paid i staff p \<Longrightarrow> run_final i p"
  unfolding pay_ok_def slip_ok_def slip_paid_def run_final_def by blast

lemma line_of_record:
  assumes ok: "pay_ok p" and r: "r \<in> set (pay_records p)" and l: "l \<in> set (lines p)" "ln_record l = pr_id r"
  shows "line_matches l r" and "\<exists>n \<in> set (runs p). rn_id n = ln_run l \<and> pr_status r = lined_status l n p"
proof -
  obtain x n where x: "x \<in> set (pay_records p)" "n \<in> set (runs p)" "line_matches l x" "rn_id n = ln_run l" "pr_status x = lined_status l n p"
    by (rule line_record [OF ok l(1)])
  have "x = r" using pay_table.keyed_unique [of "pay_records p" x r] ok x(1,3) r l(2) by (simp add: pay_ok_def keys_ok_def line_matches_def)
  then show "line_matches l r" "\<exists>n \<in> set (runs p). rn_id n = ln_run l \<and> pr_status r = lined_status l n p" using x by auto
qed

lemma paid_iff:
  assumes ok: "pay_ok p" and r: "r \<in> set (pay_records p)"
  shows "pr_status r = PR_PAID \<longleftrightarrow> (\<exists>l \<in> set (lines p). ln_record l = pr_id r \<and> slip_paid (ln_run l) (ln_staff l) p)"
proof
  assume a: "pr_status r = PR_PAID"
  then obtain l where l: "l \<in> set (lines p)" "ln_record l = pr_id r" using ok r by (auto simp: pay_ok_def record_ok_def lined_def)
  then show "\<exists>l \<in> set (lines p). ln_record l = pr_id r \<and> slip_paid (ln_run l) (ln_staff l) p"
    using line_of_record(2) [OF ok r l] a by (auto simp: lined_status_def split: if_splits)
next
  assume "\<exists>l \<in> set (lines p). ln_record l = pr_id r \<and> slip_paid (ln_run l) (ln_staff l) p"
  then obtain l where l: "l \<in> set (lines p)" "ln_record l = pr_id r" and s: "slip_paid (ln_run l) (ln_staff l) p" by blast
  obtain n where n: "n \<in> set (runs p)" "rn_id n = ln_run l" "pr_status r = lined_status l n p" using line_of_record(2) [OF ok r l] by blast
  obtain m where "m \<in> set (runs p)" "rn_id m = ln_run l" "rn_status m = FINALISED" using paid_slip_final [OF ok s] by (auto simp: run_final_def)
  then have "rn_status n = FINALISED" using run_table.keyed_unique [of "runs p" n m] ok n by (simp add: pay_ok_def keys_ok_def)
  then show "pr_status r = PR_PAID" using n(3) s by (simp add: lined_status_def)
qed

text \<open>
  C22. A payroll record is paid exactly when one line bears it, that line has the record's staff member and figures, its run is
  finalised and the one payslip of that run and staff member carries the confirmation of a payment; so nothing is paid
  twice, and nothing without a payslip.
\<close>

theorem paid_exactly_once:
  assumes "pay_step\<^sup>*\<^sup>* empty_payroll p" and "r \<in> set (pay_records p)"
  shows "pr_status r = PR_PAID \<longleftrightarrow> (\<exists>l s. filter (\<lambda>x. ln_record x = pr_id r) (lines p) = [l] \<and> line_matches l r \<and> run_final (ln_run l) p
    \<and> filter (\<lambda>x. slip_key x = (ln_run l, ln_staff l)) (payslips p) = [s] \<and> sl_paid_at s \<noteq> None)"
proof -
  have ok: "pay_ok p" by (rule pay_history_ok [OF assms(1)])
  have k: "distinct (map ln_record (lines p))" "distinct (map slip_key (payslips p))" using ok by (simp_all add: pay_ok_def keys_ok_def)
  show ?thesis
  proof
    assume "pr_status r = PR_PAID"
    then obtain l where l: "l \<in> set (lines p)" "ln_record l = pr_id r" and sp: "slip_paid (ln_run l) (ln_staff l) p"
      using paid_iff [OF ok assms(2)] by blast
    obtain s where s: "s \<in> set (payslips p)" "slip_key s = (ln_run l, ln_staff l)" "sl_paid_at s \<noteq> None" using sp by (auto simp: slip_paid_def slip_key_def)
    show "\<exists>l s. filter (\<lambda>x. ln_record x = pr_id r) (lines p) = [l] \<and> line_matches l r \<and> run_final (ln_run l) p
        \<and> filter (\<lambda>x. slip_key x = (ln_run l, ln_staff l)) (payslips p) = [s] \<and> sl_paid_at s \<noteq> None"
      using filter_keyed [OF k(1) l] line_of_record(1) [OF ok assms(2) l] paid_slip_final [OF ok sp] filter_keyed [OF k(2) s(1,2)] s(3) by blast
  next
    assume "\<exists>l s. filter (\<lambda>x. ln_record x = pr_id r) (lines p) = [l] \<and> line_matches l r \<and> run_final (ln_run l) p
        \<and> filter (\<lambda>x. slip_key x = (ln_run l, ln_staff l)) (payslips p) = [s] \<and> sl_paid_at s \<noteq> None"
    then obtain l s where f: "filter (\<lambda>x. ln_record x = pr_id r) (lines p) = [l]" "filter (\<lambda>x. slip_key x = (ln_run l, ln_staff l)) (payslips p) = [s]"
      and s: "sl_paid_at s \<noteq> None" by blast
    have "l \<in> set (filter (\<lambda>x. ln_record x = pr_id r) (lines p))" "s \<in> set (filter (\<lambda>x. slip_key x = (ln_run l, ln_staff l)) (payslips p))"
      unfolding f by simp_all
    then show "pr_status r = PR_PAID" using paid_iff [OF ok assms(2)] s by (auto simp: slip_paid_def slip_key_def)
  qed
qed

lemma sample_paid: "pay_records pay6 \<noteq> [] \<and> map pr_status (pay_records pay6) = [PR_PAID]"
  by code_simp

lemma paid_exactly_once_witness:
  "\<exists>r l s. pay_records pay6 = [r] \<and> filter (\<lambda>x. ln_record x = pr_id r) (lines pay6) = [l] \<and> line_matches l r
    \<and> filter (\<lambda>x. slip_key x = (ln_run l, ln_staff l)) (payslips pay6) = [s] \<and> sl_paid_at s \<noteq> None"
proof -
  obtain r where r: "pay_records pay6 = [r]" "pr_status r = PR_PAID" using sample_paid by auto
  then show ?thesis using paid_exactly_once [OF sample_history(4), of r] by auto
qed

text \<open>
  C23. The money of the payslips that are marked paid is the money of the records that are paid: summed over the lines of paid
  payslips, and over the paid records, the amounts agree.
\<close>

theorem paid_money_agrees:
  assumes "pay_step\<^sup>*\<^sup>* empty_payroll p"
  shows "(\<Sum>l\<leftarrow>filter (\<lambda>l. slip_paid (ln_run l) (ln_staff l) p) (lines p). ln_amount l)
    = (\<Sum>r\<leftarrow>filter (\<lambda>r. pr_status r = PR_PAID) (pay_records p). pr_amount r)"
proof -
  have ok: "pay_ok p" by (rule pay_history_ok [OF assms])
  let ?L = "{l \<in> set (lines p). slip_paid (ln_run l) (ln_staff l) p}" and ?R = "{r \<in> set (pay_records p). pr_status r = PR_PAID}"
  have k: "distinct (map ln_record (lines p))" "distinct (map pr_id (pay_records p))" using ok by (simp_all add: pay_ok_def keys_ok_def pay_table.keyed_def)
  have amount: "\<exists>r \<in> ?R. pr_id r = ln_record l \<and> pr_amount r = ln_amount l" if l: "l \<in> ?L" for l
  proof -
    obtain r n where r: "r \<in> set (pay_records p)" "line_matches l r" using line_record [OF ok, of l] l by blast
    then have "pr_status r = PR_PAID" using paid_iff [OF ok r(1)] l by (auto simp: line_matches_def)
    then show ?thesis using r by (auto simp: line_matches_def)
  qed
  define g where "g l = the_elem (set (filter (\<lambda>r. pr_id r = ln_record l) (pay_records p)))" for l :: line_row
  have g: "g l = r" if "r \<in> set (pay_records p)" "pr_id r = ln_record l" for l r
    using filter_keyed [OF k(2) that] by (simp add: g_def)
  have bij: "bij_betw g ?L ?R"
  proof (rule bij_betw_imageI)
    show "inj_on g ?L"
    proof (rule inj_onI)
      fix a b assume ab: "a \<in> ?L" "b \<in> ?L" "g a = g b"
      obtain r q where "r \<in> set (pay_records p)" "pr_id r = ln_record a" "q \<in> set (pay_records p)" "pr_id q = ln_record b"
        using amount [OF ab(1)] amount [OF ab(2)] by blast
      then have "ln_record a = ln_record b" using g ab(3) by metis
      then show "a = b" using ab k(1) by (auto simp: distinct_map inj_on_def)
    qed
    show "g ` ?L = ?R"
    proof (rule set_eqI, rule iffI)
      fix x assume "x \<in> g ` ?L"
      then obtain l where l: "l \<in> ?L" "x = g l" by blast
      then show "x \<in> ?R" using amount [OF l(1)] g by auto
    next
      fix x assume x: "x \<in> ?R"
      then obtain l where "l \<in> ?L" "ln_record l = pr_id x" using paid_iff [OF ok, of x] by blast
      then show "x \<in> g ` ?L" using g [of x l] x by auto
    qed
  qed
  have "(\<Sum>r \<in> ?R. pr_amount r) = (\<Sum>l \<in> ?L. pr_amount (g l))" by (rule sum.reindex_bij_betw [OF bij, symmetric])
  also have "\<dots> = (\<Sum>l \<in> ?L. ln_amount l)"
  proof (rule sum.cong)
    fix l assume "l \<in> ?L"
    then show "pr_amount (g l) = ln_amount l" using amount [of l] g by auto
  qed simp
  finally have e: "(\<Sum>r \<in> ?R. pr_amount r) = (\<Sum>l \<in> ?L. ln_amount l)" .
  have "distinct (lines p)" "distinct (pay_records p)" using k by (simp_all add: distinct_map)
  then show ?thesis using e by (simp add: sum_list_distinct_conv_sum_set)
qed

lemma paid_money_agrees_witness:
  "(\<Sum>l\<leftarrow>filter (\<lambda>l. slip_paid (ln_run l) (ln_staff l) pay6) (lines pay6). ln_amount l) = 4200"
  unfolding paid_money_agrees [OF sample_history(4)] by code_simp

section \<open>What is frozen\<close>

lemma lines_frozen: "pay_mono p p' \<Longrightarrow> run_final i p \<Longrightarrow> lines_of_run i p' = lines_of_run i p"
  unfolding pay_mono_def lines_of_run_def by (auto simp: filter_empty_conv)

text \<open>
  C24. Once a run is finalised it is frozen: whatever transactions follow (of any user, with any staffing tables), its lines are
  the same, no line anywhere is changed or removed, a payslip that is marked paid keeps its payment and a version only
  grows, every record keeps its figures, its status only moves forward, and an approval is never replaced.
\<close>

theorem finalised_run_is_frozen:
  assumes "pay_step\<^sup>*\<^sup>* empty_payroll p" and "pay_step\<^sup>*\<^sup>* p p'" and "run_final i p"
  shows "run_final i p' \<and> lines_of_run i p' = lines_of_run i p \<and> (\<exists>ls. lines p' = lines p @ ls)
    \<and> (\<forall>s \<in> set (payslips p). \<exists>s' \<in> set (payslips p'). slip_mono s s') \<and> (\<forall>r \<in> set (pay_records p). \<exists>r' \<in> set (pay_records p'). record_mono r r')"
proof -
  have m: "pay_mono p p'" using pay_history_safe [OF assms(2)] pay_history_ok [OF assms(1)] by (simp add: safe_step_def)
  show ?thesis using run_final_mono [OF m assms(3)] lines_frozen [OF m assms(3)] m by (auto simp: pay_mono_def)
qed

lemma sample_final: "run_final ''run1'' pay5"
  by code_simp

lemma finalised_run_is_frozen_witness: "lines_of_run ''run1'' pay6 = lines_of_run ''run1'' pay5 \<and> run_final ''run1'' pay6"
  using finalised_run_is_frozen [OF sample_history(2,3) sample_final] by blast

section \<open>Payment\<close>

text \<open>
  C25. A successful \<open>markPaid\<close> is the confirmation, by somebody other than the staff member, of an unpaid payslip of a finalised
  run: every record of that staff member in the run goes from processing to paid, every other record is untouched, the
  payslip carries the time and the confirming user, and a second confirmation of it is refused whoever sends it.
\<close>

theorem payment_confirmed_once:
  assumes "pay_step\<^sup>*\<^sup>* empty_payroll p" and "markPaid may env ctx clk run staff ref d p = Inr p'"
  shows "\<exists>s user. lockPayslip run staff d p = Inr (s, user) \<and> user \<noteq> cx_user ctx \<and> sl_paid_at s = None \<and> run_final run p
    \<and> payslips p' = update_where (\<lambda>x. sl_id x = sl_id s) (paid_row ctx clk ref) (payslips p)
    \<and> pay_records p' = update_where (in_slip run staff p) (\<lambda>r. r\<lparr>pr_status := PR_PAID\<rparr>) (pay_records p)
    \<and> (\<forall>r \<in> set (pay_records p). in_slip run staff p r \<longrightarrow> pr_status r = PR_PROCESSING)
    \<and> markPaid may' env' ctx' clk' run staff ref' d' p' \<noteq> Inr q"
proof -
  have ok: "pay_ok p" by (rule pay_history_ok [OF assms(1)])
  obtain s n user where n: "find_run run p = Some n" "rn_status n = FINALISED" and s: "lockPayslip run staff d p = Inr (s, user)" "sl_paid_at s = None"
    and u: "user \<noteq> cx_user ctx" and all: "\<forall>r \<in> set (pay_records p). in_slip run staff p r \<longrightarrow> pr_status r = PR_PROCESSING"
    and rec: "pay_records p' = update_where (\<lambda>r. in_slip run staff p r \<and> pr_status r = PR_PROCESSING) (\<lambda>x. x\<lparr>pr_status := PR_PAID\<rparr>) (pay_records p)"
    and sl: "payslips p' = update_where (\<lambda>x. sl_id x = sl_id s) (paid_row ctx clk ref) (payslips p)"
    by (rule markPaid_Inr [OF assms(2)]) blast
  have f: "run_final run p" unfolding run_final_def using n find_run_mem [OF n(1)] by blast
  have rec': "pay_records p' = update_where (in_slip run staff p) (\<lambda>r. r\<lparr>pr_status := PR_PAID\<rparr>) (pay_records p)"
    unfolding rec by (rule update_where_cong) (use all in blast)
  have twice: "markPaid may' env' ctx' clk' run staff ref' d' p' \<noteq> Inr q"
  proof
    assume "markPaid may' env' ctx' clk' run staff ref' d' p' = Inr q"
    then obtain s' user' where s': "lockPayslip run staff d' p' = Inr (s', user')" "sl_paid_at s' = None" by (rule markPaid_Inr) blast
    have "pay_ok p'" using markPaid_safe [OF assms(2)] ok by (simp add: safe_step_def)
    then have k: "distinct (map slip_key (payslips p'))" by (simp add: pay_ok_def keys_ok_def)
    have m: "s \<in> set (payslips p)" "sl_run s = run" "sl_staff s = staff" using lockPayslip_Inr [OF s(1)] by auto
    then have "paid_row ctx clk ref s \<in> set (payslips p')" using mem_update_image [OF m(1), of "\<lambda>x. sl_id x = sl_id s" "paid_row ctx clk ref"] sl by simp
    moreover have "s' \<in> set (payslips p')" "slip_key s' = slip_key (paid_row ctx clk ref s)"
      using lockPayslip_Inr [OF s'(1)] m by (auto simp: slip_key_def paid_row_def)
    ultimately have "s' = paid_row ctx clk ref s" using k by (auto simp: distinct_map inj_on_def)
    then show False using s'(2) by (simp add: paid_row_def)
  qed
  show ?thesis by (intro exI [of _ s] exI [of _ user]) (use s u f sl rec' all twice in blast)
qed

lemma payment_confirmed_once_witness: "markPaid True site_env sample_ctx pay_now ''run1'' ''ann'' None approved_day pay6 \<noteq> Inr pay6"
  using payment_confirmed_once [OF sample_history(2) sample_payroll(6), of True site_env sample_ctx pay_now None approved_day pay6] by blast

section \<open>Finalisation\<close>

lemma list_all_update: "\<forall>r \<in> set t. Q r \<Longrightarrow> (\<And>r. r \<in> set t \<Longrightarrow> P r \<Longrightarrow> Q (f r)) \<Longrightarrow> list_all Q (update_where P f t)"
  by (auto simp: list_all_iff update_where_def)

text \<open>
  C26. A prepared run can always be finalised, once: in every reachable payroll a permitted manager who is not a venue manager and
  names a prepared run with at least one line gets the run finalised, its records processing and everything else
  unchanged; the counts and transitions that could refuse it never do, and a second finalisation is refused.
\<close>

theorem finalisation_commits:
  assumes "pay_step\<^sup>*\<^sup>* empty_payroll p" and "pay_access may env ctx d = Inr ()" and "find_run run p = Some n" and "rn_status n = PREPARED"
    and "lines_of_run run p \<noteq> []"
  shows "\<exists>p'. finalise may env ctx clk run uuid d p = Inr p' \<and> run_final run p'
    \<and> pay_records p' = update_where (in_run run p) (\<lambda>r. r\<lparr>pr_status := PR_PROCESSING\<rparr>) (pay_records p)
    \<and> finalise may env ctx clk' run uuid' d p' = Inl (Conflict ''This payroll run is already finalised.'')"
proof -
  have ok: "pay_ok p" and per: "periods_ok p" by (rule pay_history_ok [OF assms(1)], rule pay_history_periods [OF assms(1)])
  let ?rs = "records_of (lines_of_run run p) p"
  let ?P = "\<lambda>x. (\<exists>y \<in> set ?rs. pr_id y = pr_id x) \<and> pr_status x = PR_APPROVED" and ?f = "\<lambda>x. x\<lparr>pr_status := PR_PROCESSING\<rparr>"
  have nm: "n \<in> set (runs p)" "rn_id n = run" using find_run_mem [OF assms(3)] by auto
  have app: "pr_status r = PR_APPROVED" if r: "r \<in> set (pay_records p)" "in_run run p r" for r
  proof -
    obtain l where l: "l \<in> set (lines p)" "ln_run l = run" "ln_record l = pr_id r" using r(2) by (auto simp: in_run_def)
    obtain m where m: "m \<in> set (runs p)" "rn_id m = run" "pr_status r = lined_status l m p" using line_of_record(2) [OF ok r(1) l(1,3)] l(2) by blast
    have "m = n" using run_table.keyed_unique [of "runs p" m n] ok m nm by (simp add: pay_ok_def keys_ok_def)
    then show ?thesis using m(3) assms(4) by (simp add: lined_status_def)
  qed
  have P: "?P x \<longleftrightarrow> in_run run p x" if "x \<in> set (pay_records p)" for x using id_in_run [OF that] app [OF that] by blast
  have ck: "list_all record_checks (update_where ?P ?f (pay_records p))"
  proof (rule list_all_update)
    show "\<forall>r \<in> set (pay_records p). record_checks r" using ok by (simp add: pay_ok_def record_ok_def)
    show "record_checks (?f r)" if "r \<in> set (pay_records p)" "?P r" for r
      using that ok by (auto simp: pay_ok_def record_ok_def record_checks_def)
  qed
  have upd: "update_records ?P ?f p = Inr (p\<lparr>pay_records := update_where ?P ?f (pay_records p)\<rparr>)"
    unfolding update_records_Inr using ck by (auto simp: payroll_record_guard_def record_edges_def)
  obtain l where l: "l \<in> set (lines p)" "ln_run l = run" using assms(5) by (auto simp: lines_of_run_def filter_empty_conv)
  obtain r where r: "r \<in> set (pay_records p)" "line_matches l r" by (rule line_record [OF ok l(1)])
  then have "in_run run p r" using l by (auto simp: in_run_def line_matches_def)
  then have ne: "?rs \<noteq> []" using r(1) records_of_run [of r run p] by auto
  have tr: "assert_records ?rs PR_PROCESSING = Inr ()"
    unfolding assert_records_Inr using app records_of_run by (auto simp: assertTransition_def)
  have "?rs = sort_key pr_id (filter (in_run run p) (pay_records p))"
    unfolding records_of_def by (rule arg_cong [where f = "sort_key pr_id"]) (auto simp: lines_of_run_def in_run_def intro!: filter_cong)
  then have len: "length ?rs = count_where (in_run run p) (pay_records p)" by (simp add: count_where_def)
  have cnt: "count_where ?P (pay_records p) = length ?rs" unfolding len by (rule count_where_cong) (rule P)
  have found: "find_period (rn_period n) p \<noteq> None"
    using run_has_period [OF per nm(1)] by (auto simp: find_period_def find_None_iff)
  have lock: "lockRun run p = Inr n"
    using found by (simp add: lockRun_def assms(3) require_def)
  have eq: "update_where ?P ?f (pay_records p) = update_where (in_run run p) ?f (pay_records p)" by (rule update_where_cong) (rule P)
  obtain p' where p': "finalise may env ctx clk run uuid d p = Inr p'"
    unfolding finalise_def Let_def using assms(2,4) lock ne tr upd cnt by simp
  have rn: "runs p' = update_where (\<lambda>x. rn_id x = run) (finalised_row ctx clk) (runs p)" and per': "periods p' = periods p"
    and rec: "pay_records p' = update_where (\<lambda>r. in_run run p r \<and> pr_status r = PR_APPROVED) ?f (pay_records p)"
    using finalise_calendar [OF p'] by (auto simp: same_calendar_def intro: finalise_Inr [OF p'])
  have f: "find_run run p' = Some (finalised_row ctx clk n)"
    using assms(3) nm(2) find_update_keep [of "\<lambda>r. rn_id r = run" "finalised_row ctx clk" "\<lambda>x. rn_id x = run" "runs p"]
    by (simp add: find_run_def rn finalised_row_def)
  have fin: "run_final run p'" unfolding run_final_def using find_run_mem [OF f] by (intro bexI [of _ "finalised_row ctx clk n"]) (simp_all add: finalised_row_def)
  have "lockRun run p' = Inr (finalised_row ctx clk n)"
    using found by (simp add: lockRun_def f find_period_def per' finalised_row_def require_def)
  then have "finalise may env ctx clk' run uuid' d p' = Inl (Conflict ''This payroll run is already finalised.'')"
    using assms(2) by (simp add: finalise_def finalised_row_def)
  moreover have "pay_records p' = update_where (in_run run p) ?f (pay_records p)"
    unfolding rec by (rule update_where_cong) (use app in blast)
  ultimately show ?thesis using p' fin by blast
qed

lemma sample_prepared: "map_option rn_status (find_run ''run1'' pay4) = Some PREPARED \<and> lines_of_run ''run1'' pay4 \<noteq> []"
  by code_simp

lemma sample_access: "pay_access True site_env sample_ctx approved_day = Inr ()"
  by code_simp

lemma finalisation_commits_witness: "\<exists>p'. finalise True site_env sample_ctx pay_now ''run1'' (\<lambda>i. i) approved_day pay4 = Inr p' \<and> run_final ''run1'' p'"
proof -
  obtain n where n: "find_run ''run1'' pay4 = Some n" "rn_status n = PREPARED" "lines_of_run ''run1'' pay4 \<noteq> []" using sample_prepared by auto
  show ?thesis using finalisation_commits [OF sample_history(1) sample_access n, of pay_now "\<lambda>i. i"] by blast
qed

section \<open>Preparation\<close>

lemma add_lines_appends:
  "add_lines ctx run periodId xs p = Inr p' \<Longrightarrow> lines p' = lines p @ map (line_for run) (filter (\<lambda>x. allocated_to periodId (snd x)) xs)"
proof (induction ctx run periodId xs p rule: add_lines.induct)
  case (2 ctx run periodId x xs p)
  show ?case
  proof (cases "allocated_to periodId (snd x)")
    case True
    then obtain q where q: "insert_line (line_for run x) p = Inr q"
      and r: "add_lines ctx run periodId xs
        (if ln_late (line_for run x) then pay_emit [PayAudit PAYROLL_LATE_CARRIED_FORWARD (pr_id (fst x)) (audit_actor ctx)] q else q) = Inr p'"
      using 2(3) by (auto simp: bindE_Inr_iff split del: if_split)
    have "lines q = lines p @ [line_for run x]" using q by (auto simp: insert_line_def split: if_splits)
    then show ?thesis using 2(2) [OF _ r] True by (auto simp: pay_emit_def split: if_splits)
  qed (use 2 in simp)
qed simp

text \<open>A run that was just opened is not finalised, so it changes no allocation.\<close>

lemma opened_run_allocation:
  assumes "run_of_period (rn_period n) p = None" and "rn_status n = PREPARED" and "\<not> lined i p"
  shows "al_period (allocate (p\<lparr>runs := runs p @ [n]\<rparr>) i date) = al_period (allocate p i date)
    \<and> al_status (allocate (p\<lparr>runs := runs p @ [n]\<rparr>) i date) = al_status (allocate p i date)
    \<and> al_original (allocate (p\<lparr>runs := runs p @ [n]\<rparr>) i date) = al_original (allocate p i date)
    \<and> al_work_date (allocate (p\<lparr>runs := runs p @ [n]\<rparr>) i date) = al_work_date (allocate p i date)"
proof -
  let ?q = "p\<lparr>runs := runs p @ [n]\<rparr>"
  have nl: "line_of i p = None" "line_of i ?q = None" using assms(3) by (auto simp: line_of_def lined_def find_None_iff split: option.splits dest: find_Some_mem)
  have ap: "activePeriods ?q = activePeriods p" by (simp add: activePeriods_def)
  have fa: "find P (xs @ ys) = (case find P xs of None \<Rightarrow> find P ys | Some x \<Rightarrow> Some x)" for P and xs ys :: "run_row list" by (induction xs) auto
  have "finalised_period ?q x = finalised_period p x" for x
  proof (cases "run_of_period (pp_id x) p")
    case None
    then show ?thesis using assms(2) by (simp add: finalised_period_def run_of_period_def fa)
  next
    case (Some r)
    then show ?thesis by (simp add: finalised_period_def run_of_period_def fa)
  qed
  then show ?thesis unfolding allocate_def nl ap by (auto simp: allocation_in_def not_allocated_def split: option.splits)
qed

definition takes :: "(int \<Rightarrow> int \<times> int \<times> int) \<Rightarrow> db \<Rightarrow> pay_db \<Rightarrow> string \<Rightarrow> pay_row \<Rightarrow> bool" where
  "takes london d p periodId r \<longleftrightarrow> pr_status r = PR_APPROVED \<and> \<not> lined (pr_id r) p
     \<and> (case record_start r d of None \<Rightarrow> False | Some t \<Rightarrow> allocated_to periodId (allocate p (pr_id r) (payrollDate london t)))"

lemma candidates_allocated:
  "(r, a) \<in> set (candidates london d p) \<and> allocated_to periodId a \<longleftrightarrow> r \<in> set (pay_records p) \<and> takes london d p periodId r
    \<and> (\<exists>t. record_start r d = Some t \<and> a = allocate p (pr_id r) (payrollDate london t))"
  unfolding candidates_def takes_def by (auto split: option.splits)

text \<open>
  C27. A preparation takes exactly what is due: the lines it appends are, for each approved record that is in no run and is
  allocated to the period, one line with the record's staff member and figures, marked late exactly when it is carried
  forward; nothing else is appended, no line is changed, and no record or payslip changes.
\<close>

theorem prepare_takes_exactly_the_due:
  assumes "pay_step\<^sup>*\<^sup>* empty_payroll p" and "prepare may env london ctx periodId newRun d p = Inr (p', run)"
  shows "\<exists>ls. lines p' = lines p @ ls \<and> ln_record ` set ls = pr_id ` {r \<in> set (pay_records p). takes london d p periodId r} \<and> distinct (map ln_record ls)
    \<and> (\<forall>l \<in> set ls. ln_run l = run \<and> (\<exists>r \<in> set (pay_records p). \<exists>t. line_matches l r \<and> record_start r d = Some t \<and> ln_work_date l = payrollDate london t
          \<and> (ln_late l \<longleftrightarrow> al_status (allocate p (pr_id r) (payrollDate london t)) = CARRIED_FORWARD)))
    \<and> pay_records p' = pay_records p \<and> payslips p' = payslips p"
proof -
  have ok: "pay_ok p" by (rule pay_history_ok [OF assms(1)])
  obtain n p1 p2 es where n: "rn_id n = run" "rn_period n = periodId" "rn_status n = PREPARED" "n \<in> set (runs p1)"
    and 1: "p1 = p \<or> run_of_period periodId p = None \<and> insert_run n p = Inr p1"
    and 2: "add_lines ctx run periodId (candidates london d p1) p1 = Inr p2" and 3: "p' = pay_emit es p2"
    by (rule prepare_Inr [OF assms(2)]) blast
  let ?ls = "map (line_for run) (filter (\<lambda>x. allocated_to periodId (snd x)) (candidates london d p1))"
  have p1: "pay_records p1 = pay_records p" "lines p1 = lines p" "payslips p1 = payslips p"
    using 1 by (auto simp: insert_run_def split: if_splits)
  have same: "al_period (allocate p1 i date) = al_period (allocate p i date) \<and> al_status (allocate p1 i date) = al_status (allocate p i date)
      \<and> al_work_date (allocate p1 i date) = al_work_date (allocate p i date)" if "\<not> lined i p" for i date
    using 1 opened_run_allocation [of n p i date] that n(2,3) by (auto simp: insert_run_def split: if_splits)
  have wd: "al_work_date (allocate p i date) = date" for i date
    by (simp add: allocate_def allocation_in_def not_allocated_def split: option.splits)
  have lined: "lined i p1 = lined i p" for i by (simp add: lined_def p1)
  have takes: "takes london d p1 periodId r \<longleftrightarrow> takes london d p periodId r" for r
    using same [of "pr_id r"] by (auto simp: takes_def lined allocated_to_def split: option.splits)
  have lines: "lines p' = lines p @ ?ls" using add_lines_appends [OF 2] 3 by (simp add: pay_emit_def p1)
  have "ln_record ` set ?ls = pr_id ` {r \<in> set (pay_records p). takes london d p periodId r}"
  proof -
    have "ln_record (line_for run x) = pr_id (fst x)" for x by (simp add: line_for_def split: prod.splits)
    then have "ln_record ` set ?ls = pr_id ` fst ` {x \<in> set (candidates london d p1). allocated_to periodId (snd x)}" by (simp add: image_image)
    also have "fst ` {x \<in> set (candidates london d p1). allocated_to periodId (snd x)}
      = {r. \<exists>a. (r, a) \<in> set (candidates london d p1) \<and> allocated_to periodId a}" by (rule set_eqI) (auto simp: image_iff Bex_def)
    also have "{r. \<exists>a. (r, a) \<in> set (candidates london d p1) \<and> allocated_to periodId a} = {r \<in> set (pay_records p). takes london d p periodId r}"
      unfolding candidates_allocated p1 takes by (auto simp: takes_def split: option.splits)
    finally show ?thesis .
  qed
  moreover have "distinct (map ln_record ?ls)"
  proof -
    have "pay_ok p'" using prepare_safe [OF assms(2)] ok by (simp add: safe_step_def)
    then show ?thesis using lines by (simp add: pay_ok_def keys_ok_def)
  qed
  moreover have "ln_run l = run \<and> (\<exists>r \<in> set (pay_records p). \<exists>t. line_matches l r \<and> record_start r d = Some t \<and> ln_work_date l = payrollDate london t
      \<and> (ln_late l \<longleftrightarrow> al_status (allocate p (pr_id r) (payrollDate london t)) = CARRIED_FORWARD))" if l: "l \<in> set ?ls" for l
  proof -
    obtain r a where ra: "(r, a) \<in> set (candidates london d p1)" "allocated_to periodId a" "l = line_for run (r, a)" using l by auto
    then obtain t where t: "r \<in> set (pay_records p)" "takes london d p periodId r" "record_start r d = Some t" "a = allocate p1 (pr_id r) (payrollDate london t)"
      using candidates_allocated [of r a london d p1 periodId] p1 takes by auto
    have "\<not> lined (pr_id r) p" using t(2) by (simp add: takes_def)
    then show ?thesis using t ra(3) same wd by (intro conjI bexI [OF _ t(1)] exI [of _ t]) (auto simp: line_for_def line_matches_def)
  qed
  moreover have "\<forall>x \<in> set (candidates london d p1). fst x \<in> set (pay_records p1) \<and> pr_status (fst x) = PR_APPROVED"
    using candidates_mem by blast
  then have "pay_records p' = pay_records p \<and> payslips p' = payslips p"
    using add_lines_safe [OF 2 _ n(4,1,3)] 3 p1 by (simp add: pay_emit_def)
  ultimately show ?thesis using lines by blast
qed

lemma prepare_takes_exactly_the_due_witness:
  "\<exists>ls. lines pay4 = lines pay3 @ ls \<and> ln_record ` set ls = pr_id ` {r \<in> set (pay_records pay3). takes january approved_day pay3 ''p1'' r}"
  using prepare_takes_exactly_the_due [OF sample_history(6) sample_payroll(4)] by blast

section \<open>Allocation\<close>

definition covers :: "period_row \<Rightarrow> int \<Rightarrow> bool" where
  "covers q date \<longleftrightarrow> pp_start q \<le> date \<and> date \<le> pp_end q"

lemma activePeriods_mem: "q \<in> set (activePeriods p) \<longleftrightarrow> q \<in> set (periods p) \<and> pp_active q"
  by (auto simp: activePeriods_def)

lemma covers_unique: "periods_ok p \<Longrightarrow> a \<in> set (activePeriods p) \<Longrightarrow> b \<in> set (activePeriods p) \<Longrightarrow> covers a date \<Longrightarrow> covers b date \<Longrightarrow> a = b"
  using active_disjoint [of p a b] by (auto simp: activePeriods_mem covers_def period_overlaps_def)

lemma periodForDate_iff:
  assumes "periods_ok p"
  shows "periodForDate (activePeriods p) date = Some q \<longleftrightarrow> q \<in> set (activePeriods p) \<and> covers q date"
proof
  assume "periodForDate (activePeriods p) date = Some q"
  then show "q \<in> set (activePeriods p) \<and> covers q date" unfolding periodForDate_def covers_def by (rule find_Some_mem)
next
  assume q: "q \<in> set (activePeriods p) \<and> covers q date"
  then have "periodForDate (activePeriods p) date \<noteq> None" by (auto simp: periodForDate_def find_None_iff covers_def)
  then obtain x where x: "periodForDate (activePeriods p) date = Some x" by blast
  then have "x \<in> set (activePeriods p) \<and> covers x date" unfolding periodForDate_def covers_def by (rule find_Some_mem)
  then show "periodForDate (activePeriods p) date = Some q" using covers_unique [OF assms, of x q date] q x by blast
qed

lemma find_sorted_first:
  assumes "sorted (map f t)" and "find P t = Some x" and "y \<in> set t" and "P y"
  shows "f x \<le> f y"
  using assms by (induction t) (auto split: if_splits)

lemma start_inj: "periods_ok p \<Longrightarrow> a \<in> set (activePeriods p) \<Longrightarrow> b \<in> set (activePeriods p) \<Longrightarrow> pp_start a = pp_start b \<Longrightarrow> a = b"
proof -
  assume ok: "periods_ok p" and m: "a \<in> set (activePeriods p)" "b \<in> set (activePeriods p)" and s: "pp_start a = pp_start b"
  have "pp_start a \<le> pp_end a" "pp_start b \<le> pp_end b" using ok m by (simp_all add: periods_ok_def activePeriods_mem)
  then have "covers a (pp_start a)" "covers b (pp_start a)" using s by (simp_all add: covers_def)
  then show "a = b" by (rule covers_unique [OF ok m])
qed

text \<open>
  The rule of the agency: work is paid in the first active period, from the one of its date on, that is not finalised; work of a date
  that no active period covers, or after which every period is finalised, is not allocated.
\<close>

definition pays :: "pay_db \<Rightarrow> int \<Rightarrow> period_row \<Rightarrow> bool" where
  "pays p date q \<longleftrightarrow> q \<in> set (activePeriods p) \<and> \<not> finalised_period p q
     \<and> (\<exists>o' \<in> set (activePeriods p). covers o' date \<and> pp_start o' \<le> pp_start q
          \<and> (\<forall>x \<in> set (activePeriods p). pp_start o' \<le> pp_start x \<longrightarrow> \<not> finalised_period p x \<longrightarrow> pp_start q \<le> pp_start x))"

lemma pays_unique: "periods_ok p \<Longrightarrow> pays p date a \<Longrightarrow> pays p date b \<Longrightarrow> a = b"
proof -
  assume ok: "periods_ok p" and a: "pays p date a" and b: "pays p date b"
  obtain o1 where 1: "o1 \<in> set (activePeriods p)" "covers o1 date" "pp_start o1 \<le> pp_start a"
      "\<forall>x \<in> set (activePeriods p). pp_start o1 \<le> pp_start x \<longrightarrow> \<not> finalised_period p x \<longrightarrow> pp_start a \<le> pp_start x" using a by (auto simp: pays_def)
  obtain o2 where 2: "o2 \<in> set (activePeriods p)" "covers o2 date" "pp_start o2 \<le> pp_start b"
      "\<forall>x \<in> set (activePeriods p). pp_start o2 \<le> pp_start x \<longrightarrow> \<not> finalised_period p x \<longrightarrow> pp_start b \<le> pp_start x" using b by (auto simp: pays_def)
  have "o1 = o2" by (rule covers_unique [OF ok 1(1) 2(1) 1(2) 2(2)])
  then have "pp_start a = pp_start b" using 1 2 a b by (auto simp: pays_def intro!: antisym)
  then show "a = b" using start_inj [OF ok] a b by (auto simp: pays_def)
qed

lemma unlined_allocate:
  assumes "\<not> lined i p"
  shows "allocate p i date = (case periodForDate (activePeriods p) date of
             None \<Rightarrow> not_allocated None date
           | Some natural \<Rightarrow>
               if \<not> finalised_period p natural then allocation_in ALLOCATED natural None date p
               else (case find (\<lambda>q. pp_start q > pp_start natural \<and> \<not> finalised_period p q) (activePeriods p) of
                   Some q \<Rightarrow> allocation_in CARRIED_FORWARD q (Some natural) date p
                 | None \<Rightarrow> not_allocated (Some natural) date))"
proof -
  have "line_of i p = None" using assms by (auto simp: line_of_def lined_def find_None_iff split: option.splits dest: find_Some_mem)
  then show ?thesis by (simp add: allocate_def)
qed

text \<open>
  C28. The allocation of a record that is in no run is the rule of the agency: it is the period that pays the date, \<open>allocated\<close>
  when that period covers the date and \<open>carried_forward\<close> otherwise, and \<open>unallocated\<close> exactly when no period pays it.
\<close>

theorem allocation_is_the_first_open_period:
  assumes "pay_step\<^sup>*\<^sup>* empty_payroll p" and "\<not> lined i p"
  shows "(al_period (allocate p i date) = Some q \<longleftrightarrow> pays p date q)
    \<and> al_status (allocate p i date) = (case al_period (allocate p i date) of None \<Rightarrow> UNALLOCATED
         | Some x \<Rightarrow> if covers x date then ALLOCATED else CARRIED_FORWARD)"
proof -
  have ok: "periods_ok p" by (rule pay_history_periods [OF assms(1)])
  let ?A = "activePeriods p"
  have sorted: "sorted (map pp_start ?A)" by (simp add: activePeriods_def)
  show ?thesis
  proof (cases "periodForDate ?A date")
    case None
    then have "\<not> covers x date" if "x \<in> set ?A" for x using periodForDate_iff [OF ok, of date x] that by simp
    then have "\<not> pays p date q" by (auto simp: pays_def)
    then show ?thesis by (simp add: unlined_allocate [OF assms(2)] None not_allocated_def)
  next
    case (Some nat)
    then have nat: "nat \<in> set ?A" "covers nat date" using periodForDate_iff [OF ok] by auto
    show ?thesis
    proof (cases "finalised_period p nat")
      case False
      then have "pays p date nat" using nat by (auto simp: pays_def intro!: bexI [of _ nat])
      then show ?thesis using pays_unique [OF ok, of date nat q] nat by (auto simp: unlined_allocate [OF assms(2)] Some False allocation_in_def)
    next
      case fin: True
      let ?P = "\<lambda>q. pp_start q > pp_start nat \<and> \<not> finalised_period p q"
      show ?thesis
      proof (cases "find ?P ?A")
        case None
        have "\<not> pays p date q"
        proof
          assume pq: "pays p date q"
          then obtain o' where o': "o' \<in> set ?A" "covers o' date" "pp_start o' \<le> pp_start q" by (auto simp: pays_def)
          have "o' = nat" by (rule covers_unique [OF ok o'(1) nat(1) o'(2) nat(2)])
          moreover have "q \<noteq> nat" using pq fin by (auto simp: pays_def)
          then have "pp_start q \<noteq> pp_start nat" using start_inj [OF ok] pq nat(1) by (auto simp: pays_def)
          ultimately have "?P q" using o'(3) pq by (auto simp: pays_def)
          then show False using None pq by (auto simp: find_None_iff pays_def)
        qed
        then show ?thesis by (simp add: unlined_allocate [OF assms(2)] Some fin None not_allocated_def)
      next
        case (Some x)
        have x: "x \<in> set ?A" "?P x" using find_Some_mem [OF Some] by auto
        have "pp_start x \<le> pp_start y" if y: "y \<in> set ?A" "pp_start nat \<le> pp_start y" "\<not> finalised_period p y" for y
        proof -
          have "y \<noteq> nat" using y(3) fin by blast
          then have "pp_start y \<noteq> pp_start nat" using start_inj [OF ok y(1) nat(1)] by blast
          then show ?thesis using find_sorted_first [OF sorted Some y(1)] y(2,3) by auto
        qed
        then have "pays p date x" unfolding pays_def using x nat by (intro conjI bexI [of _ nat]) auto
        moreover have "\<not> covers x date" using covers_unique [OF ok x(1) nat(1) _ nat(2)] x(2) by auto
        ultimately show ?thesis using pays_unique [OF ok, of date x q] \<open>periodForDate ?A date = Some nat\<close>
          by (auto simp: unlined_allocate [OF assms(2)] fin Some allocation_in_def)
      qed
    qed
  qed
qed

lemma sample_unlined: "\<not> lined ''new'' pay5 \<and> map_option pp_id (al_period (allocate pay5 ''new'' 20458)) = Some ''p2''"
  by code_simp

lemma allocation_is_the_first_open_period_witness: "\<exists>q. pp_id q = ''p2'' \<and> pays pay5 20458 q"
proof -
  obtain q where q: "al_period (allocate pay5 ''new'' 20458) = Some q" "pp_id q = ''p2''" using sample_unlined by auto
  then have "pays pay5 20458 q" using allocation_is_the_first_open_period [OF sample_history(2), of "''new''" 20458 q] sample_unlined by blast
  then show ?thesis using q(2) by blast
qed

section \<open>The calendar\<close>

definition dto_fine :: "period_dto \<Rightarrow> bool" where
  "dto_fine q \<longleftrightarrow> dp_start q \<le> dp_end q \<and> dp_end q \<le> dp_payday q"

definition apart :: "period_dto \<Rightarrow> period_dto \<Rightarrow> bool" where
  "apart a b \<longleftrightarrow> dp_end a < dp_start b \<or> dp_end b < dp_start a"

lemma calendar_errors_Nil:
  "calendar_errors seen ps = [] \<longleftrightarrow> list_all dto_fine ps \<and> distinct (map dp_start ps) \<and> set (map dp_start ps) \<inter> set seen = {}"
  by (induction seen ps rule: calendar_errors.induct) (auto simp: dto_fine_def)

lemma consecutive_Cons: "consecutive (a # b # xs) = (a, b) # consecutive (b # xs)"
  by (simp add: consecutive_def)

lemma consecutive_apart:
  "list_all dto_fine ps \<Longrightarrow> sorted (map dp_start ps) \<Longrightarrow> filter (\<lambda>(a, b). dp_start b \<le> dp_end a) (consecutive ps) = [] \<Longrightarrow>
    sorted_wrt (\<lambda>a b. dp_end a < dp_start b) ps"
proof (induction ps)
  case (Cons a ps)
  show ?case
  proof (cases ps)
    case (Cons b qs)
    have s: "sorted_wrt (\<lambda>a b. dp_end a < dp_start b) ps" using Cons.IH Cons.prems by (simp add: Cons consecutive_Cons split: if_splits)
    have "dp_end a < dp_start b" using Cons.prems(3) by (simp add: Cons consecutive_Cons split: if_splits)
    moreover have "dp_start b \<le> dp_start x" if "x \<in> set ps" for x using Cons.prems(2) that by (auto simp: Cons)
    ultimately show ?thesis using s by fastforce
  qed simp
qed simp

lemma apart_consecutive:
  "list_all dto_fine ps \<Longrightarrow> sorted (map dp_start ps) \<Longrightarrow> sorted_wrt apart ps \<Longrightarrow>
    filter (\<lambda>(a, b). dp_start b \<le> dp_end a) (consecutive ps) = [] \<and> distinct (map dp_start ps)"
proof (induction ps)
  case (Cons a ps)
  have fine: "dto_fine a" "list_all dto_fine ps" and srt: "\<forall>x \<in> set ps. dp_start a \<le> dp_start x" and ap: "\<forall>x \<in> set ps. apart a x"
    using Cons.prems by auto
  have lt: "dp_end a < dp_start x" if "x \<in> set ps" for x
  proof -
    have "dto_fine x" "apart a x" "dp_start a \<le> dp_start x" using that fine srt ap by (auto simp: list_all_iff)
    then show ?thesis using fine(1) by (auto simp: apart_def dto_fine_def)
  qed
  have "dp_start a \<noteq> dp_start x" if "x \<in> set ps" for x using lt [OF that] fine(1) by (auto simp: dto_fine_def)
  then have "dp_start a \<notin> set (map dp_start ps)" by auto
  moreover have "filter (\<lambda>(a, b). dp_start b \<le> dp_end a) (consecutive ps) = [] \<and> distinct (map dp_start ps)" using Cons by simp
  moreover have "filter (\<lambda>(a, b). dp_start b \<le> dp_end a) (consecutive (a # ps)) = filter (\<lambda>(a, b). dp_start b \<le> dp_end a) (consecutive ps)"
    using lt [of "hd ps"] by (cases ps) (auto simp: consecutive_def)
  ultimately show ?case by simp
qed (simp add: consecutive_def)

lemma sorted_wrt_perm: "(\<And>a b. R a b = R b a) \<Longrightarrow> mset xs = mset ys \<Longrightarrow> sorted_wrt R xs \<Longrightarrow> sorted_wrt R ys"
proof (induction xs arbitrary: ys)
  case (Cons x xs)
  have "x \<in> set ys" using mset_eq_setD [OF Cons.prems(2)] by auto
  then obtain us vs where ys: "ys = us @ x # vs" by (meson split_list)
  then have m: "mset xs = mset (us @ vs)" using Cons.prems(2) by simp
  then have "sorted_wrt R (us @ vs)" using Cons.IH Cons.prems by simp
  moreover have "\<forall>y \<in> set (us @ vs). R x y" using Cons.prems(3) mset_eq_setD [OF m] by simp
  ultimately show ?case using Cons.prems(1) by (auto simp: ys sorted_wrt_append)
qed simp

text \<open>
  C30. An import is refused for its own dates exactly when it must be: \<open>validateCalendarPeriods\<close> reports neither an error nor an
  overlap if and only if every period ends no earlier than it starts, is paid no earlier than it ends, and no two of the
  listed periods, in whatever order they are listed, share a day.
\<close>

theorem calendar_accepted_iff_disjoint:
  "(cr_errors (validateCalendarPeriods ps) = [] \<and> cr_overlaps (validateCalendarPeriods ps) = [])
    = (list_all dto_fine ps \<and> sorted_wrt apart ps)"
proof -
  let ?s = "sort_key dp_start ps"
  have sym: "apart a b = apart b a" for a b by (auto simp: apart_def)
  have fine: "list_all dto_fine ?s = list_all dto_fine ps" by (simp add: list_all_iff)
  have apart: "sorted_wrt apart ?s = sorted_wrt apart ps"
    using sorted_wrt_perm [where R = apart and xs = ?s and ys = ps, OF sym] sorted_wrt_perm [where R = apart and xs = ps and ys = ?s, OF sym] by auto
  have srt: "sorted (map dp_start ?s)" by simp
  have l: "cr_errors (validateCalendarPeriods ps) = [] \<and> cr_overlaps (validateCalendarPeriods ps) = []
      \<longleftrightarrow> list_all dto_fine ?s \<and> distinct (map dp_start ?s) \<and> filter (\<lambda>(a, b). dp_start b \<le> dp_end a) (consecutive ?s) = []"
    by (simp add: validateCalendarPeriods_def Let_def calendar_errors_Nil)
  have "sorted_wrt apart ?s" if a: "list_all dto_fine ?s" "filter (\<lambda>(a, b). dp_start b \<le> dp_end a) (consecutive ?s) = []"
    by (rule sorted_wrt_mono_rel [OF _ consecutive_apart [OF a(1) srt a(2)]]) (simp add: apart_def)
  then show ?thesis unfolding l fine [symmetric] apart [symmetric] using apart_consecutive [OF _ srt] by blast
qed

text \<open>Import of a new version over a finalised period.\<close>

lemma insert_periods_append: "insert_periods qs p = Inr p' \<Longrightarrow> periods p' = periods p @ qs \<and> runs p' = runs p \<and> lines p' = lines p"
proof (induction qs arbitrary: p)
  case (Cons q qs)
  then obtain p1 where 1: "insert_period q p = Inr p1" and 2: "insert_periods qs p1 = Inr p'" by (auto simp: bindE_Inr_iff)
  have "periods p1 = periods p @ [q] \<and> runs p1 = runs p \<and> lines p1 = lines p" using 1 by (auto simp: insert_period_def split: if_splits)
  then show ?case using Cons.IH [OF 2] by simp
qed simp

text \<open>
  C29. A new version of the calendar forgets what is finalised: after an import has replaced a year, a record of a date that one of
  the new periods covers, and that is in no run yet, is allocated to that new period as its own period, never carried
  forward, even when the run of the same dates under the previous version is finalised and its payslips are paid.
\<close>

theorem reimport_reopens_finalised_dates:
  assumes "pay_step\<^sup>*\<^sup>* empty_payroll p" and "import_calendar may initial env ctx dto cal uuid d p = Inr (p', True, report)"
    and "q \<in> set (im_periods dto)" and "dp_start q \<le> date" and "date \<le> dp_end q" and "find_period (uuid (dp_start q)) p = None" and "\<not> lined i p"
  shows "al_status (allocate p' i date) = ALLOCATED \<and> map_option pp_id (al_period (allocate p' i date)) = Some (uuid (dp_start q))
    \<and> run_of_period (uuid (dp_start q)) p' = None"
proof -
  have ok: "periods_ok p" by (rule pay_history_periods [OF assms(1)])
  have nd: "\<not> im_dry_run dto" using assms(2) by (auto simp: import_calendar_def Let_def bindE_Inr_iff)
  obtain c p1 p2 es where 1: "insert_calendar c (deactivate_year (im_year dto) p) = Inr p1"
    and 2: "insert_periods (map (period_of_dto cal uuid) (sort_key dp_start (im_periods dto))) p1 = Inr p2" and 3: "p' = pay_emit es p2"
    by (rule import_calendar_Inr [OF assms(2) nd]) blast
  let ?q = "period_of_dto cal uuid q"
  have same: "runs p' = runs p" "lines p' = lines p"
    using insert_periods_append [OF 2] 1 3 deactivate_year_core [of "im_year dto" p]
    by (auto simp: insert_calendar_def core_same_def pay_emit_def split: if_splits)
  have ok': "periods_ok p'" by (rule import_calendar_periods [OF assms(2) ok])
  have "?q \<in> set (periods p')" using insert_periods_append [OF 2] assms(3) 3 by (simp add: pay_emit_def)
  then have "?q \<in> set (activePeriods p') \<and> covers ?q date" using assms(4,5) by (simp add: activePeriods_mem period_of_dto_def covers_def)
  then have nat: "periodForDate (activePeriods p') date = Some ?q" using periodForDate_iff [OF ok'] by blast
  have nr: "run_of_period (uuid (dp_start q)) p' = None"
  proof (rule ccontr)
    assume "run_of_period (uuid (dp_start q)) p' \<noteq> None"
    then obtain n where n: "n \<in> set (runs p)" "rn_period n = uuid (dp_start q)"
      using find_Some_mem [of "\<lambda>r. rn_period r = uuid (dp_start q)" "runs p'"] same by (auto simp: run_of_period_def)
    obtain x where "x \<in> set (periods p)" "pp_id x = uuid (dp_start q)" using run_has_period [OF ok n(1)] n(2) by auto
    then show False using assms(6) by (auto simp: find_period_def find_None_iff)
  qed
  then have "\<not> finalised_period p' ?q" by (simp add: finalised_period_def period_of_dto_def)
  moreover have "\<not> lined i p'" using assms(7) same by (simp add: lined_def)
  ultimately show ?thesis using nr by (simp add: unlined_allocate nat allocation_in_def period_of_dto_def)
qed

lemma sample_before_reimport: "find_period ''p3'' pay6 = None \<and> \<not> lined ''new'' pay6 \<and> al_status (allocate pay6 ''new'' 20458) = CARRIED_FORWARD"
  by code_simp

lemma reimport_reopens_finalised_dates_witness:
  "al_status (allocate pay6 ''new'' 20458) = CARRIED_FORWARD \<and> al_status (allocate pay7 ''new'' 20458) = ALLOCATED"
proof -
  let ?q = "\<lparr>dp_start = 20450, dp_end = 20463, dp_payday = 20470, dp_note = None, dp_needs_confirmation = False\<rparr>"
  have "al_status (allocate pay7 ''new'' 20458) = ALLOCATED"
    using reimport_reopens_finalised_dates [OF sample_history(4) sample_payroll(7), of ?q 20458 "''new''"] sample_before_reimport by (simp add: fortnights_def)
  then show ?thesis using sample_before_reimport by blast
qed

section \<open>Approval\<close>

definition approvable :: "auth_ctx \<Rightarrow> db \<Rightarrow> pay_row \<Rightarrow> bool" where
  "approvable ctx d r \<longleftrightarrow> pr_status r = PR_PENDING_APPROVAL \<and> (case find_staff (pr_staff r) d of None \<Rightarrow> False | Some sp \<Rightarrow> sp_user sp \<noteq> cx_user ctx)"

lemma lockRecords_mem: "(r, u) \<in> set (lockRecords ids d p) \<longleftrightarrow> r \<in> set (pay_records p) \<and> pr_id r \<in> set ids
    \<and> (\<exists>sp. find_staff (pr_staff r) d = Some sp \<and> u = sp_user sp)"
  by (cases "find_staff (pr_staff r) d") (auto simp: lockRecords_def split: option.splits)

lemma may_approve: "PR_APPROVED \<in> set (case PAYROLL_RECORD_TRANSITIONS st of None \<Rightarrow> [] | Some ts \<Rightarrow> ts) \<longleftrightarrow> st = PR_PENDING_APPROVAL"
  by (cases st) simp_all

lemma judge_None:
  assumes k: "pay_table.keyed (pay_records p)" and i: "i \<in> set ids"
  shows "judge ctx (lockRecords ids d p) i = None \<longleftrightarrow> (\<exists>r \<in> set (pay_records p). pr_id r = i \<and> approvable ctx d r)"
proof (cases "find (\<lambda>x. pr_id (fst x) = i) (lockRecords ids d p)")
  case None
  then have "\<not> (\<exists>r \<in> set (pay_records p). pr_id r = i \<and> approvable ctx d r)"
    using i lockRecords_mem [of _ _ ids d p] by (auto simp: find_None_iff approvable_def split: option.splits)
  then show ?thesis by (simp add: judge_def None)
next
  case (Some x)
  obtain r u where x: "x = (r, u)" by (cases x)
  have m: "(r, u) \<in> set (lockRecords ids d p)" "pr_id r = i" using find_Some_mem [OF Some] x by auto
  then obtain sp where sp: "r \<in> set (pay_records p)" "find_staff (pr_staff r) d = Some sp" "u = sp_user sp" by (auto simp: lockRecords_mem)
  have one: "y = r" if "y \<in> set (pay_records p)" "pr_id y = i" for y
    using pay_table.keyed_unique [OF k that(1) sp(1)] that(2) m(2) by simp
  have "judge ctx (lockRecords ids d p) i = None \<longleftrightarrow> pr_status r = PR_PENDING_APPROVAL \<and> u \<noteq> cx_user ctx"
    unfolding judge_def Some x using may_approve by simp
  also have "\<dots> \<longleftrightarrow> approvable ctx d r" by (simp add: approvable_def sp)
  also have "\<dots> \<longleftrightarrow> (\<exists>r \<in> set (pay_records p). pr_id r = i \<and> approvable ctx d r)" using one sp(1) m(2) by blast
  finally show ?thesis .
qed

lemma approve_row_fine:
  assumes "record_checks r" and "pr_status r = PR_PENDING_APPROVAL"
  shows "record_checks (approve_row ctx clk r)" and "payroll_record_guard r (approve_row ctx clk r)"
  using assms by (auto simp: record_checks_def approve_row_def payroll_record_guard_def record_edges_def)

lemma applyApproval_succeeds:
  assumes ok: "pay_ok p" and ids: "distinct ids" "\<And>i. i \<in> set ids \<Longrightarrow> \<exists>r \<in> set (pay_records p). pr_id r = i \<and> pr_status r = PR_PENDING_APPROVAL"
  shows "\<exists>p'. applyApproval ctx clk ids p = Inr p' \<and> pay_records p' = update_where (\<lambda>r. pr_id r \<in> set ids) (approve_row ctx clk) (pay_records p)"
proof -
  let ?P = "\<lambda>r. pr_id r \<in> set ids \<and> pr_status r = PR_PENDING_APPROVAL"
  have k: "pay_table.keyed (pay_records p)" and ck: "\<forall>r \<in> set (pay_records p). record_checks r" using ok by (simp_all add: pay_ok_def keys_ok_def record_ok_def)
  have P: "?P r \<longleftrightarrow> pr_id r \<in> set ids" if "r \<in> set (pay_records p)" for r
    using ids(2) [of "pr_id r"] pay_table.keyed_unique [OF k] that by auto
  have "set (map pr_id (filter ?P (pay_records p))) = set ids" using ids(2) by (auto simp: image_iff)
  moreover have "distinct (map pr_id (filter ?P (pay_records p)))" using k by (simp add: pay_table.keyed_def distinct_map_filter)
  ultimately have "length (map pr_id (filter ?P (pay_records p))) = length ids" using ids(1) by (metis distinct_card)
  then have count: "count_where ?P (pay_records p) = length ids" by (simp add: count_where_def)
  have "list_all record_checks (update_where ?P (approve_row ctx clk) (pay_records p))"
    by (rule list_all_update [OF ck]) (use ck approve_row_fine(1) in blast)
  moreover have "\<forall>r \<in> set (pay_records p). ?P r \<longrightarrow> payroll_record_guard r (approve_row ctx clk r)" using ck approve_row_fine(2) by blast
  ultimately have "update_records ?P (approve_row ctx clk) p = Inr (p\<lparr>pay_records := update_where ?P (approve_row ctx clk) (pay_records p)\<rparr>)"
    unfolding update_records_Inr by blast
  moreover have "update_where ?P (approve_row ctx clk) (pay_records p) = update_where (\<lambda>r. pr_id r \<in> set ids) (approve_row ctx clk) (pay_records p)"
    by (rule update_where_cong) (rule P)
  ultimately show ?thesis using count by (simp add: applyApproval_def require_def pay_emit_def)
qed

lemma length_judged: "length (filter (\<lambda>i. f i = None) xs) + length (concat (map (\<lambda>i. case f i of None \<Rightarrow> [] | Some b \<Rightarrow> [(i, b)]) xs)) = length xs"
  by (induction xs) (auto split: option.splits)

lemma judged_ids: "set (map fst (concat (map (\<lambda>i. case f i of None \<Rightarrow> [] | Some b \<Rightarrow> [(i, b)]) xs))) = set xs - set (filter (\<lambda>i. f i = None) xs)"
  by (induction xs) (auto split: option.splits)

text \<open>
  C31. A bulk approval by a permitted manager always returns, and it is exact: every id that was sent is either approved or reported as
  blocked, the approved ones are those of pending records of other people's hours, exactly their rows are changed, each to
  approved by the caller with its statement requested, and a record that was not sent is not touched.
\<close>

theorem bulk_approval_is_exact:
  assumes "pay_step\<^sup>*\<^sup>* empty_payroll p" and "pay_access may env ctx d = Inr ()" and "distinct ids"
  shows "\<exists>p' approved blocked. bulkApprove may env ctx clk ids d p = Inr (p', approved, blocked)
    \<and> set approved = {i \<in> set ids. \<exists>r \<in> set (pay_records p). pr_id r = i \<and> approvable ctx d r}
    \<and> set (map fst blocked) = set ids - set approved \<and> length approved + length blocked = length ids
    \<and> pay_records p' = update_where (\<lambda>r. pr_id r \<in> set approved) (approve_row ctx clk) (pay_records p)"
proof -
  have ok: "pay_ok p" by (rule pay_history_ok [OF assms(1)])
  then have k: "pay_table.keyed (pay_records p)" by (simp add: pay_ok_def keys_ok_def)
  let ?j = "judge ctx (lockRecords ids d p)"
  let ?e = "filter (\<lambda>i. ?j i = None) ids" and ?b = "concat (map (\<lambda>i. case ?j i of None \<Rightarrow> [] | Some b \<Rightarrow> [(i, b)]) ids)"
  have e: "set ?e = {i \<in> set ids. \<exists>r \<in> set (pay_records p). pr_id r = i \<and> approvable ctx d r}" using judge_None [OF k] by auto
  have "\<exists>p'. (if ?e = [] then Inr p else applyApproval ctx clk ?e p) = Inr p'
      \<and> pay_records p' = update_where (\<lambda>r. pr_id r \<in> set ?e) (approve_row ctx clk) (pay_records p)"
  proof (cases "?e = []")
    case True
    then show ?thesis by (simp add: update_where_def)
  next
    case False
    have "\<exists>r \<in> set (pay_records p). pr_id r = i \<and> pr_status r = PR_PENDING_APPROVAL" if "i \<in> set ?e" for i
      using that unfolding e by (auto simp: approvable_def)
    then show ?thesis using applyApproval_succeeds [OF ok, of ?e ctx clk] assms(3) False by simp
  qed
  then obtain p' where p': "(if ?e = [] then Inr p else applyApproval ctx clk ?e p) = Inr p'"
    "pay_records p' = update_where (\<lambda>r. pr_id r \<in> set ?e) (approve_row ctx clk) (pay_records p)" by blast
  have "bulkApprove may env ctx clk ids d p = Inr (p', ?e, ?b)"
    unfolding bulkApprove_def Let_def using assms(2) p'(1) by simp
  then show ?thesis using e p'(2) length_judged [of ?j ids] judged_ids [of ?j ids] by blast
qed

lemma bulk_approval_is_exact_witness:
  "\<exists>p' approved blocked. bulkApprove True site_env sample_ctx pay_now [''other'', ''rect1''] approved_day pay2 = Inr (p', approved, blocked)
    \<and> length approved + length blocked = 2"
  using bulk_approval_is_exact [OF sample_history(5) sample_access, of "[''other'', ''rect1'']" pay_now] by auto

section \<open>From the shift report to payroll\<close>

lemma approve_attendances_keeps: "approve_attendances ts d = Inr d' \<Longrightarrow> assignments d' = assignments d \<and> shifts d' = shifts d \<and> reports d' = reports d
    \<and> (\<forall>x \<in> set (attendances d'). \<exists>y \<in> set (attendances d). at_id x = at_id y \<and> at_assignment x = at_assignment y
        \<and> (at_status x = AT_APPROVED \<or> x = y \<and> (\<forall>t \<in> set ts. at_id t = at_id y \<longrightarrow> at_status t = AT_APPROVED)))"
proof (induction ts arbitrary: d)
  case (Cons t ts)
  show ?case
  proof (cases "at_status t = AT_APPROVED")
    case True
    then show ?thesis using Cons by auto
  next
    case False
    let ?f = "updated (\<lambda>x. x\<lparr>at_status := AT_APPROVED\<rparr>)"
    obtain d1 where 1: "update_attendance (\<lambda>x. at_id x = at_id t) (\<lambda>x. x\<lparr>at_status := AT_APPROVED\<rparr>) d = Inr d1"
      and 2: "approve_attendances ts d1 = Inr d'" using Cons.prems False by (auto simp: bindE_Inr_iff)
    have d1: "assignments d1 = assignments d" "shifts d1 = shifts d" "reports d1 = reports d"
      "attendances d1 = update_where (\<lambda>x. at_id x = at_id t) ?f (attendances d)"
      using 1 by (auto simp: update_attendance_def Let_def split: if_splits)
    have "\<exists>y \<in> set (attendances d). at_id x = at_id y \<and> at_assignment x = at_assignment y
        \<and> (at_status x = AT_APPROVED \<or> x = y \<and> (\<forall>s \<in> set (t # ts). at_id s = at_id y \<longrightarrow> at_status s = AT_APPROVED))"
      if x: "x \<in> set (attendances d')" for x
    proof -
      obtain z where z: "z \<in> set (attendances d1)" "at_id x = at_id z" "at_assignment x = at_assignment z"
        "at_status x = AT_APPROVED \<or> x = z \<and> (\<forall>s \<in> set ts. at_id s = at_id z \<longrightarrow> at_status s = AT_APPROVED)"
        using Cons.IH [OF 2] x by blast
      obtain y where y: "y \<in> set (attendances d)" "z = (if at_id y = at_id t then ?f y else y)" using z(1) unfolding d1 mem_update_where by blast
      have "at_id z = at_id y" "at_assignment z = at_assignment y" "at_id y = at_id t \<longrightarrow> at_status z = AT_APPROVED" using y(2) by (auto simp: updated_def reset_attendance_post_shift_def)
      then show ?thesis using y z by (intro bexI [OF _ y(1)]) auto
    qed
    then show ?thesis using Cons.IH [OF 2] d1 by simp
  qed
qed fastforce

lemma add_records_covers:
  assumes "add_records uuid rows p = Inr p'" and "inj uuid" and "\<forall>r \<in> set (pay_records p). \<forall>i. pr_id r = uuid i \<longrightarrow> pr_attendance r = i"
  shows "(\<forall>(t, a) \<in> set rows. (\<exists>r \<in> set (pay_records p'). pr_attendance r = at_id t) \<and> (\<exists>x. verified_pay t a = Inr x))
    \<and> set (pay_records p) \<subseteq> set (pay_records p')
    \<and> (\<forall>r \<in> set (pay_records p'). r \<in> set (pay_records p) \<or> (\<exists>(t, a) \<in> set rows. \<exists>m w. verified_pay t a = Inr (m, w) \<and> r = pending_record (uuid (at_id t)) t m (sa_pay_snapshot a) w))"
  using assms
proof (induction uuid rows p rule: add_records.induct)
  case (2 uuid t a rest p)
  obtain m w q where v: "verified_pay t a = Inr (m, w)" and q: "insert_record (pending_record (uuid (at_id t)) t m (sa_pay_snapshot a) w) p = Inr q"
    and r: "add_records uuid rest q = Inr p'" using 2(2) by (auto simp: bindE_Inr_iff split: prod.splits)
  let ?r = "pending_record (uuid (at_id t)) t m (sa_pay_snapshot a) w"
  have ra: "pr_id ?r = uuid (at_id t)" "pr_attendance ?r = at_id t" by (simp_all add: pending_record_def)
  have qs: "set (pay_records p) \<subseteq> set (pay_records q)" "\<forall>x \<in> set (pay_records q). x \<in> set (pay_records p) \<or> x = ?r"
    using q by (auto simp: insert_record_def split: if_splits)
  have has: "\<exists>x \<in> set (pay_records q). pr_attendance x = at_id t"
  proof (cases "\<exists>x \<in> set (pay_records p). pr_id x = pr_id ?r \<or> pr_attendance x = pr_attendance ?r")
    case True
    then obtain x where "x \<in> set (pay_records p)" "pr_id x = uuid (at_id t) \<or> pr_attendance x = at_id t" unfolding ra by blast
    then show ?thesis using 2(4) qs(1) by blast
  next
    case False
    then have "?r \<in> set (pay_records q)" using q by (auto simp: insert_record_def split: if_splits)
    then show ?thesis using ra by blast
  qed
  have "\<forall>x \<in> set (pay_records q). \<forall>i. pr_id x = uuid i \<longrightarrow> pr_attendance x = i"
  proof (intro ballI allI impI)
    fix x i assume x: "x \<in> set (pay_records q)" "pr_id x = uuid i"
    consider "x \<in> set (pay_records p)" | "x = ?r" using qs(2) x(1) by blast
    then show "pr_attendance x = i"
    proof cases
      case 1
      then show ?thesis using 2(4) x(2) by blast
    next
      case new: 2
      then have "uuid (at_id t) = uuid i" using ra(1) x(2) by simp
      then have "at_id t = i" using 2(3) by (simp add: inj_eq)
      then show ?thesis using new ra(2) by simp
    qed
  qed
  note IH = 2(1) [OF r 2(3) this]
  show ?case using IH v has qs by (auto 0 4)
qed simp


lemma finaliseReport_Inr:
  assumes "finaliseReport env ctx clk sid sign uuid d0 d p = Inr (d', p')" and "\<not> (\<exists>r \<in> set (reports d). rp_shift r = sid \<and> rp_status r = ''finalised'')"
  obtains d1 d2 n es where "approve_attendances (filter (\<lambda>t. at_assignment t \<in> sa_id ` set (filter (\<lambda>a. sa_shift a = sid \<and> sa_status a \<in> set SEAT_REPORT_STATUSES)
        (assignments d))) (attendances d)) d = Inr d1"
    and "d2 = save_report ctx clk sid (map_option js_trim (fst sign)) d1" and "createPendingForShift ctx sid uuid d2 p = Inr (p', n)" and "d' = emit es d2"
    and "count_where (\<lambda>a. sa_reviewed_at a = None) (filter (\<lambda>a. sa_shift a = sid \<and> sa_status a \<in> set SEAT_REPORT_STATUSES) (assignments d)) = 0"
  using assms unfolding finaliseReport_def Let_def bindE_Inr_iff require_Inr_iff
  by (auto simp: bindE_Inr_iff require_Inr_iff simp del: count_where_simps split: prod.splits)

lemma approved_of_shift_mem: "(t, a) \<in> set (approved_of_shift ctx sid d) \<longleftrightarrow> t \<in> set (attendances d) \<and> at_shift t = sid \<and> at_org t = cx_org ctx
    \<and> at_status t = AT_APPROVED \<and> find_assignment (at_assignment t) d = Some a"
  by (cases "find_assignment (at_assignment t) d") (auto simp: approved_of_shift_def split: option.splits)

lemma createPendingForShift_Inr: "createPendingForShift ctx sid uuid d p = Inr (p', n) \<Longrightarrow>
    \<exists>p1. add_records uuid (approved_of_shift ctx sid d) p = Inr p1 \<and> pay_records p' = pay_records p1"
  by (auto simp: createPendingForShift_def Let_def bindE_Inr_iff pay_emit_def split: if_splits)

lemma saved_report: "\<exists>r \<in> set (reports (save_report ctx clk sid name d)). rp_shift r = sid \<and> rp_status r = ''finalised'' \<and> rp_finalised_by r = Some (cx_user ctx)"
proof -
  let ?f = "\<lambda>r. r\<lparr>rp_status := ''finalised'', rp_finalised_at := Some (node_now clk), rp_finalised_by := Some (cx_user ctx),
                    rp_signed_off := (if name = None then rp_signed_off r else name)\<rparr>"
  show ?thesis
  proof (cases "\<exists>r \<in> set (reports d). rp_shift r = sid")
    case True
    then obtain r where r: "r \<in> set (reports d)" "rp_shift r = sid" by blast
    have "?f r \<in> set (update_where (\<lambda>r. rp_shift r = sid) ?f (reports d))"
      using mem_update_image [OF r(1), of "\<lambda>r. rp_shift r = sid" ?f] r(2) by simp
    then show ?thesis unfolding save_report_def Let_def using True r(2) by (intro bexI [of _ "?f r"]) simp_all
  qed (simp add: save_report_def)
qed



end
