(* ===== verification/LruCache.thy ===== *)
theory LruCache
  imports Prelude
begin

text \<open>
  The in-process store of the metadata cache (\<open>rab-server/src/engine/core-modules/entity-cache/bounded-lru-cache.ts\<close>):
  \<open>BoundedLruCache\<close>, a least recently used cache with an entry cap, a byte cap, a time to live per entry and a fence against
  fills that started before an invalidation. The locale \<open>coherent_cache\<close> is what a cache owes its readers; it is interpreted
  here on \<open>BoundedLruCache\<close> and in \<open>MetadataL1\<close> on the service around it.

  A JavaScript \<open>Map\<close> is the list of its pairs in insertion order. \<open>Date.now()\<close> is an argument of the operation; \<open>set\<close>
  and \<open>invalidate\<close> read it twice. The length of the JSON text of a value is the parameter \<open>json_length\<close>, \<open>None\<close> when
  \<open>JSON.stringify\<close> throws.
\<close>

section \<open>JavaScript maps\<close>

type_synonym 'v js_map = "(string \<times> 'v) list"

definition js_get :: "string \<Rightarrow> 'v js_map \<Rightarrow> 'v option" where
  "js_get k m = map_of m k"

definition js_delete :: "string \<Rightarrow> 'v js_map \<Rightarrow> 'v js_map" where
  "js_delete k m = filter (\<lambda>(x, v). x \<noteq> k) m"

text \<open>\<open>Map.set\<close> keeps the place of a key it already has.\<close>

definition js_set :: "string \<Rightarrow> 'v \<Rightarrow> 'v js_map \<Rightarrow> 'v js_map" where
  "js_set k v m = (if k \<in> fst ` set m then map (\<lambda>(x, u). (x, if x = k then v else u)) m else m @ [(k, v)])"

lemma js_get_simps [simp]: "js_get k [] = None" "js_get k ((x, v) # m) = (if x = k then Some v else js_get k m)"
  by (simp_all add: js_get_def)

lemma js_delete_simps [simp]: "js_delete k [] = []" "js_delete k ((x, v) # m) = (if x = k then js_delete k m else (x, v) # js_delete k m)"
  by (simp_all add: js_delete_def)

lemma js_get_delete: "js_get x (js_delete k m) = (if x = k then None else js_get x m)"
  by (induction m) auto

lemma js_get_None: "js_get k m = None \<longleftrightarrow> k \<notin> fst ` set m"
  by (simp add: js_get_def map_of_eq_None_iff)

lemma js_get_append: "js_get x (m @ n) = (case js_get x m of None \<Rightarrow> js_get x n | Some v \<Rightarrow> Some v)"
  by (induction m) auto

lemma js_get_set: "js_get x (js_set k v m) = (if x = k then Some v else js_get x m)"
proof -
  have "js_get x (map (\<lambda>(y, u). (y, if y = k then v else u)) m) = (if x = k \<and> js_get k m \<noteq> None then Some v else js_get x m)"
    by (induction m) (auto split: if_splits)
  moreover have "k \<in> fst ` set m \<longleftrightarrow> js_get k m \<noteq> None" by (simp add: js_get_None)
  ultimately show ?thesis by (cases "js_get x m") (auto simp: js_set_def js_get_append)
qed

lemma js_delete_set: "set (js_delete k m) = {p \<in> set m. fst p \<noteq> k}"
  by (auto simp: js_delete_def)

lemma js_delete_distinct: "distinct (map fst m) \<Longrightarrow> distinct (map fst (js_delete k m))"
  by (induction m) (auto simp: js_delete_set)

lemma js_delete_same: "k \<notin> fst ` set m \<Longrightarrow> js_delete k m = m"
  by (induction m) auto

lemma js_delete_length: "length (js_delete k m) \<le> length m"
  by (simp add: js_delete_def)

lemma js_get_mem: "distinct (map fst m) \<Longrightarrow> (k, v) \<in> set m \<longleftrightarrow> js_get k m = Some v"
  by (simp add: js_get_def map_of_eq_Some_iff)

section \<open>The cache (bounded-lru-cache.ts)\<close>

record LruTicket =
  tk_key :: string
  tk_group :: string
  tk_seq :: nat

record 'v lru_entry =
  en_value :: 'v
  en_expiresAt :: int
  en_bytes :: int
  en_group :: string

record lru_counters =
  n_hits :: nat
  n_misses :: nat
  n_sets :: nat
  n_setsRefusedStale :: nat
  n_setsRefusedTooLarge :: nat
  n_evictions :: nat
  n_expirations :: nat
  n_invalidations :: nat
  n_clears :: nat

record 'v lru =
  lru_entries :: "'v lru_entry js_map"
  lru_keyFence :: "(nat \<times> int) js_map" \<comment> \<open>the sequence number and the time of the last invalidation\<close>
  lru_groupFence :: "nat js_map"
  lru_clearSeq :: nat
  lru_seq :: nat
  lru_bytes :: int
  lru_counters :: lru_counters

record lru_options =
  op_maxEntries :: int
  op_maxBytes :: int
  op_maxEntryBytes :: int

definition FENCE_MEMORY_MS :: int where "FENCE_MEMORY_MS = 120000"

definition MAX_KEY_FENCES :: nat where "MAX_KEY_FENCES = 10000"

definition no_counts :: lru_counters where
  "no_counts = \<lparr>n_hits = 0, n_misses = 0, n_sets = 0, n_setsRefusedStale = 0, n_setsRefusedTooLarge = 0, n_evictions = 0,
     n_expirations = 0, n_invalidations = 0, n_clears = 0\<rparr>"

definition lru_new :: "lru_options \<Rightarrow> 'v lru res" where
  "lru_new opt =
     (if op_maxEntries opt \<ge> 1 \<and> op_maxBytes opt \<ge> 1 \<and> op_maxEntryBytes opt \<ge> 1
      then Inr \<lparr>lru_entries = [], lru_keyFence = [], lru_groupFence = [], lru_clearSeq = 0, lru_seq = 0, lru_bytes = 0,
             lru_counters = no_counts\<rparr>
      else Inl (BadRequest ''BoundedLruCache: maxEntries, maxBytes and maxEntryBytes must be positive.''))"

definition lru_count :: "(lru_counters \<Rightarrow> lru_counters) \<Rightarrow> 'v lru \<Rightarrow> 'v lru" where
  "lru_count f c = c\<lparr>lru_counters := f (lru_counters c)\<rparr>"

definition lru_remove :: "string \<Rightarrow> 'v lru_entry \<Rightarrow> 'v lru \<Rightarrow> 'v lru" where
  "lru_remove k e c = c\<lparr>lru_entries := js_delete k (lru_entries c), lru_bytes := lru_bytes c - en_bytes e\<rparr>"

definition lru_get :: "int \<Rightarrow> string \<Rightarrow> 'v lru \<Rightarrow> 'v lru \<times> 'v option" where
  "lru_get now k c =
     (case js_get k (lru_entries c) of
        None \<Rightarrow> (lru_count (\<lambda>n. n\<lparr>n_misses := n_misses n + 1\<rparr>) c, None)
      | Some e \<Rightarrow>
          if en_expiresAt e \<le> now
          then (lru_count (\<lambda>n. n\<lparr>n_expirations := n_expirations n + 1, n_misses := n_misses n + 1\<rparr>) (lru_remove k e c), None)
          else (lru_count (\<lambda>n. n\<lparr>n_hits := n_hits n + 1\<rparr>)
                  (c\<lparr>lru_entries := js_set k e (js_delete k (lru_entries c))\<rparr>), Some (en_value e)))"

definition lru_ticket :: "string \<Rightarrow> string \<Rightarrow> 'v lru \<Rightarrow> LruTicket" where
  "lru_ticket k g c = \<lparr>tk_key = k, tk_group = g, tk_seq = lru_seq c\<rparr>"

definition lru_full :: "lru_options \<Rightarrow> 'v lru \<Rightarrow> bool" where
  "lru_full opt c \<longleftrightarrow> \<not> (int (length (lru_entries c)) \<le> op_maxEntries opt \<and> lru_bytes c \<le> op_maxBytes opt)"

text \<open>The two loops over the map: each visits the entries of the map it started with, oldest first, and deletes some.\<close>

fun drop_expired :: "int \<Rightarrow> 'v lru_entry js_map \<Rightarrow> 'v lru \<Rightarrow> 'v lru" where
  "drop_expired now [] c = c"
| "drop_expired now ((k, e) # es) c =
     drop_expired now es
       (if en_expiresAt e \<le> now then lru_count (\<lambda>n. n\<lparr>n_expirations := n_expirations n + 1\<rparr>) (lru_remove k e c) else c)"

fun evict_oldest :: "lru_options \<Rightarrow> 'v lru_entry js_map \<Rightarrow> 'v lru \<Rightarrow> 'v lru" where
  "evict_oldest opt [] c = c"
| "evict_oldest opt ((k, e) # es) c =
     (if \<not> lru_full opt c then c
      else evict_oldest opt es (lru_count (\<lambda>n. n\<lparr>n_evictions := n_evictions n + 1\<rparr>) (lru_remove k e c)))"

definition enforceCapacity :: "lru_options \<Rightarrow> int \<Rightarrow> 'v lru \<Rightarrow> 'v lru" where
  "enforceCapacity opt now c =
     (if \<not> lru_full opt c then c
      else let c1 = drop_expired now (lru_entries c) c in evict_oldest opt (lru_entries c1) c1)"

definition MAX_SAFE_BYTES :: int where "MAX_SAFE_BYTES = 2 ^ 53 - 1"

definition approximateBytes :: "string \<Rightarrow> nat option \<Rightarrow> int" where
  "approximateBytes k json_length = (case json_length of None \<Rightarrow> MAX_SAFE_BYTES | Some n \<Rightarrow> int ((length k + n) * 2 + 64))"

definition lru_stale :: "LruTicket \<Rightarrow> 'v lru \<Rightarrow> bool" where
  "lru_stale t c \<longleftrightarrow> lru_clearSeq c > tk_seq t
     \<or> (case js_get (tk_key t) (lru_keyFence c) of None \<Rightarrow> False | Some (s, _) \<Rightarrow> s > tk_seq t)
     \<or> (case js_get (tk_group t) (lru_groupFence c) of None \<Rightarrow> False | Some s \<Rightarrow> s > tk_seq t)"

definition lru_store :: "lru_options \<Rightarrow> int \<times> int \<Rightarrow> LruTicket \<Rightarrow> 'v \<Rightarrow> int \<Rightarrow> int \<Rightarrow> 'v lru \<Rightarrow> 'v lru" where
  "lru_store opt clk t v ttlMs b c =
     (let c1 = (case js_get (tk_key t) (lru_entries c) of None \<Rightarrow> c | Some e \<Rightarrow> lru_remove (tk_key t) e c);
          e = \<lparr>en_value = v, en_expiresAt = fst clk + ttlMs, en_bytes = b, en_group = tk_group t\<rparr>;
          c2 = c1\<lparr>lru_entries := js_set (tk_key t) e (lru_entries c1), lru_bytes := lru_bytes c1 + b\<rparr>
      in enforceCapacity opt (snd clk) (lru_count (\<lambda>n. n\<lparr>n_sets := n_sets n + 1\<rparr>) c2))"

definition lru_set ::
  "lru_options \<Rightarrow> ('v \<Rightarrow> nat option) \<Rightarrow> int \<times> int \<Rightarrow> LruTicket \<Rightarrow> 'v \<Rightarrow> int \<Rightarrow> 'v lru \<Rightarrow> 'v lru \<times> bool" where
  "lru_set opt json_length clk t v ttlMs c =
     (if lru_stale t c then (lru_count (\<lambda>n. n\<lparr>n_setsRefusedStale := n_setsRefusedStale n + 1\<rparr>) c, False)
      else if \<not> 0 < ttlMs then (c, False)
      else
        let b = approximateBytes (tk_key t) (json_length v) in
        if b > op_maxEntryBytes opt
        then (lru_count (\<lambda>n. n\<lparr>n_setsRefusedTooLarge := n_setsRefusedTooLarge n + 1\<rparr>) c, False)
        else (lru_store opt clk t v ttlMs b c, True))"

definition lru_clear :: "'v lru \<Rightarrow> 'v lru" where
  "lru_clear c = lru_count (\<lambda>n. n\<lparr>n_clears := n_clears n + 1\<rparr>)
     (c\<lparr>lru_seq := lru_seq c + 1, lru_clearSeq := lru_seq c + 1, lru_entries := [], lru_bytes := 0\<rparr>)"

definition pruneFences :: "int \<Rightarrow> 'v lru \<Rightarrow> 'v lru" where
  "pruneFences now c =
     (if length (lru_keyFence c) < MAX_KEY_FENCES then c
      else
        let cutoff = now - FENCE_MEMORY_MS;
            c1 = c\<lparr>lru_keyFence := filter (\<lambda>(_, _, at). \<not> at < cutoff) (lru_keyFence c)\<rparr>
        in if MAX_KEY_FENCES \<le> length (lru_keyFence c1) then lru_clear (c1\<lparr>lru_keyFence := []\<rparr>) else c1)"

definition lru_invalidate :: "int \<times> int \<Rightarrow> string \<Rightarrow> 'v lru \<Rightarrow> 'v lru" where
  "lru_invalidate clk k c =
     (let c1 = c\<lparr>lru_seq := lru_seq c + 1, lru_keyFence := js_set k (lru_seq c + 1, fst clk) (lru_keyFence c)\<rparr>;
          c2 = (case js_get k (lru_entries c1) of None \<Rightarrow> c1 | Some e \<Rightarrow> lru_remove k e c1)
      in pruneFences (snd clk) (lru_count (\<lambda>n. n\<lparr>n_invalidations := n_invalidations n + 1\<rparr>) c2))"

fun drop_group :: "string \<Rightarrow> 'v lru_entry js_map \<Rightarrow> 'v lru \<Rightarrow> 'v lru" where
  "drop_group g [] c = c"
| "drop_group g ((k, e) # es) c = drop_group g es (if en_group e = g then lru_remove k e c else c)"

definition lru_invalidateGroup :: "string \<Rightarrow> 'v lru \<Rightarrow> 'v lru" where
  "lru_invalidateGroup g c =
     (let c1 = c\<lparr>lru_seq := lru_seq c + 1, lru_groupFence := js_set g (lru_seq c + 1) (lru_groupFence c)\<rparr>
      in lru_count (\<lambda>n. n\<lparr>n_invalidations := n_invalidations n + 1\<rparr>) (drop_group g (lru_entries c1) c1))"

definition lru_stats :: "'v lru \<Rightarrow> nat \<times> int \<times> lru_counters" where
  "lru_stats c = (length (lru_entries c), lru_bytes c, lru_counters c)"

section \<open>What the operations keep\<close>

definition valid_options :: "lru_options \<Rightarrow> bool" where
  "valid_options opt \<longleftrightarrow> 1 \<le> op_maxEntries opt \<and> 1 \<le> op_maxBytes opt \<and> 1 \<le> op_maxEntryBytes opt"

definition bytes_of :: "'v lru_entry js_map \<Rightarrow> int" where
  "bytes_of m = sum_list (map (en_bytes \<circ> snd) m)"

definition counted :: "'v lru \<Rightarrow> bool" where
  "counted c \<longleftrightarrow> distinct (map fst (lru_entries c)) \<and> lru_bytes c = bytes_of (lru_entries c)
     \<and> (\<forall>(k, e) \<in> set (lru_entries c). 0 \<le> en_bytes e)"

definition fenced :: "'v lru \<Rightarrow> bool" where
  "fenced c \<longleftrightarrow> lru_clearSeq c \<le> lru_seq c \<and> (\<forall>(k, s, at) \<in> set (lru_keyFence c). s \<le> lru_seq c)
     \<and> (\<forall>(g, s) \<in> set (lru_groupFence c). s \<le> lru_seq c) \<and> length (lru_keyFence c) < MAX_KEY_FENCES"

definition lru_wf :: "lru_options \<Rightarrow> 'v lru \<Rightarrow> bool" where
  "lru_wf opt c \<longleftrightarrow> counted c \<and> fenced c \<and> \<not> lru_full opt c"

text \<open>The fields that say which fills are refused.\<close>

definition fences :: "'v lru \<Rightarrow> nat \<times> nat \<times> (nat \<times> int) js_map \<times> nat js_map" where
  "fences c = (lru_seq c, lru_clearSeq c, lru_keyFence c, lru_groupFence c)"

lemma fences_iff:
  "fences c = fences d \<longleftrightarrow> lru_seq c = lru_seq d \<and> lru_clearSeq c = lru_clearSeq d \<and> lru_keyFence c = lru_keyFence d \<and> lru_groupFence c = lru_groupFence d"
  by (simp add: fences_def)

lemma fenced_cong: "fences c = fences d \<Longrightarrow> fenced c = fenced d"
  by (simp add: fences_iff fenced_def)

lemma lru_count_simps [simp]:
  "lru_entries (lru_count f c) = lru_entries c" "lru_bytes (lru_count f c) = lru_bytes c" "fences (lru_count f c) = fences c"
  "counted (lru_count f c) = counted c" "lru_full opt (lru_count f c) = lru_full opt c" "lru_seq (lru_count f c) = lru_seq c"
  "lru_clearSeq (lru_count f c) = lru_clearSeq c" "lru_keyFence (lru_count f c) = lru_keyFence c"
  "lru_groupFence (lru_count f c) = lru_groupFence c"
  by (simp_all add: lru_count_def fences_def counted_def lru_full_def)

lemma lru_remove_simps [simp]:
  "lru_entries (lru_remove k e c) = js_delete k (lru_entries c)" "fences (lru_remove k e c) = fences c"
  by (simp_all add: lru_remove_def fences_def)

lemma bytes_of_delete:
  "distinct (map fst m) \<Longrightarrow> js_get k m = Some e \<Longrightarrow> bytes_of (js_delete k m) = bytes_of m - en_bytes e"
  by (induction m) (auto simp: bytes_of_def js_delete_same image_iff split: if_splits)

lemma counted_remove: "counted c \<Longrightarrow> js_get k (lru_entries c) = Some e \<Longrightarrow> counted (lru_remove k e c)"
  unfolding counted_def lru_remove_simps by (auto simp: bytes_of_delete js_delete_distinct js_delete_set) (simp add: lru_remove_def)

lemma drop_expired_shape:
  assumes "counted c" and "lru_entries c = p @ es"
  shows "lru_entries (drop_expired now es c) = p @ filter (\<lambda>(k, e). now < en_expiresAt e) es
    \<and> counted (drop_expired now es c) \<and> fences (drop_expired now es c) = fences c"
  using assms
proof (induction now es c arbitrary: p rule: drop_expired.induct)
  case (2 now k e es c)
  have d: "distinct (map fst (p @ (k, e) # es))" using "2.prems" by (simp add: counted_def)
  then have g: "js_get k (lru_entries c) = Some e" using "2.prems"(2) js_get_mem [of "lru_entries c" k e] by simp
  show ?case
  proof (cases "en_expiresAt e \<le> now")
    case True
    let ?c = "lru_count (\<lambda>n. n\<lparr>n_expirations := n_expirations n + 1\<rparr>) (lru_remove k e c)"
    have "js_delete k (p @ (k, e) # es) = p @ es"
      using d js_delete_same [of k p] js_delete_same [of k es] by (simp add: js_delete_def)
    then have "lru_entries ?c = p @ es" using "2.prems"(2) by simp
    then show ?thesis using "2.IH" [of p] True counted_remove [OF "2.prems"(1) g] by simp
  next
    case False
    then show ?thesis using "2.IH" [of "p @ [(k, e)]"] "2.prems" by simp
  qed
qed simp

text \<open>The eviction removes the shortest prefix of the oldest entries that brings the cache within its caps.\<close>

definition fits :: "lru_options \<Rightarrow> 'v lru_entry js_map \<Rightarrow> bool" where
  "fits opt m \<longleftrightarrow> int (length m) \<le> op_maxEntries opt \<and> bytes_of m \<le> op_maxBytes opt"

lemma full_fits: "counted c \<Longrightarrow> \<not> lru_full opt c \<longleftrightarrow> fits opt (lru_entries c)"
  by (simp add: counted_def lru_full_def fits_def)

lemma evict_oldest_shape:
  assumes "counted c" and "lru_entries c = es" and "valid_options opt"
  shows "\<exists>n. lru_entries (evict_oldest opt es c) = drop n es \<and> (\<forall>m < n. \<not> fits opt (drop m es)) \<and> fits opt (drop n es)
    \<and> counted (evict_oldest opt es c) \<and> fences (evict_oldest opt es c) = fences c"
  using assms
proof (induction opt es c rule: evict_oldest.induct)
  case (1 opt c)
  then show ?case by (intro exI [of _ 0]) (simp add: fits_def bytes_of_def valid_options_def)
next
  case (2 opt k e es c)
  show ?case
  proof (cases "lru_full opt c")
    case False
    then show ?thesis using "2.prems" full_fits [of c opt] by (intro exI [of _ 0]) simp
  next
    case True
    let ?c = "lru_count (\<lambda>n. n\<lparr>n_evictions := n_evictions n + 1\<rparr>) (lru_remove k e c)"
    have d: "k \<notin> fst ` set es" using "2.prems" by (simp add: counted_def)
    have "counted ?c" using counted_remove [OF "2.prems"(1), of k e] "2.prems"(2) by simp
    moreover have "lru_entries ?c = es" using "2.prems"(2) d by (simp add: js_delete_same)
    ultimately obtain n where n: "lru_entries (evict_oldest opt es ?c) = drop n es" "\<forall>m < n. \<not> fits opt (drop m es)" "fits opt (drop n es)"
      "counted (evict_oldest opt es ?c)" "fences (evict_oldest opt es ?c) = fences ?c"
      using "2.IH" [OF _ _ _ "2.prems"(3)] True by auto
    have "\<not> fits opt (drop m ((k, e) # es))" if "m < Suc n" for m
      using that n(2) True full_fits [OF "2.prems"(1), of opt] "2.prems"(2) by (cases m) auto
    then show ?thesis using n True by (intro exI [of _ "Suc n"]) simp
  qed
qed

definition live_entries :: "int \<Rightarrow> 'v lru_entry js_map \<Rightarrow> 'v lru_entry js_map" where
  "live_entries now m = filter (\<lambda>(k, e). now < en_expiresAt e) m"

lemma enforceCapacity_shape:
  assumes "counted c" and "valid_options opt"
  shows "fits opt (lru_entries (enforceCapacity opt now c)) \<and> counted (enforceCapacity opt now c) \<and> fences (enforceCapacity opt now c) = fences c
    \<and> (if fits opt (lru_entries c) then enforceCapacity opt now c = c
       else \<exists>n. lru_entries (enforceCapacity opt now c) = drop n (live_entries now (lru_entries c))
              \<and> (\<forall>m < n. \<not> fits opt (drop m (live_entries now (lru_entries c)))))"
proof (cases "lru_full opt c")
  case False
  then show ?thesis using assms full_fits [OF assms(1), of opt] by (simp add: enforceCapacity_def)
next
  case True
  let ?c = "drop_expired now (lru_entries c) c"
  have 1: "lru_entries ?c = live_entries now (lru_entries c)" "counted ?c" "fences ?c = fences c"
    using drop_expired_shape [OF assms(1), of "[]"] by (simp_all add: live_entries_def)
  obtain n where "lru_entries (evict_oldest opt (lru_entries ?c) ?c) = drop n (lru_entries ?c)" "\<forall>m < n. \<not> fits opt (drop m (lru_entries ?c))"
    "fits opt (drop n (lru_entries ?c))" "counted (evict_oldest opt (lru_entries ?c) ?c)" "fences (evict_oldest opt (lru_entries ?c) ?c) = fences ?c"
    using evict_oldest_shape [OF 1(2) refl assms(2)] by blast
  then show ?thesis using True 1 full_fits [OF assms(1), of opt] by (auto simp: enforceCapacity_def Let_def)
qed

lemma js_set_new: "k \<notin> fst ` set m \<Longrightarrow> js_set k v m = m @ [(k, v)]"
  by (simp add: js_set_def)

lemma js_delete_fst: "k \<notin> fst ` set (js_delete k m)"
  by (auto simp: js_delete_set)

lemma bytes_of_append: "bytes_of (m @ n) = bytes_of m + bytes_of n"
  by (simp add: bytes_of_def)

section \<open>The operations as one machine\<close>

text \<open>A call of the cache, with the clock it read, and its answer.\<close>

datatype 'v lru_op = Get int string | Fill "int \<times> int" LruTicket 'v int | Invalidate "int \<times> int" string | InvalidateGroup string | ClearAll

datatype 'v lru_out = Got "'v option" | Stored bool | Quiet

fun lru_step :: "lru_options \<Rightarrow> ('v \<Rightarrow> nat option) \<Rightarrow> 'v lru_op \<Rightarrow> 'v lru \<Rightarrow> 'v lru \<times> 'v lru_out" where
  "lru_step opt jl (Get now k) c = (let (c', r) = lru_get now k c in (c', Got r))"
| "lru_step opt jl (Fill clk t v ttl) c = (let (c', b) = lru_set opt jl clk t v ttl c in (c', Stored b))"
| "lru_step opt jl (Invalidate clk k) c = (lru_invalidate clk k c, Quiet)"
| "lru_step opt jl (InvalidateGroup g) c = (lru_invalidateGroup g c, Quiet)"
| "lru_step opt jl ClearAll c = (lru_clear c, Quiet)"

text \<open>What the cache holds for a key.\<close>

definition lru_abs :: "'v lru \<Rightarrow> string \<Rightarrow> 'v lru_entry option" where
  "lru_abs c k = js_get k (lru_entries c)"

lemma bytes_of_nonneg: "\<forall>(k, e) \<in> set m. 0 \<le> en_bytes e \<Longrightarrow> 0 \<le> bytes_of m"
  unfolding bytes_of_def by (rule sum_list_nonneg) auto

lemma fits_delete:
  assumes "counted c" and "fits opt (lru_entries c)"
  shows "fits opt (js_delete k (lru_entries c))"
proof (cases "js_get k (lru_entries c)")
  case None
  then show ?thesis using assms(2) by (simp add: js_delete_same js_get_None)
next
  case (Some e)
  then have "(k, e) \<in> set (lru_entries c)" using assms(1) by (simp add: js_get_mem counted_def)
  then have "0 \<le> en_bytes e" using assms(1) by (auto simp: counted_def)
  then show ?thesis
    using assms bytes_of_delete [OF _ Some] js_delete_length [of k "lru_entries c"] by (simp add: fits_def counted_def)
qed

lemma wf_iff: "lru_wf opt c \<longleftrightarrow> counted c \<and> fenced c \<and> fits opt (lru_entries c)"
  using full_fits by (auto simp: lru_wf_def)

lemma wf_count [simp]: "lru_wf opt (lru_count f c) = lru_wf opt c"
  by (simp add: lru_wf_def fenced_cong [of "lru_count f c" c])

lemma abs_count [simp]: "lru_abs (lru_count f c) = lru_abs c"
  by (rule ext) (simp add: lru_abs_def)

lemma wf_remove: "lru_wf opt c \<Longrightarrow> js_get k (lru_entries c) = Some e \<Longrightarrow> lru_wf opt (lru_remove k e c)"
  unfolding wf_iff using counted_remove fits_delete fenced_cong [of "lru_remove k e c" c] by auto

lemma abs_remove: "lru_abs (lru_remove k e c) = (lru_abs c)(k := None)"
  by (rule ext) (simp add: lru_abs_def js_get_delete)

lemma lru_get_shape:
  assumes "lru_wf opt c" and "lru_get now k c = (c', r)"
  shows "lru_wf opt c' \<and> fences c' = fences c \<and> lru_abs c' \<subseteq>\<^sub>m lru_abs c
    \<and> (case r of None \<Rightarrow> (\<forall>e. lru_abs c k = Some e \<longrightarrow> en_expiresAt e \<le> now)
       | Some v \<Rightarrow> \<exists>e. lru_abs c k = Some e \<and> en_value e = v \<and> now < en_expiresAt e
           \<and> lru_entries c' = js_delete k (lru_entries c) @ [(k, e)])"
proof (cases "js_get k (lru_entries c)")
  case None
  then show ?thesis using assms by (auto simp: lru_get_def lru_abs_def)
next
  case (Some e)
  have c: "counted c" "fits opt (lru_entries c)" "fenced c" using assms(1) by (simp_all add: wf_iff)
  have ae: "lru_abs c k = Some e" using Some by (simp add: lru_abs_def)
  show ?thesis
  proof (cases "en_expiresAt e \<le> now")
    case True
    then show ?thesis
      using assms Some ae wf_remove [OF assms(1) Some] by (auto simp: lru_get_def abs_remove map_le_def split: if_splits)
  next
    case False
    let ?m = "js_delete k (lru_entries c) @ [(k, e)]"
    have m: "js_set k e (js_delete k (lru_entries c)) = ?m" by (simp add: js_set_new js_delete_fst)
    have i: "(k, e) \<in> set (lru_entries c)" using Some c(1) by (simp add: js_get_mem counted_def)
    have len: "length (lru_entries c) = length ?m"
    proof -
      obtain p q where pq: "lru_entries c = p @ (k, e) # q" using split_list [OF i] by blast
      then have "k \<notin> fst ` set p" "k \<notin> fst ` set q" using c(1) by (auto simp: counted_def)
      then have "js_delete k (lru_entries c) = p @ q" unfolding pq using js_delete_same [of k p] js_delete_same [of k q] by (simp add: js_delete_def)
      then show ?thesis by (simp add: pq)
    qed
    have sz: "bytes_of ?m = bytes_of (lru_entries c)" using bytes_of_delete [OF _ Some] c(1) by (simp add: bytes_of_append counted_def) (simp add: bytes_of_def)
    let ?c = "c\<lparr>lru_entries := ?m\<rparr>"
    have d: "distinct (map fst ?m)"
      using c(1) js_delete_distinct [of "lru_entries c" k] js_delete_fst [of k "lru_entries c"] by (simp add: counted_def)
    have "counted ?c" using c(1) d sz i by (auto simp: counted_def js_delete_set)
    moreover have "fits opt ?m" using c(2) len sz by (simp add: fits_def)
    moreover have "fences ?c = fences c" by (simp add: fences_def)
    ultimately have "lru_wf opt ?c" using c(3) fenced_cong [of ?c c] by (simp add: wf_iff)
    moreover have "lru_abs ?c = lru_abs c" using Some by (auto simp: lru_abs_def js_get_append js_get_delete fun_eq_iff split: option.splits)
    ultimately show ?thesis
      using assms(2) Some False ae by (auto simp: lru_get_def m fences_def)
  qed
qed

lemma abs_drop_filter:
  assumes "distinct (map fst m)" and "js_get k (drop n (filter P m)) = Some e"
  shows "js_get k m = Some e"
proof -
  have sub: "set (drop n (filter P m)) \<subseteq> set m" using set_drop_subset by fastforce
  have "distinct (map fst (filter P m))" using assms(1) by (rule distinct_map_filter)
  then have "distinct (map fst (drop n (filter P m)))" unfolding drop_map [symmetric] by (rule distinct_drop)
  then have "(k, e) \<in> set (drop n (filter P m))" using assms(2) by (simp add: js_get_mem)
  then have "(k, e) \<in> set m" using sub by (rule subsetD [rotated])
  then show ?thesis using assms(1) by (simp add: js_get_mem)
qed

lemma lru_store_shape:
  assumes "lru_wf opt c" and "valid_options opt" and "0 \<le> b"
    and e: "e = \<lparr>en_value = v, en_expiresAt = fst clk + ttl, en_bytes = b, en_group = tk_group t\<rparr>"
    and m: "m = js_delete (tk_key t) (lru_entries c) @ [(tk_key t, e)]"
  shows "lru_wf opt (lru_store opt clk t v ttl b c) \<and> fences (lru_store opt clk t v ttl b c) = fences c
    \<and> lru_abs (lru_store opt clk t v ttl b c) \<subseteq>\<^sub>m (lru_abs c)(tk_key t \<mapsto> e)
    \<and> (if fits opt m then lru_entries (lru_store opt clk t v ttl b c) = m
       else \<exists>n. lru_entries (lru_store opt clk t v ttl b c) = drop n (live_entries (snd clk) m)
              \<and> (\<forall>i < n. \<not> fits opt (drop i (live_entries (snd clk) m))))"
proof -
  let ?k = "tk_key t"
  define c1 where "c1 = (case js_get ?k (lru_entries c) of None \<Rightarrow> c | Some e \<Rightarrow> lru_remove ?k e c)"
  define c2 where "c2 = c1\<lparr>lru_entries := js_set ?k e (lru_entries c1), lru_bytes := lru_bytes c1 + b\<rparr>"
  have 1: "lru_wf opt c1" "lru_entries c1 = js_delete ?k (lru_entries c)" "fences c1 = fences c"
    using assms(1) wf_remove by (auto simp: c1_def js_delete_same js_get_None split: option.splits)
  have 2: "lru_entries c2 = m" by (simp add: c2_def 1(2) m js_set_new js_delete_fst)
  have d: "distinct (map fst m)" using 1(1) js_delete_fst unfolding m by (auto simp: wf_iff counted_def 1(2))
  have "en_bytes e = b" by (simp add: e)
  then have cnt: "counted c2"
    using 1(1) assms(3) d unfolding counted_def 2 unfolding m by (auto simp: c2_def wf_iff counted_def 1(2) bytes_of_append) (simp add: bytes_of_def)
  have f2: "fences c2 = fences c" using 1(3) by (simp add: c2_def fences_def)
  let ?c = "lru_count (\<lambda>n. n\<lparr>n_sets := n_sets n + 1\<rparr>) c2"
  have st: "lru_store opt clk t v ttl b c = enforceCapacity opt (snd clk) ?c"
    by (simp add: lru_store_def Let_def c1_def [symmetric] c2_def e)
  note en = enforceCapacity_shape [of ?c opt "snd clk"]
  have "counted ?c" using cnt by simp
  note en = en [OF this assms(2)]
  have am: "(\<lambda>x. js_get x m) = (lru_abs c)(?k \<mapsto> e)"
    by (auto simp: m js_get_append js_get_delete lru_abs_def fun_eq_iff split: option.splits)
  have sub: "lru_abs (lru_store opt clk t v ttl b c) \<subseteq>\<^sub>m (\<lambda>x. js_get x m)"
    unfolding map_le_def lru_abs_def
  proof
    fix x
    assume "x \<in> dom (\<lambda>k. js_get k (lru_entries (lru_store opt clk t v ttl b c)))"
    then obtain y where y: "js_get x (lru_entries (lru_store opt clk t v ttl b c)) = Some y" by blast
    have "js_get x m = Some y"
    proof (cases "fits opt m")
      case True
      then show ?thesis using y en 2 by (simp add: st)
    next
      case False
      then obtain n where "lru_entries (lru_store opt clk t v ttl b c) = drop n (live_entries (snd clk) m)" using en 2 by (auto simp: st)
      then show ?thesis using y abs_drop_filter [OF d] by (simp add: live_entries_def)
    qed
    then show "js_get x (lru_entries (lru_store opt clk t v ttl b c)) = js_get x m" using y by simp
  qed
  have wf: "lru_wf opt (lru_store opt clk t v ttl b c)"
    using en f2 assms(1) fenced_cong [of "lru_store opt clk t v ttl b c" c] by (simp add: st wf_iff)
  have en2: "if fits opt m then lru_entries (lru_store opt clk t v ttl b c) = m
       else \<exists>n. lru_entries (lru_store opt clk t v ttl b c) = drop n (live_entries (snd clk) m)
              \<and> (\<forall>i < n. \<not> fits opt (drop i (live_entries (snd clk) m)))"
    using en 2 by (auto simp: st)
  show ?thesis using wf en f2 sub en2 unfolding am st by simp
qed

lemma approximateBytes_nonneg: "0 \<le> approximateBytes k n"
  by (cases n) (simp_all add: approximateBytes_def MAX_SAFE_BYTES_def)

lemma clear_shape:
  assumes "length (lru_keyFence c) < MAX_KEY_FENCES" and "\<forall>(k, s, at) \<in> set (lru_keyFence c). s \<le> lru_seq c + 1"
    and "\<forall>(g, s) \<in> set (lru_groupFence c). s \<le> lru_seq c + 1" and "valid_options opt"
  shows "lru_wf opt (lru_clear c) \<and> lru_abs (lru_clear c) = Map.empty"
  using assms by (auto simp: wf_iff counted_def fenced_def fits_def valid_options_def lru_clear_def lru_abs_def bytes_of_def)

lemma prune_shape:
  assumes "counted c" and "fits opt (lru_entries c)" and "valid_options opt" and "lru_clearSeq c \<le> lru_seq c"
    and "\<forall>(k, s, at) \<in> set (lru_keyFence c). s \<le> lru_seq c" and "\<forall>(g, s) \<in> set (lru_groupFence c). s \<le> lru_seq c"
  shows "lru_wf opt (pruneFences now c) \<and> lru_abs (pruneFences now c) \<subseteq>\<^sub>m lru_abs c"
proof -
  let ?f = "filter (\<lambda>(_, _, at). \<not> at < now - FENCE_MEMORY_MS) (lru_keyFence c)"
  consider "length (lru_keyFence c) < MAX_KEY_FENCES" | "\<not> length (lru_keyFence c) < MAX_KEY_FENCES" "length ?f < MAX_KEY_FENCES"
    | "\<not> length (lru_keyFence c) < MAX_KEY_FENCES" "\<not> length ?f < MAX_KEY_FENCES" by blast
  then show ?thesis
  proof cases
    case 1
    then show ?thesis using assms by (simp add: pruneFences_def wf_iff fenced_def)
  next
    case 2
    let ?c = "c\<lparr>lru_keyFence := ?f\<rparr>"
    have "lru_wf opt ?c" using assms 2 by (auto simp: wf_iff fenced_def counted_def)
    moreover have "lru_abs ?c = lru_abs c" by (simp add: lru_abs_def fun_eq_iff)
    ultimately show ?thesis using 2 by (simp add: pruneFences_def Let_def)
  next
    case 3
    have "lru_wf opt (lru_clear (c\<lparr>lru_keyFence := []\<rparr>)) \<and> lru_abs (lru_clear (c\<lparr>lru_keyFence := []\<rparr>)) = Map.empty"
      by (rule clear_shape) (use assms in \<open>auto simp: MAX_KEY_FENCES_def\<close>)
    then show ?thesis using 3 by (simp add: pruneFences_def Let_def not_less)
  qed
qed

lemma js_set_mem: "p \<in> set (js_set k v m) \<Longrightarrow> p = (k, v) \<or> p \<in> set m"
  by (auto simp: js_set_def split: if_splits)

lemma invalidate_shape:
  assumes "lru_wf opt c" and "valid_options opt"
  shows "lru_wf opt (lru_invalidate clk k c) \<and> lru_abs (lru_invalidate clk k c) \<subseteq>\<^sub>m (lru_abs c)(k := None)"
proof -
  define c1 where "c1 = c\<lparr>lru_seq := lru_seq c + 1, lru_keyFence := js_set k (lru_seq c + 1, fst clk) (lru_keyFence c)\<rparr>"
  define c2 where "c2 = (case js_get k (lru_entries c1) of None \<Rightarrow> c1 | Some e \<Rightarrow> lru_remove k e c1)"
  let ?c = "lru_count (\<lambda>n. n\<lparr>n_invalidations := n_invalidations n + 1\<rparr>) c2"
  have e: "lru_invalidate clk k c = pruneFences (snd clk) ?c" unfolding lru_invalidate_def Let_def c1_def c2_def ..
  have 1: "counted c1" "fits opt (lru_entries c1)" "lru_abs c1 = lru_abs c"
    using assms(1) by (auto simp: c1_def wf_iff counted_def lru_abs_def fun_eq_iff)
  have 2: "counted c2 \<and> fits opt (lru_entries c2) \<and> fences c2 = fences c1 \<and> lru_abs c2 = (lru_abs c)(k := None)"
  proof (cases "js_get k (lru_entries c1)")
    case None
    then have "lru_abs c1 k = None" by (simp add: lru_abs_def)
    then show ?thesis using 1 None by (auto simp: c2_def)
  next
    case (Some x)
    then show ?thesis using 1 counted_remove [OF 1(1) Some] fits_delete [OF 1(1,2)] by (simp add: c2_def abs_remove)
  qed
  have q: "lru_seq c2 = lru_seq c + 1" "lru_clearSeq c2 = lru_clearSeq c" "lru_keyFence c2 = js_set k (lru_seq c + 1, fst clk) (lru_keyFence c)"
    "lru_groupFence c2 = lru_groupFence c" using 2 by (simp_all add: fences_iff c1_def)
  have "lru_wf opt (pruneFences (snd clk) ?c) \<and> lru_abs (pruneFences (snd clk) ?c) \<subseteq>\<^sub>m lru_abs ?c"
    by (rule prune_shape) (use 2 q assms in \<open>auto simp: wf_iff fenced_def dest!: js_set_mem\<close>)
  then show ?thesis using 2 by (simp add: e)
qed

lemma drop_group_shape:
  assumes "lru_wf opt c" and "lru_entries c = p @ es"
  shows "lru_entries (drop_group g es c) = p @ filter (\<lambda>(k, e). en_group e \<noteq> g) es
    \<and> lru_wf opt (drop_group g es c) \<and> fences (drop_group g es c) = fences c"
  using assms
proof (induction g es c arbitrary: p rule: drop_group.induct)
  case (2 g k e es c)
  have d: "distinct (map fst (p @ (k, e) # es))" using "2.prems" by (simp add: wf_iff counted_def)
  then have ke: "js_get k (lru_entries c) = Some e" using "2.prems"(2) js_get_mem [of "lru_entries c" k e] by simp
  show ?case
  proof (cases "en_group e = g")
    case True
    have "js_delete k (p @ (k, e) # es) = p @ es"
      using d js_delete_same [of k p] js_delete_same [of k es] by (simp add: js_delete_def)
    then have "lru_entries (lru_remove k e c) = p @ es" using "2.prems"(2) by simp
    then show ?thesis using "2.IH" [of p] True wf_remove [OF "2.prems"(1) ke] by simp
  next
    case False
    then show ?thesis using "2.IH" [of "p @ [(k, e)]"] "2.prems" by simp
  qed
qed simp

lemma invalidateGroup_shape:
  assumes "lru_wf opt c"
  shows "lru_wf opt (lru_invalidateGroup g c) \<and> lru_abs (lru_invalidateGroup g c)
    = (\<lambda>k. case lru_abs c k of None \<Rightarrow> None | Some e \<Rightarrow> if en_group e = g then None else Some e)"
proof -
  define c1 where "c1 = c\<lparr>lru_seq := lru_seq c + 1, lru_groupFence := js_set g (lru_seq c + 1) (lru_groupFence c)\<rparr>"
  have wf: "lru_wf opt c1" using assms by (auto simp: c1_def wf_iff counted_def fenced_def dest!: js_set_mem)
  then have d: "distinct (map fst (lru_entries c1))" by (simp add: wf_iff counted_def)
  have dg: "lru_entries (drop_group g (lru_entries c1) c1) = filter (\<lambda>(k, e). en_group e \<noteq> g) (lru_entries c1)"
    "lru_wf opt (drop_group g (lru_entries c1) c1)"
    using drop_group_shape [OF wf, of "[]" "lru_entries c1" g] by simp_all
  have "js_get k (filter (\<lambda>(k, e). en_group e \<noteq> g) m)
      = (case js_get k m of None \<Rightarrow> None | Some e \<Rightarrow> if en_group e = g then None else Some e)"
    if "distinct (map fst m)" for k and m :: "'a lru_entry js_map"
    using that
  proof (induction m)
    case (Cons p m)
    obtain x e where p: "p = (x, e)" by (cases p)
    have "js_get x m = None" using Cons.prems by (simp add: p js_get_None)
    then show ?case using Cons by (auto simp: p)
  qed simp
  then have "lru_abs (drop_group g (lru_entries c1) c1) = (\<lambda>k. case lru_abs c k of None \<Rightarrow> None | Some e \<Rightarrow> if en_group e = g then None else Some e)"
    using dg d by (simp add: lru_abs_def fun_eq_iff) (simp add: c1_def)
  moreover have "lru_invalidateGroup g c = lru_count (\<lambda>n. n\<lparr>n_invalidations := n_invalidations n + 1\<rparr>) (drop_group g (lru_entries c1) c1)"
    unfolding lru_invalidateGroup_def Let_def c1_def ..
  ultimately show ?thesis using dg by simp
qed


section \<open>The contract of a cache\<close>

text \<open>
  What a cache owes its readers: an answer is what was last stored under the key, still alive, and not invalidated since.
  The ideal store \<open>spec_step\<close> never forgets by itself; it follows the answers of the cache (which fills it accepted).
  A cache may forget at any time (\<open>\<subseteq>\<^sub>m\<close>).
\<close>

type_synonym 'v ideal = "string \<Rightarrow> ('v \<times> int \<times> string) option" \<comment> \<open>value, expiry, group\<close>

definition forget_group :: "string \<Rightarrow> 'v ideal \<Rightarrow> 'v ideal" where
  "forget_group g m = (\<lambda>k. case m k of None \<Rightarrow> None | Some (v, e, h) \<Rightarrow> if h = g then None else Some (v, e, h))"

fun spec_step :: "'v lru_op \<Rightarrow> 'v lru_out \<Rightarrow> 'v ideal \<Rightarrow> 'v ideal" where
  "spec_step (Fill clk t v ttl) out m = (if out = Stored True then m(tk_key t \<mapsto> (v, fst clk + ttl, tk_group t)) else m)"
| "spec_step (Invalidate clk k) out m = m(k := None)"
| "spec_step (InvalidateGroup g) out m = forget_group g m"
| "spec_step ClearAll out m = Map.empty"
| "spec_step (Get now k) out m = m"

fun run_ops :: "('op \<Rightarrow> 's \<Rightarrow> 's \<times> 'out) \<Rightarrow> 'op list \<Rightarrow> 's \<Rightarrow> 's \<times> 'out list" where
  "run_ops step [] c = (c, [])"
| "run_ops step (op # ops) c = (let (c1, out) = step op c; (c2, outs) = run_ops step ops c1 in (c2, out # outs))"

fun spec_run :: "('op \<Rightarrow> 'out \<Rightarrow> 'm \<Rightarrow> 'm) \<Rightarrow> 'op list \<Rightarrow> 'out list \<Rightarrow> 'm \<Rightarrow> 'm" where
  "spec_run spec (op # ops) (out # outs) m = spec_run spec ops outs (spec op out m)"
| "spec_run spec ops outs m = m"

text \<open>The key, the value and the clock of a call that was answered from the cache.\<close>

fun lru_hit :: "'v lru_op \<Rightarrow> 'v lru_out \<Rightarrow> (string \<times> 'v \<times> int) option" where
  "lru_hit (Get now k) (Got (Some v)) = Some (k, v, now)"
| "lru_hit op out = None"

lemma map_le_iff: "m \<subseteq>\<^sub>m n \<longleftrightarrow> (\<forall>k v. m k = Some v \<longrightarrow> n k = Some v)"
  by (auto simp: map_le_def dom_def)

lemma forget_group_Some: "forget_group g m k = Some x \<longleftrightarrow> m k = Some x \<and> snd (snd x) \<noteq> g"
  by (auto simp: forget_group_def split: option.splits)

lemma spec_step_mono: "m \<subseteq>\<^sub>m n \<Longrightarrow> spec_step op out m \<subseteq>\<^sub>m spec_step op out n"
  by (cases op) (auto simp: map_le_iff forget_group_Some)

lemma run_ops_length: "run_ops step ops c = (c', outs) \<Longrightarrow> length outs = length ops"
  by (induction ops arbitrary: c c' outs) (auto simp: Let_def split: prod.splits)

locale coherent_cache =
  fixes ok :: "'s \<Rightarrow> bool" and step :: "'op \<Rightarrow> 's \<Rightarrow> 's \<times> 'out" and holds :: "'s \<Rightarrow> 'v ideal"
    and spec :: "'op \<Rightarrow> 'out \<Rightarrow> 'v ideal \<Rightarrow> 'v ideal" and hit :: "'op \<Rightarrow> 'out \<Rightarrow> (string \<times> 'v \<times> int) option"
  assumes spec_mono: "m \<subseteq>\<^sub>m n \<Longrightarrow> spec op out m \<subseteq>\<^sub>m spec op out n"
    and step_ok: "ok c \<Longrightarrow> step op c = (c', out) \<Longrightarrow> ok c'"
    and step_holds: "ok c \<Longrightarrow> step op c = (c', out) \<Longrightarrow> holds c' \<subseteq>\<^sub>m spec op out (holds c)"
    and hit_holds: "ok c \<Longrightarrow> step op c = (c', out) \<Longrightarrow> hit op out = Some (k, v, now) \<Longrightarrow> \<exists>e g. holds c k = Some (v, e, g) \<and> now < e"
begin

lemma run_ok: "ok c \<Longrightarrow> run_ops step ops c = (c', outs) \<Longrightarrow> ok c'"
  by (induction ops arbitrary: c c' outs) (auto simp: Let_def split: prod.splits dest: step_ok)

lemma run_holds:
  "ok c \<Longrightarrow> run_ops step ops c = (c', outs) \<Longrightarrow> holds c \<subseteq>\<^sub>m m \<Longrightarrow> holds c' \<subseteq>\<^sub>m spec_run spec ops outs m"
proof (induction ops arbitrary: c c' outs m)
  case (Cons op ops)
  obtain c1 out outs1 where s: "step op c = (c1, out)" "run_ops step ops c1 = (c', outs1)" "outs = out # outs1"
    using Cons.prems(2) by (auto simp: Let_def split: prod.splits)
  have "holds c1 \<subseteq>\<^sub>m spec op out m"
    using step_holds [OF Cons.prems(1) s(1)] spec_mono [OF Cons.prems(3)] map_le_trans by blast
  then show ?case using Cons.IH [OF step_ok [OF Cons.prems(1) s(1)] s(2)] s(3) by simp
qed simp

text \<open>Every hit is an answer the ideal store would give.\<close>

lemma run_hits:
  assumes "ok c" and "run_ops step ops c = (c', outs)" and "i < length ops" and "hit (ops ! i) (outs ! i) = Some (k, v, now)"
    and "holds c \<subseteq>\<^sub>m m"
  shows "\<exists>e g. spec_run spec (take i ops) (take i outs) m k = Some (v, e, g) \<and> now < e"
  using assms
proof (induction ops arbitrary: c c' outs m i)
  case (Cons op ops)
  obtain c1 out outs1 where s: "step op c = (c1, out)" "run_ops step ops c1 = (c', outs1)" "outs = out # outs1"
    using Cons.prems(2) by (auto simp: Let_def split: prod.splits)
  show ?case
  proof (cases i)
    case 0
    then have g: "hit op out = Some (k, v, now)" using s Cons.prems(4) by simp
    obtain e g where "holds c k = Some (v, e, g)" "now < e" using hit_holds [OF Cons.prems(1) s(1) g] by blast
    moreover then have "m k = Some (v, e, g)" using Cons.prems(5) by (metis domI map_le_def)
    ultimately show ?thesis using 0 by simp
  next
    case (Suc j)
    have "holds c1 \<subseteq>\<^sub>m spec op out m"
      using step_holds [OF Cons.prems(1) s(1)] spec_mono [OF Cons.prems(5)] map_le_trans by blast
    then show ?thesis
      using Cons.IH [OF step_ok [OF Cons.prems(1) s(1)] s(2), of j "spec op out m"] Cons.prems(3,4) Suc s(3) by simp
  qed
qed simp

end

section \<open>The cache keeps the contract\<close>

definition contents :: "'v lru \<Rightarrow> 'v ideal" where
  "contents c k = map_option (\<lambda>e. (en_value e, en_expiresAt e, en_group e)) (lru_abs c k)"

lemma contents_le: "lru_abs c \<subseteq>\<^sub>m m \<Longrightarrow> contents c \<subseteq>\<^sub>m (\<lambda>k. map_option (\<lambda>e. (en_value e, en_expiresAt e, en_group e)) (m k))"
  by (auto simp: map_le_def contents_def dom_def)

lemma lru_set_shape:
  assumes "lru_wf opt c" and "valid_options opt" and "lru_set opt jl clk t v ttl c = (c', b)"
  shows "lru_wf opt c' \<and> fences c' = fences c \<and> (if b then \<not> lru_stale t c \<and> 0 < ttl \<and> approximateBytes (tk_key t) (jl v) \<le> op_maxEntryBytes opt
      \<and> c' = lru_store opt clk t v ttl (approximateBytes (tk_key t) (jl v)) c else lru_abs c' = lru_abs c)"
  using assms lru_store_shape [OF assms(1,2) approximateBytes_nonneg [of "tk_key t" "jl v"] refl refl, where v = v and clk = clk and ttl = ttl and t = t]
  by (auto simp: lru_set_def Let_def split: if_splits)

lemma lru_step_wf:
  assumes "lru_wf opt c \<and> valid_options opt" and "lru_step opt jl op c = (c', out)"
  shows "lru_wf opt c' \<and> valid_options opt"
proof (cases op)
  case (Get now k)
  then show ?thesis using assms lru_get_shape [of opt c now k c'] by (auto split: prod.splits)
next
  case (Fill clk t v ttl)
  then show ?thesis using assms lru_set_shape [of opt c jl clk t v ttl c'] by (auto split: prod.splits)
next
  case (Invalidate clk k)
  then show ?thesis using assms invalidate_shape [of opt c clk k] by auto
next
  case (InvalidateGroup g)
  then show ?thesis using assms invalidateGroup_shape [of opt c g] by auto
next
  case ClearAll
  have "lru_wf opt (lru_clear c)" by (rule clear_shape [THEN conjunct1]) (use assms in \<open>auto simp: wf_iff fenced_def\<close>)
  then show ?thesis using ClearAll assms by auto
qed

lemma lru_step_contents:
  assumes "lru_wf opt c \<and> valid_options opt" and "lru_step opt jl op c = (c', out)"
  shows "contents c' \<subseteq>\<^sub>m spec_step op out (contents c)"
proof (cases op)
  case (Get now k)
  then have "lru_abs c' \<subseteq>\<^sub>m lru_abs c" using assms lru_get_shape [of opt c now k c'] by (auto split: prod.splits)
  then show ?thesis using contents_le Get by (fastforce simp: contents_def [abs_def])
next
  case (Fill clk t v ttl)
  obtain b where b: "lru_set opt jl clk t v ttl c = (c', b)" "out = Stored b" using assms(2) Fill by (auto split: prod.splits)
  show ?thesis
  proof (cases b)
    case True
    define e where "e = \<lparr>en_value = v, en_expiresAt = fst clk + ttl, en_bytes = approximateBytes (tk_key t) (jl v), en_group = tk_group t\<rparr>"
    have "lru_abs c' \<subseteq>\<^sub>m (lru_abs c)(tk_key t \<mapsto> e)"
      using lru_set_shape [OF _ _ b(1)] assms(1) True lru_store_shape [OF _ _ approximateBytes_nonneg e_def refl, where opt = opt and c = c] by auto
    then have "contents c' \<subseteq>\<^sub>m (\<lambda>k. map_option (\<lambda>e. (en_value e, en_expiresAt e, en_group e)) (((lru_abs c)(tk_key t \<mapsto> e)) k))"
      by (rule contents_le)
    moreover have "(\<lambda>k. map_option (\<lambda>e. (en_value e, en_expiresAt e, en_group e)) (((lru_abs c)(tk_key t \<mapsto> e)) k))
      = (contents c)(tk_key t \<mapsto> (v, fst clk + ttl, tk_group t))" by (auto simp: contents_def e_def fun_eq_iff)
    ultimately show ?thesis using Fill b True by simp
  next
    case False
    then have "lru_abs c' = lru_abs c" using lru_set_shape [OF _ _ b(1)] assms(1) by auto
    then show ?thesis using Fill b False by (simp add: contents_def [abs_def])
  qed
next
  case (Invalidate clk k)
  then have "lru_abs c' \<subseteq>\<^sub>m (lru_abs c)(k := None)" using assms invalidate_shape [of opt c clk k] by auto
  then have "contents c' \<subseteq>\<^sub>m (\<lambda>x. map_option (\<lambda>e. (en_value e, en_expiresAt e, en_group e)) (((lru_abs c)(k := None)) x))" by (rule contents_le)
  moreover have "(\<lambda>x. map_option (\<lambda>e. (en_value e, en_expiresAt e, en_group e)) (((lru_abs c)(k := None)) x)) = (contents c)(k := None)"
    by (auto simp: contents_def fun_eq_iff)
  ultimately show ?thesis using Invalidate by simp
next
  case (InvalidateGroup g)
  then have "contents c' = forget_group g (contents c)"
    using assms invalidateGroup_shape [of opt c g] by (auto simp: contents_def forget_group_def fun_eq_iff split: option.splits)
  then show ?thesis using InvalidateGroup by simp
next
  case ClearAll
  then have "lru_entries c' = []" using assms(2) by (auto simp: lru_clear_def lru_count_def)
  then show ?thesis using ClearAll by (auto simp: map_le_def contents_def lru_abs_def)
qed

lemma lru_step_hit:
  assumes "lru_wf opt c \<and> valid_options opt" and "lru_step opt jl op c = (c', out)" and "lru_hit op out = Some (k, v, now)"
  shows "\<exists>e g. contents c k = Some (v, e, g) \<and> now < e"
  using assms lru_get_shape [of opt c now k c' "Some v"]
  by (cases "(op, out)" rule: lru_hit.cases) (auto simp: contents_def split: prod.splits)

interpretation lru: coherent_cache "\<lambda>c. lru_wf opt c \<and> valid_options opt" "lru_step opt jl" contents spec_step lru_hit for opt jl
  by unfold_locales (fact spec_step_mono, fact lru_step_wf, fact lru_step_contents, fact lru_step_hit)

lemma lru_new_wf:
  assumes "lru_new opt = Inr c"
  shows "(lru_wf opt c \<and> valid_options opt) \<and> contents c = Map.empty"
  using assms
  by (auto simp: lru_new_def wf_iff counted_def fenced_def fits_def bytes_of_def valid_options_def MAX_KEY_FENCES_def contents_def lru_abs_def
      split: if_splits)

section \<open>Properties\<close>

text \<open>
  C36. The cache answers as the ideal store would. For every sequence of calls on a new cache, every hit returns a value that
  the last accepted fill of that key stored, that has not expired, and that no invalidation of the key, of its group or of
  the whole cache has dropped since; and at the end the cache holds nothing else. Capacity, byte cap, expiry and the
  eviction order only ever lose entries.
\<close>

theorem lru_refines_ideal:
  assumes "lru_new opt = Inr c" and "run_ops (lru_step opt jl) ops c = (c', outs)"
  shows "contents c' \<subseteq>\<^sub>m spec_run spec_step ops outs Map.empty
    \<and> (\<forall>i < length ops. \<forall>now k v. ops ! i = Get now k \<and> outs ! i = Got (Some v) \<longrightarrow>
         (\<exists>e g. spec_run spec_step (take i ops) (take i outs) Map.empty k = Some (v, e, g) \<and> now < e))"
proof -
  have ok: "lru_wf opt c \<and> valid_options opt" and em: "contents c \<subseteq>\<^sub>m Map.empty" using lru_new_wf [OF assms(1)] by simp_all
  have "contents c' \<subseteq>\<^sub>m spec_run spec_step ops outs Map.empty" by (rule lru.run_holds [OF ok assms(2) em])
  moreover have "\<exists>e g. spec_run spec_step (take i ops) (take i outs) Map.empty k = Some (v, e, g) \<and> now < e"
    if "i < length ops" "ops ! i = Get now k" "outs ! i = Got (Some v)" for i now k v
    by (rule lru.run_hits [OF ok assms(2) that(1) _ em]) (simp add: that)
  ultimately show ?thesis by blast
qed

definition small_options :: lru_options where
  "small_options = \<lparr>op_maxEntries = 2, op_maxBytes = 1000, op_maxEntryBytes = 100\<rparr>"

definition empty_lru :: "nat lru" where
  "empty_lru = \<lparr>lru_entries = [], lru_keyFence = [], lru_groupFence = [], lru_clearSeq = 0, lru_seq = 0, lru_bytes = 0, lru_counters = no_counts\<rparr>"

definition ticket_at :: "nat \<Rightarrow> string \<Rightarrow> LruTicket" where
  "ticket_at s k = \<lparr>tk_key = k, tk_group = ''g'', tk_seq = s\<rparr>"

definition sample_ops :: "nat lru_op list" where
  "sample_ops = [Fill (0, 0) (ticket_at 0 ''a'') 1 50, Fill (1, 1) (ticket_at 0 ''b'') 2 50, Get 2 ''a'', Fill (3, 3) (ticket_at 0 ''c'') 3 50,
     Get 4 ''a'', Get 5 ''b'', Invalidate (6, 6) ''a'', Fill (7, 7) (ticket_at 0 ''a'') 4 50, Get 8 ''a'', Get 60 ''c'']"

lemma sample_new: "lru_new small_options = Inr empty_lru"
  by (simp add: lru_new_def small_options_def empty_lru_def)

lemma sample_run:
  "snd (run_ops (lru_step small_options Some) sample_ops empty_lru)
    = [Stored True, Stored True, Got (Some 1), Stored True, Got (Some 1), Got None, Quiet, Stored False, Got None, Got None]"
  by code_simp

theorem lru_refines_ideal_witness:
  "\<exists>e g. spec_run spec_step (take 4 sample_ops) [Stored True, Stored True, Got (Some 1), Stored True] Map.empty ''a'' = Some (1, e, g) \<and> 4 < e"
proof -
  obtain c' outs where r: "run_ops (lru_step small_options Some) sample_ops empty_lru = (c', outs)" by fastforce
  have o: "outs = [Stored True, Stored True, Got (Some 1), Stored True, Got (Some 1), Got None, Quiet, Stored False, Got None, Got None]"
    using sample_run r by simp
  have "4 < length sample_ops" "sample_ops ! 4 = Get 4 ''a''" "outs ! 4 = Got (Some 1)" by (simp_all add: o sample_ops_def)
  then have "\<exists>e g. spec_run spec_step (take 4 sample_ops) (take 4 outs) Map.empty ''a'' = Some (1, e, g) \<and> 4 < e"
    using lru_refines_ideal [OF sample_new r] by blast
  then show ?thesis by (simp add: o)
qed

text \<open>
  C37. The cache is bounded. After every sequence of calls on a new cache it has at most \<open>maxEntries\<close> entries, one per key,
  its byte counter is exactly the sum of its entries' sizes and at most \<open>maxBytes\<close>, and it remembers fewer than ten
  thousand key fences, whatever storm of invalidations it has seen.
\<close>

theorem lru_bounded:
  assumes "lru_new opt = Inr c" and "run_ops (lru_step opt jl) ops c = (c', outs)"
  shows "int (length (lru_entries c')) \<le> op_maxEntries opt \<and> distinct (map fst (lru_entries c'))
    \<and> lru_bytes c' = bytes_of (lru_entries c') \<and> lru_bytes c' \<le> op_maxBytes opt \<and> 0 \<le> lru_bytes c'
    \<and> length (lru_keyFence c') < MAX_KEY_FENCES"
  using lru.run_ok [OF conjunct1 [OF lru_new_wf [OF assms(1)]] assms(2)] bytes_of_nonneg [of "lru_entries c'"]
  by (auto simp: wf_iff counted_def fits_def fenced_def)

theorem lru_bounded_witness:
  "int (length (lru_entries (fst (run_ops (lru_step small_options Some) sample_ops empty_lru)))) \<le> 2"
  using lru_bounded [OF sample_new prod.collapse [symmetric]] by (simp add: small_options_def)

text \<open>
  The least recently used entries go first. In a cache in its invariant: a hit moves its entry to the most recent end and
  keeps the order of the others; an accepted fill puts its entry at that end and, if the cache is then over a cap, drops
  the expired entries and then the shortest prefix of the oldest ones that brings it within both caps. A refused fill
  changes no entry.
\<close>

theorem lru_evicts_oldest_first:
  assumes "lru_wf opt c" and "valid_options opt"
  shows "(\<forall>now k c' v. lru_get now k c = (c', Some v) \<longrightarrow>
       (\<exists>e. js_get k (lru_entries c) = Some e \<and> en_value e = v \<and> lru_entries c' = js_delete k (lru_entries c) @ [(k, e)]))
    \<and> (\<forall>clk t v ttl c'. lru_set opt jl clk t v ttl c = (c', True) \<longrightarrow>
         (let m = js_delete (tk_key t) (lru_entries c) @ [(tk_key t,
                \<lparr>en_value = v, en_expiresAt = fst clk + ttl, en_bytes = approximateBytes (tk_key t) (jl v), en_group = tk_group t\<rparr>)]
          in if fits opt m then lru_entries c' = m
             else \<exists>n. lru_entries c' = drop n (live_entries (snd clk) m) \<and> fits opt (lru_entries c')
                    \<and> (\<forall>i < n. \<not> fits opt (drop i (live_entries (snd clk) m)))))
    \<and> (\<forall>clk t v ttl c'. lru_set opt jl clk t v ttl c = (c', False) \<longrightarrow> lru_entries c' = lru_entries c)"
proof (intro conjI allI impI)
  fix now k c' v
  assume "lru_get now k c = (c', Some v)"
  then show "\<exists>e. js_get k (lru_entries c) = Some e \<and> en_value e = v \<and> lru_entries c' = js_delete k (lru_entries c) @ [(k, e)]"
    using lru_get_shape [OF assms(1)] by (fastforce simp: lru_abs_def)
next
  fix clk t v ttl c'
  assume s: "lru_set opt jl clk t v ttl c = (c', True)"
  note sh = lru_set_shape [OF assms s]
  have c': "c' = lru_store opt clk t v ttl (approximateBytes (tk_key t) (jl v)) c" "lru_wf opt c'" using sh by auto
  show "let m = js_delete (tk_key t) (lru_entries c) @ [(tk_key t,
                \<lparr>en_value = v, en_expiresAt = fst clk + ttl, en_bytes = approximateBytes (tk_key t) (jl v), en_group = tk_group t\<rparr>)]
          in if fits opt m then lru_entries c' = m
             else \<exists>n. lru_entries c' = drop n (live_entries (snd clk) m) \<and> fits opt (lru_entries c')
                    \<and> (\<forall>i < n. \<not> fits opt (drop i (live_entries (snd clk) m)))"
    using lru_store_shape [OF assms approximateBytes_nonneg [of "tk_key t" "jl v"] refl refl, where v = v and clk = clk and ttl = ttl and t = t] c'
    by (simp add: Let_def wf_iff)
next
  fix clk t v ttl c'
  assume "lru_set opt jl clk t v ttl c = (c', False)"
  then show "lru_entries c' = lru_entries c" by (auto simp: lru_set_def Let_def split: if_splits)
qed

theorem lru_evicts_oldest_first_witness:
  "map fst (lru_entries (fst (lru_set small_options Some (3, 3) (ticket_at 0 ''c'') 3 50
      (fst (run_ops (lru_step small_options Some) (take 3 sample_ops) empty_lru))))) = [''a'', ''c'']
    \<and> lru_entries (fst (lru_set small_options Some (3, 3) (ticket_at 0 ''c'') 100 50 (fst (run_ops (lru_step small_options Some) (take 3 sample_ops) empty_lru))))
      = lru_entries (fst (run_ops (lru_step small_options Some) (take 3 sample_ops) empty_lru))"
proof -
  let ?c = "fst (run_ops (lru_step small_options Some) (take 3 sample_ops) empty_lru)"
  let ?s = "lru_set small_options Some (3, 3) (ticket_at 0 ''c'') 100 50 ?c"
  have ok: "lru_wf small_options ?c \<and> valid_options small_options"
    by (rule lru.run_ok [OF conjunct1 [OF lru_new_wf [OF sample_new]] prod.collapse [symmetric]])
  have "map fst (lru_entries (fst (lru_set small_options Some (3, 3) (ticket_at 0 ''c'') 3 50 ?c))) = [''a'', ''c'']" by code_simp
  moreover have "snd ?s = False" by code_simp
  then have "?s = (fst ?s, False)" by (metis prod.collapse)
  then have "lru_entries (fst ?s) = lru_entries ?c"
    using lru_evicts_oldest_first [OF conjunct1 [OF ok] conjunct2 [OF ok], of Some] by blast
  ultimately show ?thesis by blast
qed

section \<open>The fence\<close>

text \<open>
  A ticket that must be refused: a fence younger than the ticket is up, and if it is a key fence it was raised at \<open>T\<close> or
  later, so no pruning up to \<open>T + 120000\<close> can take it down.
\<close>

definition refuses :: "int \<Rightarrow> LruTicket \<Rightarrow> 'v lru \<Rightarrow> bool" where
  "refuses T t c \<longleftrightarrow> tk_seq t \<le> lru_seq c \<and> (lru_clearSeq c > tk_seq t
     \<or> (\<exists>s at. js_get (tk_key t) (lru_keyFence c) = Some (s, at) \<and> s > tk_seq t \<and> T \<le> at)
     \<or> (\<exists>s. js_get (tk_group t) (lru_groupFence c) = Some s \<and> s > tk_seq t))"

lemma refuses_stale: "refuses T t c \<Longrightarrow> lru_stale t c"
  by (auto simp: refuses_def lru_stale_def)

lemma refuses_cong: "fences c = fences d \<Longrightarrow> refuses T t c = refuses T t d"
  by (simp add: refuses_def fences_iff)

lemma js_get_filter: "js_get k m = Some v \<Longrightarrow> P (k, v) \<Longrightarrow> js_get k (filter P m) = Some v"
  by (induction m) (auto split: if_splits)

lemma refuses_prune:
  assumes "refuses T t c" and "now \<le> T + FENCE_MEMORY_MS"
  shows "refuses T t (pruneFences now c)"
proof (cases "length (lru_keyFence c) < MAX_KEY_FENCES")
  case False
  let ?c = "c\<lparr>lru_keyFence := filter (\<lambda>(_, _, at). \<not> at < now - FENCE_MEMORY_MS) (lru_keyFence c)\<rparr>"
  have "refuses T t ?c"
    using assms js_get_filter [of "tk_key t" "lru_keyFence c" _ "\<lambda>(_, _, at). \<not> at < now - FENCE_MEMORY_MS"]
    by (fastforce simp: refuses_def)
  moreover have "refuses T t (lru_clear (?c\<lparr>lru_keyFence := []\<rparr>))"
    using assms(1) by (simp add: refuses_def lru_clear_def lru_count_def)
  ultimately show ?thesis using False by (simp add: pruneFences_def Let_def)
qed (use assms in \<open>simp add: pruneFences_def\<close>)

lemma refuses_raise:
  assumes "tk_seq t \<le> lru_seq c" and "refuses T t c \<or> (k = tk_key t)" and "T \<le> fst clk" and "snd clk \<le> T + FENCE_MEMORY_MS"
  shows "refuses T t (lru_invalidate clk k c)"
proof -
  define c1 where "c1 = c\<lparr>lru_seq := lru_seq c + 1, lru_keyFence := js_set k (lru_seq c + 1, fst clk) (lru_keyFence c)\<rparr>"
  define c2 where "c2 = (case js_get k (lru_entries c1) of None \<Rightarrow> c1 | Some e \<Rightarrow> lru_remove k e c1)"
  have "refuses T t c1" using assms(1-3) by (auto simp: refuses_def c1_def js_get_set)
  moreover have "fences c2 = fences c1" by (simp add: c2_def split: option.splits)
  ultimately have "refuses T t (lru_count (\<lambda>n. n\<lparr>n_invalidations := n_invalidations n + 1\<rparr>) c2)"
    using refuses_cong [of "lru_count (\<lambda>n. n\<lparr>n_invalidations := n_invalidations n + 1\<rparr>) c2" c1] by simp
  then have "refuses T t (pruneFences (snd clk) (lru_count (\<lambda>n. n\<lparr>n_invalidations := n_invalidations n + 1\<rparr>) c2))"
    by (rule refuses_prune [OF _ assms(4)])
  then show ?thesis unfolding lru_invalidate_def Let_def c1_def [symmetric] c2_def .
qed

lemma fences_drop_group: "fences (drop_group g es c) = fences c"
  by (induction g es c rule: drop_group.induct) (auto split: if_splits)

lemma refuses_group:
  assumes "tk_seq t \<le> lru_seq c" and "refuses T t c \<or> g = tk_group t"
  shows "refuses T t (lru_invalidateGroup g c)"
proof -
  let ?c = "c\<lparr>lru_seq := lru_seq c + 1, lru_groupFence := js_set g (lru_seq c + 1) (lru_groupFence c)\<rparr>"
  have "refuses T t ?c" using assms by (auto simp: refuses_def js_get_set)
  moreover have "fences (lru_invalidateGroup g c) = fences ?c" by (simp add: lru_invalidateGroup_def Let_def fences_drop_group)
  ultimately show ?thesis using refuses_cong by blast
qed

text \<open>The clocks a call reads.\<close>

fun op_clocks :: "'v lru_op \<Rightarrow> int list" where
  "op_clocks (Invalidate clk k) = [fst clk, snd clk]"
| "op_clocks op = []"

text \<open>The calls that invalidate what a ticket stands for.\<close>

fun invalidates :: "LruTicket \<Rightarrow> 'v lru_op \<Rightarrow> bool" where
  "invalidates t (Invalidate clk k) = (k = tk_key t)"
| "invalidates t (InvalidateGroup g) = (g = tk_group t)"
| "invalidates t ClearAll = True"
| "invalidates t op = False"

lemma refuses_step:
  assumes "tk_seq t \<le> lru_seq c" and "refuses T t c \<or> invalidates t op" and "\<forall>x \<in> set (op_clocks op). T \<le> x \<and> x \<le> T + FENCE_MEMORY_MS"
    and "lru_wf opt c" and "valid_options opt" and "lru_step opt jl op c = (c', out)"
  shows "refuses T t c'"
proof (cases op)
  case (Get now k)
  then have "fences c' = fences c" using assms(4,6) lru_get_shape [of opt c now k c'] by (auto split: prod.splits)
  then show ?thesis using assms(2) Get refuses_cong by auto
next
  case (Fill clk u v ttl)
  then have "fences c' = fences c" using assms(4-6) lru_set_shape [of opt c jl clk u v ttl c'] by (auto split: prod.splits)
  then show ?thesis using assms(2) Fill refuses_cong by auto
next
  case (Invalidate clk k)
  then show ?thesis using refuses_raise [of t c T k clk] assms by auto
next
  case (InvalidateGroup g)
  then show ?thesis using refuses_group [of t c T g] assms by auto
next
  case ClearAll
  then show ?thesis using assms(1,6) by (auto simp: refuses_def lru_clear_def lru_count_def)
qed

lemma refuses_run:
  assumes "refuses T t c" and "\<forall>op \<in> set ops. \<forall>x \<in> set (op_clocks op). T \<le> x \<and> x \<le> T + FENCE_MEMORY_MS"
    and "lru_wf opt c \<and> valid_options opt" and "run_ops (lru_step opt jl) ops c = (c', outs)"
  shows "refuses T t c'"
  using assms
proof (induction ops arbitrary: c outs)
  case (Cons op ops)
  obtain c1 out outs1 where s: "lru_step opt jl op c = (c1, out)" "run_ops (lru_step opt jl) ops c1 = (c', outs1)"
    using Cons.prems(4) by (auto simp: Let_def split: prod.splits)
  have "refuses T t c1"
    by (rule refuses_step [OF _ disjI1 [OF Cons.prems(1)] _ _ _ s(1)]) (use Cons.prems in \<open>auto simp: refuses_def\<close>)
  then show ?case using Cons.IH [OF _ _ lru_step_wf [OF Cons.prems(3) s(1)] s(2)] Cons.prems(2) by simp
qed simp

text \<open>The sequence number never goes back, so a fence stays younger than every ticket taken before it.\<close>

lemma pruneFences_seq: "lru_seq c \<le> lru_seq (pruneFences now c)"
  by (simp add: pruneFences_def Let_def lru_clear_def)

lemma lru_invalidate_seq: "lru_seq c \<le> lru_seq (lru_invalidate clk k c)"
proof -
  let ?c1 = "c\<lparr>lru_seq := lru_seq c + 1, lru_keyFence := js_set k (lru_seq c + 1, fst clk) (lru_keyFence c)\<rparr>"
  let ?c2 = "case js_get k (lru_entries ?c1) of None \<Rightarrow> ?c1 | Some e \<Rightarrow> lru_remove k e ?c1"
  let ?c3 = "lru_count (\<lambda>n. n\<lparr>n_invalidations := n_invalidations n + 1\<rparr>) ?c2"
  have "fences ?c2 = fences ?c1" by (simp split: option.splits)
  then have "fences ?c3 = fences ?c1" by simp
  then have "lru_seq ?c3 = lru_seq c + 1" by (simp add: fences_iff)
  then have "lru_seq c \<le> lru_seq (pruneFences (snd clk) ?c3)" using pruneFences_seq [of ?c3 "snd clk"] by linarith
  then show ?thesis unfolding lru_invalidate_def Let_def .
qed

lemma lru_invalidateGroup_seq: "lru_seq c \<le> lru_seq (lru_invalidateGroup g c)"
proof -
  let ?c = "c\<lparr>lru_seq := lru_seq c + 1, lru_groupFence := js_set g (lru_seq c + 1) (lru_groupFence c)\<rparr>"
  have "fences (lru_invalidateGroup g c) = fences ?c" by (simp add: lru_invalidateGroup_def Let_def fences_drop_group)
  then show ?thesis by (simp add: fences_iff)
qed

lemma lru_step_seq:
  assumes "lru_wf opt c \<and> valid_options opt" and "lru_step opt jl op c = (c', out)"
  shows "lru_seq c \<le> lru_seq c'"
proof (cases op)
  case (Get now k)
  then show ?thesis using assms lru_get_shape [of opt c now k c'] by (auto simp: fences_iff split: prod.splits)
next
  case (Fill clk u v ttl)
  then show ?thesis using assms lru_set_shape [of opt c jl clk u v ttl c'] by (auto simp: fences_iff split: prod.splits)
qed (use assms(2) lru_invalidate_seq lru_invalidateGroup_seq in \<open>auto simp: lru_clear_def\<close>)

lemma lru_run_seq:
  assumes "lru_wf opt c \<and> valid_options opt" and "run_ops (lru_step opt jl) ops c = (c', outs)"
  shows "lru_seq c \<le> lru_seq c'"
  using assms
proof (induction ops arbitrary: c outs)
  case (Cons op ops)
  obtain c1 out outs1 where s: "lru_step opt jl op c = (c1, out)" "run_ops (lru_step opt jl) ops c1 = (c', outs1)"
    using Cons.prems(2) by (auto simp: Let_def split: prod.splits)
  show ?case using lru_step_seq [OF Cons.prems(1) s(1)] Cons.IH [OF lru_step_wf [OF Cons.prems(1) s(1)] s(2)] by simp
qed simp

text \<open>
  A fill that started before an invalidation never lands. Take a ticket in any state of the cache, then any calls, then
  an invalidation of the ticket's key, of its group or of everything, then any calls: a fill with that ticket is refused,
  provided the clocks of the invalidations from that one on stay within two minutes after it, the memory of the key fences.
\<close>

theorem late_fill_is_refused:
  assumes "lru_wf opt c" and "valid_options opt" and "t = lru_ticket k g c"
    and "run_ops (lru_step opt jl) before c = (c1, outs1)" and "lru_step opt jl op c1 = (c2, out)" and "invalidates t op"
    and "run_ops (lru_step opt jl) after c2 = (c3, outs2)"
    and "\<forall>op' \<in> set (op # after). \<forall>x \<in> set (op_clocks op'). T \<le> x \<and> x \<le> T + FENCE_MEMORY_MS"
  shows "\<exists>c4. lru_set opt jl clk t v ttl c3 = (c4, False) \<and> lru_entries c4 = lru_entries c3"
proof -
  have ok: "lru_wf opt c \<and> valid_options opt" using assms(1,2) by blast
  have ok1: "lru_wf opt c1 \<and> valid_options opt" by (rule lru.run_ok [OF ok assms(4)])
  have "tk_seq t \<le> lru_seq c1" using lru_run_seq [OF ok assms(4)] assms(3) by (simp add: lru_ticket_def)
  then have "refuses T t c2" using refuses_step [OF _ disjI2 [OF assms(6)] _ _ assms(2) assms(5), of T] ok1 assms(8) by simp
  then have "refuses T t c3" using refuses_run [OF _ _ lru_step_wf [OF ok1 assms(5)] assms(7)] assms(8) by simp
  then show ?thesis using refuses_stale by (fastforce simp: lru_set_def)
qed

theorem late_fill_is_refused_witness:
  "\<exists>c4. lru_set small_options Some (9, 9) (lru_ticket ''a'' ''g'' empty_lru) 7 50
      (fst (run_ops (lru_step small_options Some) [Fill (7, 7) (ticket_at 1 ''b'') 2 50] (lru_invalidate (6, 6) ''a'' empty_lru))) = (c4, False)"
proof -
  let ?c3 = "fst (run_ops (lru_step small_options Some) [Fill (7, 7) (ticket_at 1 ''b'') 2 50] (lru_invalidate (6, 6) ''a'' empty_lru))"
  have "\<exists>c4. lru_set small_options Some (9, 9) (lru_ticket ''a'' ''g'' empty_lru) 7 50 ?c3 = (c4, False) \<and> lru_entries c4 = lru_entries ?c3"
    by (rule late_fill_is_refused [where T = 6 and before = "[]" and op = "Invalidate (6, 6) ''a''" and c = empty_lru and k = "''a''" and g = "''g''",
          OF _ _ refl _ _ _ prod.collapse [symmetric]])
      (use lru_new_wf [OF sample_new] in \<open>simp_all add: lru_ticket_def FENCE_MEMORY_MS_def\<close>)
  then show ?thesis by blast
qed

end
