(* ===== verification/MetadataL1.thy ===== *)
theory MetadataL1
  imports Complex_Main LruCache
begin

text \<open>
  The metadata L1 of one process (\<open>metadata-l1-cache.service.ts\<close>): a \<open>BoundedLruCache\<close> that serves only while the process
  holds a confirmed subscription to the invalidation channel, keeps a closed list of kinds, and drops entries on its own
  invalidations and on the messages of its peers.

  The service is driven by events: calls of its methods and what Redis reports (\<open>close\<close>, \<open>end\<close>, \<open>reconnecting\<close>, the reply
  to \<open>SUBSCRIBE\<close>, a message). A message comes as the outcome of \<open>JSON.parse\<close> (\<open>None\<close> when it throws); \<open>deepFreeze\<close> is the
  identity on values. Kinds are their strings. The environment values and the instance id are the configuration \<open>l1_config\<close>.
\<close>

section \<open>Data\<close>

text \<open>The value of a JSON text. The properties of an object are distinct, in insertion order.\<close>

datatype json = JNull | JBool bool | JNum rat | JStr string | JArr "json list" | JObj "json js_map"

fun json_prop :: "string \<Rightarrow> json \<Rightarrow> json option" where
  "json_prop k (JObj m) = js_get k m"
| "json_prop k j = None"

definition L1_CACHEABLE_KINDS :: "string list" where
  "L1_CACHEABLE_KINDS = [''workspace_schema_resolution'', ''workspace_host_label'', ''workspace_host_map'', ''permission_catalogue'']"

definition isL1CacheableKind :: "string \<Rightarrow> bool" where
  "isL1CacheableKind kind \<longleftrightarrow> kind \<in> set L1_CACHEABLE_KINDS"

definition MAX_ID_LENGTH :: nat where "MAX_ID_LENGTH = 300"

definition MAX_ENTRY_BYTES :: int where "MAX_ENTRY_BYTES = 64 * 1024"

definition DEPENDENT_GROUPS :: "string \<Rightarrow> string list option" where
  "DEPENDENT_GROUPS kind = (if kind = ''workspace_host_map'' then Some [''workspace_host_label'', ''workspace_host_map''] else None)"

record l1_config =
  cfg_enabled :: bool
  cfg_ttlMs :: int
  cfg_maxEntries :: int
  cfg_maxBytes :: int
  cfg_instanceId :: string

record bus_counters =
  invalidationsPublished :: nat
  invalidationsReceived :: nat
  invalidationPublishFailures :: nat
  malformedMessages :: nat
  resubscribeClears :: nat

record 'v l1 =
  l1_cache :: "'v lru"
  l1_live :: bool
  l1_closed :: bool
  l1_bus :: bus_counters

section \<open>The service\<close>

definition l1_options :: "l1_config \<Rightarrow> lru_options" where
  "l1_options cfg = \<lparr>op_maxEntries = cfg_maxEntries cfg, op_maxBytes = cfg_maxBytes cfg, op_maxEntryBytes = MAX_ENTRY_BYTES\<rparr>"

definition no_traffic :: bus_counters where
  "no_traffic = \<lparr>invalidationsPublished = 0, invalidationsReceived = 0, invalidationPublishFailures = 0, malformedMessages = 0,
     resubscribeClears = 0\<rparr>"

definition l1_new :: "l1_config \<Rightarrow> 'v l1 res" where
  "l1_new cfg = bindE (lru_new (l1_options cfg)) (\<lambda>c. Inr \<lparr>l1_cache = c, l1_live = False, l1_closed = False, l1_bus = no_traffic\<rparr>)"

definition isLive :: "l1_config \<Rightarrow> 'v l1 \<Rightarrow> bool" where
  "isLive cfg s \<longleftrightarrow> cfg_enabled cfg \<and> l1_live s \<and> \<not> l1_closed s"

definition l1_key :: "string \<Rightarrow> string \<Rightarrow> string" where
  "l1_key kind i = kind @ [CHR 0x00] @ i"

definition l1_get :: "l1_config \<Rightarrow> int \<Rightarrow> string \<Rightarrow> string \<Rightarrow> 'v l1 \<Rightarrow> 'v l1 \<times> 'v option" where
  "l1_get cfg now kind i s =
     (if \<not> isLive cfg s \<or> \<not> isL1CacheableKind kind then (s, None)
      else let (c, r) = lru_get now (l1_key kind i) (l1_cache s) in (s\<lparr>l1_cache := c\<rparr>, r))"

definition l1_ticket :: "l1_config \<Rightarrow> string \<Rightarrow> string \<Rightarrow> 'v l1 \<Rightarrow> LruTicket option" where
  "l1_ticket cfg kind i s =
     (if \<not> isLive cfg s \<or> \<not> isL1CacheableKind kind then None else Some (lru_ticket (l1_key kind i) kind (l1_cache s)))"

definition l1_ttl :: "l1_config \<Rightarrow> int option \<Rightarrow> int" where
  "l1_ttl cfg maxTtlMs = min (cfg_ttlMs cfg) (case maxTtlMs of None \<Rightarrow> cfg_ttlMs cfg | Some m \<Rightarrow> m)"

text \<open>\<open>set\<close> returns nothing; the second component says whether the cache inside stored the value.\<close>

definition l1_set ::
  "l1_config \<Rightarrow> ('v \<Rightarrow> nat option) \<Rightarrow> int \<times> int \<Rightarrow> LruTicket option \<Rightarrow> 'v \<Rightarrow> int option \<Rightarrow> 'v l1 \<Rightarrow> 'v l1 \<times> bool" where
  "l1_set cfg json_length clk ticket v maxTtlMs s =
     (case ticket of
        None \<Rightarrow> (s, False)
      | Some t \<Rightarrow>
          if \<not> isLive cfg s then (s, False)
          else let (c, b) = lru_set (l1_options cfg) json_length clk t v (l1_ttl cfg maxTtlMs) (l1_cache s) in (s\<lparr>l1_cache := c\<rparr>, b))"

definition applyLocal :: "int \<times> int \<Rightarrow> string \<Rightarrow> string \<Rightarrow> 'v l1 \<Rightarrow> 'v l1" where
  "applyLocal clk kind i s = s\<lparr>l1_cache :=
     (case DEPENDENT_GROUPS kind of
        Some groups \<Rightarrow> fold lru_invalidateGroup groups (l1_cache s)
      | None \<Rightarrow> lru_invalidate clk (l1_key kind i) (l1_cache s))\<rparr>"

definition l1_count :: "(bus_counters \<Rightarrow> bus_counters) \<Rightarrow> 'v l1 \<Rightarrow> 'v l1" where
  "l1_count f s = s\<lparr>l1_bus := f (l1_bus s)\<rparr>"

definition invalidation_message :: "l1_config \<Rightarrow> string \<Rightarrow> string \<Rightarrow> json" where
  "invalidation_message cfg kind i =
     JObj [(''v'', JNum 1), (''k'', JStr kind), (''id'', JStr (take MAX_ID_LENGTH i)), (''o'', JStr (cfg_instanceId cfg))]"

text \<open>\<open>invalidate\<close> up to its \<open>await\<close>: the local drop and the message it publishes; then what becomes of the publication.\<close>

definition l1_invalidate :: "l1_config \<Rightarrow> int \<times> int \<Rightarrow> string \<Rightarrow> string \<Rightarrow> 'v l1 \<Rightarrow> 'v l1 \<times> json option" where
  "l1_invalidate cfg clk kind i s =
     (if \<not> cfg_enabled cfg \<or> \<not> isL1CacheableKind kind then (s, None)
      else (applyLocal clk kind i s, Some (invalidation_message cfg kind i)))"

definition l1_published :: "bool \<Rightarrow> 'v l1 \<Rightarrow> 'v l1" where
  "l1_published sent = l1_count (\<lambda>n. if sent then n\<lparr>invalidationsPublished := invalidationsPublished n + 1\<rparr>
     else n\<lparr>invalidationPublishFailures := invalidationPublishFailures n + 1\<rparr>)"

definition l1_clear :: "'v l1 \<Rightarrow> 'v l1" where
  "l1_clear s = s\<lparr>l1_cache := lru_clear (l1_cache s)\<rparr>"

definition onModuleDestroy :: "'v l1 \<Rightarrow> 'v l1" where
  "onModuleDestroy s = s\<lparr>l1_closed := True, l1_live := False\<rparr>"

definition goDeaf :: "'v l1 \<Rightarrow> 'v l1" where
  "goDeaf s = s\<lparr>l1_live := False\<rparr>"

text \<open>The reply to \<open>SUBSCRIBE\<close>.\<close>

definition l1_subscribed :: "'v l1 \<Rightarrow> 'v l1" where
  "l1_subscribed s =
     (if l1_closed s then s
      else (l1_count (\<lambda>n. n\<lparr>resubscribeClears := resubscribeClears n + 1\<rparr>) (s\<lparr>l1_cache := lru_clear (l1_cache s)\<rparr>))\<lparr>l1_live := True\<rparr>)"

text \<open>What \<open>onMessage\<close> makes of a message: the kind and the id, if it is well formed.\<close>

definition read_message :: "json option \<Rightarrow> (string \<times> string) option" where
  "read_message parsed =
     (case parsed of None \<Rightarrow> None
      | Some m \<Rightarrow>
          if json_prop ''v'' m \<noteq> Some (JNum 1) then None
          else case (json_prop ''k'' m, json_prop ''id'' m) of
              (Some (JStr k), Some (JStr i)) \<Rightarrow> if \<not> isL1CacheableKind k \<or> MAX_ID_LENGTH < length i then None else Some (k, i)
            | _ \<Rightarrow> None)"

definition onMessage :: "int \<times> int \<Rightarrow> json option \<Rightarrow> 'v l1 \<Rightarrow> 'v l1" where
  "onMessage clk parsed s =
     (case read_message parsed of
        None \<Rightarrow> l1_count (\<lambda>n. n\<lparr>malformedMessages := malformedMessages n + 1\<rparr>) s
      | Some (k, i) \<Rightarrow> applyLocal clk k i (l1_count (\<lambda>n. n\<lparr>invalidationsReceived := invalidationsReceived n + 1\<rparr>) s))"

definition l1_stats :: "l1_config \<Rightarrow> 'v l1 \<Rightarrow> (bool \<times> bool \<times> int \<times> int \<times> int) \<times> (nat \<times> int \<times> lru_counters) \<times> bus_counters" where
  "l1_stats cfg s = ((cfg_enabled cfg, isLive cfg s, cfg_ttlMs cfg, cfg_maxEntries cfg, cfg_maxBytes cfg), lru_stats (l1_cache s), l1_bus s)"

section \<open>The service as one machine\<close>

datatype 'v l1_event =
    L1Get int string string
  | L1Set "int \<times> int" "LruTicket option" 'v "int option"
  | L1Invalidate "int \<times> int" string string
  | L1Published bool
  | L1Message "int \<times> int" "json option"
  | L1Clear
  | L1Destroy
  | L1GoDeaf
  | L1Subscribed
  | L1SubscribeFailed

datatype 'v l1_out = L1Got "'v option" | L1Stored bool | L1Sent "json option" | L1Reset bool | L1Quiet

fun l1_step :: "l1_config \<Rightarrow> ('v \<Rightarrow> nat option) \<Rightarrow> 'v l1_event \<Rightarrow> 'v l1 \<Rightarrow> 'v l1 \<times> 'v l1_out" where
  "l1_step cfg jl (L1Get now kind i) s = (let (s', r) = l1_get cfg now kind i s in (s', L1Got r))"
| "l1_step cfg jl (L1Set clk t v m) s = (let (s', b) = l1_set cfg jl clk t v m s in (s', L1Stored b))"
| "l1_step cfg jl (L1Invalidate clk kind i) s = (let (s', m) = l1_invalidate cfg clk kind i s in (s', L1Sent m))"
| "l1_step cfg jl (L1Published sent) s = (l1_published sent s, L1Quiet)"
| "l1_step cfg jl (L1Message clk p) s = (onMessage clk p s, L1Quiet)"
| "l1_step cfg jl L1Clear s = (l1_clear s, L1Reset True)"
| "l1_step cfg jl L1Destroy s = (onModuleDestroy s, L1Quiet)"
| "l1_step cfg jl L1GoDeaf s = (goDeaf s, L1Quiet)"
| "l1_step cfg jl L1Subscribed s = (l1_subscribed s, L1Reset (\<not> l1_closed s))"
| "l1_step cfg jl L1SubscribeFailed s = (goDeaf s, L1Quiet)"

text \<open>The calls of the cache inside that an event makes.\<close>

definition local_ops :: "int \<times> int \<Rightarrow> string \<Rightarrow> string \<Rightarrow> 'v lru_op list" where
  "local_ops clk kind i = (case DEPENDENT_GROUPS kind of Some gs \<Rightarrow> map InvalidateGroup gs | None \<Rightarrow> [Invalidate clk (l1_key kind i)])"

fun cache_ops :: "l1_config \<Rightarrow> 'v l1 \<Rightarrow> 'v l1_event \<Rightarrow> 'v lru_op list" where
  "cache_ops cfg s (L1Get now kind i) = (if isLive cfg s \<and> isL1CacheableKind kind then [Get now (l1_key kind i)] else [])"
| "cache_ops cfg s (L1Set clk t v m) =
     (case t of Some u \<Rightarrow> if isLive cfg s then [Fill clk u v (l1_ttl cfg m)] else [] | None \<Rightarrow> [])"
| "cache_ops cfg s (L1Invalidate clk kind i) = (if cfg_enabled cfg \<and> isL1CacheableKind kind then local_ops clk kind i else [])"
| "cache_ops cfg s (L1Message clk p) = (case read_message p of Some (k, i) \<Rightarrow> local_ops clk k i | None \<Rightarrow> [])"
| "cache_ops cfg s L1Clear = [ClearAll]"
| "cache_ops cfg s L1Subscribed = (if l1_closed s then [] else [ClearAll])"
| "cache_ops cfg s ev = []"

lemma run_ops_append:
  "run_ops step (xs @ ys) c = (let (c1, o1) = run_ops step xs c; (c2, o2) = run_ops step ys c1 in (c2, o1 @ o2))"
  by (induction xs arbitrary: c) (auto simp: Let_def split: prod.splits)

lemma run_groups: "fst (run_ops (lru_step opt jl) (map InvalidateGroup gs) c) = fold lru_invalidateGroup gs c"
  by (induction gs arbitrary: c) (simp_all add: Let_def split_beta)

lemma applyLocal_ops: "l1_cache (applyLocal clk kind i s) = fst (run_ops (lru_step opt jl) (local_ops clk kind i) (l1_cache s))"
  by (cases "DEPENDENT_GROUPS kind") (simp_all add: applyLocal_def local_ops_def run_groups)

lemma l1_count_cache [simp]: "l1_cache (l1_count f s) = l1_cache s" "l1_live (l1_count f s) = l1_live s" "l1_closed (l1_count f s) = l1_closed s"
  by (simp_all add: l1_count_def)

lemma l1_step_cache:
  "l1_cache (fst (l1_step cfg jl ev s)) = fst (run_ops (lru_step (l1_options cfg) jl) (cache_ops cfg s ev) (l1_cache s))"
proof (cases ev)
  case (L1Get now kind i)
  then show ?thesis by (auto simp: l1_get_def Let_def split: prod.splits)
next
  case (L1Set clk t v m)
  then show ?thesis by (cases t) (auto simp: l1_set_def Let_def split: prod.splits)
next
  case (L1Invalidate clk kind i)
  then show ?thesis by (simp add: l1_invalidate_def applyLocal_ops [where opt = "l1_options cfg" and jl = jl])
next
  case (L1Message clk p)
  then show ?thesis
    by (cases "read_message p") (auto simp: onMessage_def applyLocal_ops [where opt = "l1_options cfg" and jl = jl])
qed (simp_all add: l1_published_def l1_clear_def onModuleDestroy_def goDeaf_def l1_subscribed_def)


lemma run_ops_nth:
  assumes "run_ops step ops c = (c', outs)" and "i < length ops"
  shows "\<exists>ci cj. run_ops step (take i ops) c = (ci, take i outs) \<and> step (ops ! i) ci = (cj, outs ! i)"
  using assms
proof (induction ops arbitrary: c outs i)
  case (Cons op ops)
  obtain c1 out outs1 where s: "step op c = (c1, out)" "run_ops step ops c1 = (c', outs1)" "outs = out # outs1"
    using Cons.prems(1) by (auto simp: Let_def split: prod.splits)
  show ?case
  proof (cases i)
    case (Suc j)
    then show ?thesis using Cons.IH [OF s(2), of j] Cons.prems(2) s by (auto simp: Let_def)
  qed (use s in simp)
qed simp

section \<open>What the service owes its callers\<close>

definition forget_local :: "string \<Rightarrow> string \<Rightarrow> 'v ideal \<Rightarrow> 'v ideal" where
  "forget_local kind i m = (case DEPENDENT_GROUPS kind of Some gs \<Rightarrow> fold forget_group gs m | None \<Rightarrow> m(l1_key kind i := None))"

text \<open>
  The ideal store of the service: a fill the service accepted, an invalidation of its own or of a peer, and nothing left
  after a \<open>clear\<close> or a confirmed subscription.
\<close>

definition l1_spec :: "l1_config \<Rightarrow> 'v l1_event \<Rightarrow> 'v l1_out \<Rightarrow> 'v ideal \<Rightarrow> 'v ideal" where
  "l1_spec cfg ev out m =
     (case ev of
        L1Set clk (Some t) v mx \<Rightarrow> if out = L1Stored True then m(tk_key t \<mapsto> (v, fst clk + l1_ttl cfg mx, tk_group t)) else m
      | L1Invalidate clk kind i \<Rightarrow> if cfg_enabled cfg \<and> isL1CacheableKind kind then forget_local kind i m else m
      | L1Message clk p \<Rightarrow> (case read_message p of Some (k, i) \<Rightarrow> forget_local k i m | None \<Rightarrow> m)
      | _ \<Rightarrow> if out = L1Reset True then Map.empty else m)"

definition l1_hit :: "'v l1_event \<Rightarrow> 'v l1_out \<Rightarrow> (string \<times> 'v \<times> int) option" where
  "l1_hit ev out = (case (ev, out) of (L1Get now kind i, L1Got (Some v)) \<Rightarrow> Some (l1_key kind i, v, now) | _ \<Rightarrow> None)"

text \<open>The link to the channel, as the events report it: live, closed.\<close>

definition link_step :: "'v l1_event \<Rightarrow> bool \<times> bool \<Rightarrow> bool \<times> bool" where
  "link_step ev lk =
     (case ev of
        L1Subscribed \<Rightarrow> if snd lk then lk else (True, False)
      | L1GoDeaf \<Rightarrow> (False, snd lk)
      | L1SubscribeFailed \<Rightarrow> (False, snd lk)
      | L1Destroy \<Rightarrow> (False, True)
      | _ \<Rightarrow> lk)"

definition l1_ok :: "l1_config \<Rightarrow> 'v l1 \<Rightarrow> bool" where
  "l1_ok cfg s \<longleftrightarrow> lru_wf (l1_options cfg) (l1_cache s) \<and> valid_options (l1_options cfg)"

lemma spec_local_ops:
  "length outs = length (local_ops clk kind i :: 'v lru_op list) \<Longrightarrow> spec_run spec_step (local_ops clk kind i :: 'v lru_op list) outs m = forget_local kind i m"
proof (cases "DEPENDENT_GROUPS kind")
  case None
  then show "length outs = length (local_ops clk kind i :: 'v lru_op list) \<Longrightarrow> ?thesis"
    by (cases outs) (simp_all add: local_ops_def forget_local_def)
next
  case (Some gs)
  have "length outs = length gs \<Longrightarrow> spec_run spec_step (map InvalidateGroup gs) outs m = fold forget_group gs m" for m :: "'v ideal"
    by (induction gs arbitrary: outs m) (auto simp: length_Suc_conv)
  then show "length outs = length (local_ops clk kind i :: 'v lru_op list) \<Longrightarrow> ?thesis" using Some by (simp add: local_ops_def forget_local_def)
qed

lemma spec_cache_ops:
  assumes "run_ops (lru_step (l1_options cfg) jl) (cache_ops cfg s ev) (l1_cache s) = (c', outs)" and "l1_step cfg jl ev s = (s', out)"
  shows "spec_run spec_step (cache_ops cfg s ev) outs m = l1_spec cfg ev out m"
proof (cases ev)
  case (L1Get now kind i)
  then show ?thesis using assms by (auto simp: l1_spec_def l1_get_def Let_def split: prod.splits if_splits)
next
  case (L1Set clk t v mx)
  then show ?thesis using assms by (cases t) (auto simp: l1_spec_def l1_set_def Let_def split: prod.splits if_splits)
next
  case (L1Invalidate clk kind i)
  then show ?thesis using assms run_ops_length [OF assms(1)] by (auto simp: l1_spec_def spec_local_ops)
next
  case (L1Message clk p)
  then show ?thesis using run_ops_length [OF assms(1)] by (auto simp: l1_spec_def spec_local_ops split: option.splits)
qed (use assms in \<open>auto simp: l1_spec_def\<close>)

lemma l1_spec_mono: "m \<subseteq>\<^sub>m n \<Longrightarrow> l1_spec cfg ev out m \<subseteq>\<^sub>m l1_spec cfg ev out n"
proof -
  have f: "forget_local kind i m \<subseteq>\<^sub>m forget_local kind i n" if "m \<subseteq>\<^sub>m n" for kind i and m n :: "'a ideal"
    using that by (auto simp: forget_local_def DEPENDENT_GROUPS_def map_le_iff forget_group_Some)
  have u: "m(k \<mapsto> x) \<subseteq>\<^sub>m n(k \<mapsto> x)" if "m \<subseteq>\<^sub>m n" for k x and m n :: "'a ideal" using that by (simp add: map_le_iff)
  show "m \<subseteq>\<^sub>m n \<Longrightarrow> ?thesis"
    by (cases ev) (simp_all add: l1_spec_def f u split: option.split prod.split)
qed

lemma l1_step_ok: "l1_ok cfg s \<Longrightarrow> l1_step cfg jl ev s = (s', out) \<Longrightarrow> l1_ok cfg s'"
  unfolding l1_ok_def using l1_step_cache [of cfg jl ev s] lru.run_ok [OF _ prod.collapse [symmetric]] by fastforce

lemma l1_step_contents:
  assumes "l1_ok cfg s" and "l1_step cfg jl ev s = (s', out)"
  shows "contents (l1_cache s') \<subseteq>\<^sub>m l1_spec cfg ev out (contents (l1_cache s))"
proof -
  obtain c' outs where r: "run_ops (lru_step (l1_options cfg) jl) (cache_ops cfg s ev) (l1_cache s) = (c', outs)" by fastforce
  then have "l1_cache s' = c'" using l1_step_cache [of cfg jl ev s] assms(2) by simp
  then show ?thesis
    using lru.run_holds [OF assms(1) [unfolded l1_ok_def] r map_le_refl] spec_cache_ops [OF r assms(2)] by simp
qed

lemma l1_step_hit:
  assumes "l1_ok cfg s" and "l1_step cfg jl ev s = (s', out)" and "l1_hit ev out = Some (k, v, now)"
  shows "\<exists>e g. contents (l1_cache s) k = Some (v, e, g) \<and> now < e"
proof -
  obtain kind i where ev: "ev = L1Get now kind i" "out = L1Got (Some v)" "k = l1_key kind i"
    using assms(3) by (auto simp: l1_hit_def split: l1_event.splits l1_out.splits option.splits)
  then obtain c' where "lru_get now k (l1_cache s) = (c', Some v)"
    using assms(2) by (auto simp: l1_get_def Let_def split: prod.splits if_splits)
  then have "lru_step (l1_options cfg) jl (Get now k) (l1_cache s) = (c', Got (Some v))" by simp
  then show ?thesis using lru_step_hit [OF assms(1) [unfolded l1_ok_def]] by fastforce
qed

interpretation l1: coherent_cache "l1_ok cfg" "l1_step cfg jl" "\<lambda>s. contents (l1_cache s)" "l1_spec cfg" l1_hit for cfg jl
  by unfold_locales (fact l1_spec_mono, fact l1_step_ok, fact l1_step_contents, fact l1_step_hit)

lemma l1_step_link: "l1_step cfg jl ev s = (s', out) \<Longrightarrow> (l1_live s', l1_closed s') = link_step ev (l1_live s, l1_closed s)"
  by (cases ev) (auto simp: l1_get_def l1_set_def l1_invalidate_def l1_published_def onMessage_def applyLocal_def l1_clear_def
      onModuleDestroy_def goDeaf_def l1_subscribed_def link_step_def Let_def split: prod.splits option.splits if_splits)

lemma l1_run_link:
  "run_ops (l1_step cfg jl) evs s = (s', outs) \<Longrightarrow> (l1_live s', l1_closed s') = fold link_step evs (l1_live s, l1_closed s)"
proof (induction evs arbitrary: s outs)
  case (Cons ev evs)
  obtain s1 out outs1 where s: "l1_step cfg jl ev s = (s1, out)" "run_ops (l1_step cfg jl) evs s1 = (s', outs1)"
    using Cons.prems by (auto simp: Let_def split: prod.splits)
  show ?case using Cons.IH [OF s(2)] l1_step_link [OF s(1)] by simp
qed simp

lemma l1_new_ok:
  assumes "l1_new cfg = Inr s"
  shows "l1_ok cfg s \<and> contents (l1_cache s) = Map.empty \<and> \<not> l1_live s \<and> \<not> l1_closed s"
proof -
  obtain c where c: "lru_new (l1_options cfg) = Inr c" "s = \<lparr>l1_cache = c, l1_live = False, l1_closed = False, l1_bus = no_traffic\<rparr>"
    using assms by (auto simp: l1_new_def bindE_Inr_iff)
  then show ?thesis using lru_new_wf [OF c(1)] by (simp add: l1_ok_def)
qed

text \<open>A peer reads the message of an invalidation as the same invalidation, up to the length an id may have.\<close>

lemma peers_understand:
  assumes "l1_invalidate cfg clk kind i s = (s', Some msg)" and "length i \<le> MAX_ID_LENGTH"
  shows "read_message (Some msg) = Some (kind, i)"
  using assms by (auto simp: l1_invalidate_def invalidation_message_def read_message_def split: if_splits)

section \<open>Properties\<close>

text \<open>
  C38. The L1 serves only while it listens, and only what the ideal store of the service holds. For every sequence of events
  of a new service, an answer from the L1 is given only when the service is enabled, its last subscription was confirmed and
  neither lost nor closed since, and the kind is one of the closed list; the answer is the value of the last accepted fill of
  that key since the subscription was confirmed, unexpired, and dropped by no invalidation of this process or of a peer since.
\<close>

theorem l1_serves_only_while_listening:
  assumes "l1_new cfg = Inr s" and "run_ops (l1_step cfg jl) evs s = (s', outs)"
  shows "\<forall>n < length evs. \<forall>now kind i v. evs ! n = L1Get now kind i \<and> outs ! n = L1Got (Some v) \<longrightarrow>
    cfg_enabled cfg \<and> isL1CacheableKind kind \<and> fold link_step (take n evs) (False, False) = (True, False)
    \<and> (\<exists>e g. spec_run (l1_spec cfg) (take n evs) (take n outs) Map.empty (l1_key kind i) = Some (v, e, g) \<and> now < e)"
proof (intro allI impI, elim conjE)
  fix n now kind i v
  assume n: "n < length evs" and ev: "evs ! n = L1Get now kind i" "outs ! n = L1Got (Some v)"
  have ok: "l1_ok cfg s" "contents (l1_cache s) \<subseteq>\<^sub>m Map.empty" "\<not> l1_live s" "\<not> l1_closed s" using l1_new_ok [OF assms(1)] by simp_all
  have "l1_hit (evs ! n) (outs ! n) = Some (l1_key kind i, v, now)" by (simp add: l1_hit_def ev)
  note hit = l1.run_hits [OF ok(1) assms(2) n this ok(2)]
  obtain si sj where st: "run_ops (l1_step cfg jl) (take n evs) s = (si, take n outs)" "l1_step cfg jl (evs ! n) si = (sj, outs ! n)"
    using run_ops_nth [OF assms(2) n] by blast
  have "isLive cfg si \<and> isL1CacheableKind kind" using st(2) ev by (auto simp: l1_get_def Let_def split: prod.splits if_splits)
  then show "cfg_enabled cfg \<and> isL1CacheableKind kind \<and> fold link_step (take n evs) (False, False) = (True, False)
    \<and> (\<exists>e g. spec_run (l1_spec cfg) (take n evs) (take n outs) Map.empty (l1_key kind i) = Some (v, e, g) \<and> now < e)"
    using l1_run_link [OF st(1)] ok(3,4) hit by (simp add: isLive_def)
qed

definition l1_defaults :: l1_config where
  "l1_defaults = \<lparr>cfg_enabled = True, cfg_ttlMs = 2000, cfg_maxEntries = 500, cfg_maxBytes = 2097152, cfg_instanceId = ''n1''\<rparr>"

definition fresh_l1 :: "nat l1" where
  "fresh_l1 = \<lparr>l1_cache = empty_lru, l1_live = False, l1_closed = False, l1_bus = no_traffic\<rparr>"

definition label_ticket :: "nat \<Rightarrow> LruTicket" where
  "label_ticket n = \<lparr>tk_key = l1_key ''workspace_host_label'' ''w'', tk_group = ''workspace_host_label'', tk_seq = n\<rparr>"

definition label_events :: "nat l1_event list" where
  "label_events = [L1Subscribed, L1Set (1, 1) (Some (label_ticket 1)) 7 None, L1Get 2 ''workspace_host_label'' ''w'', L1GoDeaf,
     L1Get 3 ''workspace_host_label'' ''w'']"

lemma fresh_l1_new: "l1_new l1_defaults = Inr fresh_l1"
  by (simp add: l1_new_def lru_new_def l1_options_def l1_defaults_def fresh_l1_def empty_lru_def MAX_ENTRY_BYTES_def)

lemma label_run: "snd (run_ops (l1_step l1_defaults Some) label_events fresh_l1) = [L1Reset True, L1Stored True, L1Got (Some 7), L1Quiet, L1Got None]"
  by code_simp

theorem l1_serves_only_while_listening_witness:
  "fold link_step (take 2 label_events) (False, False) = (True, False)
    \<and> (\<exists>e g. spec_run (l1_spec l1_defaults) (take 2 label_events) [L1Reset True, L1Stored True] Map.empty (l1_key ''workspace_host_label'' ''w'') = Some (7, e, g) \<and> 2 < e)"
proof -
  obtain s' outs where r: "run_ops (l1_step l1_defaults Some) label_events fresh_l1 = (s', outs)" by fastforce
  then have o: "outs = [L1Reset True, L1Stored True, L1Got (Some 7), L1Quiet, L1Got None]" using label_run by simp
  have "2 < length label_events" "label_events ! 2 = L1Get 2 ''workspace_host_label'' ''w''" "outs ! 2 = L1Got (Some 7)"
    by (simp_all add: o label_events_def)
  then show ?thesis using l1_serves_only_while_listening [OF fresh_l1_new r] by (fastforce simp: o)
qed

text \<open>The events that must keep a fill with the ticket \<open>t\<close> out.\<close>

definition meant_for :: "LruTicket \<Rightarrow> string \<Rightarrow> string \<Rightarrow> bool" where
  "meant_for t kind i \<longleftrightarrow> (case DEPENDENT_GROUPS kind of Some gs \<Rightarrow> tk_group t \<in> set gs | None \<Rightarrow> tk_key t = l1_key kind i)"

definition voids :: "LruTicket \<Rightarrow> 'v l1_event \<Rightarrow> bool" where
  "voids t ev \<longleftrightarrow> (case ev of
       L1Subscribed \<Rightarrow> True
     | L1Clear \<Rightarrow> True
     | L1Invalidate clk kind i \<Rightarrow> isL1CacheableKind kind \<and> meant_for t kind i
     | L1Message clk p \<Rightarrow> (case read_message p of Some (kind, i) \<Rightarrow> meant_for t kind i | None \<Rightarrow> False)
     | _ \<Rightarrow> False)"

definition l1_clocks :: "'v l1_event \<Rightarrow> int list" where
  "l1_clocks ev = (case ev of L1Invalidate clk kind i \<Rightarrow> [fst clk, snd clk] | L1Message clk p \<Rightarrow> [fst clk, snd clk] | _ \<Rightarrow> [])"

lemma local_clocks: "op \<in> set (local_ops clk kind i) \<Longrightarrow> x \<in> set (op_clocks op) \<Longrightarrow> x \<in> {fst clk, snd clk}"
  by (auto simp: local_ops_def split: option.splits)

lemma cache_clocks: "op \<in> set (cache_ops cfg s ev) \<Longrightarrow> x \<in> set (op_clocks op) \<Longrightarrow> x \<in> set (l1_clocks ev)"
  by (cases ev) (auto simp: l1_clocks_def dest: local_clocks split: option.splits if_splits)

lemma meant_for_ops: "meant_for t kind i \<Longrightarrow> \<exists>op \<in> set (local_ops clk kind i). invalidates t op"
  by (cases "DEPENDENT_GROUPS kind") (auto simp: meant_for_def local_ops_def)

lemma voids_ops:
  "voids t ev \<Longrightarrow> cfg_enabled cfg \<Longrightarrow> \<not> l1_closed s \<Longrightarrow> \<exists>op \<in> set (cache_ops cfg s ev). invalidates t op"
  by (cases ev) (auto simp: voids_def split: option.splits intro: meant_for_ops meant_for_ops [unfolded Bex_def])

text \<open>An invalidation anywhere in a sequence of calls refuses the tickets taken before the sequence.\<close>

lemma refuses_ops:
  assumes "lru_wf opt c \<and> valid_options opt" and "tk_seq t \<le> lru_seq c" and "refuses T t c \<or> (\<exists>op \<in> set ops. invalidates t op)"
    and "\<forall>op \<in> set ops. \<forall>x \<in> set (op_clocks op). T \<le> x \<and> x \<le> T + FENCE_MEMORY_MS" and "run_ops (lru_step opt jl) ops c = (c', outs)"
  shows "refuses T t c'"
  using assms
proof (induction ops arbitrary: c outs)
  case (Cons op ops)
  obtain c1 out outs1 where s: "lru_step opt jl op c = (c1, out)" "run_ops (lru_step opt jl) ops c1 = (c', outs1)"
    using Cons.prems(5) by (auto simp: Let_def split: prod.splits)
  have ok1: "lru_wf opt c1 \<and> valid_options opt" by (rule lru_step_wf [OF Cons.prems(1) s(1)])
  have "tk_seq t \<le> lru_seq c1" using lru_step_seq [OF Cons.prems(1) s(1)] Cons.prems(2) by simp
  moreover have "refuses T t c1 \<or> (\<exists>op \<in> set ops. invalidates t op)"
    using refuses_step [OF Cons.prems(2) _ _ _ _ s(1), of T] Cons.prems(1,3,4) by auto
  ultimately show ?case using Cons.IH [OF ok1 _ _ _ s(2)] Cons.prems(4) by simp
qed simp

lemma l1_refuses_run:
  assumes "l1_ok cfg s" and "tk_seq t \<le> lru_seq (l1_cache s)" and "refuses T t (l1_cache s)"
    and "\<forall>ev \<in> set evs. \<forall>x \<in> set (l1_clocks ev). T \<le> x \<and> x \<le> T + FENCE_MEMORY_MS" and "run_ops (l1_step cfg jl) evs s = (s', outs)"
  shows "refuses T t (l1_cache s')"
  using assms
proof (induction evs arbitrary: s outs)
  case (Cons ev evs)
  obtain s1 out outs1 where s: "l1_step cfg jl ev s = (s1, out)" "run_ops (l1_step cfg jl) evs s1 = (s', outs1)"
    using Cons.prems(5) by (auto simp: Let_def split: prod.splits)
  obtain c1 os where c: "run_ops (lru_step (l1_options cfg) jl) (cache_ops cfg s ev) (l1_cache s) = (c1, os)" by fastforce
  then have c1: "l1_cache s1 = c1" using l1_step_cache [of cfg jl ev s] s(1) by simp
  have "refuses T t (l1_cache s1)"
    unfolding c1 by (rule refuses_ops [OF Cons.prems(1) [unfolded l1_ok_def] Cons.prems(2) disjI1 [OF Cons.prems(3)] _ c])
      (use Cons.prems(4) cache_clocks in fastforce)
  moreover have "tk_seq t \<le> lru_seq (l1_cache s1)"
    using lru_run_seq [OF Cons.prems(1) [unfolded l1_ok_def] c] Cons.prems(2) c1 by simp
  ultimately show ?case using Cons.IH [OF l1_step_ok [OF Cons.prems(1) s(1)] _ _ _ s(2)] Cons.prems(4) by simp
qed simp

lemma l1_run_seq:
  assumes "l1_ok cfg s" and "run_ops (l1_step cfg jl) evs s = (s', outs)"
  shows "lru_seq (l1_cache s) \<le> lru_seq (l1_cache s')"
  using assms
proof (induction evs arbitrary: s outs)
  case (Cons ev evs)
  obtain s1 out outs1 where s: "l1_step cfg jl ev s = (s1, out)" "run_ops (l1_step cfg jl) evs s1 = (s', outs1)"
    using Cons.prems(2) by (auto simp: Let_def split: prod.splits)
  obtain c1 os where c: "run_ops (lru_step (l1_options cfg) jl) (cache_ops cfg s ev) (l1_cache s) = (c1, os)" by fastforce
  then have "l1_cache s1 = c1" using l1_step_cache [of cfg jl ev s] s(1) by simp
  then have "lru_seq (l1_cache s) \<le> lru_seq (l1_cache s1)" using lru_run_seq [OF Cons.prems(1) [unfolded l1_ok_def] c] by simp
  then show ?case using Cons.IH [OF l1_step_ok [OF Cons.prems(1) s(1)] s(2)] by simp
qed simp

lemma link_closed: "snd (fold link_step evs (live, True))"
  by (induction evs arbitrary: live) (auto simp: link_step_def split: l1_event.splits)

text \<open>
  No fill crosses an invalidation or a gap in the subscription. Take a ticket from a service in its invariant, then any
  events, then an invalidation of the ticket's key or of its group by this process or by a peer, a \<open>clear\<close>, or a renewed
  subscription, then any events: \<open>set\<close> with that ticket leaves the entries as they are, provided the clocks of the
  invalidations from that event on stay within two minutes of it.
\<close>

theorem no_fill_across_a_gap:
  assumes "l1_ok cfg s" and "l1_ticket cfg kind i s = Some t"
    and "run_ops (l1_step cfg jl) before s = (s1, outs1)" and "l1_step cfg jl ev s1 = (s2, out)" and "voids t ev"
    and "run_ops (l1_step cfg jl) after s2 = (s3, outs2)"
    and "\<forall>ev' \<in> set (ev # after). \<forall>x \<in> set (l1_clocks ev'). T \<le> x \<and> x \<le> T + FENCE_MEMORY_MS"
  shows "lru_entries (l1_cache (fst (l1_set cfg jl clk (Some t) v mx s3))) = lru_entries (l1_cache s3)"
proof (cases "l1_closed s1")
  case True
  then have "snd (l1_live s3, l1_closed s3)"
    unfolding l1_run_link [OF assms(6)] l1_step_link [OF assms(4)] using link_closed [of "ev # after" "l1_live s1"] by simp
  then show ?thesis by (simp add: l1_set_def isLive_def)
next
  case False
  have t: "t = lru_ticket (l1_key kind i) kind (l1_cache s)" "cfg_enabled cfg" using assms(2) by (auto simp: l1_ticket_def isLive_def split: if_splits)
  have ok1: "l1_ok cfg s1" by (rule l1.run_ok [OF assms(1,3)])
  have q: "tk_seq t \<le> lru_seq (l1_cache s1)" using l1_run_seq [OF assms(1,3)] by (simp add: t(1) lru_ticket_def)
  obtain c2 os where c: "run_ops (lru_step (l1_options cfg) jl) (cache_ops cfg s1 ev) (l1_cache s1) = (c2, os)" by fastforce
  then have c2: "l1_cache s2 = c2" using l1_step_cache [of cfg jl ev s1] assms(4) by simp
  have "refuses T t (l1_cache s2)"
    unfolding c2 by (rule refuses_ops [OF ok1 [unfolded l1_ok_def] q disjI2 [OF voids_ops [OF assms(5) t(2) False]] _ c])
      (use assms(7) cache_clocks in fastforce)
  moreover have "tk_seq t \<le> lru_seq (l1_cache s2)" using lru_run_seq [OF ok1 [unfolded l1_ok_def] c] q c2 by simp
  ultimately have "refuses T t (l1_cache s3)" using l1_refuses_run [OF l1_step_ok [OF ok1 assms(4)] _ _ _ assms(6)] assms(7) by simp
  then have "lru_stale t (l1_cache s3)" by (rule refuses_stale)
  then show ?thesis by (auto simp: l1_set_def lru_set_def Let_def)
qed

theorem no_fill_across_a_gap_witness:
  "lru_entries (l1_cache (fst (l1_set l1_defaults Some (9, 9) (Some (label_ticket 1)) 7 None
      (fst (run_ops (l1_step l1_defaults Some) [L1Subscribed] (fst (run_ops (l1_step l1_defaults Some) [L1Subscribed, L1GoDeaf] fresh_l1))))))) = []"
proof -
  let ?s = "fst (run_ops (l1_step l1_defaults Some) [L1Subscribed] fresh_l1)"
  let ?s1 = "fst (run_ops (l1_step l1_defaults Some) [L1GoDeaf] ?s)"
  let ?s2 = "fst (l1_step l1_defaults Some L1Subscribed ?s1)"
  have ok: "l1_ok l1_defaults ?s" by (rule l1.run_ok [OF conjunct1 [OF l1_new_ok [OF fresh_l1_new]] prod.collapse [symmetric]])
  have t: "l1_ticket l1_defaults ''workspace_host_label'' ''w'' ?s = Some (label_ticket 1)" by code_simp
  have "lru_entries (l1_cache (fst (l1_set l1_defaults Some (9, 9) (Some (label_ticket 1)) 7 None ?s2))) = lru_entries (l1_cache ?s2)"
    by (rule no_fill_across_a_gap [where before = "[L1GoDeaf]" and ev = L1Subscribed and after = "[]" and T = 0, OF ok t prod.collapse [symmetric] prod.collapse [symmetric]])
      (simp_all add: voids_def l1_clocks_def [of L1Subscribed])
  moreover have "lru_entries (l1_cache ?s2) = []" by (simp add: l1_subscribed_def lru_clear_def goDeaf_def fresh_l1_def)
  ultimately show ?thesis by simp
qed

end
