(* ===== verification/EntityCache.thy ===== *)
theory EntityCache
  imports MetadataL1 Money
begin

text \<open>
  The entity cache (\<open>core-entity-cache.service.ts\<close>): display projections in Redis under keys that carry an epoch, which a
  writer increments after its commit. The code is asynchronous; the model cuts \<open>getOrFetch\<close> and \<open>invalidate\<close> at every
  \<open>await\<close> and lets any number of calls of any number of processes interleave.

  \<^item> Redis (\<open>redis\<close>) is the counters and the projections by key, with their expiry in milliseconds; \<open>keys_apart\<close> shows that
    the two kinds of key never meet. Redis keeps what it has (\<open>noeviction\<close> in the compose files). A command is answered, or
    executed with its answer lost, or not executed (\<open>reply\<close>). \<open>JSON.parse (JSON.stringify v)\<close> is \<open>v\<close> on projections.
  \<^item> PostgreSQL (\<open>w_rows\<close>) is, per kind and id, the list of the committed projections of the row, the newest last (\<open>None\<close>: no
    such row); \<open>fetch\<close> reads the newest.
  \<^item> \<open>w_l1\<close> is the L1 of each process, if it has one, driven by \<open>MetadataL1\<close>.
\<close>

section \<open>Data\<close>

definition EntityCacheKind :: "string list" where
  "EntityCacheKind = [''user'', ''organisation'', ''manager_profile'', ''manager_workspace'', ''manager_workspace_by_owner'', ''venue'',
     ''workspace_schema_resolution'', ''workspace_host_label'', ''workspace_host_map'', ''permission_catalogue'']"

definition DATA_TTL_SECONDS :: int where "DATA_TTL_SECONDS = 300"

definition key_prefix :: "string \<Rightarrow> string" where
  "key_prefix env = ''crewflow:'' @ env @ '':entitycache:''"

definition epochKey :: "string \<Rightarrow> string \<Rightarrow> string \<Rightarrow> string" where
  "epochKey env kind i = key_prefix env @ kind @ '':'' @ i @ '':epoch''"

definition dataKey :: "string \<Rightarrow> string \<Rightarrow> string \<Rightarrow> string \<Rightarrow> string" where
  "dataKey env kind i epoch = key_prefix env @ kind @ '':'' @ i @ '':v'' @ epoch"

record 'v redis =
  rd_counters :: "nat js_map"
  rd_data :: "('v \<times> int) js_map"

datatype reply = Answered | AnswerLost | NotExecuted

datatype 'v stage =
    Idle
  | AwaitEpoch
  | AwaitData string
  | AwaitFetch "string option" \<comment> \<open>\<open>None\<close>: the cache is disabled\<close>
  | AwaitWrite string 'v
  | Returned "'v option"
  | Threw

text \<open>A call of \<open>getOrFetch\<close>: its process and arguments, whether \<open>l1\<close> is set, the ticket, and where it stands.\<close>

record 'v call =
  c_proc :: nat
  c_kind :: string
  c_id :: string
  c_ttl :: "('v \<Rightarrow> int) option"
  c_l1 :: bool
  c_ticket :: "LruTicket option"
  c_stage :: "'v stage"

datatype inv_stage = NotCalled | Attempt nat | Ended

record inv =
  i_proc :: nat
  i_kind :: string
  i_id :: string
  i_stage :: inv_stage

record 'v world =
  w_redis :: "'v redis"
  w_rows :: "string \<times> string \<Rightarrow> 'v option list"
  w_l1 :: "nat \<Rightarrow> 'v l1 option"
  w_calls :: "nat \<Rightarrow> 'v call"
  w_invs :: "nat \<Rightarrow> inv"

section \<open>Redis commands\<close>

definition counter :: "string \<Rightarrow> 'v redis \<Rightarrow> nat" where
  "counter k r = (case js_get k (rd_counters r) of None \<Rightarrow> 0 | Some n \<Rightarrow> n)"

definition redis_incr :: "string \<Rightarrow> 'v redis \<Rightarrow> 'v redis" where
  "redis_incr k r = r\<lparr>rd_counters := js_set k (counter k r + 1) (rd_counters r)\<rparr>"

definition redis_get :: "int \<Rightarrow> string \<Rightarrow> 'v redis \<Rightarrow> 'v option" where
  "redis_get now k r = (case js_get k (rd_data r) of None \<Rightarrow> None | Some (v, expires) \<Rightarrow> if now < expires then Some v else None)"

definition redis_setex :: "int \<Rightarrow> string \<Rightarrow> 'v \<Rightarrow> int \<Rightarrow> 'v redis \<Rightarrow> 'v redis" where
  "redis_setex now k v seconds r = r\<lparr>rd_data := js_set k (v, now + seconds * 1000) (rd_data r)\<rparr>"

section \<open>The operations, from await to await\<close>

definition readEpoch :: "string \<Rightarrow> string \<Rightarrow> string \<Rightarrow> reply \<Rightarrow> 'v redis \<Rightarrow> string" where
  "readEpoch env kind i reply r =
     (if reply = Answered
      then (case js_get (epochKey env kind i) (rd_counters r) of None \<Rightarrow> ''0'' | Some n \<Rightarrow> show_nat n)
      else ''0'')"

definition readData :: "string \<Rightarrow> int \<Rightarrow> string \<Rightarrow> string \<Rightarrow> string \<Rightarrow> reply \<Rightarrow> 'v redis \<Rightarrow> 'v option" where
  "readData env now kind i epoch reply r = (if reply = Answered then redis_get now (dataKey env kind i epoch) r else None)"

definition writeData :: "string \<Rightarrow> int \<Rightarrow> string \<Rightarrow> string \<Rightarrow> string \<Rightarrow> 'v \<Rightarrow> int \<Rightarrow> reply \<Rightarrow> 'v redis \<Rightarrow> 'v redis" where
  "writeData env now kind i epoch v ttlSeconds reply r =
     (if reply = NotExecuted then r
      else redis_setex now (dataKey env kind i epoch) v (max 1 (min ttlSeconds DATA_TTL_SECONDS)) r)"

definition l1For :: "l1_config \<Rightarrow> string \<Rightarrow> 'v l1 option \<Rightarrow> bool" where
  "l1For cfg kind l1 = (case l1 of None \<Rightarrow> False | Some s \<Rightarrow> isL1CacheableKind kind \<and> isLive cfg s)"

text \<open>\<open>l1?.set\<close> of a call.\<close>

definition call_l1_set :: "l1_config \<Rightarrow> ('v \<Rightarrow> nat option) \<Rightarrow> int \<times> int \<Rightarrow> 'v call \<Rightarrow> 'v \<Rightarrow> 'v world \<Rightarrow> 'v world" where
  "call_l1_set cfg jl clk c v w =
     (if c_l1 c
      then w\<lparr>w_l1 := (w_l1 w)(c_proc c := map_option
             (\<lambda>s. fst (l1_set cfg jl clk (c_ticket c) v (map_option (\<lambda>f. f v * 1000) (c_ttl c)) s)) (w_l1 w (c_proc c)))\<rparr>
      else w)"

definition put_call :: "nat \<Rightarrow> 'v call \<Rightarrow> 'v world \<Rightarrow> 'v world" where
  "put_call n c w = w\<lparr>w_calls := (w_calls w)(n := c)\<rparr>"

definition goto :: "nat \<Rightarrow> 'v call \<Rightarrow> 'v stage \<Rightarrow> 'v world \<Rightarrow> 'v world" where
  "goto n c st = put_call n (c\<lparr>c_stage := st\<rparr>)"

text \<open>\<open>getOrFetch\<close> up to its first \<open>await\<close>.\<close>

definition getOrFetch ::
  "l1_config \<Rightarrow> nat \<Rightarrow> nat \<Rightarrow> int \<Rightarrow> string \<Rightarrow> string \<Rightarrow> bool \<Rightarrow> ('v \<Rightarrow> int) option \<Rightarrow> 'v world \<Rightarrow> 'v world" where
  "getOrFetch cfg n p now kind i enabled ttl w =
     (let c = \<lparr>c_proc = p, c_kind = kind, c_id = i, c_ttl = ttl, c_l1 = False, c_ticket = None, c_stage = AwaitEpoch\<rparr> in
      if \<not> enabled then goto n c (AwaitFetch None) w
      else case w_l1 w p of
          None \<Rightarrow> goto n c AwaitEpoch w
        | Some s \<Rightarrow>
            if \<not> l1For cfg kind (Some s) then goto n c AwaitEpoch w
            else
              let (s', local) = l1_get cfg now kind i s; w' = w\<lparr>w_l1 := (w_l1 w)(p := Some s')\<rparr> in
              case local of
                Some v \<Rightarrow> goto n c (Returned (Some v)) w'
              | None \<Rightarrow> goto n (c\<lparr>c_l1 := True, c_ticket := l1_ticket cfg kind i s'\<rparr>) AwaitEpoch w')"

definition on_epoch :: "string \<Rightarrow> nat \<Rightarrow> reply \<Rightarrow> 'v world \<Rightarrow> 'v world" where
  "on_epoch env n reply w =
     (let c = w_calls w n in goto n c (AwaitData (readEpoch env (c_kind c) (c_id c) reply (w_redis w))) w)"

definition on_data ::
  "string \<Rightarrow> l1_config \<Rightarrow> ('v \<Rightarrow> nat option) \<Rightarrow> nat \<Rightarrow> string \<Rightarrow> int \<Rightarrow> int \<times> int \<Rightarrow> reply \<Rightarrow> 'v world \<Rightarrow> 'v world" where
  "on_data env cfg jl n epoch now clk reply w =
     (let c = w_calls w n in
      case readData env now (c_kind c) (c_id c) epoch reply (w_redis w) of
        Some v \<Rightarrow> goto n c (Returned (Some v)) (call_l1_set cfg jl clk c v w)
      | None \<Rightarrow> goto n c (AwaitFetch (Some epoch)) w)"

definition newest :: "'v option list \<Rightarrow> 'v option" where
  "newest h = (if h = [] then None else last h)"

text \<open>The answer of \<open>fetch\<close>, which reads PostgreSQL or throws.\<close>

definition on_fetch :: "nat \<Rightarrow> string option \<Rightarrow> bool \<Rightarrow> 'v world \<Rightarrow> 'v world" where
  "on_fetch n epoch ok w =
     (let c = w_calls w n; value = newest (w_rows w (c_kind c, c_id c)) in
      if \<not> ok then goto n c Threw w
      else case (epoch, value) of
          (Some e, Some v) \<Rightarrow> goto n c (AwaitWrite e v) w
        | _ \<Rightarrow> goto n c (Returned value) w)"

definition on_write ::
  "string \<Rightarrow> l1_config \<Rightarrow> ('v \<Rightarrow> nat option) \<Rightarrow> nat \<Rightarrow> string \<Rightarrow> 'v \<Rightarrow> int \<Rightarrow> int \<times> int \<Rightarrow> reply \<Rightarrow> 'v world \<Rightarrow> 'v world" where
  "on_write env cfg jl n epoch v now clk reply w =
     (let c = w_calls w n;
          ttl = (case c_ttl c of None \<Rightarrow> DATA_TTL_SECONDS | Some f \<Rightarrow> f v);
          w1 = w\<lparr>w_redis := writeData env now (c_kind c) (c_id c) epoch v ttl reply (w_redis w)\<rparr>
      in goto n c (Returned (Some v)) (call_l1_set cfg jl clk c v w1))"

definition put_inv :: "nat \<Rightarrow> inv \<Rightarrow> 'v world \<Rightarrow> 'v world" where
  "put_inv n x w = w\<lparr>w_invs := (w_invs w)(n := x)\<rparr>"

definition invalidate :: "nat \<Rightarrow> nat \<Rightarrow> string \<Rightarrow> string \<Rightarrow> bool \<Rightarrow> 'v world \<Rightarrow> 'v world" where
  "invalidate n p kind i enabled = put_inv n \<lparr>i_proc = p, i_kind = kind, i_id = i, i_stage = (if enabled then Attempt 1 else Ended)\<rparr>"

text \<open>One attempt of the \<open>INCR\<close>; after a success or the third failure the L1 of the process is invalidated.\<close>

definition on_incr :: "string \<Rightarrow> l1_config \<Rightarrow> nat \<Rightarrow> nat \<Rightarrow> int \<times> int \<Rightarrow> reply \<Rightarrow> 'v world \<Rightarrow> 'v world" where
  "on_incr env cfg n attempt clk reply w =
     (let x = w_invs w n;
          w1 = (if reply = NotExecuted then w else w\<lparr>w_redis := redis_incr (epochKey env (i_kind x) (i_id x)) (w_redis w)\<rparr>)
      in if reply \<noteq> Answered \<and> attempt \<noteq> 3 then put_inv n (x\<lparr>i_stage := Attempt (attempt + 1)\<rparr>) w1
         else
           let w2 = put_inv n (x\<lparr>i_stage := Ended\<rparr>) w1 in
           if isL1CacheableKind (i_kind x)
           then w2\<lparr>w_l1 := (w_l1 w2)(i_proc x := map_option (\<lambda>s. fst (l1_invalidate cfg clk (i_kind x) (i_id x) s)) (w_l1 w2 (i_proc x)))\<rparr>
           else w2)"

section \<open>Interleavings\<close>

datatype 'v move =
    Begin nat nat int string string bool "('v \<Rightarrow> int) option"
  | EpochReply nat reply
  | DataReply nat int "int \<times> int" reply
  | FetchReply nat bool
  | WriteReply nat int "int \<times> int" reply
  | BeginInvalidate nat nat string string bool
  | IncrReply nat "int \<times> int" reply
  | Commit string string "'v option"
  | ProcessEvent nat "'v l1_event"

text \<open>A move that does not fit the stage of its call changes nothing.\<close>

fun ec_step :: "string \<Rightarrow> l1_config \<Rightarrow> ('v \<Rightarrow> nat option) \<Rightarrow> 'v move \<Rightarrow> 'v world \<Rightarrow> 'v world" where
  "ec_step env cfg jl (Begin n p now kind i enabled ttl) w =
     (if c_stage (w_calls w n) = Idle \<and> kind \<in> set EntityCacheKind then getOrFetch cfg n p now kind i enabled ttl w else w)"
| "ec_step env cfg jl (EpochReply n reply) w =
     (case c_stage (w_calls w n) of AwaitEpoch \<Rightarrow> on_epoch env n reply w | _ \<Rightarrow> w)"
| "ec_step env cfg jl (DataReply n now clk reply) w =
     (case c_stage (w_calls w n) of AwaitData e \<Rightarrow> on_data env cfg jl n e now clk reply w | _ \<Rightarrow> w)"
| "ec_step env cfg jl (FetchReply n ok) w =
     (case c_stage (w_calls w n) of AwaitFetch e \<Rightarrow> on_fetch n e ok w | _ \<Rightarrow> w)"
| "ec_step env cfg jl (WriteReply n now clk reply) w =
     (case c_stage (w_calls w n) of AwaitWrite e v \<Rightarrow> on_write env cfg jl n e v now clk reply w | _ \<Rightarrow> w)"
| "ec_step env cfg jl (BeginInvalidate n p kind i enabled) w =
     (if i_stage (w_invs w n) = NotCalled \<and> kind \<in> set EntityCacheKind then invalidate n p kind i enabled w else w)"
| "ec_step env cfg jl (IncrReply n clk reply) w =
     (case i_stage (w_invs w n) of Attempt k \<Rightarrow> on_incr env cfg n k clk reply w | _ \<Rightarrow> w)"
| "ec_step env cfg jl (Commit kind i row) w = w\<lparr>w_rows := (w_rows w)((kind, i) := w_rows w (kind, i) @ [row])\<rparr>"
| "ec_step env cfg jl (ProcessEvent p ev) w =
     w\<lparr>w_l1 := (w_l1 w)(p := map_option (\<lambda>s. fst (l1_step cfg jl ev s)) (w_l1 w p))\<rparr>"

definition ec_run :: "string \<Rightarrow> l1_config \<Rightarrow> ('v \<Rightarrow> nat option) \<Rightarrow> 'v move list \<Rightarrow> 'v world \<Rightarrow> 'v world" where
  "ec_run env cfg jl = fold (ec_step env cfg jl)"

definition idle_call :: "'v call" where
  "idle_call = \<lparr>c_proc = 0, c_kind = [], c_id = [], c_ttl = None, c_l1 = False, c_ticket = None, c_stage = Idle\<rparr>"

definition new_world :: "(string \<times> string \<Rightarrow> 'v option list) \<Rightarrow> (nat \<Rightarrow> 'v l1 option) \<Rightarrow> 'v world" where
  "new_world rows l1s = \<lparr>w_redis = \<lparr>rd_counters = [], rd_data = []\<rparr>, w_rows = rows, w_l1 = l1s, w_calls = (\<lambda>_. idle_call),
     w_invs = (\<lambda>_. \<lparr>i_proc = 0, i_kind = [], i_id = [], i_stage = NotCalled\<rparr>)\<rparr>"


section \<open>Keys\<close>

lemma show_nat_digit: "list_all is_digit (show_nat n)"
  using show_nat_digits by blast

lemma show_nat_inj: "show_nat m = show_nat n \<longleftrightarrow> m = n"
  using digits_val_show_nat by metis

lemma kind_no_colon: "kind \<in> set EntityCacheKind \<Longrightarrow> CHR '':'' \<notin> set kind"
  by (auto simp: EntityCacheKind_def)

lemma append_sep_inj: "xs @ a # ys = us @ a # vs \<Longrightarrow> a \<notin> set xs \<Longrightarrow> a \<notin> set us \<Longrightarrow> xs = us \<and> ys = vs"
proof (induction xs arbitrary: us)
  case Nil
  then show ?case by (cases us) auto
next
  case (Cons x xs)
  then show ?case by (cases us) auto
qed

lemma digits_no_v: "CHR ''v'' \<notin> set (show_nat n)"
  using show_nat_digit [of n] by (auto simp: list_all_iff is_digit_def)

text \<open>Different rows, and different epochs of a row, have different keys; the key of a counter is no key of a projection.\<close>

lemma dataKey_inj:
  assumes "kind \<in> set EntityCacheKind" and "kind' \<in> set EntityCacheKind"
  shows "dataKey env kind i (show_nat m) = dataKey env kind' i' (show_nat n) \<longleftrightarrow> kind = kind' \<and> i = i' \<and> m = n"
proof
  assume "dataKey env kind i (show_nat m) = dataKey env kind' i' (show_nat n)"
  then have e: "kind @ CHR '':'' # (i @ '':v'' @ show_nat m) = kind' @ CHR '':'' # (i' @ '':v'' @ show_nat n)" by (simp add: dataKey_def)
  have k: "kind = kind'" "i @ '':v'' @ show_nat m = i' @ '':v'' @ show_nat n"
    using append_sep_inj [OF e kind_no_colon [OF assms(1)] kind_no_colon [OF assms(2)]] by simp_all
  have "rev (show_nat m) @ CHR ''v'' # (CHR '':'' # rev i) = rev (show_nat n) @ CHR ''v'' # (CHR '':'' # rev i')"
    using arg_cong [OF k(2), of rev] by simp
  then have "rev (show_nat m) = rev (show_nat n) \<and> CHR '':'' # rev i = CHR '':'' # rev i'"
    by (rule append_sep_inj) (simp_all add: digits_no_v)
  then show "kind = kind' \<and> i = i' \<and> m = n" using k(1) show_nat_inj by simp
qed simp

lemma epochKey_inj:
  assumes "kind \<in> set EntityCacheKind" and "kind' \<in> set EntityCacheKind"
  shows "epochKey env kind i = epochKey env kind' i' \<longleftrightarrow> kind = kind' \<and> i = i'"
proof
  assume "epochKey env kind i = epochKey env kind' i'"
  then have e: "kind @ CHR '':'' # (i @ '':epoch'') = kind' @ CHR '':'' # (i' @ '':epoch'')" by (simp add: epochKey_def)
  show "kind = kind' \<and> i = i'" using append_sep_inj [OF e kind_no_colon [OF assms(1)] kind_no_colon [OF assms(2)]] by simp
qed simp

lemma keys_apart: "epochKey env kind i \<noteq> dataKey env kind' i' (show_nat n)"
proof
  assume "epochKey env kind i = dataKey env kind' i' (show_nat n)"
  then have "last (epochKey env kind i) = last (dataKey env kind' i' (show_nat n))" by simp
  moreover have "show_nat n \<noteq> []" by (subst show_nat.simps) simp
  then have "last (dataKey env kind' i' (show_nat n)) \<in> set (show_nat n)" by (simp add: dataKey_def)
  moreover have "last (epochKey env kind i) = CHR ''h''" by (simp add: epochKey_def)
  ultimately have "CHR ''h'' \<in> set (show_nat n)" by simp
  then show False using show_nat_digit [of n] by (auto simp: list_all_iff is_digit_def)
qed

section \<open>What every interleaving keeps\<close>

definition epoch_of :: "string \<Rightarrow> string \<Rightarrow> string \<Rightarrow> 'v redis \<Rightarrow> nat" where
  "epoch_of env kind i r = counter (epochKey env kind i) r"

text \<open>The epoch a call holds.\<close>

fun held_epoch :: "'v stage \<Rightarrow> string option" where
  "held_epoch (AwaitData e) = Some e"
| "held_epoch (AwaitFetch e) = e"
| "held_epoch (AwaitWrite e v) = Some e"
| "held_epoch st = None"

text \<open>No epoch from the future, neither in a key of Redis nor in the hands of a call.\<close>

definition data_ok :: "string \<Rightarrow> 'v redis \<Rightarrow> bool" where
  "data_ok env r \<longleftrightarrow> (\<forall>k v. js_get k (rd_data r) = Some v \<longrightarrow>
     (\<exists>kind i m. kind \<in> set EntityCacheKind \<and> k = dataKey env kind i (show_nat m) \<and> m \<le> epoch_of env kind i r))"

definition call_ok :: "string \<Rightarrow> 'v redis \<Rightarrow> 'v call \<Rightarrow> bool" where
  "call_ok env r c \<longleftrightarrow> (\<forall>e. held_epoch (c_stage c) = Some e \<longrightarrow> (\<exists>m. e = show_nat m \<and> m \<le> epoch_of env (c_kind c) (c_id c) r))
     \<and> (c_stage c \<noteq> Idle \<longrightarrow> c_kind c \<in> set EntityCacheKind)"

definition world_ok :: "string \<Rightarrow> 'v world \<Rightarrow> bool" where
  "world_ok env w \<longleftrightarrow> data_ok env (w_redis w) \<and> (\<forall>n. call_ok env (w_redis w) (w_calls w n))
     \<and> (\<forall>n. i_stage (w_invs w n) \<noteq> NotCalled \<longrightarrow> i_kind (w_invs w n) \<in> set EntityCacheKind)"

lemma epoch_incr: "epoch_of env kind i r \<le> epoch_of env kind i (redis_incr k r)"
  by (simp add: epoch_of_def redis_incr_def counter_def js_get_set split: option.splits)

lemma epoch_write [simp]: "epoch_of env kind i (writeData env now kind' i' e v ttl reply r) = epoch_of env kind i r"
  by (simp add: epoch_of_def writeData_def redis_setex_def counter_def)

lemma data_ok_incr: "data_ok env r \<Longrightarrow> data_ok env (redis_incr k r)"
  using epoch_incr order_trans unfolding data_ok_def by (fastforce simp: redis_incr_def)

lemma call_ok_incr: "call_ok env r c \<Longrightarrow> call_ok env (redis_incr k r) c"
  unfolding call_ok_def using epoch_incr order_trans by blast

lemma data_ok_write:
  "data_ok env r \<Longrightarrow> kind \<in> set EntityCacheKind \<Longrightarrow> m \<le> epoch_of env kind i r \<Longrightarrow> data_ok env (writeData env now kind i (show_nat m) v ttl reply r)"
  unfolding data_ok_def epoch_write by (auto simp: writeData_def redis_setex_def js_get_set split: if_splits)

lemma call_ok_write [simp]: "call_ok env (writeData env now kind i e v ttl reply r) c = call_ok env r c"
  by (simp add: call_ok_def)

lemma show_nat_0: "show_nat 0 = ''0''"
  by code_simp

lemma readEpoch_ok: "\<exists>m. readEpoch env kind i reply r = show_nat m \<and> m \<le> epoch_of env kind i r"
  using show_nat_0 by (auto simp: readEpoch_def epoch_of_def counter_def split: option.splits intro: exI [of _ 0])

lemma readEpoch_answered: "readEpoch env kind i Answered r = show_nat (epoch_of env kind i r)"
  using show_nat_0 by (auto simp: readEpoch_def epoch_of_def counter_def split: option.splits)

lemma goto_simps [simp]:
  "w_redis (goto n c st w) = w_redis w" "w_rows (goto n c st w) = w_rows w" "w_invs (goto n c st w) = w_invs w"
  "w_calls (goto n c st w) = (w_calls w)(n := c\<lparr>c_stage := st\<rparr>)" "w_l1 (goto n c st w) = w_l1 w"
  by (simp_all add: goto_def put_call_def)

lemma call_l1_set_simps [simp]:
  "w_redis (call_l1_set cfg jl clk c v w) = w_redis w" "w_rows (call_l1_set cfg jl clk c v w) = w_rows w"
  "w_invs (call_l1_set cfg jl clk c v w) = w_invs w" "w_calls (call_l1_set cfg jl clk c v w) = w_calls w"
  by (simp_all add: call_l1_set_def)

lemma put_inv_simps [simp]:
  "w_redis (put_inv n x w) = w_redis w" "w_rows (put_inv n x w) = w_rows w" "w_invs (put_inv n x w) = (w_invs w)(n := x)"
  "w_calls (put_inv n x w) = w_calls w"
  by (simp_all add: put_inv_def)

text \<open>What an attempt of \<open>invalidate\<close> does to Redis.\<close>

lemma on_incr_shape:
  "w_redis (on_incr env cfg n k clk reply w)
     = (if reply = NotExecuted then w_redis w else redis_incr (epochKey env (i_kind (w_invs w n)) (i_id (w_invs w n))) (w_redis w))
   \<and> w_rows (on_incr env cfg n k clk reply w) = w_rows w \<and> w_calls (on_incr env cfg n k clk reply w) = w_calls w
   \<and> (\<exists>st. st \<noteq> NotCalled \<and> w_invs (on_incr env cfg n k clk reply w) = (w_invs w)(n := w_invs w n\<lparr>i_stage := st\<rparr>))"
  by (auto simp: on_incr_def Let_def)

lemma world_ok_step:
  assumes "world_ok env w"
  shows "world_ok env (ec_step env cfg jl mv w)"
proof (cases mv)
  case (Begin n p now kind i enabled ttl)
  then show ?thesis
    using assms by (auto simp: world_ok_def call_ok_def getOrFetch_def Let_def split: option.splits prod.splits)
next
  case (EpochReply n reply)
  then show ?thesis
    using assms readEpoch_ok by (auto simp: world_ok_def call_ok_def on_epoch_def Let_def split: stage.splits)
next
  case (DataReply n now clk reply)
  have "call_ok env (w_redis w) (w_calls w n)" using assms by (simp add: world_ok_def)
  then show ?thesis
    using assms DataReply by (auto simp: world_ok_def call_ok_def on_data_def Let_def split: stage.splits option.splits)
next
  case (FetchReply n ok)
  have "call_ok env (w_redis w) (w_calls w n)" using assms by (simp add: world_ok_def)
  then show ?thesis
    using assms FetchReply by (auto simp: world_ok_def call_ok_def on_fetch_def Let_def split: stage.splits option.splits)
next
  case (WriteReply n now clk reply)
  show ?thesis
  proof (cases "c_stage (w_calls w n)")
    case (AwaitWrite e v)
    have c: "call_ok env (w_redis w) (w_calls w n)" using assms by (simp add: world_ok_def)
    then obtain m where m: "e = show_nat m" "m \<le> epoch_of env (c_kind (w_calls w n)) (c_id (w_calls w n)) (w_redis w)"
      "c_kind (w_calls w n) \<in> set EntityCacheKind" using AwaitWrite by (auto simp: call_ok_def)
    show ?thesis
      using assms data_ok_write [OF _ m(3,2)] m(1,3) WriteReply AwaitWrite
      by (auto simp: world_ok_def on_write_def Let_def) (simp add: call_ok_def)
  qed (use WriteReply assms in auto)
next
  case (BeginInvalidate n p kind i enabled)
  then show ?thesis using assms by (auto simp: world_ok_def invalidate_def)
next
  case (IncrReply n clk reply)
  show ?thesis
  proof (cases "i_stage (w_invs w n)")
    case (Attempt k)
    then have "i_kind (w_invs w n) \<in> set EntityCacheKind" using assms by (auto simp: world_ok_def)
    then show ?thesis
      using IncrReply Attempt assms on_incr_shape [of env cfg n k clk reply w]
      by (auto simp: world_ok_def intro: data_ok_incr call_ok_incr)
  qed (use IncrReply assms in auto)
qed (use assms in \<open>auto simp: world_ok_def\<close>)

lemma world_ok_run: "world_ok env w \<Longrightarrow> world_ok env (ec_run env cfg jl ms w)"
  unfolding ec_run_def by (induction ms arbitrary: w) (simp_all add: world_ok_step)

lemma world_ok_new: "world_ok env (new_world rows l1s)"
  by (simp add: world_ok_def new_world_def data_ok_def call_ok_def idle_call_def)

section \<open>What a successful increment gives\<close>

definition recent :: "nat \<Rightarrow> string \<Rightarrow> string \<Rightarrow> 'v world \<Rightarrow> 'v option set" where
  "recent n0 kind i w = set (drop n0 (w_rows w (kind, i)))"

text \<open>
  The state after the increment to the epoch \<open>E\<close>: whatever Redis holds under \<open>E\<close> or later, and whatever a call is about to
  write there, is recent; and the call \<open>n\<close>, which began later, only handles recent values.
\<close>

definition fresh_redis :: "string \<Rightarrow> string \<Rightarrow> string \<Rightarrow> nat \<Rightarrow> 'v option set \<Rightarrow> 'v redis \<Rightarrow> bool" where
  "fresh_redis env kind i E S r \<longleftrightarrow> E \<le> epoch_of env kind i r
     \<and> (\<forall>m v x. E \<le> m \<longrightarrow> js_get (dataKey env kind i (show_nat m)) (rd_data r) = Some (v, x) \<longrightarrow> Some v \<in> S)"

definition fresh_writer :: "nat \<Rightarrow> 'v option set \<Rightarrow> 'v stage \<Rightarrow> bool" where
  "fresh_writer E S st \<longleftrightarrow> (\<forall>m v. st = AwaitWrite (show_nat m) v \<longrightarrow> E \<le> m \<longrightarrow> Some v \<in> S)"

fun fresh_stage :: "nat \<Rightarrow> 'v option set \<Rightarrow> 'v stage \<Rightarrow> bool" where
  "fresh_stage E S (AwaitData e) = (\<exists>m. e = show_nat m \<and> E \<le> m)"
| "fresh_stage E S (AwaitFetch (Some e)) = (\<exists>m. e = show_nat m \<and> E \<le> m)"
| "fresh_stage E S (AwaitWrite e v) = (Some v \<in> S)"
| "fresh_stage E S (Returned r) = (r \<in> S)"
| "fresh_stage E S st = True"

definition fresh_world :: "string \<Rightarrow> string \<Rightarrow> string \<Rightarrow> nat \<Rightarrow> nat \<Rightarrow> nat \<Rightarrow> 'v world \<Rightarrow> bool" where
  "fresh_world env kind i E n0 n w \<longleftrightarrow> n0 < length (w_rows w (kind, i)) \<and> fresh_redis env kind i E (recent n0 kind i w) (w_redis w)
     \<and> (\<forall>j. c_kind (w_calls w j) = kind \<and> c_id (w_calls w j) = i \<longrightarrow> fresh_writer E (recent n0 kind i w) (c_stage (w_calls w j)))
     \<and> (c_kind (w_calls w n) = kind \<and> c_id (w_calls w n) = i \<longrightarrow> fresh_stage E (recent n0 kind i w) (c_stage (w_calls w n)))"

lemma newest_recent: "n0 < length (w_rows w (kind, i)) \<Longrightarrow> newest (w_rows w (kind, i)) \<in> recent n0 kind i w"
  by (auto simp: newest_def recent_def) (metis drop_eq_Nil last_drop last_in_set not_less)

lemma fresh_incr: "fresh_redis env kind i E S r \<Longrightarrow> fresh_redis env kind i E S (redis_incr k r)"
  using epoch_incr [of env kind i r k] by (auto simp: fresh_redis_def redis_incr_def intro: order_trans)

lemma fresh_write:
  assumes "fresh_redis env kind i E S r" and "kind \<in> set EntityCacheKind" and "kind' \<in> set EntityCacheKind"
    and "kind' = kind \<and> i' = i \<and> E \<le> m \<Longrightarrow> Some v \<in> S"
  shows "fresh_redis env kind i E S (writeData env now kind' i' (show_nat m) v ttl reply r)"
  using assms(1,4) dataKey_inj [OF assms(2,3), of env i _ i' m]
  by (auto simp: fresh_redis_def) (auto simp: writeData_def redis_setex_def js_get_set split: if_splits)

lemma fresh_stage_mono: "fresh_stage E S st \<Longrightarrow> S \<subseteq> S' \<Longrightarrow> fresh_stage E S' st"
  by (cases "(E, S, st)" rule: fresh_stage.cases) auto

lemma fresh_world_mono:
  "fresh_world env kind i E n0 n w \<Longrightarrow> w_rows w' = (w_rows w)((k, j) := w_rows w (k, j) @ [row]) \<Longrightarrow> w_redis w' = w_redis w \<Longrightarrow> w_calls w' = w_calls w
    \<Longrightarrow> fresh_world env kind i E n0 n w'"
proof -
  assume a: "fresh_world env kind i E n0 n w" "w_rows w' = (w_rows w)((k, j) := w_rows w (k, j) @ [row])" "w_redis w' = w_redis w" "w_calls w' = w_calls w"
  have s: "recent n0 kind i w \<subseteq> recent n0 kind i w'" using a(2) by (auto simp: recent_def)
  then show ?thesis
    using a fresh_stage_mono [OF _ s]
    by (auto simp: fresh_world_def fresh_redis_def fresh_writer_def)
qed


text \<open>A step that changes one call, and neither the rows nor the set of recent values.\<close>

lemma fresh_world_call:
  assumes "fresh_world env kind i E n0 n w" and "w_rows w' = w_rows w" and "w_calls w' = (w_calls w)(j := c)"
    and "fresh_redis env kind i E (recent n0 kind i w) (w_redis w')"
    and "c_kind c = kind \<and> c_id c = i \<Longrightarrow> fresh_writer E (recent n0 kind i w) (c_stage c)"
    and "j = n \<Longrightarrow> c_kind c = kind \<and> c_id c = i \<Longrightarrow> fresh_stage E (recent n0 kind i w) (c_stage c)"
  shows "fresh_world env kind i E n0 n w'"
proof -
  have "recent n0 kind i w' = recent n0 kind i w" by (simp add: recent_def assms(2))
  then show ?thesis using assms by (auto simp: fresh_world_def)
qed

lemma fresh_writer_simps [simp]:
  "fresh_writer E S Idle" "fresh_writer E S AwaitEpoch" "fresh_writer E S (AwaitData e)" "fresh_writer E S (AwaitFetch x)"
  "fresh_writer E S (Returned r)" "fresh_writer E S Threw"
  by (simp_all add: fresh_writer_def)

lemma fresh_world_step:
  assumes "world_ok env w" and f: "fresh_world env kind i E n0 n w" and "kind \<in> set EntityCacheKind" and "\<not> isL1CacheableKind kind"
    and "\<And>r. mv = EpochReply n r \<Longrightarrow> r = Answered"
  shows "fresh_world env kind i E n0 n (ec_step env cfg jl mv w)"
proof (cases mv)
  case (Begin j p now k x enabled ttl)
  show ?thesis
  proof (cases "c_stage (w_calls w j) = Idle \<and> k \<in> set EntityCacheKind")
    case True
    obtain c where c: "w_calls (getOrFetch cfg j p now k x enabled ttl w) = (w_calls w)(j := c)" "c_kind c = k"
      "c_stage c \<in> {AwaitEpoch, AwaitFetch None} \<or> isL1CacheableKind k \<and> (\<exists>r. c_stage c = Returned r)"
      "w_rows (getOrFetch cfg j p now k x enabled ttl w) = w_rows w" "w_redis (getOrFetch cfg j p now k x enabled ttl w) = w_redis w"
      by (rule that [of "w_calls (getOrFetch cfg j p now k x enabled ttl w) j"])
        (auto simp: getOrFetch_def Let_def l1For_def split: option.splits prod.splits)
    show ?thesis
      by (rule fresh_world_call [OF f, of _ j c]) (use c True Begin f assms(4) in \<open>auto simp: fresh_world_def\<close>)
  qed (use Begin f in auto)
next
  case (EpochReply j reply)
  show ?thesis
  proof (cases "c_stage (w_calls w j) = AwaitEpoch")
    case True
    show ?thesis
      by (rule fresh_world_call [OF f, of _ j "w_calls w j\<lparr>c_stage := AwaitData (readEpoch env (c_kind (w_calls w j)) (c_id (w_calls w j)) reply (w_redis w))\<rparr>"])
        (use True EpochReply assms(5) f in \<open>auto simp: on_epoch_def Let_def readEpoch_answered fresh_world_def fresh_redis_def\<close>)
  qed (use EpochReply f in \<open>auto split: stage.splits\<close>)
next
  case (DataReply j now clk reply)
  show ?thesis
  proof (cases "c_stage (w_calls w j)")
    case (AwaitData e)
    let ?c = "w_calls w j"
    define st where "st = (case readData env now (c_kind ?c) (c_id ?c) e reply (w_redis w) of Some v \<Rightarrow> Returned (Some v) | None \<Rightarrow> AwaitFetch (Some e))"
    have "fresh_stage E (recent n0 kind i w) st" if "j = n" "c_kind ?c = kind \<and> c_id ?c = i"
      using f that AwaitData by (auto simp: st_def fresh_world_def readData_def redis_get_def fresh_redis_def split: option.splits if_splits)
    then show ?thesis
      by (intro fresh_world_call [OF f, of _ j "?c\<lparr>c_stage := st\<rparr>"])
        (use AwaitData DataReply f in \<open>auto simp: on_data_def Let_def st_def fresh_world_def split: option.splits\<close>)
  qed (use DataReply f in auto)
next
  case (FetchReply j ok)
  show ?thesis
  proof (cases "c_stage (w_calls w j)")
    case (AwaitFetch e)
    let ?c = "w_calls w j"
    define st where "st = (if \<not> ok then Threw else case (e, newest (w_rows w (c_kind ?c, c_id ?c))) of (Some e, Some v) \<Rightarrow> AwaitWrite e v | (_, r) \<Rightarrow> Returned r)"
    have new: "newest (w_rows w (kind, i)) \<in> recent n0 kind i w" using f by (auto simp: fresh_world_def intro: newest_recent)
    have eq: "on_fetch j e ok w = goto j ?c st w" by (auto simp: on_fetch_def st_def Let_def split: option.splits)
    have fr: "fresh_redis env kind i E (recent n0 kind i w) (w_redis w)" using f by (simp add: fresh_world_def)
    have st1: "fresh_stage E (recent n0 kind i w) st" if "j = n" "c_kind ?c = kind \<and> c_id ?c = i"
    proof -
      have "fresh_stage E (recent n0 kind i w) (AwaitFetch e)" using f that AwaitFetch by (simp add: fresh_world_def)
      then show ?thesis using new that(2) by (cases e; cases "newest (w_rows w (kind, i))") (simp_all add: st_def)
    qed
    have st2: "fresh_writer E (recent n0 kind i w) st" if "c_kind ?c = kind \<and> c_id ?c = i"
      using new that by (cases e; cases "newest (w_rows w (kind, i))") (simp_all add: st_def fresh_writer_def)
    have step: "ec_step env cfg jl mv w = goto j ?c st w" using AwaitFetch FetchReply eq by simp
    show ?thesis
      unfolding step by (rule fresh_world_call [OF f, of _ j "?c\<lparr>c_stage := st\<rparr>"]) (use fr st1 st2 in simp_all)
  qed (use FetchReply f in auto)
next
  case (WriteReply j now clk reply)
  show ?thesis
  proof (cases "c_stage (w_calls w j)")
    case (AwaitWrite e v)
    let ?c = "w_calls w j"
    have "call_ok env (w_redis w) ?c" using assms(1) by (simp add: world_ok_def)
    then obtain m where m: "e = show_nat m" "c_kind ?c \<in> set EntityCacheKind" using AwaitWrite by (auto simp: call_ok_def)
    have v: "Some v \<in> recent n0 kind i w" if "c_kind ?c = kind \<and> c_id ?c = i \<and> E \<le> m"
    proof -
      have "fresh_writer E (recent n0 kind i w) (c_stage ?c)" using f that by (simp add: fresh_world_def)
      then show ?thesis using that AwaitWrite m(1) by (auto simp: fresh_writer_def)
    qed
    have vn: "Some v \<in> recent n0 kind i w" if "j = n" "c_kind ?c = kind \<and> c_id ?c = i"
      using f that AwaitWrite by (simp add: fresh_world_def)
    have fr: "fresh_redis env kind i E (recent n0 kind i w) (w_redis w)" using f by (simp add: fresh_world_def)
    have step: "ec_step env cfg jl mv w = on_write env cfg jl j e v now clk reply w" using AwaitWrite WriteReply by simp
    show ?thesis
      unfolding step
    proof (rule fresh_world_call [OF f, of _ j "?c\<lparr>c_stage := Returned (Some v)\<rparr>"])
      show "fresh_redis env kind i E (recent n0 kind i w) (w_redis (on_write env cfg jl j e v now clk reply w))"
        using fresh_write [OF fr assms(3) m(2) v] by (simp add: on_write_def Let_def m(1))
    qed (use vn in \<open>simp_all add: on_write_def Let_def\<close>)
  qed (use WriteReply f in auto)
next
  case (IncrReply j clk reply)
  show ?thesis
  proof (cases "i_stage (w_invs w j)")
    case (Attempt k)
    have "w_calls w = (w_calls w)(n := w_calls w n)" by simp
    then show ?thesis
      by (intro fresh_world_call [OF f, of _ n "w_calls w n"])
        (use Attempt IncrReply f on_incr_shape [of env cfg j k clk reply w] in \<open>auto simp: fresh_world_def intro: fresh_incr\<close>)
  qed (use IncrReply f in auto)
next
  case (Commit k x row)
  then show ?thesis by (intro fresh_world_mono [OF f, of _ k x row]) auto
next
  case (BeginInvalidate j p k x enabled)
  then show ?thesis using f by (auto simp: invalidate_def fresh_world_def recent_def)
next
  case (ProcessEvent p ev)
  then show ?thesis using f by (auto simp: fresh_world_def recent_def)
qed

lemma fresh_world_run:
  assumes "world_ok env w" and "fresh_world env kind i E n0 n w" and "kind \<in> set EntityCacheKind" and "\<not> isL1CacheableKind kind"
    and "\<forall>r. EpochReply n r \<in> set ms \<longrightarrow> r = Answered"
  shows "fresh_world env kind i E n0 n (ec_run env cfg jl ms w)"
  using assms
proof (induction ms arbitrary: w)
  case (Cons mv ms)
  have "fresh_world env kind i E n0 n (ec_step env cfg jl mv w)"
    by (rule fresh_world_step [OF Cons.prems(1,2,3,4)]) (use Cons.prems(5) in auto)
  then show ?case using Cons.IH [OF world_ok_step [OF Cons.prems(1)] _ Cons.prems(3,4)] Cons.prems(5) by (simp add: ec_run_def)
qed (simp add: ec_run_def)

text \<open>The increment itself.\<close>

lemma fresh_world_incr:
  assumes "world_ok env w" and "i_stage (w_invs w m) = Attempt a" and "i_kind (w_invs w m) = kind" and "i_id (w_invs w m) = i"
    and "reply \<noteq> NotExecuted" and "w_rows w (kind, i) \<noteq> []" and "c_stage (w_calls w n) = Idle"
  shows "fresh_world env kind i (epoch_of env kind i (w_redis w) + 1) (length (w_rows w (kind, i)) - 1) n (ec_step env cfg jl (IncrReply m clk reply) w)"
proof -
  have sh: "w_redis (on_incr env cfg m a clk reply w) = redis_incr (epochKey env kind i) (w_redis w)"
    "w_rows (on_incr env cfg m a clk reply w) = w_rows w" "w_calls (on_incr env cfg m a clk reply w) = w_calls w"
    using on_incr_shape [of env cfg m a clk reply w] assms(3-5) by auto
  have kd: "kind \<in> set EntityCacheKind" using assms(1-3) by (auto simp: world_ok_def)
  have ep: "epoch_of env kind i (redis_incr (epochKey env kind i) (w_redis w)) = epoch_of env kind i (w_redis w) + 1"
    by (simp add: epoch_of_def redis_incr_def counter_def js_get_set)
  have le: "x \<le> epoch_of env kind i (w_redis w)" if "js_get (dataKey env kind i (show_nat x)) (rd_data (w_redis w)) = Some v" for x v
  proof -
    have "data_ok env (w_redis w)" using assms(1) by (simp add: world_ok_def)
    from this [unfolded data_ok_def, rule_format, OF that] obtain kind' i' y where "kind' \<in> set EntityCacheKind"
      "dataKey env kind i (show_nat x) = dataKey env kind' i' (show_nat y)" "y \<le> epoch_of env kind' i' (w_redis w)" by blast
    then show ?thesis using dataKey_inj [OF kd] by auto
  qed
  have r: "fresh_redis env kind i (epoch_of env kind i (w_redis w) + 1) S (redis_incr (epochKey env kind i) (w_redis w))" for S
    using le by (auto simp: fresh_redis_def ep) (fastforce simp: redis_incr_def)
  have "x \<le> epoch_of env kind i (w_redis w)" if "c_stage (w_calls w j) = AwaitWrite (show_nat x) v" "c_kind (w_calls w j) = kind" "c_id (w_calls w j) = i" for j x v
  proof -
    have "call_ok env (w_redis w) (w_calls w j)" using assms(1) by (simp add: world_ok_def)
    then show ?thesis using that by (auto simp: call_ok_def show_nat_inj)
  qed
  then show ?thesis using assms(2,6,7) r by (fastforce simp: fresh_world_def fresh_writer_def sh)
qed


text \<open>\<open>invalidate\<close> makes at most three attempts.\<close>

lemma invalidate_attempts: "i_stage (w_invs w n) = Attempt 3 \<Longrightarrow> i_stage (w_invs (ec_step env cfg jl (IncrReply n clk reply) w) n) = Ended"
  by (simp add: on_incr_def Let_def)

section \<open>Properties\<close>

text \<open>
  C39. Once the increment of an epoch is executed, no later read misses what was committed before it. In every interleaving of
  \<open>getOrFetch\<close> calls, invalidations, commits and L1 events of any processes: a call that begins after an \<open>INCR\<close> for a row was
  executed (even if its answer was lost), on a kind that has no local layer and whose own epoch read is answered, returns the
  newest projection committed at the \<open>INCR\<close> or one committed after it, whatever other calls hold, write or fail to read.
\<close>

theorem reads_after_increment_are_fresh:
  assumes "w0 = ec_run env cfg jl ms0 (new_world rows l1s)"
    and "i_stage (w_invs w0 m) = Attempt a" and "i_kind (w_invs w0 m) = kind" and "i_id (w_invs w0 m) = i" and "reply \<noteq> NotExecuted"
    and "w_rows w0 (kind, i) \<noteq> []" and "c_stage (w_calls w0 n) = Idle" and "\<not> isL1CacheableKind kind"
    and "w = ec_run env cfg jl (IncrReply m clk reply # ms) w0" and "\<forall>r. EpochReply n r \<in> set ms \<longrightarrow> r = Answered"
    and "c_kind (w_calls w n) = kind" and "c_id (w_calls w n) = i" and "c_stage (w_calls w n) = Returned result"
  shows "result \<in> set (drop (length (w_rows w0 (kind, i)) - 1) (w_rows w (kind, i)))"
proof -
  let ?after = "ec_step env cfg jl (IncrReply m clk reply) w0"
  let ?epoch = "epoch_of env kind i (w_redis w0) + 1"
  let ?skip = "length (w_rows w0 (kind, i)) - 1"
  have ok: "world_ok env w0" unfolding assms(1) by (rule world_ok_run [OF world_ok_new])
  have "kind \<in> set EntityCacheKind" using ok assms(2,3) by (auto simp: world_ok_def)
  then have "fresh_world env kind i ?epoch ?skip n (ec_run env cfg jl ms ?after)"
    by (rule fresh_world_run [OF world_ok_step [OF ok] fresh_world_incr [OF ok assms(2-7)] _ assms(8,10)])
  moreover have "w = ec_run env cfg jl ms ?after" unfolding assms(9) by (simp add: ec_run_def)
  ultimately have "fresh_stage ?epoch (recent ?skip kind i w) (c_stage (w_calls w n))" using assms(11,12) by (simp add: fresh_world_def)
  then show ?thesis by (simp add: assms(13) recent_def)
qed

definition before_incr :: "nat move list" where
  "before_incr = [Commit ''user'' ''u'' (Some 1), Begin 1 0 0 ''user'' ''u'' True None, EpochReply 1 Answered, DataReply 1 0 (0, 0) Answered,
     FetchReply 1 True, WriteReply 1 0 (0, 0) Answered, Commit ''user'' ''u'' (Some 2), BeginInvalidate 0 0 ''user'' ''u'' True]"

definition after_incr :: "reply \<Rightarrow> nat move list" where
  "after_incr reply = [Begin 2 0 0 ''user'' ''u'' True None, EpochReply 2 reply, DataReply 2 1 (1, 1) Answered, FetchReply 2 True, WriteReply 2 1 (1, 1) Answered]"

definition no_l1_world :: "nat world" where
  "no_l1_world = new_world (\<lambda>_. []) (\<lambda>_. None)"

theorem reads_after_increment_are_fresh_witness:
  "c_stage (w_calls (ec_run ''test'' l1_defaults Some (IncrReply 0 (0, 0) AnswerLost # after_incr Answered) (ec_run ''test'' l1_defaults Some before_incr no_l1_world)) 2)
     = Returned (Some 2) \<and> (Some 2 :: nat option) \<in> set (drop 1 [Some 1, Some 2])"
proof -
  let ?pre = "ec_run ''test'' l1_defaults Some before_incr no_l1_world"
  let ?post = "ec_run ''test'' l1_defaults Some (IncrReply 0 (0, 0) AnswerLost # after_incr Answered) ?pre"
  have st: "i_stage (w_invs ?pre 0) = Attempt 1" "i_kind (w_invs ?pre 0) = ''user''" "i_id (w_invs ?pre 0) = ''u''"
    "w_rows ?pre (''user'', ''u'') = [Some 1, Some 2]" "c_stage (w_calls ?pre 2) = Idle" "w_rows ?post (''user'', ''u'') = [Some 1, Some 2]"
    "c_kind (w_calls ?post 2) = ''user''" "c_id (w_calls ?post 2) = ''u''" by code_simp+
  have r: "c_stage (w_calls ?post 2) = Returned (Some 2)" by code_simp
  have "Some 2 \<in> set (drop (length (w_rows ?pre (''user'', ''u'')) - 1) (w_rows ?post (''user'', ''u'')))"
    by (rule reads_after_increment_are_fresh [OF no_l1_world_def [THEN arg_cong] st(1-3) _ _ st(5) _ refl _ st(7,8) r])
      (simp_all add: st(4) after_incr_def isL1CacheableKind_def L1_CACHEABLE_KINDS_def)
  then show ?thesis using r by (simp add: st(4,6))
qed

text \<open>
  C40. The guarantee needs the reader's own epoch read. A call whose epoch read fails falls back to epoch 0; if the row was
  first cached under epoch 0 and that entry has not expired, it returns the old projection after the commit and after the
  successful increment, for every kind without a local layer, every row and every two projections.
\<close>

theorem failed_epoch_read_serves_a_replaced_projection:
  fixes v1 v2 :: 'v
  assumes "kind \<in> set EntityCacheKind" and "\<not> isL1CacheableKind kind" and "t0 \<le> t1" and "t1 < t0 + 300000"
    and "w = ec_run env cfg jl
      [Commit kind i (Some v1), Begin 1 p t0 kind i True None, EpochReply 1 Answered, DataReply 1 t0 (t0, t0) Answered, FetchReply 1 True,
       WriteReply 1 t0 (t0, t0) Answered, Commit kind i (Some v2), BeginInvalidate 0 p kind i True, IncrReply 0 (t0, t0) Answered,
       Begin 2 p t1 kind i True None, EpochReply 2 NotExecuted, DataReply 2 t1 (t1, t1) Answered] (new_world (\<lambda>_. []) l1s)"
  shows "c_stage (w_calls w 2) = Returned (Some v1) \<and> newest (w_rows w (kind, i)) = Some v2 \<and> i_stage (w_invs w 0) = Ended
    \<and> epoch_of env kind i (w_redis w) = 1"
proof -
  have l1: "l1For cfg kind l = False" for l :: "'v l1 option" using assms(2) by (simp add: l1For_def split: option.splits)
  have start: "getOrFetch cfg n p now kind i True None w'
    = goto n \<lparr>c_proc = p, c_kind = kind, c_id = i, c_ttl = None, c_l1 = False, c_ticket = None, c_stage = AwaitEpoch\<rparr> AwaitEpoch w'" for n now and w' :: "'v world"
    by (simp add: getOrFetch_def l1 Let_def split: option.splits)
  show ?thesis
    unfolding assms(5) ec_run_def
    using assms(1-4)
    by (simp add: start on_epoch_def on_data_def on_fetch_def on_write_def invalidate_def on_incr_def Let_def new_world_def idle_call_def
        readEpoch_def readData_def writeData_def redis_get_def redis_setex_def redis_incr_def newest_def DATA_TTL_SECONDS_def goto_def put_call_def
        put_inv_def call_l1_set_def js_set_def epoch_of_def counter_def)
qed

theorem failed_epoch_read_serves_a_replaced_projection_witness:
  "c_stage (w_calls (ec_run ''test'' l1_defaults Some
      [Commit ''user'' ''u'' (Some 1), Begin 1 0 0 ''user'' ''u'' True None, EpochReply 1 Answered, DataReply 1 0 (0, 0) Answered, FetchReply 1 True,
       WriteReply 1 0 (0, 0) Answered, Commit ''user'' ''u'' (Some 2), BeginInvalidate 0 0 ''user'' ''u'' True, IncrReply 0 (0, 0) Answered,
       Begin 2 0 1 ''user'' ''u'' True None, EpochReply 2 NotExecuted, DataReply 2 1 (1, 1) Answered] (new_world (\<lambda>_. []) (\<lambda>_. None))) 2) = Returned (Some (1::nat))"
  by (rule failed_epoch_read_serves_a_replaced_projection [OF _ _ _ _ refl, THEN conjunct1])
    (simp_all add: EntityCacheKind_def isL1CacheableKind_def L1_CACHEABLE_KINDS_def)

end
