(* ===== verification/Spec2Isabelle.thy ===== *)
theory Spec2Isabelle
  imports Transitions Money WorkTime Availability ShiftProperties PayrollProperties EntityCache
begin

text \<open>
  The staffing core of a recruitment platform, as executable definitions with the theorems that make it correct. Paths are
  under \<open>src/packages/\<close>.

  \<^bold>\<open>The program.\<close> Managers plan shifts at venues; venue managers request them; staff get offers, accept them, are confirmed
  into seats, and attend; their minutes are paid. The server (\<open>rab-server\<close>) runs every action as one PostgreSQL transaction
  in the schema of one workspace; the Worker (\<open>rab-worker\<close>) runs expiry, deadlines, no-shows and the follow-up of
  cancellations on the same tables; both share constants, transition tables and arithmetic (\<open>rab-shared\<close>). Display
  projections are cached in Redis and, for some kinds, in each process.

  \<^bold>\<open>Theories and code.\<close>
  \<^item> \<open>Prelude\<close>: errors as values, tables as lists of rows, the locale \<open>keyed_table\<close> (what a primary key gives,
    interpreted on the shifts, seats, offers, attendances, payroll records, runs and payslips), JavaScript string primitives. \<open>JsNumber\<close>: IEEE doubles as rationals with rounding to even.
  \<^item> \<open>Transitions\<close>: \<open>rab-shared/src/state\<close>, the status types and \<open>assertTransition\<close>; the locales \<open>lifecycle\<close> and
    \<open>ranked_lifecycle\<close>, interpreted on the tables of the code.
  \<^item> \<open>Money\<close> (\<open>utils/money.ts\<close>), \<open>WorkTime\<close> (\<open>utils/duration.ts\<close>, \<open>assignment-time.ts\<close>, \<open>shift-action-window.ts\<close>,
    \<open>post-shift-lifecycle.service.ts\<close>), \<open>Availability\<close> (\<open>utils/availability.ts\<close>), \<open>LocationEvidence\<close> (\<open>utils/geo.ts\<close>,
    \<open>utils/location-evidence.ts\<close>).
  \<^item> \<open>Staffing\<close>: the tables of a workspace with the CHECK, UNIQUE and EXCLUDE constraints of
    \<open>workspace-schema-v1.template.ts\<close> in the write primitives, vacancy (\<open>shift-vacancy.ts\<close>), the completion roll-up
    (\<open>complete-shift-if-settled.ts\<close>) and the eligibility checks. The record \<open>db\<close> is the state every transaction maps.
  \<^item> \<open>Offers\<close>, \<open>OfferResponses\<close>: \<open>offer.service.ts\<close>, \<open>apply-offer-confirmation.ts\<close>, \<open>withdraw-unconfirmed-offer.ts\<close>,
    \<open>claim-expired-offer.ts\<close> and the Worker's \<open>offer-expiry.job.ts\<close>.
  \<^item> \<open>Attendance\<close>, \<open>AttendanceCorrections\<close>: \<open>attendance.service.ts\<close>, \<open>attendance-qr.service.ts\<close>, \<open>shift-report.service.ts\<close> and
    the provisional no-show of \<open>shift-monitor.job.ts\<close>.
  \<^item> \<open>Shifts\<close>: \<open>scheduling.service.ts\<close>, \<open>availability.service.ts\<close>, the venue checks of \<open>venue.service.ts\<close>, create-and-send
    and approve of \<open>offer.service.ts\<close>, and \<open>shift-cancellation-followup.job.ts\<close>.
  \<^item> \<open>Payroll\<close>: \<open>payroll-allocation.ts\<close>, \<open>payroll-calendar.service.ts\<close>, \<open>payroll.service.ts\<close>, \<open>payroll-run.service.ts\<close>, and
    the finalisation of a report (\<open>finalise\<close> of \<open>shift-report.service.ts\<close>, \<open>report-readiness.ts\<close>), which turns approved
    attendances into payroll records. The record \<open>pay_db\<close> is its state, beside the \<open>db\<close> it reads.
  \<^item> \<open>LruCache\<close> (\<open>bounded-lru-cache.ts\<close>), \<open>MetadataL1\<close> (\<open>metadata-l1-cache.service.ts\<close>), \<open>EntityCache\<close>
    (\<open>core-entity-cache.service.ts\<close>); the locale \<open>coherent_cache\<close> is what the first two owe their readers.

  \<^bold>\<open>Transactions.\<close> An operation is a function of the code's name. \<open>d\<close> is the state its writes and locking reads apply to;
  \<open>d0\<close>, where it has one, is the state its unlocked reads saw, which other transactions may have left behind: a guard on
  \<open>d0\<close> may be stale, a compare-and-set on \<open>d\<close> decides (READ COMMITTED). A throw is an \<open>Inl\<close> and rolls back. A \<open>clock\<close> holds
  Node's clock (\<open>node_now\<close>), \<open>now()\<close> of the transaction (\<open>tx_now\<close>) and \<open>clock_timestamp()\<close> of a deciding statement
  (\<open>stmt_now\<close>). Fresh UUIDs, the answers of the permission service (\<open>may\<close>), the London calendar, the haversine distance and
  the JWT check are arguments. Request dates are parsed; an invalid one is a value of its own. Audit entries, notifications and
  realtime events are appended to \<open>events\<close>, with their kind, recipient and entity; texts for display are dropped, an em dash
  in an error text is written with hyphens, and values interpolated into one are left out. Foreign keys, which no operation
  here can break, are not checked.

  \<^bold>\<open>What the lemmas show.\<close>
  \<^item> \<open>OfferInvariant\<close> states the invariant \<open>db_ok\<close>: keys, no seat without its published shift, offer and seat in step, no more
    occupied seats than required, the database constraints, attendances on booked seats; and \<open>older\<close>, what no transaction
    takes back. \<open>OfferSteps\<close>, \<open>OfferHistory\<close>, \<open>OfferProgress\<close>, \<open>AttendanceSteps\<close>, \<open>AttendanceHistory\<close> and \<open>ShiftSteps\<close>
    describe what each operation writes and prove that it keeps them; \<open>advances\<close> says that statuses move along their tables.
  \<^item> \<open>Platform\<close> joins all of it in the step relation \<open>platform_step\<close> and its runs, \<open>history\<close>: any interleaving of
    transactions, each with the unlocked reads of any earlier state. Three rules carry a condition the code does not check (a
    no-show on current data, a publication that does not race a cancellation, a follow-up on a seat without attendance).
  \<^item> \<open>OfferProperties\<close>, \<open>AttendanceProperties\<close>, \<open>CorrectionProperties\<close>, \<open>ShiftProperties\<close>: the theorems over these histories
    and over single operations, each with a concrete run, and what happens when a condition above fails.
  \<^item> \<open>PayrollSteps\<close> has the invariant \<open>pay_ok\<close> (keys, constraints, every line with its record and run, the status a record owes
    to its line, payslips of finalised runs), the relation \<open>pay_step\<close> of all payroll transactions over arbitrary staffing
    tables, and \<open>pay_mono\<close>, what none of them takes back; \<open>PayrollCalendar\<close> the invariant of the periods; \<open>PayrollSample\<close> a run
    from an approved attendance to a paid payslip; \<open>PayrollProperties\<close> the theorems. The finalisation of a report is a
    transaction of its own, outside \<open>platform_step\<close>.
  \<^item> The cache theories prove refinement of an ideal cache, bounds, and freshness of reads after an invalidation under every
    interleaving cut at the \<open>await\<close>s. The arithmetic theories prove exactness: the double arithmetic of pay and minutes is the
    rational one below \<open>2^52\<close>.

  \<^bold>\<open>Bounds.\<close> Every definition is total: recursion is over lists, and no fuel is used. A follow-up cycle works on at most 500
  seats, as in the code; \<open>followup_settles_cancelled_shifts\<close> shows how many cycles are enough.

  \<^bold>\<open>Not modelled.\<close> Staff and venue administration, job roles, replacement requests and the read models of the
  modelled services (lists, boards, presentations, payroll totals and CSV); the generation of pay statements by the Worker and
  the storage of uploaded payslips; authentication, the AI assistant, delivery of e-mail, push and realtime
  messages, tenancy and connection handling, which rest on external services; the front ends and the tooling. Row-level
  security is the restriction of the tables to one workspace.
\<close>

end
